(* ===== verification/Prelude.thy ===== *)
theory Prelude
  imports Complex_Main "HOL-Library.AList" "HOL-Library.Multiset" "HOL-Library.List_Lexorder" "HOL-Library.Char_ord" "HOL-Library.Code_Target_Nat"
begin

text \<open>
  What every component theory shares: the JavaScript idioms the sources use on arrays, strings,
  \<open>Map\<close>s and \<open>Set\<close>s, written once as executable functions, and the generic lemmas about them.

  Conventions. A JavaScript string is a \<^typ>\<open>string\<close>; one \<^typ>\<open>char\<close> stands for one UTF-16 code unit,
  so \<^const>\<open>length\<close> is \<open>s.length\<close> and \<^const>\<open>take\<close> is \<open>s.slice(0, n)\<close>. An optional property is an
  \<^typ>\<open>'a option\<close>. A \<open>Map\<close> is an association list in insertion order, updated in place by \<open>set\<close>; a
  \<open>Set\<close> is a list without repetitions in insertion order.
\<close>

named_theorems js_simps \<open>equations of the JavaScript idioms, safe for the simplifier\<close>

section \<open>Optional properties\<close>

text \<open>\<open>x ? {x} : {}\<close> on an optional string: an empty string is as good as none.\<close>

definition truthy :: "string option \<Rightarrow> string option" where
  "truthy x = (case x of None \<Rightarrow> None | Some s \<Rightarrow> if s = [] then None else Some s)"

text \<open>\<open>a ?? b\<close>\<close>

definition orelse :: "'a option \<Rightarrow> 'a \<Rightarrow> 'a" where
  "orelse x d = (case x of None \<Rightarrow> d | Some v \<Rightarrow> v)"

lemma orelse_simps [simp, js_simps]: "orelse None d = d" "orelse (Some v) d = v"
  by (simp_all add: orelse_def)

lemma truthy_simps [simp, js_simps]: "truthy None = None" "truthy (Some []) = None" "truthy (Some (c # s)) = Some (c # s)"
  by (simp_all add: truthy_def)

section \<open>Arrays\<close>

text \<open>\<open>findIndex\<close>: the first position whose element satisfies the predicate.\<close>

fun find_index :: "('a \<Rightarrow> bool) \<Rightarrow> 'a list \<Rightarrow> nat option" where
  "find_index p [] = None"
| "find_index p (x # xs) = (if p x then Some 0 else map_option Suc (find_index p xs))"

text \<open>\<open>splice(i, 1)\<close> and \<open>splice(i, 0, x)\<close> for an index in range.\<close>

definition splice_out :: "nat \<Rightarrow> 'a list \<Rightarrow> 'a list" where
  "splice_out i xs = take i xs @ drop (Suc i) xs"

definition splice_in :: "nat \<Rightarrow> 'a \<Rightarrow> 'a list \<Rightarrow> 'a list" where
  "splice_in i x xs = take i xs @ x # drop i xs"

lemma find_index_Some:
  "find_index p xs = Some i \<Longrightarrow> i < length xs \<and> p (xs ! i) \<and> (\<forall>j < i. \<not> p (xs ! j))"
proof (induction xs arbitrary: i)
  case Nil
  then show ?case by simp
next
  case (Cons x xs)
  then show ?case
    by (auto split: if_splits simp: nth_Cons split: nat.splits)
qed

lemma find_index_None: "find_index p xs = None \<longleftrightarrow> (\<forall>x \<in> set xs. \<not> p x)"
  by (induction xs) auto

lemma find_index_lt [dest]: "find_index p xs = Some i \<Longrightarrow> i < length xs"
  using find_index_Some by blast

lemma length_splice_out [simp]: "i < length xs \<Longrightarrow> length (splice_out i xs) = length xs - 1"
  by (simp add: splice_out_def)

lemma length_splice_in [simp]: "length (splice_in i x xs) = Suc (length xs)"
  by (simp add: splice_in_def)

lemma set_splice_in [simp]: "set (splice_in i x xs) = insert x (set xs)"
  by (metis (no_types) splice_in_def append_take_drop_id insert_is_Un list.set(2) set_append
      sup.left_commute sup_commute)

lemma set_splice_out_subset: "set (splice_out i xs) \<subseteq> set xs"
  by (auto simp: splice_out_def dest: in_set_takeD in_set_dropD)

lemma mset_splice_out: "i < length xs \<Longrightarrow> mset (xs ! i # splice_out i xs) = mset xs"
  by (metis (no_types, lifting) Cons_nth_drop_Suc append_take_drop_id mset.simps(2) mset_append
      splice_out_def union_mset_add_mset_right)

lemma mset_splice_in: "mset (splice_in i x xs) = mset (x # xs)"
  by (metis (no_types, lifting) append_take_drop_id mset.simps(2) mset_append splice_in_def
      union_mset_add_mset_right)

section \<open>Maps and sets in insertion order\<close>

text \<open>\<open>Map.prototype.set\<close> keeps the position of a key it already has and appends a new one, as
  \<^const>\<open>AList.update\<close> does; \<open>delete\<close> is \<^const>\<open>AList.delete\<close>.\<close>

definition set_add :: "'a \<Rightarrow> 'a list \<Rightarrow> 'a list" where
  "set_add x xs = (if x \<in> set xs then xs else xs @ [x])"

definition set_del :: "'a \<Rightarrow> 'a list \<Rightarrow> 'a list" where
  "set_del x xs = filter (\<lambda>y. y \<noteq> x) xs"

lemma set_set_add [simp]: "set (set_add x xs) = insert x (set xs)"
  by (auto simp: set_add_def)

lemma set_set_del [simp]: "set (set_del x xs) = set xs - {x}"
  by (auto simp: set_del_def)

lemma distinct_set_add [simp]: "distinct (set_add x xs) = distinct xs"
  by (auto simp: set_add_def)

lemma distinct_set_del [simp]: "distinct xs \<Longrightarrow> distinct (set_del x xs)"
  by (simp add: set_del_def)

lemma length_set_add_le: "length (set_add x xs) \<le> Suc (length xs)"
  by (simp add: set_add_def)

lemma length_set_del_le: "length (set_del x xs) \<le> length xs"
  by (simp add: set_del_def)

lemma keys_update [simp]: "fst ` set (AList.update k v m) = insert k (fst ` set m)"
  by (simp add: dom_update)

lemma keys_delete [simp]: "fst ` set (AList.delete k m) = fst ` set m - {k}"
  by (metis delete_keys list.set_map set_removeAll)

section \<open>Strings\<close>

text \<open>White space as \<open>trim\<close> and \<open>\s\<close> see it, among the code units below 256.\<close>

definition js_space :: "char \<Rightarrow> bool" where
  "js_space c \<longleftrightarrow> of_char c \<in> {9, 10, 11, 12, 13, 32, 160 :: nat}"

definition js_trim :: "string \<Rightarrow> string" where
  "js_trim s = rev (dropWhile js_space (rev (dropWhile js_space s)))"

text \<open>\<open>parts.join(sep)\<close>\<close>

fun js_join :: "string \<Rightarrow> string list \<Rightarrow> string" where
  "js_join sep [] = []"
| "js_join sep [x] = x"
| "js_join sep (x # y # ys) = x @ sep @ js_join sep (y # ys)"

lemma js_join_Cons: "js_join sep (x # xs) = x @ concat (map (\<lambda>y. sep @ y) xs)"
  by (induction xs arbitrary: x) auto

section \<open>Numbers\<close>

text \<open>\<open>Number.MAX_SAFE_INTEGER\<close> and \<open>Number.isSafeInteger\<close> for an integral value.\<close>

definition max_safe :: int where
  "max_safe = 9007199254740991"

definition safe_integer :: "int \<Rightarrow> bool" where
  "safe_integer n \<longleftrightarrow> - max_safe \<le> n \<and> n \<le> max_safe"

lemma safe_integerI: "0 \<le> n \<Longrightarrow> n \<le> 9007199254740991 \<Longrightarrow> safe_integer n"
  by (simp add: safe_integer_def max_safe_def)

end
