(* ===== verification/IdFactory.thy ===== *)
theory IdFactory
  imports Prelude
begin

text \<open>
  \<open>packages/protocol/src/id-factory.ts\<close>: the sortable, prefixed identifiers every component hands out
  (sessions, turns, items, requests, queue entries, jobs). An id is a kind prefix, ten base-32 time
  characters and six random characters; one factory never repeats an id within a millisecond because a
  repeated or smaller random tail is replaced by the successor of the last one.

  \<open>now\<close> and \<open>random\<close> are injected into the factory, so they are arguments of the model: the clock value
  and the random bytes of one call. The factory's two mutable variables are the record \<open>id_factory\<close>. A
  thrown \<open>RangeError\<close> is an \<open>Inl\<close>.
\<close>

section \<open>Data\<close>

datatype id_kind = SessionId | TurnId | ItemId | JobId | ClientId | RequestId | QueueId | CommandId
  | MemoryId | LoopId | WorkflowId | GoalId

datatype range_error = InvalidClock int | RandomOverflow

record id_factory =
  lastTime :: int
  lastRandom :: string

definition init_factory :: id_factory where
  "init_factory = \<lparr>lastTime = -1, lastRandom = []\<rparr>"

definition CROCKFORD :: string where
  "CROCKFORD = ''0123456789ABCDEFGHJKMNPQRSTVWXYZ''"

fun ID_PREFIXES :: "id_kind \<Rightarrow> string" where
  "ID_PREFIXES SessionId = ''ses''"
| "ID_PREFIXES TurnId = ''trn''"
| "ID_PREFIXES ItemId = ''itm''"
| "ID_PREFIXES JobId = ''job''"
| "ID_PREFIXES ClientId = ''cli''"
| "ID_PREFIXES RequestId = ''req''"
| "ID_PREFIXES QueueId = ''que''"
| "ID_PREFIXES CommandId = ''cmd''"
| "ID_PREFIXES MemoryId = ''mem''"
| "ID_PREFIXES LoopId = ''lop''"
| "ID_PREFIXES WorkflowId = ''wfl''"
| "ID_PREFIXES GoalId = ''gol''"

definition ID_RANDOM_CHARS :: nat where
  "ID_RANDOM_CHARS = 6"

definition EARLIEST_ID_TIME :: int where
  "EARLIEST_ID_TIME = 1577836800000"

section \<open>Encoding and decoding\<close>

text \<open>\<open>CROCKFORD.indexOf(c)\<close>; -1 is \<open>None\<close>.\<close>

definition crock_index :: "char \<Rightarrow> nat option" where
  "crock_index c = find_index (\<lambda>d. d = c) CROCKFORD"

text \<open>The loop of \<open>encodeTime\<close>: the number of rounds left, \<open>value\<close> and \<open>out\<close>.\<close>

fun encodeTime_loop :: "nat \<Rightarrow> int \<Rightarrow> string \<Rightarrow> string" where
  "encodeTime_loop 0 v out = out"
| "encodeTime_loop (Suc n) v out = encodeTime_loop n (v div 32) (CROCKFORD ! nat (v mod 32) # out)"

definition encodeTime :: "int \<Rightarrow> string" where
  "encodeTime ms = encodeTime_loop 10 ms []"

text \<open>The loop of \<open>decodeIdTime\<close> over the first characters of the body.\<close>

fun decode_digits :: "nat \<Rightarrow> string \<Rightarrow> int \<Rightarrow> int option" where
  "decode_digits 0 s v = Some v"
| "decode_digits (Suc n) [] v = None"
| "decode_digits (Suc n) (c # s) v =
     (case crock_index c of None \<Rightarrow> None | Some d \<Rightarrow> decode_digits n s (v * 32 + int d))"

text \<open>\<open>id.slice(id.indexOf("_") + 1)\<close>: the whole string where there is no underscore.\<close>

definition id_body :: "string \<Rightarrow> string" where
  "id_body s = (case find_index (\<lambda>c. c = CHR ''_'') s of None \<Rightarrow> s | Some i \<Rightarrow> drop (Suc i) s)"

definition decodeIdTime :: "string \<Rightarrow> int \<Rightarrow> int option" where
  "decodeIdTime s now =
     (let body = id_body s in
      if length body < 10 + ID_RANDOM_CHARS then None
      else case decode_digits 10 body 0 of
        None \<Rightarrow> None
      | Some v \<Rightarrow> if EARLIEST_ID_TIME \<le> v \<and> v \<le> now + 86400000 then Some v else None)"

text \<open>\<open>bytes\<close> as a list; a missing byte reads as 0.\<close>

definition encodeRandom :: "nat list \<Rightarrow> string" where
  "encodeRandom bytes =
     map (\<lambda>i. CROCKFORD ! ((if i < length bytes then bytes ! i else 0) mod 32)) [0..<ID_RANDOM_CHARS]"

text \<open>The loop of \<open>incrementBase32\<close> runs from the last character: it is written on the reversed string.
  A character outside the alphabet has index -1 and becomes the first one.\<close>

fun increment_rev :: "string \<Rightarrow> string option" where
  "increment_rev [] = None"
| "increment_rev (c # cs) =
     (case crock_index c of
        None \<Rightarrow> Some (CROCKFORD ! 0 # cs)
      | Some d \<Rightarrow> if d < 31 then Some (CROCKFORD ! (d + 1) # cs)
                  else map_option (\<lambda>r. CHR ''0'' # r) (increment_rev cs))"

definition incrementBase32 :: "string \<Rightarrow> range_error + string" where
  "incrementBase32 s = (case increment_rev (rev s) of None \<Rightarrow> Inl RandomOverflow | Some r \<Rightarrow> Inr (rev r))"

definition nextId :: "id_factory \<Rightarrow> id_kind \<Rightarrow> int \<Rightarrow> nat list \<Rightarrow> range_error + (string \<times> id_factory)" where
  "nextId st kind time bytes =
     (if \<not> safe_integer time \<or> time < 0 then Inl (InvalidClock time)
      else
        let body = encodeRandom bytes;
            unique = (if time = lastTime st \<and> body \<le> lastRandom st then incrementBase32 (lastRandom st)
                      else Inr body)
        in case unique of
             Inl e \<Rightarrow> Inl e
           | Inr b \<Rightarrow> Inr (ID_PREFIXES kind @ ''_'' @ encodeTime time @ b,
                            st\<lparr>lastTime := time, lastRandom := b\<rparr>))"

text \<open>A run of calls of a factory: the ids it returns, up to the first error.\<close>

fun issue :: "('s \<Rightarrow> 'a \<Rightarrow> 'e + ('i \<times> 's)) \<Rightarrow> 's \<Rightarrow> 'a list \<Rightarrow> 'e + 'i list" where
  "issue step s [] = Inr []"
| "issue step s (a # as) =
     (case step s a of
        Inl e \<Rightarrow> Inl e
      | Inr (i, s') \<Rightarrow> (case issue step s' as of Inl e \<Rightarrow> Inl e | Inr is \<Rightarrow> Inr (i # is)))"

text \<open>One call with its kind, clock value and random bytes.\<close>

type_synonym id_call = "id_kind \<times> int \<times> nat list"

definition call_id :: "id_factory \<Rightarrow> id_call \<Rightarrow> range_error + (string \<times> id_factory)" where
  "call_id st c = nextId st (fst c) (fst (snd c)) (snd (snd c))"

text \<open>The clock values of a run never step back (and never before the last id's).\<close>

fun clock_steps :: "int \<Rightarrow> id_call list \<Rightarrow> bool" where
  "clock_steps t [] = True"
| "clock_steps t (c # cs) = (t \<le> fst (snd c) \<and> fst (snd c) < 2 ^ 50 \<and> clock_steps (fst (snd c)) cs)"

section \<open>The interface: a source of fresh identifiers\<close>

text \<open>
  What a component that calls \<open>ids(kind)\<close> relies on: no id is handed out twice. \<open>seen s i\<close> says that a
  source in state \<open>s\<close> may have issued \<open>i\<close> already; an admissible call issues an id not seen before.
\<close>

locale id_source =
  fixes step :: "'s \<Rightarrow> 'a \<Rightarrow> 'e + ('i \<times> 's)"
    and ok :: "'s \<Rightarrow> bool"
    and adm :: "'s \<Rightarrow> 'a list \<Rightarrow> bool"
    and seen :: "'s \<Rightarrow> 'i \<Rightarrow> bool"
  assumes step_ok: "ok s \<Longrightarrow> adm s (a # as) \<Longrightarrow> step s a = Inr (i, s') \<Longrightarrow> ok s' \<and> adm s' as"
    and step_fresh: "ok s \<Longrightarrow> adm s (a # as) \<Longrightarrow> step s a = Inr (i, s') \<Longrightarrow> \<not> seen s i \<and> seen s' i"
    and seen_mono: "ok s \<Longrightarrow> adm s (a # as) \<Longrightarrow> step s a = Inr (i, s') \<Longrightarrow> seen s j \<Longrightarrow> seen s' j"
begin

lemma issue_unseen:
  "ok s \<Longrightarrow> adm s as \<Longrightarrow> issue step s as = Inr is \<Longrightarrow> seen s j \<Longrightarrow> j \<notin> set is"
proof (induction as arbitrary: s "is")
  case Nil
  then show ?case by simp
next
  case (Cons a as)
  from Cons.prems(3) obtain i s' js where st: "step s a = Inr (i, s')"
    and js: "issue step s' as = Inr js" and "is": "is = i # js"
    by (auto split: sum.splits)
  note facts = step_ok [OF Cons.prems(1,2) st] step_fresh [OF Cons.prems(1,2) st]
    seen_mono [OF Cons.prems(1,2) st Cons.prems(4)]
  with Cons.IH [of s' js] js Cons.prems(4) "is" show ?case by auto
qed

lemma issue_distinct: "ok s \<Longrightarrow> adm s as \<Longrightarrow> issue step s as = Inr is \<Longrightarrow> distinct is"
proof (induction as arbitrary: s "is")
  case Nil
  then show ?case by simp
next
  case (Cons a as)
  from Cons.prems(3) obtain i s' js where st: "step s a = Inr (i, s')"
    and js: "issue step s' as = Inr js" and "is": "is = i # js"
    by (auto split: sum.splits)
  note facts = step_ok [OF Cons.prems(1,2) st] step_fresh [OF Cons.prems(1,2) st]
  with issue_unseen [of s' as js i] js have "i \<notin> set js" by auto
  with facts Cons.IH [of s' js] js "is" show ?case by simp
qed

end

section \<open>The alphabet\<close>

definition crock_string :: "string \<Rightarrow> bool" where
  "crock_string s \<longleftrightarrow> set s \<subseteq> set CROCKFORD"

lemma length_CROCKFORD [simp]: "length CROCKFORD = 32"
  by (simp add: CROCKFORD_def)

lemma CROCKFORD_sorted: "sorted_wrt (<) CROCKFORD"
  by (simp add: CROCKFORD_def less_char_def)

lemma CROCKFORD_less: "i < 32 \<Longrightarrow> j < 32 \<Longrightarrow> CROCKFORD ! i < CROCKFORD ! j \<longleftrightarrow> i < j"
  using sorted_wrt_nth_less [OF CROCKFORD_sorted]
  by (metis length_CROCKFORD linorder_neqE_nat order_less_asym order_less_irrefl)

lemma CROCKFORD_inj: "i < 32 \<Longrightarrow> j < 32 \<Longrightarrow> CROCKFORD ! i = CROCKFORD ! j \<longleftrightarrow> i = j"
  using CROCKFORD_less by (metis linorder_neqE_nat order_less_irrefl)

lemma crock_index_nth [simp]: "d < 32 \<Longrightarrow> crock_index (CROCKFORD ! d) = Some d"
proof -
  assume d: "d < 32"
  then obtain i where i: "find_index (\<lambda>c. c = CROCKFORD ! d) CROCKFORD = Some i"
    using find_index_None [of "\<lambda>c. c = CROCKFORD ! d" CROCKFORD]
    by (metis length_CROCKFORD not_None_eq nth_mem)
  from find_index_Some [OF i] d CROCKFORD_inj [of i d] show ?thesis
    by (simp add: crock_index_def i)
qed

lemma crock_index_Some: "crock_index c = Some d \<Longrightarrow> d < 32 \<and> CROCKFORD ! d = c"
  using find_index_Some [of "\<lambda>d. d = c" CROCKFORD d] by (simp add: crock_index_def)

lemma crock_index_mem: "c \<in> set CROCKFORD \<Longrightarrow> \<exists>d. crock_index c = Some d"
  by (metis crock_index_nth in_set_conv_nth length_CROCKFORD)

lemma CROCKFORD_mem [simp]: "d < 32 \<Longrightarrow> CROCKFORD ! d \<in> set CROCKFORD"
  by (metis length_CROCKFORD nth_mem)

lemma CROCKFORD_nth_0 [simp]: "CROCKFORD ! 0 = CHR ''0''"
  by (simp add: CROCKFORD_def)

section \<open>Strings of one length compare digit by digit\<close>

lemma less_append_same: "(xs::string) @ ys < xs @ zs \<longleftrightarrow> ys < zs"
  by (induction xs) auto

lemma less_append_diff:
  "length xs = length ys \<Longrightarrow> (xs::string) < ys \<Longrightarrow> xs @ us < ys @ vs"
proof (induction xs ys rule: list_induct2)
  case Nil
  then show ?case by simp
next
  case (Cons x xs y ys)
  then show ?case by auto
qed

lemma increment_rev_props:
  assumes "crock_string (rev s)" and "increment_rev s = Some r"
  shows "rev s < rev r \<and> length r = length s \<and> crock_string (rev r)"
  using assms
proof (induction s arbitrary: r)
  case Nil
  then show ?case by simp
next
  case (Cons c s)
  from Cons.prems(1) have s: "crock_string (rev s)" and c: "c \<in> set CROCKFORD"
    by (auto simp: crock_string_def)
  from crock_index_mem [OF c] obtain d where d: "crock_index c = Some d" by blast
  note d' = crock_index_Some [OF d]
  show ?case
  proof (cases "d < 31")
    case True
    with Cons.prems(2) d have r: "r = CROCKFORD ! (d + 1) # s" by simp
    have "c < CROCKFORD ! (d + 1)" using d' True CROCKFORD_less [of d "d + 1"] by auto
    with r True s show ?thesis
      by (auto simp: less_append_same crock_string_def)
  next
    case False
    with Cons.prems(2) d obtain q where q: "increment_rev s = Some q" and r: "r = CHR ''0'' # q"
      by auto
    from Cons.IH [OF s q] r show ?thesis
      using CROCKFORD_mem [of 0]
      by (auto simp: crock_string_def intro!: less_append_diff)
  qed
qed

lemma incrementBase32_props:
  assumes "crock_string s" and "incrementBase32 s = Inr t"
  shows "s < t \<and> length t = length s \<and> crock_string t"
  using increment_rev_props [of "rev s"] assms
  by (auto simp: incrementBase32_def split: option.splits)

lemma encodeRandom_props: "length (encodeRandom bs) = 6 \<and> crock_string (encodeRandom bs)"
  by (auto simp: encodeRandom_def crock_string_def ID_RANDOM_CHARS_def)

section \<open>Times\<close>

lemma encodeTime_loop_append: "encodeTime_loop n v out = encodeTime_loop n v [] @ out"
proof (induction n arbitrary: v out)
  case 0
  then show ?case by simp
next
  case (Suc n)
  from Suc.IH [of "v div 32" "CROCKFORD ! nat (v mod 32) # out"] Suc.IH [of "v div 32" "[CROCKFORD ! nat (v mod 32)]"]
  show ?case by simp
qed

lemma encodeTime_loop_Suc:
  "encodeTime_loop (Suc n) v [] = encodeTime_loop n (v div 32) [] @ [CROCKFORD ! nat (v mod 32)]"
  by (simp add: encodeTime_loop_append [of n _ "[_]"])

lemma length_encodeTime_loop [simp]: "length (encodeTime_loop n v out) = n + length out"
  by (induction n arbitrary: v out) auto

lemma encodeTime_loop_less:
  "0 \<le> a \<Longrightarrow> a < b \<Longrightarrow> b < 32 ^ n \<Longrightarrow> encodeTime_loop n a [] < encodeTime_loop n b []"
proof (induction n arbitrary: a b)
  case 0
  then show ?case by simp
next
  case (Suc n)
  have b: "b div 32 < 32 ^ n"
    using Suc.prems(3) by (simp add: div_less_iff_less_mult mult.commute)
  have le: "a div 32 \<le> b div 32" using Suc.prems(2) by (simp add: zdiv_mono1)
  show ?case
  proof (cases "a div 32 = b div 32")
    case True
    with Suc.prems(2) have "a mod 32 < b mod 32"
      by (metis add_less_cancel_left mult_div_mod_eq)
    then have "CROCKFORD ! nat (a mod 32) < CROCKFORD ! nat (b mod 32)"
      by (subst CROCKFORD_less) (auto simp: nat_less_iff)
    with True show ?thesis
      by (simp only: encodeTime_loop_Suc less_append_same) auto
  next
    case False
    with le have "a div 32 < b div 32" by simp
    from Suc.IH [OF _ this b] Suc.prems(1)
    have "encodeTime_loop n (a div 32) [] < encodeTime_loop n (b div 32) []"
      by (simp add: pos_imp_zdiv_nonneg_iff)
    then show ?thesis
      by (simp only: encodeTime_loop_Suc) (rule less_append_diff, simp_all)
  qed
qed

lemma decode_digits_append:
  "length s = n \<Longrightarrow> decode_digits (n + m) (s @ t) v = Option.bind (decode_digits n s v) (decode_digits m t)"
  by (induction n arbitrary: s v) (auto simp: length_Suc_conv split: option.splits)

lemma decode_digits_extra: "length s = n \<Longrightarrow> decode_digits n (s @ t) v = decode_digits n s v"
  using decode_digits_append [of s n 0 t v] by (cases "decode_digits n s v") auto

lemma decode_encodeTime_loop:
  "0 \<le> v \<Longrightarrow> v < 32 ^ n \<Longrightarrow> decode_digits n (encodeTime_loop n v []) w = Some (w * 32 ^ n + v)"
proof (induction n arbitrary: v w)
  case 0
  then show ?case by simp
next
  case (Suc n)
  have "v div 32 < 32 ^ n"
    using Suc.prems(2) by (simp add: div_less_iff_less_mult mult.commute)
  with Suc.prems(1)
  have ih: "decode_digits n (encodeTime_loop n (v div 32) []) w = Some (w * 32 ^ n + v div 32)"
    by (intro Suc.IH) (simp_all add: pos_imp_zdiv_nonneg_iff)
  have "decode_digits (n + 1) (encodeTime_loop n (v div 32) [] @ [CROCKFORD ! nat (v mod 32)]) w
        = Some ((w * 32 ^ n + v div 32) * 32 + v mod 32)"
    by (subst decode_digits_append) (simp_all add: ih nat_less_iff)
  then show ?case
    using Suc.prems(1) by (simp add: encodeTime_loop_Suc del: encodeTime_loop.simps)
qed

section \<open>The factory\<close>

definition factory_ok :: "id_factory \<Rightarrow> bool" where
  "factory_ok st \<longleftrightarrow> lastTime st = -1 \<or>
     (0 \<le> lastTime st \<and> length (lastRandom st) = 6 \<and> crock_string (lastRandom st))"

lemma factory_ok_init [simp]: "factory_ok init_factory"
  by (simp add: factory_ok_def init_factory_def)

lemma nextId_Inr:
  assumes "factory_ok st" and "nextId st k t bs = Inr (i, st')"
  shows "\<exists>b. i = ID_PREFIXES k @ ''_'' @ encodeTime t @ b \<and> st' = \<lparr>lastTime = t, lastRandom = b\<rparr>
           \<and> length b = 6 \<and> crock_string b \<and> 0 \<le> t \<and> (t = lastTime st \<longrightarrow> lastRandom st < b)"
proof -
  let ?body = "encodeRandom bs"
  from assms(2) have t: "0 \<le> t" by (auto simp: nextId_def split: if_splits)
  show ?thesis
  proof (cases "t = lastTime st \<and> ?body \<le> lastRandom st")
    case True
    with assms t obtain b where b: "incrementBase32 (lastRandom st) = Inr b"
      and i: "i = ID_PREFIXES k @ ''_'' @ encodeTime t @ b" and st': "st' = st\<lparr>lastTime := t, lastRandom := b\<rparr>"
      by (auto simp: nextId_def Let_def split: if_splits sum.splits)
    from True t assms(1) have "length (lastRandom st) = 6" "crock_string (lastRandom st)"
      by (auto simp: factory_ok_def)
    with incrementBase32_props [OF _ b] i st' t show ?thesis by auto
  next
    case False
    with assms(2) t have "i = ID_PREFIXES k @ ''_'' @ encodeTime t @ ?body"
      and "st' = st\<lparr>lastTime := t, lastRandom := ?body\<rparr>"
      by (auto simp: nextId_def Let_def split: if_splits)
    with False t encodeRandom_props show ?thesis by (auto simp: not_le)
  qed
qed

text \<open>The part of an id after its prefix, which orders ids by time and then by tail.\<close>

definition id_seen :: "id_factory \<Rightarrow> string \<Rightarrow> bool" where
  "id_seen st i \<longleftrightarrow> lastTime st \<noteq> -1 \<and> drop 4 i \<le> encodeTime (lastTime st) @ lastRandom st"

definition clock_adm :: "id_factory \<Rightarrow> id_call list \<Rightarrow> bool" where
  "clock_adm st cs \<longleftrightarrow> clock_steps (lastTime st) cs"

lemma length_ID_PREFIXES [simp]: "length (ID_PREFIXES k) = 3"
  by (cases k) simp_all

lemma drop_prefix [simp]: "drop 4 (ID_PREFIXES k @ CHR ''_'' # s) = s"
  by (simp add: eval_nat_numeral)

lemma nextId_ok: "factory_ok st \<Longrightarrow> nextId st k t bs = Inr (i, st') \<Longrightarrow> factory_ok st'"
  using nextId_Inr [of st k t bs i st'] by (auto simp: factory_ok_def)

lemma nextId_body_less:
  assumes "factory_ok st" and "lastTime st \<noteq> -1" and "lastTime st \<le> t" and "t < 2 ^ 50"
    and "nextId st k t bs = Inr (i, st')"
  shows "encodeTime (lastTime st) @ lastRandom st < drop 4 i"
proof -
  from nextId_Inr [OF assms(1,5)] obtain b where
    i: "i = ID_PREFIXES k @ ''_'' @ encodeTime t @ b" and b: "t = lastTime st \<longrightarrow> lastRandom st < b"
    by blast
  have "0 \<le> lastTime st" using assms(1,2) by (auto simp: factory_ok_def)
  show ?thesis
  proof (cases "lastTime st = t")
    case True
    with i b show ?thesis by (simp add: less_append_same)
  next
    case False
    with assms(3,4) \<open>0 \<le> lastTime st\<close> have "encodeTime (lastTime st) < encodeTime t"
      unfolding encodeTime_def by (intro encodeTime_loop_less) auto
    with i show ?thesis
      by (simp add: encodeTime_def less_append_diff)
  qed
qed

lemma call_id_seen:
  assumes "factory_ok st" and "call_id st c = Inr (i, st')"
  shows "drop 4 i = encodeTime (lastTime st') @ lastRandom st' \<and> lastTime st' = fst (snd c) \<and> 0 \<le> lastTime st'"
  using nextId_Inr [OF assms(1), of "fst c" "fst (snd c)" "snd (snd c)" i st'] assms(2)
  by (auto simp: call_id_def)

interpretation factory: id_source call_id factory_ok clock_adm id_seen
proof
  fix s a as i s'
  assume ok: "factory_ok s" and adm: "clock_adm s (a # as)" and st: "call_id s a = Inr (i, s')"
  note seen = call_id_seen [OF ok st]
  show "factory_ok s' \<and> clock_adm s' as"
    using nextId_ok ok st seen adm by (auto simp: call_id_def clock_adm_def)
  have less: "encodeTime (lastTime s) @ lastRandom s < drop 4 i" if "lastTime s \<noteq> -1"
    using nextId_body_less [OF ok that, of "fst (snd a)" "fst a" "snd (snd a)" i s'] adm st
    by (simp add: call_id_def clock_adm_def)
  then show "\<not> id_seen s i \<and> id_seen s' i"
    using seen by (auto simp: id_seen_def)
  fix j
  assume "id_seen s j"
  with less seen show "id_seen s' j"
    by (auto simp: id_seen_def)
qed

section \<open>Properties\<close>

text \<open>C33: ids of one factory never repeat while its clock does not step back and stays below 2^50 milliseconds (some 35000 years
  from 1970; the ten digits of an id hold 50 bits of the time, the code accepts later times and cuts them): whatever kinds are asked for
  and whatever random bytes it is given, a run of calls from a fresh factory that succeeds returns
  pairwise distinct ids.\<close>

theorem ids_never_repeat:
  assumes "clock_steps 0 calls" and "issue call_id init_factory calls = Inr is"
  shows "distinct is"
proof (rule factory.issue_distinct [OF factory_ok_init _ assms(2)])
  have "clock_steps t cs \<Longrightarrow> t' \<le> t \<Longrightarrow> clock_steps t' cs" for t t' cs
    by (cases cs) auto
  with assms(1) show "clock_adm init_factory calls"
    by (auto simp: clock_adm_def init_factory_def)
qed

theorem ids_never_repeat_witness:
  "distinct [''trn_000000000Z000000'', ''trn_000000000Z000001'']"
  by (rule ids_never_repeat [of "[(TurnId, 31, [0]), (TurnId, 31, [0])]"]) code_simp+

text \<open>within one kind, the id of a later call sorts after the id of an earlier one (the order every
  store index and every list of sessions relies on): a call whose clock is not behind the factory's last
  one yields a strictly greater string than any id the factory just made.\<close>

theorem nextId_increasing:
  assumes "factory_ok st" and "nextId st k t bs = Inr (i, st')"
    and "t \<le> u" and "u < 2 ^ 50" and "nextId st' k u cs = Inr (j, st'')"
  shows "i < j"
proof -
  from nextId_Inr [OF assms(1,2)] obtain b where i: "i = ID_PREFIXES k @ ''_'' @ encodeTime t @ b"
    and st': "st' = \<lparr>lastTime = t, lastRandom = b\<rparr>" and t: "0 \<le> t" by blast
  from nextId_Inr [OF nextId_ok [OF assms(1,2)] assms(5)] obtain c where
    j: "j = ID_PREFIXES k @ ''_'' @ encodeTime u @ c" by blast
  have "encodeTime t @ b < encodeTime u @ c"
    using nextId_body_less [OF nextId_ok [OF assms(1,2)] _ _ assms(4,5)] st' t assms(3) j by simp
  then show ?thesis using i j by (simp add: less_append_same)
qed

theorem nextId_increasing_witness:
  "''itm_000000001000000Z'' < ''itm_0000000010000010''"
proof (rule nextId_increasing [OF factory_ok_init])
  show "nextId init_factory ItemId 32 [0, 0, 0, 0, 0, 31]
        = Inr (''itm_000000001000000Z'', \<lparr>lastTime = 32, lastRandom = ''00000Z''\<rparr>)" by code_simp
  show "(32::int) \<le> 32" and "(32::int) < 2 ^ 50" by simp_all
  show "nextId \<lparr>lastTime = 32, lastRandom = ''00000Z''\<rparr> ItemId 32 [0]
        = Inr (''itm_0000000010000010'', \<lparr>lastTime = 32, lastRandom = ''000010''\<rparr>)" by code_simp
qed

text \<open>the creation time read back from an id is the clock value it was made at, for every time from
  2020 on that is at most a day ahead of the reader's clock.\<close>

theorem decodeIdTime_nextId:
  assumes "factory_ok st" and "nextId st k t bs = Inr (i, st')"
    and "EARLIEST_ID_TIME \<le> t" and "t \<le> now + 86400000" and "t < 2 ^ 50"
  shows "decodeIdTime i now = Some t"
proof -
  from nextId_Inr [OF assms(1,2)] obtain b where i: "i = ID_PREFIXES k @ ''_'' @ encodeTime t @ b"
    and b: "length b = 6" and t: "0 \<le> t" by blast
  have body: "id_body i = encodeTime t @ b"
    by (cases k) (simp_all add: i id_body_def)
  have "decode_digits 10 (encodeTime t @ b) 0 = Some t"
    using decode_encodeTime_loop [of t 10 0] t assms(5)
    by (subst decode_digits_extra) (simp_all add: encodeTime_def)
  with body b assms(3,4) show ?thesis
    by (simp add: decodeIdTime_def ID_RANDOM_CHARS_def encodeTime_def)
qed

theorem decodeIdTime_nextId_witness:
  "decodeIdTime ''ses_01J0000000000000'' 1717986918400 = Some 1717986918400"
  by (rule decodeIdTime_nextId [OF factory_ok_init, of SessionId _ "[]"]) code_simp+

end
