(* ===== verification/ActorTypes.thy ===== *)
theory ActorTypes
  imports IdFactory
begin

text \<open>
  The data of the session actor (\<open>packages/kernel/src/session-actor.ts\<close>, \<open>packages/kernel/src/ports.ts\<close>
  and the enumerations of \<open>packages/protocol/src/states.ts\<close>): queue entries, the active turn, the events
  the actor emits, the messages of its mailbox and its own state.

  The values that the actor only carries and never looks into are strings: attachments (\<open>BlobRef\<close>), the
  rendered form of a tool result, an item's input progress, a permission context, usage figures. A model or agent
  \<open>selection\<close> and the \<open>turnOptions\<close> of a message are carried as their \<open>JSON.stringify\<close> text, which is
  what the actor compares; the text of an empty options object is \<open>{}\<close>. Every event carries the actor's own
  \<open>sessionId\<close>, which is left out of the constructors.
\<close>

section \<open>Enumerations\<close>

datatype foreground = FIdle | FQueued | FGenerating | FTool | FWaitingApproval | FCompacting | FCancelling | FError

datatype delivery = DQueue | DSteer | DRestart

datatype entry_kind = KMessage | KShell | KCompact | KNotice

datatype item_kind = UserMessage | AgentMessage | Reasoning | ToolCall | Approval | Artifact | CompactionItem

datatype item_status = Ok | Error | Cancelled | Interrupted | Unknown

datatype permission_mode = Ask | Edits | Full | Plan | Smart

datatype error_code = Unauthorized | Forbidden | RateLimited | ProtocolVersion | InvalidCommand | UnknownSession
  | TargetMismatch | NotSubscribed | DuplicateCommand | RequestAlreadyResolved | Busy | NotGit | Internal | Unsupported

datatype phase = PTurn | PCompaction

datatype cancel_by = ByUser | ByPromotion

datatype interrupt_reason = Restart | Transport | StreamIdle

datatype queue_mode = AfterResponse | AfterTools | Immediate

datatype compaction_state = Writing | Packed | Skipped | CFailed | CCancelled | CInterrupted

datatype resolution_kind = RApproved | RDenied | RAnswered | RAbandoned

definition MAX_INLINE_TEXT :: nat where "MAX_INLINE_TEXT = 64 * 1024"
definition MAX_JOINED_QUEUE_ENTRIES :: nat where "MAX_JOINED_QUEUE_ENTRIES = 63"
definition MAX_QUEUE_ENTRIES :: nat where "MAX_QUEUE_ENTRIES = 256"
definition MAX_AGENT_ITEMS :: nat where "MAX_AGENT_ITEMS = 500"
definition PREVIEW_CHARS :: nat where "PREVIEW_CHARS = 200"
definition JOINED_SEPARATOR :: string where "JOINED_SEPARATOR = [CHR 0x0A, CHR 0x0A]"

section \<open>Item metadata\<close>

text \<open>A finite double is a rational number.\<close>

datatype js_number = Finite rat | NaN | PosInf | NegInf

datatype meta_value = MString string | MNumber js_number | MBool bool

type_synonym meta = "(string \<times> meta_value) list"

definition is_finite :: "js_number \<Rightarrow> bool" where
  "is_finite n = (case n of Finite _ \<Rightarrow> True | _ \<Rightarrow> False)"

text \<open>\<open>displayMeta\<close>: at most 16 fields, numbers that are not finite dropped, keys cut at 40 and strings at 200.\<close>

fun displayMeta_loop :: "meta \<Rightarrow> meta \<Rightarrow> meta" where
  "displayMeta_loop [] out = out"
| "displayMeta_loop ((key, v) # entries) out =
     (case v of
        MNumber n \<Rightarrow> if \<not> is_finite n then displayMeta_loop entries out
                     else displayMeta_loop entries (AList.update (take 40 key) v out)
      | MString s \<Rightarrow> displayMeta_loop entries (AList.update (take 40 key) (MString (take 200 s)) out)
      | MBool b \<Rightarrow> displayMeta_loop entries (AList.update (take 40 key) v out))"

definition displayMeta :: "meta \<Rightarrow> meta" where
  "displayMeta m = displayMeta_loop (take 16 m) []"

text \<open>\<open>typeof meta?.agentParent === "string"\<close>\<close>

definition agent_parent :: "meta option \<Rightarrow> bool" where
  "agent_parent m = (case m of None \<Rightarrow> False
     | Some kvs \<Rightarrow> (case map_of kvs ''agentParent'' of Some (MString _) \<Rightarrow> True | _ \<Rightarrow> False))"

section \<open>Queue entries\<close>

record queue_entry =
  q_id :: string
  q_text :: string
  q_display :: "string option"
  q_authority :: "string option"
  q_attachments :: "string list"
  q_message :: "string option"
  q_selection :: "string option"
  q_options :: "string option"
  q_compact :: bool
  q_idle :: bool
  q_instructions :: "string option"
  q_notice :: bool
  q_shell :: bool
  q_local :: bool
  q_steer :: "(string \<times> meta) option"
  q_delivery :: "delivery option"
  q_rides :: bool
  q_at :: int
  q_unless :: "nat option" \<comment> \<open>the \<open>unless\<close> callback, by the number the environment answers it under\<close>
  q_alone :: bool

definition plain_entry :: "string \<Rightarrow> string \<Rightarrow> string list \<Rightarrow> queue_entry" where
  "plain_entry i t atts = \<lparr>q_id = i, q_text = t, q_display = None, q_authority = None, q_attachments = atts,
     q_message = None, q_selection = None, q_options = None, q_compact = False, q_idle = False,
     q_instructions = None, q_notice = False, q_shell = False, q_local = False, q_steer = None,
     q_delivery = None, q_rides = False, q_at = 0, q_unless = None, q_alone = False\<rparr>"

section \<open>Requests an engine makes\<close>

record question_info =
  qi_labels :: "string list"
  qi_multiple :: bool
  qi_custom :: "bool option"

datatype plan_phase = PlanPhase | ImplementationPhase

record plan_review =
  pr_markdown :: string
  pr_phase :: plan_phase
  pr_destination :: string

datatype plan_action = PAccept | PApply | PEdit | PReject | PClose

record plan_reply =
  pa_action :: plan_action
  pa_markdown :: "string option"
  pa_comments :: "string option"
  pa_reason :: "string option"
  pa_destination :: "string option"
  pa_permission :: "string option"

datatype request_kind = ApprovalRequest | QuestionRequest

record engine_request =
  rq_kind :: request_kind
  rq_title :: string
  rq_detail :: string
  rq_item :: "string option"
  rq_tool :: "string option"
  rq_permission :: "string option"
  rq_options :: "(string \<times> string option) list"
  rq_multiple :: bool
  rq_questions :: "question_info list option"
  rq_plan :: "plan_review option"
  rq_context :: "string option"
  rq_flagged :: bool
  rq_signal :: bool \<comment> \<open>the request carries an abort signal\<close>
  rq_aborted :: bool \<comment> \<open>and it is aborted when the request is handled\<close>

datatype decision =
    Approve string "string option" "bool option"
  | Deny "string option"
  | Answer string "string list list option"
  | PlanDecision plan_reply

datatype engine_resolution = Decided decision | Abandoned

section \<open>Engine events and outcomes\<close>

datatype engine_event =
    ItemStarted string item_kind "meta option"
  | ItemDelta string string "string option"
  | ItemCompleted string item_status "string option" "string option" "string option" "string list" "string option" "meta option"
    \<comment> \<open>item, status, text, tool input, blob, attachments, render, meta\<close>
  | Usage string
  | UsageLive int
  | Retrying nat int string bool \<comment> \<open>attempt, delay, message, offline\<close>

datatype turn_outcome =
    TurnOk bool "bool option" "string option" \<comment> \<open>compacted, continueAfterCompact, note\<close>
  | TurnError string string

section \<open>The active turn\<close>

record compaction =
  c_manual :: bool
  c_idle :: bool
  c_followUp :: string

record turn =
  t_id :: string
  t_phase :: phase
  t_aborted :: bool
  t_open :: "string list"
  t_agentOpen :: "string list"
  t_pending :: "(string \<times> (nat \<times> bool)) list" \<comment> \<open>request to the promise waiting on it, and whether its signal is listened to\<close>
  t_questions :: "(string \<times> question_info list) list"
  t_plans :: "(string \<times> plan_review) list"
  t_cancelBy :: "cancel_by option"
  t_interrupt :: "interrupt_reason option"
  t_cause :: bool \<comment> \<open>\<open>interruptCause\<close> is \<open>daemon_shutdown\<close>\<close>
  t_grace :: bool
  t_sendNow :: bool \<comment> \<open>the engine registered a handler with \<open>onSendNow\<close>\<close>
  t_handedOff :: bool
  t_offlineSince :: "int option"
  t_compaction :: "compaction option"
  t_alone :: bool

section \<open>Events\<close>

record queue_preview =
  v_id :: string
  v_preview :: string
  v_attachments :: nat
  v_kind :: entry_kind
  v_delivery :: "delivery option"

record completed =
  ic_item :: string
  ic_status :: item_status
  ic_text :: "string option"
  ic_authority :: "string option"
  ic_toolInput :: "string option"
  ic_blob :: "string option"
  ic_attachments :: "string list"
  ic_render :: "string option"
  ic_meta :: "meta option"

definition bare_completed :: "string \<Rightarrow> item_status \<Rightarrow> completed" where
  "bare_completed i st = \<lparr>ic_item = i, ic_status = st, ic_text = None, ic_authority = None, ic_toolInput = None,
     ic_blob = None, ic_attachments = [], ic_render = None, ic_meta = None\<rparr>"

record server_request =
  sr_id :: string
  sr_turn :: string
  sr_kind :: request_kind
  sr_title :: string
  sr_detail :: string
  sr_item :: "string option"
  sr_tool :: "string option"
  sr_permission :: "string option"
  sr_options :: "(string \<times> string option) list"
  sr_multiple :: bool
  sr_questions :: "question_info list option"
  sr_plan :: "plan_review option"
  sr_context :: "string option"
  sr_flagged :: bool

datatype event =
    ForegroundState foreground "string option"
  | QueueChanged "queue_preview list"
  | QueueAdded queue_entry \<comment> \<open>the stored fields of the entry\<close>
  | QueueEdited string string "string option"
  | TurnStarted string string "string list" \<comment> \<open>turn, queue entry, joined entries\<close>
  | TurnCompleted string
  | TurnCancelled string cancel_by
  | TurnInterrupted string interrupt_reason bool
  | TurnFailed string string string
  | TurnRetrying string nat int string "int option"
  | UsageRecorded string string
  | EItemStarted string string item_kind "meta option"
  | EItemDelta string string "string option"
  | EItemCompleted completed
  | CompactionUpdated string compaction compaction_state "string option" "string option"
  | ServerRequest server_request
  | RequestResolved string resolution_kind "plan_reply option" "string option"
  | SessionPermission permission_mode "string option"

section \<open>What the actor does to the outside\<close>

record turn_input =
  ti_turn :: string
  ti_text :: string
  ti_attachments :: "string list"
  ti_localShell :: bool
  ti_source :: string
  ti_authority :: string
  ti_synthetic :: bool
  ti_selection :: "string option"
  ti_options :: "string option"

datatype engine_call =
    RunTurn turn_input
  | RunShell turn_input
  | Compact string "string option" "string option" bool \<comment> \<open>turn, instructions, selection, idle\<close>

datatype actor_error_msg = SessionDisposed | OtherSession | NotStored string | QueueFull | NoShell | NotQueued
  | NotEditable | NotSteerable | TurnNotActive | NotPending | NotPlanReview | NeedsReview | PlanningOnly
  | AnswersMismatch | CompactionNotActive

record listed =
  l_id :: string
  l_kind :: entry_kind
  l_text :: string
  l_display :: "string option"
  l_attachments :: nat
  l_editable :: bool
  l_delivery :: "delivery option"

datatype ok_result =
    NoResult
  | QueuedAs string
  | Submitted string "delivery option" bool
  | Position nat
  | Steered bool
  | AlreadyStopping
  | Listing bool bool "listed list"

type_synonym actor_result = "(error_code \<times> actor_error_msg) + ok_result"

record taken =
  k_text :: string
  k_attachments :: "string list"
  k_authority :: "(string \<times> string \<times> bool) option" \<comment> \<open>source item, text, synthetic\<close>

datatype reply = RCommand actor_result | RVoid | RBool bool | RQueueId "string option" | RTaken "taken option"

datatype effect =
    Emit event
  | OnForeground foreground
  | OnPause bool
  | OnLiveOutput string int
  | Reply nat reply
  | Resolve nat engine_resolution
  | Listen nat
  | Unlisten nat
  | Abort string
  | ArmGrace string phase nat
  | CancelGrace string
  | DisposeTurn string
  | CallEngine engine_call
  | SentNow string "string list"
  | NoticeTaken string

section \<open>Messages\<close>

datatype place = Up | Down | Top | Bottom | At nat

datatype command =
    UserSubmit string "string list" "string option" "string option" "string option" "string option" "delivery option"
    \<comment> \<open>text, attachments, display text, message id, selection, turn options, delivery\<close>
  | UserShell string bool "string option"
  | QueuePromote string
  | QueueRemove string
  | QueueReorder string place
  | QueueEdit string string string \<comment> \<open>entry, text, client\<close>
  | QueueSteer string
  | QueueList
  | TurnCancel string
  | RequestResolve string decision string \<comment> \<open>request, decision, client\<close>
  | SessionCompact "string option" "string option" \<comment> \<open>instructions, model selection\<close>
  | PermissionSet permission_mode string
  | CompactionSet string string

record steering =
  st_text :: string
  st_label :: string
  st_meta :: meta
  st_force :: bool
  st_afterRestart :: bool

record notice =
  n_text :: string
  n_queueId :: "string option"
  n_idleOnly :: bool
  n_delivery :: "delivery option" \<comment> \<open>\<open>queue\<close> or \<open>steer\<close>\<close>
  n_rides :: bool
  n_unless :: "nat option"
  n_recordOnly :: bool

datatype message =
    MCommand string command "string option" nat \<comment> \<open>addressed session, command, authority text, caller\<close>
  | MInterrupt interrupt_reason bool nat
  | MPause bool bool nat \<comment> \<open>paused, keepHeld\<close>
  | MRestartRelease nat
  | MEngineEvent string engine_event
  | MAgentEvent string engine_event
  | MEngineRequest string engine_request nat
  | MEngineDone string phase turn_outcome
  | MEnginePermission string permission_mode
  | MNotice notice nat
  | MSteer steering nat
  | MCompactIdle nat
  | MEngineQueue string bool nat \<comment> \<open>turn, userOnly\<close>
  | MRequestCancel string string

section \<open>The environment and the state\<close>

text \<open>
  What the actor reads from its options while it handles one message: the clock, the callbacks (queue policy,
  steering boundary, notices kept outside the queue), the engine's capabilities, the sink's answer to an event that
  is stored first, and the ids its factory returns. \<open>env_ids k n\<close> is the answer to the actor's \<open>n\<close>-th call.
\<close>

record outside_notice =
  o_id :: string
  o_text :: string
  o_at :: int

record env =
  env_session :: string
  env_graceMs :: nat
  env_now :: int
  env_ids :: "id_kind \<Rightarrow> nat \<Rightarrow> string"
  env_queueMode :: "queue_mode option"
  env_canSteer :: bool
  env_runShell :: bool
  env_needsCompaction :: bool
  env_unless :: "nat \<Rightarrow> bool"
  env_waiting :: "outside_notice option"
  env_sendNow :: "string \<Rightarrow> string list \<Rightarrow> bool"
  env_refuses :: "event \<Rightarrow> string option"

record actor =
  a_queue :: "queue_entry list"
  a_foreground :: foreground
  a_active :: "turn option"
  a_held :: bool
  a_heldRestart :: bool
  a_paused :: bool
  a_mode :: permission_mode
  a_agentItems :: "string list"
  a_issued :: nat
  a_disposed :: bool
  a_mailbox :: "message list"
  a_log :: "effect list"

end
