(* ===== verification/ActorQueue.thy ===== *)
theory ActorQueue
  imports ActorTypes
begin

text \<open>
  The queue and the foreground of the session actor (\<open>packages/kernel/src/session-actor.ts\<close>): emitting events,
  the foreground state, what a queue entry is, where a steered message goes, which messages start together, and
  the notices that leave the queue unread. Every operation takes the environment it reads and the actor's state and
  returns the new state; what it sends out is appended to \<open>a_log\<close>.
\<close>

section \<open>Primitive effects\<close>

definition out :: "effect \<Rightarrow> actor \<Rightarrow> actor" where
  "out x s = s\<lparr>a_log := a_log s @ [x]\<rparr>"

definition emit :: "event \<Rightarrow> actor \<Rightarrow> actor" where
  "emit e s = out (Emit e) s"

text \<open>\<open>ids(kind)\<close>: the factory's next answer.\<close>

definition fresh_id :: "env \<Rightarrow> id_kind \<Rightarrow> actor \<Rightarrow> string" where
  "fresh_id env k s = env_ids env k (a_issued s)"

definition used_id :: "actor \<Rightarrow> actor" where
  "used_id s = s\<lparr>a_issued := Suc (a_issued s)\<rparr>"

definition upd_turn :: "(turn \<Rightarrow> turn) \<Rightarrow> actor \<Rightarrow> actor" where
  "upd_turn f s = s\<lparr>a_active := map_option f (a_active s)\<rparr>"

text \<open>\<open>active && !active.cancelBy\<close>: the turn the user still sees.\<close>

definition live_turn :: "actor \<Rightarrow> string option" where
  "live_turn s = (case a_active s of None \<Rightarrow> None
     | Some t \<Rightarrow> if t_cancelBy t = None then Some (t_id t) else None)"

definition stopping :: "turn \<Rightarrow> bool" where
  "stopping t \<longleftrightarrow> t_cancelBy t \<noteq> None \<or> t_interrupt t \<noteq> None"

definition setForeground :: "foreground \<Rightarrow> actor \<Rightarrow> actor" where
  "setForeground st s =
     (if st = a_foreground s then s
      else let s1 = s\<lparr>a_foreground := st\<rparr>;
               s2 = emit (ForegroundState st (live_turn s1)) s1
           in out (OnForeground st) s2)"

section \<open>Queue entries\<close>

definition kindOf :: "queue_entry \<Rightarrow> entry_kind" where
  "kindOf e = (if q_compact e then KCompact else if q_notice e then KNotice else if q_shell e then KShell else KMessage)"

definition editable :: "queue_entry \<Rightarrow> bool" where
  "editable e \<longleftrightarrow> (q_shell e \<or> kindOf e = KMessage) \<and> q_display e = None \<and> q_authority e = None"

definition steerable :: "env \<Rightarrow> actor \<Rightarrow> bool" where
  "steerable env s \<longleftrightarrow> (case a_active s of None \<Rightarrow> False
     | Some t \<Rightarrow> t_phase t = PTurn \<and> t_cancelBy t = None \<and> t_interrupt t = None) \<and> \<not> a_paused s \<and> env_canSteer env"

text \<open>\<open>placeSteered\<close> on the queue without the entry: after the steered messages at its head.\<close>

definition steered_prefix :: "queue_entry list \<Rightarrow> nat" where
  "steered_prefix q = length (takeWhile (\<lambda>e. q_delivery e = Some DSteer) q)"

definition placeSteered :: "queue_entry \<Rightarrow> queue_entry list \<Rightarrow> queue_entry list" where
  "placeSteered e q = splice_in (steered_prefix q) e q"

text \<open>The entry of a queue id, by position: \<open>queue.findIndex\<close>.\<close>

definition entry_at :: "string \<Rightarrow> actor \<Rightarrow> nat option" where
  "entry_at i s = find_index (\<lambda>e. q_id e = i) (a_queue s)"

definition set_queue :: "queue_entry list \<Rightarrow> actor \<Rightarrow> actor" where
  "set_queue q s = s\<lparr>a_queue := q\<rparr>"

definition preview :: "queue_entry \<Rightarrow> queue_preview" where
  "preview e = \<lparr>v_id = q_id e,
     v_preview = (if q_compact e then ''compact context'' else take PREVIEW_CHARS (orelse (q_display e) (q_text e))),
     v_attachments = length (q_attachments e), v_kind = kindOf e, v_delivery = q_delivery e\<rparr>"

definition emitQueue :: "actor \<Rightarrow> actor" where
  "emitQueue s = emit (QueueChanged (map preview (a_queue s))) s"

definition is_shown :: "env \<Rightarrow> queue_entry \<Rightarrow> bool" where
  "is_shown env e = (case q_unless e of None \<Rightarrow> False | Some k \<Rightarrow> env_unless env k)"

definition dropShown :: "env \<Rightarrow> actor \<Rightarrow> actor" where
  "dropShown env s =
     (if filter (is_shown env) (a_queue s) = [] then s
      else emitQueue (set_queue (filter (\<lambda>e. \<not> is_shown env e) (a_queue s)) s))"

section \<open>Messages that start together\<close>

definition joins :: "queue_entry \<Rightarrow> queue_entry \<Rightarrow> bool" where
  "joins first e \<longleftrightarrow> \<not> q_alone e \<and> kindOf e = KMessage \<and> q_selection e = q_selection first \<and> q_options e = q_options first"

text \<open>The messages \<open>joining\<close> takes from the head of the queue.\<close>

definition joining :: "queue_entry \<Rightarrow> queue_entry list \<Rightarrow> queue_entry list" where
  "joining first q =
     (if q_alone first \<or> q_steer first \<noteq> None \<or> kindOf first \<noteq> KMessage then []
      else take MAX_JOINED_QUEUE_ENTRIES (takeWhile (joins first) q))"

section \<open>Lemmas\<close>

named_theorems actor_defs \<open>definitions of the actor's primitive operations\<close>

lemmas [actor_defs] = out_def emit_def used_id_def upd_turn_def set_queue_def

lemma log_out [simp]: "a_log (out x s) = a_log s @ [x]" "a_log (emit e s) = a_log s @ [Emit e]"
  by (simp_all add: actor_defs)

lemma out_frame [simp]:
  "a_queue (out x s) = a_queue s" "a_foreground (out x s) = a_foreground s" "a_active (out x s) = a_active s"
  "a_held (out x s) = a_held s" "a_heldRestart (out x s) = a_heldRestart s" "a_paused (out x s) = a_paused s"
  "a_mode (out x s) = a_mode s" "a_agentItems (out x s) = a_agentItems s" "a_issued (out x s) = a_issued s"
  "a_disposed (out x s) = a_disposed s" "a_mailbox (out x s) = a_mailbox s"
  by (simp_all add: actor_defs)

lemma emit_frame [simp]:
  "a_queue (emit x s) = a_queue s" "a_foreground (emit x s) = a_foreground s" "a_active (emit x s) = a_active s"
  "a_held (emit x s) = a_held s" "a_heldRestart (emit x s) = a_heldRestart s" "a_paused (emit x s) = a_paused s"
  "a_mode (emit x s) = a_mode s" "a_agentItems (emit x s) = a_agentItems s" "a_issued (emit x s) = a_issued s"
  "a_disposed (emit x s) = a_disposed s" "a_mailbox (emit x s) = a_mailbox s"
  by (simp_all add: emit_def)

lemma used_id_frame [simp]:
  "a_queue (used_id s) = a_queue s" "a_foreground (used_id s) = a_foreground s" "a_active (used_id s) = a_active s"
  "a_held (used_id s) = a_held s" "a_heldRestart (used_id s) = a_heldRestart s" "a_paused (used_id s) = a_paused s"
  "a_mode (used_id s) = a_mode s" "a_agentItems (used_id s) = a_agentItems s" "a_log (used_id s) = a_log s"
  "a_disposed (used_id s) = a_disposed s" "a_mailbox (used_id s) = a_mailbox s"
  by (simp_all add: actor_defs)

lemma upd_turn_frame [simp]:
  "a_queue (upd_turn f s) = a_queue s" "a_foreground (upd_turn f s) = a_foreground s"
  "a_active (upd_turn f s) = map_option f (a_active s)"
  "a_held (upd_turn f s) = a_held s" "a_heldRestart (upd_turn f s) = a_heldRestart s" "a_paused (upd_turn f s) = a_paused s"
  "a_mode (upd_turn f s) = a_mode s" "a_agentItems (upd_turn f s) = a_agentItems s" "a_log (upd_turn f s) = a_log s"
  "a_disposed (upd_turn f s) = a_disposed s" "a_mailbox (upd_turn f s) = a_mailbox s" "a_issued (upd_turn f s) = a_issued s"
  by (simp_all add: actor_defs)

lemma set_queue_frame [simp]:
  "a_queue (set_queue q s) = q" "a_foreground (set_queue q s) = a_foreground s" "a_active (set_queue q s) = a_active s"
  "a_held (set_queue q s) = a_held s" "a_heldRestart (set_queue q s) = a_heldRestart s" "a_paused (set_queue q s) = a_paused s"
  "a_mode (set_queue q s) = a_mode s" "a_agentItems (set_queue q s) = a_agentItems s" "a_log (set_queue q s) = a_log s"
  "a_disposed (set_queue q s) = a_disposed s" "a_mailbox (set_queue q s) = a_mailbox s" "a_issued (set_queue q s) = a_issued s"
  by (simp_all add: actor_defs)

lemma setForeground_frame [simp]:
  "a_queue (setForeground f s) = a_queue s" "a_foreground (setForeground f s) = f" "a_active (setForeground f s) = a_active s"
  "a_held (setForeground f s) = a_held s" "a_heldRestart (setForeground f s) = a_heldRestart s" "a_paused (setForeground f s) = a_paused s"
  "a_mode (setForeground f s) = a_mode s" "a_agentItems (setForeground f s) = a_agentItems s"
  "a_disposed (setForeground f s) = a_disposed s" "a_mailbox (setForeground f s) = a_mailbox s" "a_issued (setForeground f s) = a_issued s"
  by (simp_all add: setForeground_def Let_def)

lemma emitQueue_frame [simp]:
  "a_queue (emitQueue s) = a_queue s" "a_foreground (emitQueue s) = a_foreground s" "a_active (emitQueue s) = a_active s"
  "a_held (emitQueue s) = a_held s" "a_heldRestart (emitQueue s) = a_heldRestart s" "a_paused (emitQueue s) = a_paused s"
  "a_mode (emitQueue s) = a_mode s" "a_agentItems (emitQueue s) = a_agentItems s"
  "a_disposed (emitQueue s) = a_disposed s" "a_mailbox (emitQueue s) = a_mailbox s" "a_issued (emitQueue s) = a_issued s"
  by (simp_all add: emitQueue_def)

lemma dropShown_queue [simp]: "a_queue (dropShown env s) = filter (\<lambda>e. \<not> is_shown env e) (a_queue s)"
  by (auto simp: dropShown_def filter_empty_conv filter_id_conv)

lemma dropShown_frame [simp]:
  "a_foreground (dropShown env s) = a_foreground s" "a_active (dropShown env s) = a_active s"
  "a_held (dropShown env s) = a_held s" "a_heldRestart (dropShown env s) = a_heldRestart s" "a_paused (dropShown env s) = a_paused s"
  "a_mode (dropShown env s) = a_mode s" "a_agentItems (dropShown env s) = a_agentItems s"
  "a_disposed (dropShown env s) = a_disposed s" "a_mailbox (dropShown env s) = a_mailbox s" "a_issued (dropShown env s) = a_issued s"
  by (simp_all add: dropShown_def)

lemma length_placeSteered [simp]: "length (placeSteered e q) = Suc (length q)"
  by (simp add: placeSteered_def)

lemma set_placeSteered [simp]: "set (placeSteered e q) = insert e (set q)"
  by (simp add: placeSteered_def)

text \<open>A steered message goes behind the steered ones and ahead of everything else, whose order stays.\<close>

lemma placeSteered_split:
  "placeSteered e q = takeWhile (\<lambda>x. q_delivery x = Some DSteer) q @ e # dropWhile (\<lambda>x. q_delivery x = Some DSteer) q"
  by (simp add: placeSteered_def splice_in_def steered_prefix_def takeWhile_eq_take [symmetric] dropWhile_eq_drop [symmetric])

lemma takeWhile_prefix: "take n (takeWhile P q) = take (min n (length (takeWhile P q))) q"
  by (metis takeWhile_eq_take take_take)

lemma joining_is_take: "\<exists>n. joining e q = take n q"
  unfolding joining_def using takeWhile_prefix by (metis take0)

lemma joining_prefix: "joining e q @ drop (length (joining e q)) q = q"
  using joining_is_take [of e q] by (metis append_take_drop_id append_eq_conv_conj)

lemma joining_bound: "length (joining e q) \<le> 63"
  by (simp add: joining_def MAX_JOINED_QUEUE_ENTRIES_def)

lemma joining_joins: "x \<in> set (joining e q) \<Longrightarrow> joins e x \<and> \<not> q_alone e \<and> kindOf e = KMessage"
  by (auto simp: joining_def split: if_splits dest: in_set_takeD set_takeWhileD)

end
