(* ===== verification/ActorTurn.thy ===== *)
theory ActorTurn
  imports ActorQueue
begin

text \<open>
  Turns of the session actor: how a queue entry starts one, how the engine is called, how a turn is stopped,
  cancelled and finished, and what happens to the queue when the session is free. An engine call is the effect
  \<open>CallEngine\<close>; the engine's answer is the later message \<open>MEngineDone\<close>, also where the call throws.
\<close>

section \<open>Starting a turn\<close>

definition new_turn :: "string \<Rightarrow> queue_entry \<Rightarrow> turn" where
  "new_turn i e = \<lparr>t_id = i, t_phase = PTurn, t_aborted = False, t_open = [], t_agentOpen = [], t_pending = [],
     t_questions = [], t_plans = [], t_cancelBy = None, t_interrupt = None, t_cause = False, t_grace = False,
     t_sendNow = False, t_handedOff = False, t_offlineSince = None, t_compaction = None,
     t_alone = (q_alone e \<or> q_selection e \<noteq> None \<or> q_options e \<noteq> None)\<rparr>"

definition compactionUpdated :: "compaction_state \<Rightarrow> string option \<Rightarrow> string option \<Rightarrow> actor \<Rightarrow> actor" where
  "compactionUpdated st followUp note s =
     (case a_active s of None \<Rightarrow> s
      | Some t \<Rightarrow> (case t_compaction t of None \<Rightarrow> s
          | Some c \<Rightarrow> emit (CompactionUpdated (t_id t) c st followUp (map_option (take 500) (truthy note))) s))"

text \<open>\<open>run\<close>: the phase of the turn, then the call.\<close>

definition run :: "phase \<Rightarrow> engine_call \<Rightarrow> actor \<Rightarrow> actor" where
  "run p c s = out (CallEngine c) (upd_turn (\<lambda>t. t\<lparr>t_phase := p\<rparr>) s)"

definition start_meta :: "queue_entry \<Rightarrow> meta option" where
  "start_meta e =
     (case q_steer e of
        Some (_, m) \<Rightarrow> Some (fold (\<lambda>(k, v) acc. AList.update k v acc) m [(''notice'', MBool True)])
      | None \<Rightarrow>
          if q_notice e then Some [(''notice'', MBool True)]
          else if q_shell e then Some ((''shell'', MBool True) # (if q_local e then [(''local'', MBool True)] else []))
          else None)"

definition user_completed :: "string \<Rightarrow> queue_entry \<Rightarrow> completed" where
  "user_completed i e = (bare_completed i Ok)
     \<lparr>ic_text := Some (case q_steer e of Some (label, _) \<Rightarrow> label | None \<Rightarrow> orelse (q_display e) (q_text e)),
      ic_authority := q_authority e, ic_attachments := q_attachments e\<rparr>"

text \<open>Each joined message keeps its own transcript item.\<close>

fun emit_joined :: "env \<Rightarrow> string \<Rightarrow> queue_entry list \<Rightarrow> actor \<Rightarrow> actor" where
  "emit_joined env turnId [] s = s"
| "emit_joined env turnId (other # rest) s =
     (let itemId = (case q_message other of Some m \<Rightarrow> m | None \<Rightarrow> fresh_id env ItemId s);
          s1 = (case q_message other of Some _ \<Rightarrow> s | None \<Rightarrow> used_id s);
          s2 = emit (EItemStarted turnId itemId UserMessage None) s1;
          s3 = emit (EItemCompleted ((bare_completed itemId Ok)
                 \<lparr>ic_text := Some (orelse (q_display other) (q_text other)), ic_authority := q_authority other,
                  ic_attachments := q_attachments other\<rparr>)) s2
      in emit_joined env turnId rest s3)"

definition turn_input_of :: "string \<Rightarrow> string \<Rightarrow> queue_entry \<Rightarrow> queue_entry list \<Rightarrow> turn_input" where
  "turn_input_of turnId userItem e joined =
     (let all_parts = e # joined in
      \<lparr>ti_turn = turnId,
       ti_text = js_join JOINED_SEPARATOR (map q_text all_parts),
       ti_attachments = concat (map q_attachments all_parts),
       ti_localShell = (q_shell e \<and> q_local e),
       ti_source = userItem,
       ti_authority = js_join JOINED_SEPARATOR (map (\<lambda>p. orelse (q_authority p) (q_text p)) all_parts),
       ti_synthetic = (q_notice e \<or> q_steer e \<noteq> None),
       ti_selection = q_selection e,
       ti_options = q_options e\<rparr>)"

definition start_compaction :: "string \<Rightarrow> queue_entry \<Rightarrow> actor \<Rightarrow> actor" where
  "start_compaction turnId e s =
     (let c = (if q_idle e then \<lparr>c_manual = False, c_idle = True, c_followUp = []\<rparr>
               else \<lparr>c_manual = True, c_idle = False, c_followUp = []\<rparr>);
          s1 = upd_turn (\<lambda>t. t\<lparr>t_phase := PCompaction, t_compaction := Some c\<rparr>) s;
          s2 = setForeground FCompacting (compactionUpdated Writing None None s1)
      in run PCompaction (Compact turnId (truthy (q_instructions e)) (q_selection e) (q_idle e)) s2)"

definition start_message :: "env \<Rightarrow> string \<Rightarrow> queue_entry \<Rightarrow> queue_entry list \<Rightarrow> actor \<Rightarrow> actor" where
  "start_message env turnId e joined s =
     (let userItem = (case q_message e of Some m \<Rightarrow> m | None \<Rightarrow> fresh_id env ItemId s);
          s1 = (case q_message e of Some _ \<Rightarrow> s | None \<Rightarrow> used_id s);
          s2 = emit (EItemStarted turnId userItem UserMessage (start_meta e)) s1;
          s3 = emit (EItemCompleted (user_completed userItem e)) s2;
          s4 = emit_joined env turnId joined s3;
          s5 = setForeground (if q_shell e then FTool else FGenerating) s4;
          input = turn_input_of turnId userItem e joined
      in run PTurn (if q_shell e \<and> env_runShell env then RunShell input else RunTurn input) s5)"

definition start :: "env \<Rightarrow> queue_entry \<Rightarrow> queue_entry list \<Rightarrow> actor \<Rightarrow> actor" where
  "start env e joined s =
     (let turnId = fresh_id env TurnId s;
          s1 = (used_id s)\<lparr>a_active := Some (new_turn turnId e)\<rparr>;
          s2 = (if q_steer e = None \<and> \<not> q_idle e then emitQueue s1 else s1);
          s3 = emit (TurnStarted turnId (q_id e) (map q_id joined)) s2
      in if q_compact e then start_compaction turnId e s3 else start_message env turnId e joined s3)"

section \<open>The session is free\<close>

definition settleIdle :: "env \<Rightarrow> actor \<Rightarrow> actor" where
  "settleIdle env s =
     (case a_active s of
        Some t \<Rightarrow> if t_cancelBy t \<noteq> None then setForeground (if a_queue s \<noteq> [] then FQueued else FIdle) s else s
      | None \<Rightarrow>
          let s1 = dropShown env s in
          if a_held s1 \<or> a_paused s1 then setForeground (if a_queue s1 \<noteq> [] then FQueued else FIdle) s1
          else case a_queue s1 of
            [] \<Rightarrow> setForeground FIdle s1
          | next # rest \<Rightarrow>
              let joined = joining next rest;
                  s2 = set_queue (drop (length joined) rest) s1
              in start env next joined s2)"

section \<open>Stopping a turn\<close>

fun abandon_each :: "(string \<times> (nat \<times> bool)) list \<Rightarrow> turn \<Rightarrow> actor \<Rightarrow> actor" where
  "abandon_each [] t s = s"
| "abandon_each ((requestId, (h, listening)) # rest) t s =
     (let review = (if map_of (t_plans t) requestId \<noteq> None
                    then Some \<lparr>pa_action = PClose, pa_markdown = None, pa_comments = None, pa_reason = None,
                               pa_destination = None, pa_permission = None\<rparr>
                    else None);
          s1 = emit (RequestResolved requestId RAbandoned review None) s;
          s2 = (if listening then out (Unlisten h) s1 else s1)
      in abandon_each rest t (out (Resolve h Abandoned) s2))"

definition abandonPending :: "actor \<Rightarrow> actor" where
  "abandonPending s =
     (case a_active s of None \<Rightarrow> s
      | Some t \<Rightarrow> upd_turn (\<lambda>t. t\<lparr>t_pending := []\<rparr>) (abandon_each (t_pending t) t s))"

definition stopTurn :: "env \<Rightarrow> actor \<Rightarrow> actor" where
  "stopTurn env s =
     (case a_active s of None \<Rightarrow> s
      | Some t \<Rightarrow>
          let s1 = abandonPending s;
              s2 = out (Abort (t_id t)) (upd_turn (\<lambda>t. t\<lparr>t_aborted := True\<rparr>) s1)
          in out (ArmGrace (t_id t) (t_phase t) (env_graceMs env)) (upd_turn (\<lambda>t. t\<lparr>t_grace := True\<rparr>) s2))"

fun complete_each :: "item_status \<Rightarrow> string list \<Rightarrow> actor \<Rightarrow> actor" where
  "complete_each st [] s = s"
| "complete_each st (i # is) s = complete_each st is (emit (EItemCompleted (bare_completed i st)) s)"

definition closeOpenItems :: "item_status \<Rightarrow> actor \<Rightarrow> actor" where
  "closeOpenItems st s =
     (case a_active s of None \<Rightarrow> s
      | Some t \<Rightarrow> upd_turn (\<lambda>t. t\<lparr>t_open := [], t_agentOpen := []\<rparr>) (complete_each st (t_open t) s))"

definition cancel :: "env \<Rightarrow> cancel_by \<Rightarrow> actor \<Rightarrow> actor" where
  "cancel env by_whom s =
     (case a_active s of None \<Rightarrow> s
      | Some t \<Rightarrow>
          let s1 = upd_turn (\<lambda>t. t\<lparr>t_cancelBy := Some by_whom\<rparr>) s;
              s2 = stopTurn env s1;
              s3 = compactionUpdated CCancelled None None s2;
              s4 = closeOpenItems Cancelled s3
          in settleIdle env (emit (TurnCancelled (t_id t) by_whom) s4))"

text \<open>\<open>turn.scope.dispose(); active = undefined\<close>\<close>

definition drop_turn :: "actor \<Rightarrow> actor" where
  "drop_turn s =
     (case a_active s of None \<Rightarrow> s
      | Some t \<Rightarrow> (out (DisposeTurn (t_id t)) s)\<lparr>a_active := None\<rparr>)"

definition finish :: "env \<Rightarrow> actor \<Rightarrow> actor" where
  "finish env s = settleIdle env (drop_turn s)"

section \<open>The engine returned\<close>

definition done_failed :: "env \<Rightarrow> turn \<Rightarrow> string \<Rightarrow> string \<Rightarrow> actor \<Rightarrow> actor" where
  "done_failed env t code msg s =
     (let s1 = compactionUpdated CFailed None None s;
          s2 = drop_turn (emit (TurnFailed (t_id t) (take 64 code) (take 4000 msg)) s1)
      in if a_queue s2 \<noteq> [] \<and> \<not> a_held s2 \<and> \<not> a_paused s2 then settleIdle env s2
         else setForeground FError s2)"

text \<open>The compaction phase a finished turn goes on to, in the same turn.\<close>

definition auto_compaction :: "turn \<Rightarrow> actor \<Rightarrow> actor" where
  "auto_compaction t s =
     (let s1 = upd_turn (\<lambda>t. t\<lparr>t_compaction := Some \<lparr>c_manual = False, c_idle = False, c_followUp = []\<rparr>\<rparr>) s;
          s2 = setForeground FCompacting (compactionUpdated Writing None None s1)
      in run PCompaction (Compact (t_id t) None None False) s2)"

text \<open>What a finished compaction leaves: the follow-up the user wrote meanwhile goes first in the queue.\<close>

definition compaction_done :: "env \<Rightarrow> turn \<Rightarrow> bool \<Rightarrow> bool option \<Rightarrow> string option \<Rightarrow> actor \<Rightarrow> actor" where
  "compaction_done env t compacted continueAfter note s =
     (let text = (case t_compaction t of None \<Rightarrow> None | Some c \<Rightarrow> truthy (Some (js_trim (c_followUp c))))
      in case text of
           Some txt \<Rightarrow>
             if compacted \<and> continueAfter \<noteq> Some False then
               let i = fresh_id env QueueId s;
                   e = (plain_entry i txt [])\<lparr>q_alone := True\<rparr>;
                   s1 = set_queue (e # a_queue s) (used_id s);
                   s2 = emitQueue (emit (QueueAdded (plain_entry i txt [])) s1)
               in compactionUpdated Packed (Some i) None s2
             else compactionUpdated (if compacted then Packed else Skipped) None (if compacted then None else note) s
         | None \<Rightarrow> compactionUpdated (if compacted then Packed else Skipped) None (if compacted then None else note) s)"

definition done_ok :: "env \<Rightarrow> turn \<Rightarrow> phase \<Rightarrow> bool \<Rightarrow> bool option \<Rightarrow> string option \<Rightarrow> actor \<Rightarrow> actor" where
  "done_ok env t p compacted continueAfter note s =
     (if p = PTurn \<and> env_needsCompaction env then auto_compaction t s
      else let s1 = (if p = PCompaction then compaction_done env t compacted continueAfter note s else s)
           in finish env (emit (TurnCompleted (t_id t)) s1))"

text \<open>The end of the phase, once the turn's requests are abandoned: already announced at a cancel, interrupted, or
  what the engine answered.\<close>

definition engine_ended :: "env \<Rightarrow> turn \<Rightarrow> phase \<Rightarrow> turn_outcome \<Rightarrow> actor \<Rightarrow> actor" where
  "engine_ended env t p outcome s =
     (if t_cancelBy t \<noteq> None then finish env s
      else case t_interrupt t of
        Some reason \<Rightarrow>
          let s1 = closeOpenItems Interrupted (compactionUpdated CInterrupted None None s)
          in finish env (emit (TurnInterrupted (t_id t) reason (t_cause t)) s1)
      | None \<Rightarrow>
          let s1 = closeOpenItems Unknown s
          in case outcome of
               TurnError code msg \<Rightarrow> done_failed env t code msg s1
             | TurnOk compacted continueAfter note \<Rightarrow> done_ok env t p compacted continueAfter note s1)"

definition onEngineDone :: "env \<Rightarrow> string \<Rightarrow> phase \<Rightarrow> turn_outcome \<Rightarrow> actor \<Rightarrow> actor" where
  "onEngineDone env turnId p outcome s =
     (case a_active s of None \<Rightarrow> s
      | Some t \<Rightarrow>
          if t_id t \<noteq> turnId \<or> t_phase t \<noteq> p then s
          else
            let s1 = (if t_grace t then out (CancelGrace turnId) (upd_turn (\<lambda>t. t\<lparr>t_grace := False\<rparr>) s) else s)
            in engine_ended env t p outcome (abandonPending s1))"

end
