(* ===== verification/ActorEngine.thy ===== *)
theory ActorEngine
  imports ActorTurn
begin

text \<open>
  What the session actor does with the engine's messages: the items of the running turn, the items a background
  sub-agent reports after its turn, a request for the user (and its withdrawal), a change of permission mode, and
  the queued messages a running turn may take (\<open>takeQueued\<close>).
\<close>

section \<open>Engine events\<close>

definition isLive :: "string \<Rightarrow> actor \<Rightarrow> bool" where
  "isLive turnId s \<longleftrightarrow> (case a_active s of None \<Rightarrow> False | Some t \<Rightarrow> t_id t = turnId \<and> \<not> t_aborted t)"

definition on_retrying :: "env \<Rightarrow> turn \<Rightarrow> nat \<Rightarrow> int \<Rightarrow> string \<Rightarrow> bool \<Rightarrow> actor \<Rightarrow> actor" where
  "on_retrying env t attempt delayMs msg offline s =
     (let since = (if offline then Some (orelse (t_offlineSince t) (env_now env)) else None);
          s1 = upd_turn (\<lambda>t. t\<lparr>t_offlineSince := since\<rparr>) s
      in emit (TurnRetrying (t_id t) attempt (env_now env + delayMs) (take 500 msg) since) s1)"

definition on_item_started :: "turn \<Rightarrow> string \<Rightarrow> item_kind \<Rightarrow> meta option \<Rightarrow> actor \<Rightarrow> actor" where
  "on_item_started t itemId kind meta s =
     (let s1 = emit (EItemStarted (t_id t) itemId kind meta) (upd_turn (\<lambda>t. t\<lparr>t_open := set_add itemId (t_open t)\<rparr>) s)
      in if agent_parent meta then upd_turn (\<lambda>t. t\<lparr>t_agentOpen := set_add itemId (t_agentOpen t)\<rparr>) s1
         else if t_phase t = PTurn then setForeground (if kind = ToolCall then FTool else FGenerating) s1
         else s1)"

definition on_item_completed :: "turn \<Rightarrow> string \<Rightarrow> completed \<Rightarrow> actor \<Rightarrow> actor" where
  "on_item_completed t itemId c s =
     (let s1 = emit (EItemCompleted c) (upd_turn (\<lambda>t. t\<lparr>t_open := set_del itemId (t_open t)\<rparr>) s);
          s2 = upd_turn (\<lambda>t. t\<lparr>t_agentOpen := set_del itemId (t_agentOpen t)\<rparr>) s1
      in if itemId \<notin> set (t_agentOpen t) \<and> t_phase t = PTurn \<and> a_foreground s = FTool then setForeground FGenerating s2
         else s2)"

definition onEngineEvent :: "env \<Rightarrow> string \<Rightarrow> engine_event \<Rightarrow> actor \<Rightarrow> actor" where
  "onEngineEvent env turnId ev s =
     (case a_active s of None \<Rightarrow> s
      | Some t \<Rightarrow>
          if \<not> isLive turnId s then s
          else case ev of
            UsageLive output \<Rightarrow> out (OnLiveOutput turnId output) s
          | Usage usage \<Rightarrow> emit (UsageRecorded turnId usage) (out (OnLiveOutput turnId 0) s)
          | Retrying attempt delayMs msg offline \<Rightarrow> on_retrying env t attempt delayMs msg offline s
          | ItemStarted itemId kind meta \<Rightarrow>
              on_item_started t itemId kind meta (upd_turn (\<lambda>t. t\<lparr>t_offlineSince := None\<rparr>) s)
          | ItemDelta itemId text input \<Rightarrow>
              let s1 = upd_turn (\<lambda>t. t\<lparr>t_offlineSince := None\<rparr>) s in
              if itemId \<notin> set (t_open t) then s1 else emit (EItemDelta itemId text input) s1
          | ItemCompleted itemId status text toolInput blob attachments render meta \<Rightarrow>
              let s1 = upd_turn (\<lambda>t. t\<lparr>t_offlineSince := None\<rparr>) s in
              if itemId \<notin> set (t_open t) then s1
              else on_item_completed t itemId
                     ((bare_completed itemId status)
                       \<lparr>ic_text := text, ic_toolInput := map_option (take 4000) toolInput, ic_blob := blob,
                        ic_attachments := attachments, ic_render := render, ic_meta := map_option displayMeta meta\<rparr>) s1)"

section \<open>Background sub-agents\<close>

definition onAgentEvent :: "string \<Rightarrow> engine_event \<Rightarrow> actor \<Rightarrow> actor" where
  "onAgentEvent turnId ev s =
     (case ev of
        ItemStarted itemId kind meta \<Rightarrow>
          if \<not> agent_parent meta \<or> MAX_AGENT_ITEMS \<le> length (a_agentItems s) then s
          else emit (EItemStarted turnId itemId kind meta) (s\<lparr>a_agentItems := set_add itemId (a_agentItems s)\<rparr>)
      | ItemDelta itemId text input \<Rightarrow>
          if itemId \<in> set (a_agentItems s) then emit (EItemDelta itemId text None) s else s
      | ItemCompleted itemId status text toolInput blob attachments render meta \<Rightarrow>
          if itemId \<notin> set (a_agentItems s) then s
          else emit (EItemCompleted ((bare_completed itemId status)
                       \<lparr>ic_text := text, ic_meta := map_option displayMeta meta\<rparr>))
                    (s\<lparr>a_agentItems := set_del itemId (a_agentItems s)\<rparr>)
      | Usage _ \<Rightarrow> s
      | UsageLive _ \<Rightarrow> s
      | Retrying _ _ _ _ \<Rightarrow> s)"

section \<open>Requests\<close>

definition server_request_of :: "string \<Rightarrow> string \<Rightarrow> engine_request \<Rightarrow> server_request" where
  "server_request_of requestId turnId rq =
     \<lparr>sr_id = requestId, sr_turn = turnId, sr_kind = rq_kind rq, sr_title = take 500 (rq_title rq),
      sr_detail = rq_detail rq, sr_item = truthy (rq_item rq), sr_tool = map_option (take 200) (truthy (rq_tool rq)),
      sr_permission = rq_permission rq,
      sr_options = map (\<lambda>(l, d). (take 120 l, map_option (take 300) (truthy d))) (take 9 (rq_options rq)),
      sr_multiple = (rq_multiple rq \<and> rq_options rq \<noteq> []), sr_questions = rq_questions rq, sr_plan = rq_plan rq,
      sr_context = rq_context rq, sr_flagged = rq_flagged rq\<rparr>"

definition onEngineRequest :: "env \<Rightarrow> string \<Rightarrow> engine_request \<Rightarrow> nat \<Rightarrow> actor \<Rightarrow> actor" where
  "onEngineRequest env turnId rq h s =
     (if \<not> isLive turnId s \<or> rq_aborted rq then out (Resolve h Abandoned) s
      else
        let requestId = fresh_id env RequestId s;
            s1 = used_id s;
            s2 = (if rq_signal rq then out (Listen h) s1 else s1);
            s3 = upd_turn (\<lambda>t. t\<lparr>t_pending := AList.update requestId (h, rq_signal rq) (t_pending t)\<rparr>) s2;
            s4 = (case rq_questions rq of None \<Rightarrow> s3
                  | Some qs \<Rightarrow> upd_turn (\<lambda>t. t\<lparr>t_questions := AList.update requestId qs (t_questions t)\<rparr>) s3);
            s5 = (case rq_plan rq of None \<Rightarrow> s4
                  | Some p \<Rightarrow> upd_turn (\<lambda>t. t\<lparr>t_plans := AList.update requestId p (t_plans t)\<rparr>) s4)
        in setForeground FWaitingApproval (emit (ServerRequest (server_request_of requestId turnId rq)) s5))"

text \<open>The entry of \<open>pending\<close> that resolves a request: it stops listening to the request's signal first.\<close>

definition resolve_with :: "nat \<times> bool \<Rightarrow> engine_resolution \<Rightarrow> actor \<Rightarrow> actor" where
  "resolve_with p r s = out (Resolve (fst p) r) (if snd p then out (Unlisten (fst p)) s else s)"

definition forget_request :: "string \<Rightarrow> actor \<Rightarrow> actor" where
  "forget_request requestId s =
     upd_turn (\<lambda>t. t\<lparr>t_pending := AList.delete requestId (t_pending t),
                     t_questions := AList.delete requestId (t_questions t),
                     t_plans := AList.delete requestId (t_plans t)\<rparr>) s"

definition pending_empty :: "actor \<Rightarrow> bool" where
  "pending_empty s \<longleftrightarrow> (case a_active s of None \<Rightarrow> True | Some t \<Rightarrow> t_pending t = [])"

definition onRequestCancel :: "string \<Rightarrow> string \<Rightarrow> actor \<Rightarrow> actor" where
  "onRequestCancel turnId requestId s =
     (case a_active s of None \<Rightarrow> s
      | Some t \<Rightarrow>
          if t_id t \<noteq> turnId then s
          else case map_of (t_pending t) requestId of None \<Rightarrow> s
            | Some p \<Rightarrow>
                let s1 = emit (RequestResolved requestId RAbandoned None None) (forget_request requestId s);
                    s2 = resolve_with p Abandoned s1
                in if pending_empty s2 \<and> a_foreground s2 = FWaitingApproval then setForeground FGenerating s2 else s2)"

definition onEnginePermission :: "string \<Rightarrow> permission_mode \<Rightarrow> actor \<Rightarrow> actor" where
  "onEnginePermission turnId mode s =
     (if \<not> isLive turnId s \<or> mode = a_mode s then s
      else emit (SessionPermission mode None) (s\<lparr>a_mode := mode\<rparr>))"

text \<open>\<open>onSendNow\<close>: the running turn's engine registers how it takes a promoted message.\<close>

definition onSendNow :: "actor \<Rightarrow> actor" where
  "onSendNow s = upd_turn (\<lambda>t. t\<lparr>t_sendNow := True\<rparr>) s"

section \<open>Messages a running turn takes from the queue\<close>

text \<open>The open steps of the main agent hold a queued message back.\<close>

definition takes_queued :: "string \<Rightarrow> actor \<Rightarrow> bool" where
  "takes_queued turnId s \<longleftrightarrow> isLive turnId s \<and> \<not> a_held s \<and> \<not> a_paused s \<and>
     (case a_active s of None \<Rightarrow> False
      | Some t \<Rightarrow> t_phase t = PTurn \<and> t_pending t = [] \<and> \<not> length (t_agentOpen t) < length (t_open t))"

definition due_entry :: "env \<Rightarrow> bool \<Rightarrow> queue_entry list \<Rightarrow> (nat \<times> queue_entry) option" where
  "due_entry env userOnly q =
     (let first = (case find_index (\<lambda>e. q_delivery e = Some DSteer) q of
                     Some i \<Rightarrow> Some i
                   | None \<Rightarrow> if env_queueMode env = Some AfterTools \<and> q \<noteq> [] \<and> q_delivery (hd q) \<noteq> Some DQueue
                             then Some 0 else None)
      in case first of None \<Rightarrow> None
         | Some i \<Rightarrow> let e = q ! i in
             if \<not> q_shell e \<and> \<not> q_compact e \<and> q_selection e = None \<and> q_options e = None
                \<and> \<not> (userOnly \<and> (q_notice e \<or> q_rides e))
             then Some (i, e) else None)"

text \<open>What waits together: text, arrival and the position in the queue (none for a notice kept outside it).\<close>

type_synonym waiting = "string \<times> int \<times> nat option"

definition batch_of :: "(nat \<times> queue_entry) option \<Rightarrow> outside_notice option \<Rightarrow> queue_entry list \<Rightarrow> waiting list" where
  "batch_of entry outside q =
     (let own = (case entry of None \<Rightarrow> []
                 | Some (i, e) \<Rightarrow> if q_rides e then filter (\<lambda>(j, x). q_rides x) (enumerate 0 q) else [(i, e)]);
          queued = map (\<lambda>(j, x). (q_text x, q_at x, Some j)) own;
          extra = (case outside of None \<Rightarrow> [] | Some n \<Rightarrow> [(o_text n, o_at n, None)])
      in sort_key (\<lambda>w. fst (snd w)) (queued @ extra))"

text \<open>As many of the batch as fit in one inline text, the first one always.\<close>

fun take_batch :: "waiting list \<Rightarrow> string \<Rightarrow> waiting list \<Rightarrow> string \<times> waiting list" where
  "take_batch [] text took = (text, took)"
| "take_batch (w # ws) text took =
     (if took \<noteq> [] \<and> length text + length (fst w) + 2 > MAX_INLINE_TEXT then (text, took)
      else take_batch ws (text @ (if took \<noteq> [] then JOINED_SEPARATOR else []) @ fst w) (took @ [w]))"

definition remove_positions :: "nat set \<Rightarrow> 'a list \<Rightarrow> 'a list" where
  "remove_positions ps xs = map snd (filter (\<lambda>(i, x). i \<notin> ps) (enumerate 0 xs))"

definition taken_positions :: "waiting list \<Rightarrow> nat set" where
  "taken_positions took = set (concat (map (\<lambda>w. case snd (snd w) of None \<Rightarrow> [] | Some j \<Rightarrow> [j]) took))"

definition hand_over :: "env \<Rightarrow> string \<Rightarrow> (nat \<times> queue_entry) option \<Rightarrow> outside_notice option \<Rightarrow> nat \<Rightarrow> actor \<Rightarrow> actor" where
  "hand_over env turnId entry outside h s =
     (let q = a_queue s;
          stable = (case entry of None \<Rightarrow> None | Some (_, e) \<Rightarrow> q_message e);
          itemId = (case stable of Some m \<Rightarrow> m | None \<Rightarrow> fresh_id env ItemId s);
          s1 = (case stable of Some _ \<Rightarrow> s | None \<Rightarrow> used_id s);
          (text, took) = take_batch (batch_of entry outside q) [] [];
          joined = (if list_ex (\<lambda>w. snd (snd w) = None) took then outside else None);
          s2 = (case joined of None \<Rightarrow> s1
                | Some n \<Rightarrow> emit (QueueAdded ((plain_entry (o_id n) (o_text n) [])\<lparr>q_notice := True\<rparr>)) s1);
          is_notice = (case entry of None \<Rightarrow> True | Some (_, e) \<Rightarrow> q_notice e);
          s3 = emit (EItemStarted turnId itemId UserMessage (if is_notice then Some [(''notice'', MBool True)] else None)) s2;
          atts = (case entry of None \<Rightarrow> [] | Some (_, e) \<Rightarrow> q_attachments e);
          s4 = emit (EItemCompleted ((bare_completed itemId Ok)
                 \<lparr>ic_text := Some text, ic_authority := (case entry of None \<Rightarrow> None | Some (_, e) \<Rightarrow> q_authority e),
                  ic_attachments := atts\<rparr>)) s3;
          s5 = emitQueue (set_queue (remove_positions (taken_positions took) q) s4);
          s6 = (case joined of None \<Rightarrow> s5 | Some n \<Rightarrow> out (NoticeTaken (o_id n)) s5);
          auth = (case entry of None \<Rightarrow> None
                  | Some (_, e) \<Rightarrow> if q_rides e then None
                                   else Some (itemId, orelse (q_authority e) (q_text e), q_notice e))
      in out (Reply h (RTaken (Some \<lparr>k_text = text, k_attachments = atts, k_authority = auth\<rparr>))) s6)"

definition onEngineQueue :: "env \<Rightarrow> string \<Rightarrow> bool \<Rightarrow> nat \<Rightarrow> actor \<Rightarrow> actor" where
  "onEngineQueue env turnId userOnly h s =
     (let nothing = out (Reply h (RTaken None)) in
      case a_active s of None \<Rightarrow> nothing s
      | Some t \<Rightarrow>
          if t_handedOff t then nothing s
          else if \<not> takes_queued turnId s then nothing s
          else if t_alone t \<and> userOnly then nothing s
          else
            let s1 = dropShown env s;
                entry = due_entry env userOnly (a_queue s1);
                rides = (case entry of None \<Rightarrow> True | Some (_, e) \<Rightarrow> q_rides e);
                outside = (if \<not> userOnly \<and> rides \<and> steerable env s1 then env_waiting env else None)
            in if entry = None \<and> outside = None then nothing s1
               else hand_over env turnId entry outside h s1)"

end
