(* ===== verification/PlanPolicy.thy ===== *)
theory PlanPolicy
  imports Prelude
begin

text \<open>
  Regular expressions as the sources use them (a backtracking matcher over character predicates, word boundaries
  included), and \<open>isPlanningOnlyPacket\<close> of \<open>packages/protocol/src/plan-policy.ts\<close>, which decides whether a
  plan's text forbids applying it.
\<close>

section \<open>A small regular expression matcher\<close>

datatype regex =
    Cls "char \<Rightarrow> bool" \<comment> \<open>one character of a class\<close>
  | Cat regex regex
  | Or regex regex
  | Maybe regex
  | Many "char \<Rightarrow> bool" \<comment> \<open>a class, any number of times\<close>
  | Eps
  | WordEdge

definition word_char :: "char \<Rightarrow> bool" where
  "word_char c \<longleftrightarrow> (let n = of_char c in
     (48 \<le> n \<and> n \<le> 57) \<or> (65 \<le> n \<and> n \<le> 90) \<or> (97 \<le> n \<and> n \<le> 122) \<or> n = (95 :: nat))"

definition at_edge :: "char option \<Rightarrow> string \<Rightarrow> bool" where
  "at_edge prev rest =
     ((case prev of None \<Rightarrow> False | Some c \<Rightarrow> word_char c) \<noteq> (case rest of [] \<Rightarrow> False | c # _ \<Rightarrow> word_char c))"

text \<open>The ways a class can repeat at the head of a text, longest first: what is left, and the character before it.\<close>

fun many_rests :: "(char \<Rightarrow> bool) \<Rightarrow> char option \<Rightarrow> string \<Rightarrow> (char option \<times> string) list" where
  "many_rests p prev [] = [(prev, [])]"
| "many_rests p prev (c # s) = (if p c then many_rests p (Some c) s @ [(prev, c # s)] else [(prev, c # s)])"

text \<open>All the rests a match at the head of the text can leave.\<close>

fun rests :: "regex \<Rightarrow> char option \<times> string \<Rightarrow> (char option \<times> string) list" where
  "rests (Cls p) (prev, s) = (case s of [] \<Rightarrow> [] | c # t \<Rightarrow> if p c then [(Some c, t)] else [])"
| "rests (Cat a b) ps = concat (map (rests b) (rests a ps))"
| "rests (Or a b) ps = rests a ps @ rests b ps"
| "rests (Maybe a) ps = rests a ps @ [ps]"
| "rests (Many p) (prev, s) = many_rests p prev s"
| "rests Eps ps = [ps]"
| "rests WordEdge (prev, s) = (if at_edge prev s then [(prev, s)] else [])"

text \<open>\<open>re.test(s)\<close>: a match at some position.\<close>

fun re_test_from :: "regex \<Rightarrow> char option \<Rightarrow> string \<Rightarrow> bool" where
  "re_test_from r prev [] = (rests r (prev, []) \<noteq> [])"
| "re_test_from r prev (c # s) = (rests r (prev, c # s) \<noteq> [] \<or> re_test_from r (Some c) s)"

definition re_test :: "regex \<Rightarrow> string \<Rightarrow> bool" where
  "re_test r s = re_test_from r None s"

text \<open>A literal under the \<open>i\<close> flag (ASCII letters).\<close>

definition ascii_lower :: "char \<Rightarrow> char" where
  "ascii_lower c = (let n = of_char c :: nat in if 65 \<le> n \<and> n \<le> 90 then char_of (n + 32) else c)"

fun lit_i :: "string \<Rightarrow> regex" where
  "lit_i [] = Eps"
| "lit_i (c # s) = Cat (Cls (\<lambda>d. ascii_lower d = ascii_lower c)) (lit_i s)"

fun one_of :: "regex list \<Rightarrow> regex" where
  "one_of [] = Cls (\<lambda>_. False)"
| "one_of [r] = r"
| "one_of (r # q # rs) = Or r (one_of (q # rs))"

fun cats :: "regex list \<Rightarrow> regex" where
  "cats [] = Eps"
| "cats (r # rs) = Cat r (cats rs)"

section \<open>Planning only\<close>

definition quote_opt :: regex where
  "quote_opt = Maybe (Cls (\<lambda>c. c = CHR 0x22 \<or> c = CHR 0x27))"

definition dash_like :: regex where
  "dash_like = Cls (\<lambda>c. c = CHR ''-'' \<or> c = CHR ''_'' \<or> c = CHR '' '')"

definition planning_re :: regex where
  "planning_re = one_of [
     cats [quote_opt, one_of [lit_i ''phase'', lit_i ''mode''], quote_opt, Many js_space, lit_i '':'', Many js_space,
           quote_opt, one_of [cats [lit_i ''plan'', Maybe (lit_i ''ner'')], lit_i ''spec''], WordEdge],
     cats [quote_opt, one_of [lit_i ''execute'', lit_i ''implementation'', lit_i ''allow_implementation''], quote_opt,
           Many js_space, lit_i '':'', Many js_space, lit_i ''false'', WordEdge],
     cats [lit_i ''plan'', dash_like, lit_i ''only''],
     cats [lit_i ''planning'', dash_like, lit_i ''only'']]"

definition isPlanningOnlyPacket :: "string \<Rightarrow> bool" where
  "isPlanningOnlyPacket markdown = re_test planning_re markdown"

text \<open>A match further on is still a match.\<close>

lemma re_test_from_append: "rests r (if s = [] then prev else Some (last s), t) \<noteq> [] \<Longrightarrow> re_test_from r prev (s @ t)"
  by (induction s arbitrary: prev) (cases t; auto split: if_splits)+

end
