(* ===== verification/ActorCommand.thy ===== *)
theory ActorCommand
  imports ActorEngine PlanPolicy
begin

text \<open>
  \<open>onCommand\<close> of the session actor: one definition per command of a client, each returning the answer and the new
  state, with the code's guards in the code's order. \<open>attempt\<close> is the sink's refusal of an event that is stored
  before anything changes.
\<close>

section \<open>Submitting\<close>

definition attempt :: "env \<Rightarrow> event \<Rightarrow> actor \<Rightarrow> actor_result option \<times> actor" where
  "attempt env e s =
     (case env_refuses env e of
        Some msg \<Rightarrow> (Some (Inl (InvalidCommand, NotStored msg)), s)
      | None \<Rightarrow> (None, emit e s))"

definition queue_full :: "actor \<Rightarrow> bool" where
  "queue_full s \<longleftrightarrow> MAX_QUEUE_ENTRIES \<le> length (a_queue s)"

definition queueFull :: actor_result where
  "queueFull = Inl (Busy, QueueFull)"

definition nonempty_options :: "string option \<Rightarrow> string option" where
  "nonempty_options opts = (case opts of None \<Rightarrow> None | Some t \<Rightarrow> if t = ''{}'' then None else Some t)"

definition folded_text :: "queue_entry list \<Rightarrow> string \<Rightarrow> string" where
  "folded_text waited text =
     ''[while the session was stopped, this happened]'' @ [CHR 0x0A]
     @ js_join JOINED_SEPARATOR (map q_text waited) @ JOINED_SEPARATOR
     @ ''[the user'' @ [CHR 0x27] @ ''s message]'' @ [CHR 0x0A] @ text"

definition submit_entry :: "string \<Rightarrow> queue_entry list \<Rightarrow> string \<Rightarrow> string list \<Rightarrow> string option \<Rightarrow> string option
    \<Rightarrow> string option \<Rightarrow> string option \<Rightarrow> string option \<Rightarrow> queue_entry" where
  "submit_entry i waited text atts display messageId selection opts authority =
     (let e = (plain_entry i text atts)
            \<lparr>q_authority := (if authority \<noteq> None \<and> authority \<noteq> Some text then authority else None),
             q_display := display, q_message := truthy messageId, q_selection := selection,
             q_options := nonempty_options opts\<rparr>
      in if waited = [] then e
         else e\<lparr>q_text := folded_text waited text, q_display := Some (orelse display text),
                q_authority := Some (orelse authority text)\<rparr>)"

definition submit_delivery :: "env \<Rightarrow> delivery option \<Rightarrow> actor \<Rightarrow> delivery option" where
  "submit_delivery env d s =
     (if d = Some DSteer
      then (if a_active s \<noteq> None then (if steerable env s then Some DSteer else Some DQueue) else None)
      else d)"

definition place_submitted :: "delivery option \<Rightarrow> queue_entry \<Rightarrow> queue_entry list \<Rightarrow> queue_entry list" where
  "place_submitted d e q =
     (if d = Some DSteer then placeSteered e q
      else if d = Some DRestart then e\<lparr>q_alone := True\<rparr> # q
      else q @ [e])"

text \<open>\<open>active && !active.cancelBy && !active.interruptReason\<close>\<close>

definition running :: "actor \<Rightarrow> bool" where
  "running s \<longleftrightarrow> (case a_active s of None \<Rightarrow> False | Some t \<Rightarrow> \<not> stopping t)"

definition user_submit :: "env \<Rightarrow> string \<Rightarrow> string list \<Rightarrow> string option \<Rightarrow> string option \<Rightarrow> string option
    \<Rightarrow> string option \<Rightarrow> delivery option \<Rightarrow> string option \<Rightarrow> actor \<Rightarrow> actor_result \<times> actor" where
  "user_submit env text atts display messageId selection opts d authority s =
     (if queue_full s then (queueFull, s)
      else
        let queueId = fresh_id env QueueId s;
            s1 = used_id s;
            delivery = submit_delivery env d s1;
            s2 = dropShown env s1;
            waited = (if a_held s2 then filter q_rides (a_queue s2) else []);
            e = submit_entry queueId waited text atts display messageId selection opts authority;
            (refused, s3) = attempt env (QueueAdded e) s2
        in case refused of
             Some r \<Rightarrow> (r, s3)
           | None \<Rightarrow>
               let s4 = (if waited = [] then s3 else set_queue (filter (\<lambda>x. \<not> q_rides x) (a_queue s3)) s3);
                   s5 = set_queue (place_submitted delivery (e\<lparr>q_delivery := delivery\<rparr>) (a_queue s4)) s4;
                   s6 = emitQueue (s5\<lparr>a_held := False\<rparr>);
                   interrupts = (delivery = Some DRestart \<or> (delivery = None \<and> env_queueMode env = Some Immediate));
                   s7 = (if interrupts \<and> \<not> a_paused s6 \<and> running s6 then cancel env ByPromotion s6 else s6)
               in (Inr (Submitted queueId (case d of None \<Rightarrow> None | Some d' \<Rightarrow> Some (orelse delivery d'))
                                  (delivery = Some DSteer)),
                   settleIdle env s7))"

definition user_shell :: "env \<Rightarrow> string \<Rightarrow> bool \<Rightarrow> string option \<Rightarrow> actor \<Rightarrow> actor_result \<times> actor" where
  "user_shell env command local messageId s =
     (if \<not> env_runShell env then (Inl (InvalidCommand, NoShell), s)
      else if queue_full s then (queueFull, s)
      else
        let queueId = fresh_id env QueueId s;
            e = (plain_entry queueId command [])\<lparr>q_shell := True, q_local := local, q_message := truthy messageId\<rparr>;
            (refused, s1) = attempt env (QueueAdded e) (used_id s)
        in case refused of
             Some r \<Rightarrow> (r, s1)
           | None \<Rightarrow>
               let s2 = set_queue (a_queue s1 @ [e]) s1;
                   s3 = emitQueue (s2\<lparr>a_held := False\<rparr>)
               in (Inr (QueuedAs queueId), settleIdle env s3))"

section \<open>The queue\<close>

definition not_queued :: actor_result where
  "not_queued = Inl (TargetMismatch, NotQueued)"

definition queue_promote :: "env \<Rightarrow> string \<Rightarrow> actor \<Rightarrow> actor_result \<times> actor" where
  "queue_promote env queueId s =
     (case entry_at queueId s of
        None \<Rightarrow> (not_queued, s)
      | Some i \<Rightarrow>
          let e = a_queue s ! i;
              s1 = set_queue (e\<lparr>q_alone := True\<rparr> # splice_out i (a_queue s)) s;
              s2 = emitQueue (s1\<lparr>a_held := False\<rparr>)
          in (Inr NoResult,
              case a_active s2 of
                None \<Rightarrow> settleIdle env s2
              | Some t \<Rightarrow>
                  if a_paused s2 \<or> stopping t then settleIdle env s2
                  else
                    let plain = (\<not> q_shell e \<and> \<not> q_compact e \<and> q_selection e = None \<and> q_options e = None \<and> \<not> q_notice e)
                    in if t_handedOff t then s2
                       else if plain \<and> t_phase t = PTurn \<and> t_sendNow t then
                         let s3 = out (SentNow (q_text e) (q_attachments e)) s2
                         in if env_sendNow env (q_text e) (q_attachments e) then upd_turn (\<lambda>t. t\<lparr>t_handedOff := True\<rparr>) s3
                            else cancel env ByPromotion s3
                       else cancel env ByPromotion s2))"

definition queue_remove :: "env \<Rightarrow> string \<Rightarrow> actor \<Rightarrow> actor_result \<times> actor" where
  "queue_remove env queueId s =
     (case entry_at queueId s of
        None \<Rightarrow> (not_queued, s)
      | Some i \<Rightarrow> (Inr NoResult, settleIdle env (emitQueue (set_queue (splice_out i (a_queue s)) s))))"

definition reorder_target :: "nat \<Rightarrow> nat \<Rightarrow> place \<Rightarrow> nat" where
  "reorder_target from final to =
     (let wanted = (case to of Up \<Rightarrow> int from - 1 | Down \<Rightarrow> int from + 1 | Top \<Rightarrow> 0 | Bottom \<Rightarrow> int final | At n \<Rightarrow> int n)
      in nat (max 0 (min (int final) wanted)))"

definition queue_reorder :: "string \<Rightarrow> place \<Rightarrow> actor \<Rightarrow> actor_result \<times> actor" where
  "queue_reorder queueId to s =
     (case entry_at queueId s of
        None \<Rightarrow> (not_queued, s)
      | Some i \<Rightarrow>
          let j = reorder_target i (length (a_queue s) - 1) to;
              s1 = (if j \<noteq> i then emitQueue (set_queue (splice_in j (a_queue s ! i) (splice_out i (a_queue s))) s) else s)
          in (Inr (Position j), s1))"

definition queue_edit :: "string \<Rightarrow> string \<Rightarrow> string \<Rightarrow> actor \<Rightarrow> actor_result \<times> actor" where
  "queue_edit queueId text clientId s =
     (case entry_at queueId s of
        None \<Rightarrow> (not_queued, s)
      | Some i \<Rightarrow>
          if \<not> editable (a_queue s ! i) then (Inl (InvalidCommand, NotEditable), s)
          else
            let s1 = set_queue ((a_queue s)[i := (a_queue s ! i)\<lparr>q_text := text\<rparr>]) s;
                s2 = emit (QueueEdited queueId text (Some clientId)) s1
            in (Inr NoResult, emitQueue s2))"

definition queue_steer :: "env \<Rightarrow> string \<Rightarrow> actor \<Rightarrow> actor_result \<times> actor" where
  "queue_steer env queueId s =
     (case entry_at queueId s of
        None \<Rightarrow> (not_queued, s)
      | Some i \<Rightarrow>
          let e = a_queue s ! i in
          if kindOf e \<noteq> KMessage then (Inl (InvalidCommand, NotSteerable), s)
          else if a_active s = None then
            let s1 = set_queue (e\<lparr>q_alone := True\<rparr> # splice_out i (a_queue s)) s
            in (Inr (Steered False), settleIdle env (emitQueue (s1\<lparr>a_held := False\<rparr>)))
          else if \<not> steerable env s then
            (Inr (Steered False), emitQueue (set_queue ((a_queue s)[i := e\<lparr>q_delivery := Some DQueue\<rparr>]) s))
          else
            let s1 = set_queue (placeSteered (e\<lparr>q_delivery := Some DSteer\<rparr>) (splice_out i (a_queue s))) s
            in (Inr (Steered True), emitQueue (s1\<lparr>a_held := False\<rparr>)))"

definition listed_of :: "queue_entry \<Rightarrow> listed" where
  "listed_of e = \<lparr>l_id = q_id e, l_kind = kindOf e, l_text = (if q_compact e then [] else q_text e),
     l_display = q_display e, l_attachments = length (q_attachments e), l_editable = editable e, l_delivery = q_delivery e\<rparr>"

definition queue_list :: "actor \<Rightarrow> actor_result" where
  "queue_list s = Inr (Listing (a_held s) (a_paused s) (map listed_of (a_queue s)))"

section \<open>Turns, requests and settings\<close>

definition turn_cancel :: "env \<Rightarrow> string \<Rightarrow> actor \<Rightarrow> actor_result \<times> actor" where
  "turn_cancel env turnId s =
     (case a_active s of
        None \<Rightarrow> (Inl (TargetMismatch, TurnNotActive), s)
      | Some t \<Rightarrow>
          if t_id t \<noteq> turnId then (Inl (TargetMismatch, TurnNotActive), s)
          else if stopping t then (Inr AlreadyStopping, s)
          else (Inr NoResult, cancel env ByUser (s\<lparr>a_held := True, a_heldRestart := False\<rparr>)))"

definition answers_ok :: "question_info list \<Rightarrow> decision \<Rightarrow> bool" where
  "answers_ok questions d =
     (case d of
        Answer _ (Some answers) \<Rightarrow>
          length answers = length questions \<and>
          list_all (\<lambda>(q, as). (qi_multiple q \<or> length as \<le> 1) \<and> distinct as \<and>
                      (qi_custom q = Some False \<longrightarrow> set as \<subseteq> set (qi_labels q)))
                   (zip questions answers)
      | _ \<Rightarrow> False)"

definition is_approve :: "decision \<Rightarrow> bool" where
  "is_approve d = (case d of Approve _ _ _ \<Rightarrow> True | _ \<Rightarrow> False)"

definition is_deny :: "decision \<Rightarrow> bool" where
  "is_deny d = (case d of Deny _ \<Rightarrow> True | _ \<Rightarrow> False)"

definition is_answer :: "decision \<Rightarrow> bool" where
  "is_answer d = (case d of Answer _ _ \<Rightarrow> True | _ \<Rightarrow> False)"

definition plan_decision :: "decision \<Rightarrow> plan_reply option" where
  "plan_decision d = (case d of PlanDecision r \<Rightarrow> Some r | _ \<Rightarrow> None)"

definition review_of :: "decision \<Rightarrow> plan_review option \<Rightarrow> plan_reply option" where
  "review_of d plan =
     (case d of PlanDecision r \<Rightarrow> Some r
      | _ \<Rightarrow> if plan = None then None
             else Some \<lparr>pa_action = (if is_approve d then PApply else PReject), pa_markdown = None, pa_comments = None,
                        pa_reason = (case d of Deny r \<Rightarrow> truthy r | _ \<Rightarrow> None), pa_destination = None,
                        pa_permission = None\<rparr>)"

definition planning_refused :: "decision \<Rightarrow> plan_review option \<Rightarrow> bool" where
  "planning_refused d plan \<longleftrightarrow>
     ((case plan of Some p \<Rightarrow> pr_phase p = PlanPhase | None \<Rightarrow> False)
      \<or> (case plan_decision d of Some r \<Rightarrow> (case truthy (pa_markdown r) of Some m \<Rightarrow> isPlanningOnlyPacket m | None \<Rightarrow> False)
         | None \<Rightarrow> False))
     \<and> (is_approve d \<or> (case plan_decision d of Some r \<Rightarrow> pa_action r = PApply | None \<Rightarrow> False))"

definition resolution_of :: "decision \<Rightarrow> plan_reply option \<Rightarrow> resolution_kind" where
  "resolution_of d review =
     (case review of
        Some r \<Rightarrow> (case pa_action r of PClose \<Rightarrow> RAbandoned | PReject \<Rightarrow> RDenied | PEdit \<Rightarrow> RAnswered | _ \<Rightarrow> RApproved)
      | None \<Rightarrow> if is_approve d then RApproved else if is_deny d then RDenied else RAnswered)"

text \<open>The guards of \<open>request.resolve\<close>, in order: what is wrong with a decision on a pending request.\<close>

definition resolve_refusal :: "turn \<Rightarrow> string \<Rightarrow> decision \<Rightarrow> (error_code \<times> actor_error_msg) option" where
  "resolve_refusal t requestId d =
     (let plan = map_of (t_plans t) requestId in
      if plan_decision d \<noteq> None \<and> plan = None then Some (TargetMismatch, NotPlanReview)
      else if plan \<noteq> None \<and> is_answer d then Some (InvalidCommand, NeedsReview)
      else if planning_refused d plan then Some (InvalidCommand, PlanningOnly)
      else case map_of (t_questions t) requestId of
             None \<Rightarrow> None
           | Some qs \<Rightarrow> if \<not> is_deny d \<and> \<not> answers_ok qs d then Some (InvalidCommand, AnswersMismatch) else None)"

definition request_resolve :: "string \<Rightarrow> decision \<Rightarrow> string \<Rightarrow> actor \<Rightarrow> actor_result \<times> actor" where
  "request_resolve requestId d clientId s =
     (case a_active s of
        None \<Rightarrow> (Inl (RequestAlreadyResolved, NotPending), s)
      | Some t \<Rightarrow> (case map_of (t_pending t) requestId of
          None \<Rightarrow> (Inl (RequestAlreadyResolved, NotPending), s)
        | Some p \<Rightarrow> (case resolve_refusal t requestId d of
            Some e \<Rightarrow> (Inl e, s)
          | None \<Rightarrow>
              let plan = map_of (t_plans t) requestId;
                  review = review_of d plan;
                  shown = map_option (\<lambda>r. r\<lparr>pa_destination :=
                            Some (orelse (pa_destination r) (case plan of Some q \<Rightarrow> pr_destination q | None \<Rightarrow> []))\<rparr>) review;
                  s1 = emit (RequestResolved requestId (resolution_of d review) shown (Some clientId))
                            (forget_request requestId s);
                  s2 = resolve_with p (Decided (case review of Some r \<Rightarrow> PlanDecision r | None \<Rightarrow> d)) s1
              in (Inr NoResult, if pending_empty s2 then setForeground FGenerating s2 else s2))))"

definition session_compact :: "env \<Rightarrow> string option \<Rightarrow> string option \<Rightarrow> actor \<Rightarrow> actor_result \<times> actor" where
  "session_compact env instructions selection s =
     (if queue_full s then (queueFull, s)
      else
        let queueId = fresh_id env QueueId s;
            e = (plain_entry queueId [] [])\<lparr>q_compact := True, q_instructions := truthy instructions, q_selection := selection\<rparr>;
            s1 = emit (QueueAdded e) (set_queue (a_queue s @ [e]) (used_id s));
            s2 = emitQueue (s1\<lparr>a_held := False\<rparr>)
        in (Inr (QueuedAs queueId), settleIdle env s2))"

definition permission_set :: "permission_mode \<Rightarrow> string \<Rightarrow> actor \<Rightarrow> actor_result \<times> actor" where
  "permission_set mode clientId s =
     (if mode = a_mode s then (Inr NoResult, s)
      else (Inr NoResult, emit (SessionPermission mode (Some clientId)) (s\<lparr>a_mode := mode\<rparr>)))"

definition compaction_set :: "string \<Rightarrow> string \<Rightarrow> actor \<Rightarrow> actor_result \<times> actor" where
  "compaction_set turnId text s =
     (case a_active s of
        None \<Rightarrow> (Inl (TargetMismatch, CompactionNotActive), s)
      | Some t \<Rightarrow> (case t_compaction t of
          None \<Rightarrow> (Inl (TargetMismatch, CompactionNotActive), s)
        | Some c \<Rightarrow>
            if t_id t \<noteq> turnId \<or> t_phase t \<noteq> PCompaction \<or> t_aborted t then (Inl (TargetMismatch, CompactionNotActive), s)
            else if c_followUp c = text then (Inr NoResult, s)
            else (Inr NoResult,
                  compactionUpdated Writing None None (upd_turn (\<lambda>t. t\<lparr>t_compaction := Some (c\<lparr>c_followUp := text\<rparr>)\<rparr>) s))))"

section \<open>The dispatch\<close>

definition onCommand :: "env \<Rightarrow> string \<Rightarrow> command \<Rightarrow> string option \<Rightarrow> actor \<Rightarrow> actor_result \<times> actor" where
  "onCommand env target c authority s =
     (if target \<noteq> env_session env then (Inl (UnknownSession, OtherSession), s)
      else case c of
        UserSubmit text atts display messageId selection opts d \<Rightarrow>
          user_submit env text atts display messageId selection opts d authority s
      | UserShell command local messageId \<Rightarrow> user_shell env command local messageId s
      | QueuePromote i \<Rightarrow> queue_promote env i s
      | QueueRemove i \<Rightarrow> queue_remove env i s
      | QueueReorder i to \<Rightarrow> queue_reorder i to s
      | QueueEdit i text clientId \<Rightarrow> queue_edit i text clientId s
      | QueueSteer i \<Rightarrow> queue_steer env i s
      | QueueList \<Rightarrow> (queue_list s, s)
      | TurnCancel i \<Rightarrow> turn_cancel env i s
      | RequestResolve i d clientId \<Rightarrow> request_resolve i d clientId s
      | SessionCompact instructions selection \<Rightarrow> session_compact env instructions selection s
      | PermissionSet mode clientId \<Rightarrow> permission_set mode clientId s
      | CompactionSet i text \<Rightarrow> compaction_set i text s)"

end
