(* ===== verification/SessionActor.thy ===== *)
theory SessionActor
  imports ActorCommand
begin

text \<open>
  The mailbox of the session actor: one handler per kind of message, the dispatch \<open>handleMessage\<close>, the loop that
  drains the mailbox, a disposed actor's answers, and the initial state with a restored queue
  (\<open>packages/kernel/src/session-actor.ts\<close>). Every mutation happens inside \<open>handleMessage\<close>, one message at a time.
\<close>

section \<open>Handlers\<close>

definition onInterrupt :: "env \<Rightarrow> interrupt_reason \<Rightarrow> bool \<Rightarrow> actor \<Rightarrow> actor" where
  "onInterrupt env reason cause s =
     (let s1 = s\<lparr>a_held := True, a_heldRestart := False\<rparr> in
      if running s1
      then stopTurn env (upd_turn (\<lambda>t. t\<lparr>t_interrupt := Some reason, t_cause := (cause \<or> t_cause t)\<rparr>) s1)
      else settleIdle env s1)"

definition onSteer :: "env \<Rightarrow> steering \<Rightarrow> actor \<Rightarrow> bool \<times> actor" where
  "onSteer env st s =
     (let ahead = (st_afterRestart st \<and> a_held s \<and> a_heldRestart s) in
      if a_active s \<noteq> None \<or> a_paused s \<or> (a_queue s \<noteq> [] \<and> \<not> ahead) \<or> (a_held s \<and> \<not> st_force st \<and> \<not> ahead)
      then (False, s)
      else
        let queueId = fresh_id env QueueId s;
            s1 = (used_id s)\<lparr>a_held := False\<rparr>;
            e = (plain_entry queueId (st_text st) [])\<lparr>q_steer := Some (st_label st, st_meta st)\<rparr>
        in (True, start env e [] s1))"

definition onCompactIdle :: "env \<Rightarrow> actor \<Rightarrow> bool \<times> actor" where
  "onCompactIdle env s =
     (if a_active s \<noteq> None \<or> a_queue s \<noteq> [] \<or> a_paused s then (False, s)
      else
        let queueId = fresh_id env QueueId s;
            e = (plain_entry queueId [] [])\<lparr>q_compact := True, q_idle := True\<rparr>
        in (True, start env e [] (used_id s)))"

definition onPause :: "env \<Rightarrow> bool \<Rightarrow> bool \<Rightarrow> actor \<Rightarrow> actor" where
  "onPause env value keepHeld s =
     (let changed = (a_paused s \<noteq> value);
          s1 = s\<lparr>a_paused := value\<rparr>;
          s2 = (if \<not> value \<and> \<not> keepHeld then s1\<lparr>a_held := False\<rparr> else s1);
          s3 = (if changed then out (OnPause value) s2 else s2)
      in if \<not> value then settleIdle env s3
         else if a_active s3 = None \<and> a_queue s3 \<noteq> [] then setForeground FQueued s3
         else s3)"

definition onRestartRelease :: "env \<Rightarrow> actor \<Rightarrow> bool \<times> actor" where
  "onRestartRelease env s =
     (if \<not> a_held s \<or> \<not> a_heldRestart s \<or> a_paused s then (False, s)
      else (True, settleIdle env (s\<lparr>a_held := False, a_heldRestart := False\<rparr>)))"

text \<open>The position of a queued notice that a notice with the same queue id rewrites in place.\<close>

definition queued_notice :: "notice \<Rightarrow> actor \<Rightarrow> nat option" where
  "queued_notice n s =
     (case truthy (n_queueId n) of
        None \<Rightarrow> None
      | Some i \<Rightarrow> if n_idleOnly n \<or> n_recordOnly n then None
                  else find_index (\<lambda>e. q_id e = i \<and> q_notice e) (a_queue s))"

definition notice_refused :: "notice \<Rightarrow> actor \<Rightarrow> bool" where
  "notice_refused n s \<longleftrightarrow>
     (n_idleOnly n \<and> (a_active s \<noteq> None \<or> a_held s \<or> a_paused s \<or> a_queue s \<noteq> [])) \<or> queue_full s"

definition NO_REPLY :: string where
  "NO_REPLY = ''{'' @ [CHR 0x22] @ ''noReply'' @ [CHR 0x22] @ '':true}''"

definition notice_delivery :: "env \<Rightarrow> notice \<Rightarrow> actor \<Rightarrow> delivery option" where
  "notice_delivery env n s =
     (if n_delivery n = Some DSteer
      then (if a_active s \<noteq> None
            then (if steerable env s then Some DSteer else if n_rides n then None else Some DQueue)
            else None)
      else n_delivery n)"

definition onNotice :: "env \<Rightarrow> notice \<Rightarrow> actor \<Rightarrow> string option \<times> actor" where
  "onNotice env n s =
     (case queued_notice n s of
        Some i \<Rightarrow>
          let e = a_queue s ! i;
              s1 = set_queue ((a_queue s)[i := e\<lparr>q_text := n_text n\<rparr>]) s
          in (Some (q_id e), emitQueue (emit (QueueEdited (q_id e) (n_text n) None) s1))
      | None \<Rightarrow>
          if notice_refused n s then (None, s)
          else
            let queueId = (case n_queueId n of Some i \<Rightarrow> i | None \<Rightarrow> fresh_id env QueueId s);
                s1 = (case n_queueId n of Some _ \<Rightarrow> s | None \<Rightarrow> used_id s);
                joins_turn = (n_delivery n = Some DSteer \<and> n_rides n);
                delivery = notice_delivery env n s1;
                stored = (plain_entry queueId (n_text n) [])
                           \<lparr>q_notice := True, q_options := (if n_recordOnly n then Some NO_REPLY else None)\<rparr>;
                e = stored\<lparr>q_delivery := delivery, q_rides := n_rides n,
                           q_at := (if n_rides n then env_now env else 0), q_unless := n_unless n\<rparr>;
                s2 = set_queue (if delivery = Some DSteer \<and> \<not> joins_turn then placeSteered e (a_queue s1)
                                else a_queue s1 @ [e]) s1;
                s3 = emitQueue (emit (QueueAdded stored) s2)
            in (Some queueId, settleIdle env s3))"

section \<open>The dispatch and the mailbox\<close>

definition handleMessage :: "env \<Rightarrow> message \<Rightarrow> actor \<Rightarrow> actor" where
  "handleMessage env m s =
     (case m of
        MCommand target c authority h \<Rightarrow>
          (let (r, s1) = onCommand env target c authority s in out (Reply h (RCommand r)) s1)
      | MInterrupt reason cause h \<Rightarrow> out (Reply h RVoid) (onInterrupt env reason cause s)
      | MEngineEvent turnId ev \<Rightarrow> onEngineEvent env turnId ev s
      | MAgentEvent turnId ev \<Rightarrow> onAgentEvent turnId ev s
      | MEngineRequest turnId rq h \<Rightarrow> onEngineRequest env turnId rq h s
      | MEngineDone turnId p outcome \<Rightarrow> onEngineDone env turnId p outcome s
      | MEnginePermission turnId mode \<Rightarrow> onEnginePermission turnId mode s
      | MRequestCancel turnId requestId \<Rightarrow> onRequestCancel turnId requestId s
      | MNotice n h \<Rightarrow> (let (i, s1) = onNotice env n s in out (Reply h (RQueueId i)) s1)
      | MSteer st h \<Rightarrow> (let (b, s1) = onSteer env st s in out (Reply h (RBool b)) s1)
      | MCompactIdle h \<Rightarrow> (let (b, s1) = onCompactIdle env s in out (Reply h (RBool b)) s1)
      | MPause value keepHeld h \<Rightarrow> out (Reply h (RBool value)) (onPause env value keepHeld s)
      | MRestartRelease h \<Rightarrow> (let (b, s1) = onRestartRelease env s in out (Reply h (RBool b)) s1)
      | MEngineQueue turnId userOnly h \<Rightarrow> onEngineQueue env turnId userOnly h s)"

text \<open>How a disposed actor answers a message.\<close>

definition answer_disposed :: "message \<Rightarrow> actor \<Rightarrow> actor" where
  "answer_disposed m s =
     (case m of
        MCommand target c authority h \<Rightarrow> out (Reply h (RCommand (Inl (UnknownSession, SessionDisposed)))) s
      | MInterrupt reason cause h \<Rightarrow> out (Reply h RVoid) s
      | MPause value keepHeld h \<Rightarrow> out (Reply h (RBool False)) s
      | MEngineRequest turnId rq h \<Rightarrow> out (Resolve h Abandoned) s
      | MNotice n h \<Rightarrow> out (Reply h (RQueueId None)) s
      | MSteer st h \<Rightarrow> out (Reply h (RBool False)) s
      | MCompactIdle h \<Rightarrow> out (Reply h (RBool False)) s
      | MRestartRelease h \<Rightarrow> out (Reply h (RBool False)) s
      | MEngineQueue turnId userOnly h \<Rightarrow> out (Reply h (RTaken None)) s
      | MEngineEvent _ _ \<Rightarrow> s
      | MAgentEvent _ _ \<Rightarrow> s
      | MEngineDone _ _ _ \<Rightarrow> s
      | MEnginePermission _ _ \<Rightarrow> s
      | MRequestCancel _ _ \<Rightarrow> s)"

definition post :: "message \<Rightarrow> actor \<Rightarrow> actor" where
  "post m s = (if a_disposed s then answer_disposed m s else s\<lparr>a_mailbox := a_mailbox s @ [m]\<rparr>)"

text \<open>\<open>drain\<close> handles what the mailbox holds when it runs, each message with the environment of its moment. The
  handlers of the model post nothing: what an engine posts while it is called is a later message.\<close>

fun drain_list :: "(env \<times> message) list \<Rightarrow> actor \<Rightarrow> actor" where
  "drain_list [] s = s"
| "drain_list ((env, m) # ms) s = drain_list ms (handleMessage env m s)"

definition drain :: "(nat \<Rightarrow> env) \<Rightarrow> actor \<Rightarrow> actor" where
  "drain envs s = drain_list (map (\<lambda>(i, m). (envs i, m)) (enumerate 0 (a_mailbox s))) (s\<lparr>a_mailbox := []\<rparr>)"

fun abandon_promises :: "(nat \<times> bool) list \<Rightarrow> actor \<Rightarrow> actor" where
  "abandon_promises [] s = s"
| "abandon_promises (p # ps) s = abandon_promises ps (resolve_with p Abandoned s)"

fun answer_all :: "message list \<Rightarrow> actor \<Rightarrow> actor" where
  "answer_all [] s = s"
| "answer_all (m # ms) s = answer_all ms (answer_disposed m s)"

definition dispose :: "actor \<Rightarrow> actor" where
  "dispose s =
     (let s1 = s\<lparr>a_disposed := True\<rparr>;
          s2 = (case a_active s1 of None \<Rightarrow> s1
                | Some t \<Rightarrow> abandon_promises (map snd (t_pending t))
                              (out (Abort (t_id t)) (upd_turn (\<lambda>t. t\<lparr>t_aborted := True\<rparr>) s1)));
          left = a_mailbox s2
      in answer_all left (s2\<lparr>a_mailbox := []\<rparr>))"

definition createSessionActor :: "queue_entry list \<Rightarrow> permission_mode \<Rightarrow> actor" where
  "createSessionActor restored mode =
     (let s = \<lparr>a_queue = restored, a_foreground = FIdle, a_active = None, a_held = (restored \<noteq> []),
               a_heldRestart = (restored \<noteq> []), a_paused = False, a_mode = mode, a_agentItems = [], a_issued = 0,
               a_disposed = False, a_mailbox = [], a_log = []\<rparr>
      in if restored \<noteq> [] then setForeground FQueued s else s)"

text \<open>A session's life: the actor created with a restored queue, then messages handled one after another. Engines
  may register how they take a promoted message at any time of their turn.\<close>

datatype actor_step = Handle env message | RegisterSendNow

fun actor_run :: "actor_step list \<Rightarrow> actor \<Rightarrow> actor" where
  "actor_run [] s = s"
| "actor_run (Handle env m # ms) s = actor_run ms (handleMessage env m s)"
| "actor_run (RegisterSendNow # ms) s = actor_run ms (onSendNow s)"

end
