(* ===== verification/ActorInvariant.thy ===== *)
theory ActorInvariant
  imports SessionActor
begin

text \<open>
  What the session actor keeps true, whatever messages arrive in whatever order. Four monitors read the log of what
  the actor sent out: turns as the clients see them (\<open>turn_scan\<close>), the engine's owner (\<open>owner_scan\<close>), open
  transcript items (\<open>item_scan\<close>) and requests waiting for an answer (\<open>request_scan\<close>). The invariant ties each
  to the actor's fields; the theorems about runs follow.
\<close>

section \<open>Monitors of the log\<close>

text \<open>The turn a client sees running: a turn starts only when none runs, and ends once. \<open>None\<close> is a violation.\<close>

definition turn_step :: "string option \<Rightarrow> effect \<Rightarrow> string option option" where
  "turn_step c x =
     (case x of
        Emit ev \<Rightarrow>
          (case ev of
             TurnStarted i _ _ \<Rightarrow> if c = None then Some (Some i) else None
           | TurnCompleted i \<Rightarrow> if c = Some i then Some None else None
           | TurnCancelled i _ \<Rightarrow> if c = Some i then Some None else None
           | TurnInterrupted i _ _ \<Rightarrow> if c = Some i then Some None else None
           | TurnFailed i _ _ \<Rightarrow> if c = Some i then Some None else None
           | _ \<Rightarrow> Some c)
      | _ \<Rightarrow> Some c)"

definition turn_scan :: "effect list \<Rightarrow> string option option" where
  "turn_scan xs = foldl (\<lambda>acc x. Option.bind acc (\<lambda>c. turn_step c x)) (Some None) xs"

text \<open>The turn the engine works for: it is called for one turn at a time, and for the next one only after the
  turn before was disposed.\<close>

definition call_turn :: "engine_call \<Rightarrow> string" where
  "call_turn c = (case c of RunTurn i \<Rightarrow> ti_turn i | RunShell i \<Rightarrow> ti_turn i | Compact t _ _ _ \<Rightarrow> t)"

definition owner_step :: "string option \<Rightarrow> effect \<Rightarrow> string option option" where
  "owner_step c x =
     (case x of
        CallEngine k \<Rightarrow> if c = None \<or> c = Some (call_turn k) then Some (Some (call_turn k)) else None
      | DisposeTurn i \<Rightarrow> if c = Some i then Some None else None
      | _ \<Rightarrow> Some c)"

definition owner_scan :: "effect list \<Rightarrow> string option option" where
  "owner_scan xs = foldl (\<lambda>acc x. Option.bind acc (\<lambda>c. owner_step c x)) (Some None) xs"

text \<open>Items started and not completed.\<close>

definition item_step :: "string set \<Rightarrow> effect \<Rightarrow> string set" where
  "item_step c x =
     (case x of
        Emit ev \<Rightarrow> (case ev of EItemStarted _ i _ _ \<Rightarrow> insert i c | EItemCompleted k \<Rightarrow> c - {ic_item k} | _ \<Rightarrow> c)
      | _ \<Rightarrow> c)"

definition item_scan :: "effect list \<Rightarrow> string set" where
  "item_scan xs = foldl item_step {} xs"

text \<open>Requests shown to the clients and not resolved.\<close>

definition request_step :: "string set \<Rightarrow> effect \<Rightarrow> string set" where
  "request_step c x =
     (case x of
        Emit ev \<Rightarrow> (case ev of ServerRequest r \<Rightarrow> insert (sr_id r) c | RequestResolved i _ _ _ \<Rightarrow> c - {i} | _ \<Rightarrow> c)
      | _ \<Rightarrow> c)"

definition request_scan :: "effect list \<Rightarrow> string set" where
  "request_scan xs = foldl request_step {} xs"

named_theorems scan_simps \<open>what one effect does to a monitor\<close>

lemmas [scan_simps] = turn_step_def owner_step_def item_step_def request_step_def

lemma turn_scan_Nil [simp]: "turn_scan [] = Some None" by (simp add: turn_scan_def)
lemma owner_scan_Nil [simp]: "owner_scan [] = Some None" by (simp add: owner_scan_def)
lemma item_scan_Nil [simp]: "item_scan [] = {}" by (simp add: item_scan_def)
lemma request_scan_Nil [simp]: "request_scan [] = {}" by (simp add: request_scan_def)

lemma turn_scan_append [simp]:
  "turn_scan (xs @ ys) = foldl (\<lambda>acc x. Option.bind acc (\<lambda>c. turn_step c x)) (turn_scan xs) ys"
  by (simp add: turn_scan_def)
lemma owner_scan_append [simp]:
  "owner_scan (xs @ ys) = foldl (\<lambda>acc x. Option.bind acc (\<lambda>c. owner_step c x)) (owner_scan xs) ys"
  by (simp add: owner_scan_def)
lemma item_scan_append [simp]: "item_scan (xs @ ys) = foldl item_step (item_scan xs) ys"
  by (simp add: item_scan_def)
lemma request_scan_append [simp]: "request_scan (xs @ ys) = foldl request_step (request_scan xs) ys"
  by (simp add: request_scan_def)

section \<open>The invariant\<close>

text \<open>What a turn's fields keep true between each other.\<close>

definition turn_ok :: "turn \<Rightarrow> bool" where
  "turn_ok t \<longleftrightarrow> (t_aborted t = stopping t) \<and> (t_aborted t \<longrightarrow> t_pending t = []) \<and>
     (t_cancelBy t \<noteq> None \<longrightarrow> t_open t = [])"

definition open_items :: "actor \<Rightarrow> string set" where
  "open_items s = (case a_active s of None \<Rightarrow> {} | Some t \<Rightarrow> set (t_open t)) \<union> set (a_agentItems s)"

definition open_requests :: "actor \<Rightarrow> string set" where
  "open_requests s = (case a_active s of None \<Rightarrow> {} | Some t \<Rightarrow> fst ` set (t_pending t))"

definition scans_ok :: "actor \<Rightarrow> bool" where
  "scans_ok s \<longleftrightarrow> turn_scan (a_log s) = Some (live_turn s) \<and>
     owner_scan (a_log s) = Some (map_option t_id (a_active s)) \<and>
     item_scan (a_log s) \<subseteq> open_items s \<and> request_scan (a_log s) \<subseteq> open_requests s \<and>
     (\<forall>t. a_active s = Some t \<longrightarrow> turn_ok t)"

text \<open>The foreground says idle, queued or error exactly when the clients see no turn running; an idle session has
  nothing queued.\<close>

definition fg_ok :: "actor \<Rightarrow> bool" where
  "fg_ok s \<longleftrightarrow> (a_foreground s \<in> {FIdle, FQueued, FError} \<longleftrightarrow> live_turn s = None) \<and>
     a_foreground s \<noteq> FCancelling \<and> (a_foreground s = FIdle \<longrightarrow> a_queue s = [])"

text \<open>A free session, neither held nor paused, never sits on a queue.\<close>

definition free_ok :: "actor \<Rightarrow> bool" where
  "free_ok s \<longleftrightarrow> (a_active s = None \<and> \<not> a_held s \<and> \<not> a_paused s \<longrightarrow> a_queue s = [])"

definition actor_inv :: "actor \<Rightarrow> bool" where
  "actor_inv s \<longleftrightarrow> scans_ok s \<and> fg_ok s \<and> free_ok s"

lemmas inv_defs = actor_inv_def scans_ok_def fg_ok_def free_ok_def open_items_def open_requests_def live_turn_def

section \<open>Operations the monitors do not see\<close>

lemma quiet_setForeground [simp]:
  "turn_scan (a_log (setForeground f s)) = turn_scan (a_log s)"
  "owner_scan (a_log (setForeground f s)) = owner_scan (a_log s)"
  "item_scan (a_log (setForeground f s)) = item_scan (a_log s)"
  "request_scan (a_log (setForeground f s)) = request_scan (a_log s)"
  by (simp_all add: setForeground_def Let_def scan_simps)

lemma quiet_emitQueue [simp]:
  "turn_scan (a_log (emitQueue s)) = turn_scan (a_log s)"
  "owner_scan (a_log (emitQueue s)) = owner_scan (a_log s)"
  "item_scan (a_log (emitQueue s)) = item_scan (a_log s)"
  "request_scan (a_log (emitQueue s)) = request_scan (a_log s)"
  by (simp_all add: emitQueue_def scan_simps)

lemma quiet_dropShown [simp]:
  "turn_scan (a_log (dropShown env s)) = turn_scan (a_log s)"
  "owner_scan (a_log (dropShown env s)) = owner_scan (a_log s)"
  "item_scan (a_log (dropShown env s)) = item_scan (a_log s)"
  "request_scan (a_log (dropShown env s)) = request_scan (a_log s)"
  by (simp_all add: dropShown_def)

lemma quiet_compactionUpdated [simp]:
  "turn_scan (a_log (compactionUpdated st f n s)) = turn_scan (a_log s)"
  "owner_scan (a_log (compactionUpdated st f n s)) = owner_scan (a_log s)"
  "item_scan (a_log (compactionUpdated st f n s)) = item_scan (a_log s)"
  "request_scan (a_log (compactionUpdated st f n s)) = request_scan (a_log s)"
  by (simp_all add: compactionUpdated_def scan_simps split: option.splits)

lemma compactionUpdated_frame [simp]:
  "a_queue (compactionUpdated st f n s) = a_queue s" "a_foreground (compactionUpdated st f n s) = a_foreground s"
  "a_active (compactionUpdated st f n s) = a_active s"
  "a_held (compactionUpdated st f n s) = a_held s" "a_heldRestart (compactionUpdated st f n s) = a_heldRestart s"
  "a_paused (compactionUpdated st f n s) = a_paused s"
  "a_mode (compactionUpdated st f n s) = a_mode s" "a_agentItems (compactionUpdated st f n s) = a_agentItems s"
  by (simp_all add: compactionUpdated_def split: option.splits)

lemma run_frame [simp]:
  "a_queue (run p c s) = a_queue s" "a_foreground (run p c s) = a_foreground s"
  "a_active (run p c s) = map_option (\<lambda>t. t\<lparr>t_phase := p\<rparr>) (a_active s)"
  "a_held (run p c s) = a_held s" "a_heldRestart (run p c s) = a_heldRestart s"
  "a_paused (run p c s) = a_paused s" "a_mode (run p c s) = a_mode s" "a_agentItems (run p c s) = a_agentItems s"
  "turn_scan (a_log (run p c s)) = turn_scan (a_log s)"
  "item_scan (a_log (run p c s)) = item_scan (a_log s)"
  "request_scan (a_log (run p c s)) = request_scan (a_log s)"
  by (simp_all add: run_def scan_simps)

lemma owner_run: "owner_scan (a_log (run p c s)) = Option.bind (owner_scan (a_log s)) (\<lambda>o1. owner_step o1 (CallEngine c))"
  by (simp add: run_def)

lemma emit_joined_frame [simp]:
  "a_queue (emit_joined env i es s) = a_queue s" "a_foreground (emit_joined env i es s) = a_foreground s"
  "a_active (emit_joined env i es s) = a_active s"
  "a_held (emit_joined env i es s) = a_held s" "a_heldRestart (emit_joined env i es s) = a_heldRestart s"
  "a_paused (emit_joined env i es s) = a_paused s" "a_mode (emit_joined env i es s) = a_mode s"
  "a_agentItems (emit_joined env i es s) = a_agentItems s"
  "turn_scan (a_log (emit_joined env i es s)) = turn_scan (a_log s)"
  "owner_scan (a_log (emit_joined env i es s)) = owner_scan (a_log s)"
  "request_scan (a_log (emit_joined env i es s)) = request_scan (a_log s)"
  by (induction es arbitrary: s) (simp_all add: Let_def scan_simps split: option.splits)

lemma emit_joined_items: "item_scan (a_log (emit_joined env i es s)) \<subseteq> item_scan (a_log s)"
proof (induction es arbitrary: s)
  case Nil
  then show ?case by simp
next
  case (Cons e es)
  show ?case
    by (cases "q_message e"; simp add: Let_def; rule order_trans [OF Cons.IH])
      (auto simp: scan_simps bare_completed_def)
qed

section \<open>Starting\<close>

lemma start_compaction_frame [simp]:
  "a_queue (start_compaction i e s) = a_queue s" "a_foreground (start_compaction i e s) = FCompacting"
  "a_held (start_compaction i e s) = a_held s" "a_paused (start_compaction i e s) = a_paused s"
  "a_heldRestart (start_compaction i e s) = a_heldRestart s"
  "a_mode (start_compaction i e s) = a_mode s" "a_agentItems (start_compaction i e s) = a_agentItems s"
  "turn_scan (a_log (start_compaction i e s)) = turn_scan (a_log s)"
  "item_scan (a_log (start_compaction i e s)) = item_scan (a_log s)"
  "request_scan (a_log (start_compaction i e s)) = request_scan (a_log s)"
  by (simp_all add: start_compaction_def Let_def)

lemma start_message_frame [simp]:
  "a_queue (start_message env i e js s) = a_queue s"
  "a_foreground (start_message env i e js s) = (if q_shell e then FTool else FGenerating)"
  "a_held (start_message env i e js s) = a_held s" "a_paused (start_message env i e js s) = a_paused s"
  "a_heldRestart (start_message env i e js s) = a_heldRestart s"
  "a_mode (start_message env i e js s) = a_mode s" "a_agentItems (start_message env i e js s) = a_agentItems s"
  "turn_scan (a_log (start_message env i e js s)) = turn_scan (a_log s)"
  "request_scan (a_log (start_message env i e js s)) = request_scan (a_log s)"
  by (simp_all add: start_message_def Let_def scan_simps split: option.splits)

lemma start_message_items: "item_scan (a_log (start_message env i e js s)) \<subseteq> item_scan (a_log s)"
proof -
  have "item_scan (a_log (emit_joined env i js s')) \<subseteq> item_scan (a_log s)"
    if "item_scan (a_log s') \<subseteq> item_scan (a_log s)" for s'
    using emit_joined_items [of env i js s'] that by blast
  then show ?thesis
    by (auto simp: start_message_def Let_def scan_simps user_completed_def bare_completed_def split: option.splits)
qed

lemma start_frame [simp]:
  "a_queue (start env e js s) = a_queue s"
  "a_foreground (start env e js s) = (if q_compact e then FCompacting else if q_shell e then FTool else FGenerating)"
  "a_held (start env e js s) = a_held s" "a_paused (start env e js s) = a_paused s"
  "a_heldRestart (start env e js s) = a_heldRestart s"
  "a_mode (start env e js s) = a_mode s" "a_agentItems (start env e js s) = a_agentItems s"
  "request_scan (a_log (start env e js s)) = request_scan (a_log s)"
  by (simp_all add: start_def Let_def scan_simps)

lemma start_active:
  "\<exists>t. a_active (start env e js s) = Some t \<and> t_id t = fresh_id env TurnId s \<and> t_open t = [] \<and> t_pending t = [] \<and>
       \<not> t_aborted t \<and> \<not> stopping t \<and> t_cancelBy t = None"
  by (simp add: start_def Let_def start_compaction_def start_message_def new_turn_def stopping_def split: option.splits)

lemma start_log:
  assumes "turn_scan (a_log s) = Some None" and "owner_scan (a_log s) = Some None"
  shows "turn_scan (a_log (start env e js s)) = Some (Some (fresh_id env TurnId s))"
    and "owner_scan (a_log (start env e js s)) = Some (Some (fresh_id env TurnId s))"
    and "item_scan (a_log (start env e js s)) \<subseteq> item_scan (a_log s)"
proof -
  show "turn_scan (a_log (start env e js s)) = Some (Some (fresh_id env TurnId s))"
    by (simp add: start_def Let_def scan_simps assms)
  show "owner_scan (a_log (start env e js s)) = Some (Some (fresh_id env TurnId s))"
    by (simp add: start_def Let_def start_compaction_def start_message_def owner_run scan_simps assms
        call_turn_def turn_input_of_def split: option.splits)
  have "item_scan (a_log (start_message env i e js s')) \<subseteq> item_scan (a_log s)"
    if "item_scan (a_log s') = item_scan (a_log s)" for i s'
    using start_message_items [of env i e js s'] that by simp
  then show "item_scan (a_log (start env e js s)) \<subseteq> item_scan (a_log s)"
    by (auto simp: start_def Let_def scan_simps split: if_splits)
qed

lemma start_inv:
  assumes "a_active s = None" and "scans_ok s"
  shows "actor_inv (start env e js s)"
proof -
  from start_active [of env e js s] obtain t where
    t: "a_active (start env e js s) = Some t" "t_id t = fresh_id env TurnId s" "t_open t = []" "t_pending t = []"
      "\<not> t_aborted t" "\<not> stopping t" "t_cancelBy t = None" by blast
  from assms have "turn_scan (a_log s) = Some None" "owner_scan (a_log s) = Some None"
    "item_scan (a_log s) \<subseteq> set (a_agentItems s)" "request_scan (a_log s) = {}"
    by (auto simp: inv_defs)
  note l = start_log [OF this(1,2), of env e js] this(3,4)
  show ?thesis
    using t l by (auto simp: inv_defs turn_ok_def)
qed

section \<open>Settling, stopping and finishing\<close>

lemma scans_ok_setForeground [simp]: "scans_ok (setForeground f s) = scans_ok s"
  by (simp add: inv_defs)

lemma scans_ok_dropShown [simp]: "scans_ok (dropShown env s) = scans_ok s"
  by (simp add: inv_defs)

lemma scans_ok_emitQueue [simp]: "scans_ok (emitQueue s) = scans_ok s"
  by (simp add: inv_defs)

lemma scans_ok_set_queue [simp]: "scans_ok (set_queue q s) = scans_ok s"
  by (simp add: inv_defs)

lemma scans_ok_used_id [simp]: "scans_ok (used_id s) = scans_ok s"
  by (simp add: inv_defs)

lemma scans_ok_updates [simp]:
  "scans_ok (s\<lparr>a_held := b\<rparr>) = scans_ok s" "scans_ok (s\<lparr>a_paused := b\<rparr>) = scans_ok s"
  "scans_ok (s\<lparr>a_heldRestart := b\<rparr>) = scans_ok s" "scans_ok (s\<lparr>a_mode := m\<rparr>) = scans_ok s"
  by (simp_all add: inv_defs)

lemma settleIdle_active: "a_active s = Some t \<Longrightarrow> t_cancelBy t = None \<Longrightarrow> settleIdle env s = s"
  by (simp add: settleIdle_def)

lemma settleIdle_inv:
  assumes ok: "scans_ok s" and fg: "live_turn s \<noteq> None \<Longrightarrow> fg_ok s"
  shows "actor_inv (settleIdle env s)"
proof (cases "a_active s")
  case (Some t)
  show ?thesis
  proof (cases "t_cancelBy t")
    case None
    with Some have "settleIdle env s = s" by (simp add: settleIdle_active)
    with ok fg None Some show ?thesis by (auto simp: actor_inv_def free_ok_def live_turn_def)
  next
    case (Some by_whom)
    with \<open>a_active s = Some t\<close> ok show ?thesis
      by (auto simp: settleIdle_def actor_inv_def fg_ok_def free_ok_def live_turn_def)
  qed
next
  case None
  let ?s1 = "dropShown env s"
  show ?thesis
  proof (cases "a_held s \<or> a_paused s")
    case True
    with None ok show ?thesis
      by (auto simp: settleIdle_def Let_def actor_inv_def fg_ok_def free_ok_def live_turn_def)
  next
    case False
    show ?thesis
    proof (cases "a_queue ?s1")
      case Nil
      with None False ok show ?thesis
        by (simp add: settleIdle_def Let_def actor_inv_def fg_ok_def free_ok_def live_turn_def)
    next
      case (Cons next_entry rest)
      have "actor_inv (start env next_entry (joining next_entry rest)
              (set_queue (drop (length (joining next_entry rest)) rest) ?s1))"
        by (rule start_inv) (simp_all add: None ok)
      with None False Cons show ?thesis
        by (simp add: settleIdle_def Let_def)
    qed
  qed
qed

lemma abandon_each_frame [simp]:
  "a_queue (abandon_each ps t s) = a_queue s" "a_foreground (abandon_each ps t s) = a_foreground s"
  "a_active (abandon_each ps t s) = a_active s"
  "a_held (abandon_each ps t s) = a_held s" "a_heldRestart (abandon_each ps t s) = a_heldRestart s"
  "a_paused (abandon_each ps t s) = a_paused s" "a_mode (abandon_each ps t s) = a_mode s"
  "a_agentItems (abandon_each ps t s) = a_agentItems s"
  "turn_scan (a_log (abandon_each ps t s)) = turn_scan (a_log s)"
  "owner_scan (a_log (abandon_each ps t s)) = owner_scan (a_log s)"
  "item_scan (a_log (abandon_each ps t s)) = item_scan (a_log s)"
  "request_scan (a_log (abandon_each ps t s)) = request_scan (a_log s) - fst ` set ps"
  by (induction ps t s rule: abandon_each.induct) (auto simp: Let_def scan_simps)

lemma abandonPending_frame [simp]:
  "a_queue (abandonPending s) = a_queue s" "a_foreground (abandonPending s) = a_foreground s"
  "a_active (abandonPending s) = map_option (\<lambda>t. t\<lparr>t_pending := []\<rparr>) (a_active s)"
  "a_held (abandonPending s) = a_held s" "a_heldRestart (abandonPending s) = a_heldRestart s"
  "a_paused (abandonPending s) = a_paused s" "a_mode (abandonPending s) = a_mode s"
  "a_agentItems (abandonPending s) = a_agentItems s"
  "turn_scan (a_log (abandonPending s)) = turn_scan (a_log s)"
  "owner_scan (a_log (abandonPending s)) = owner_scan (a_log s)"
  "item_scan (a_log (abandonPending s)) = item_scan (a_log s)"
  "request_scan (a_log (abandonPending s)) = request_scan (a_log s) - open_requests s"
  by (simp_all add: abandonPending_def open_requests_def split: option.splits)

lemma complete_each_frame [simp]:
  "a_queue (complete_each st is s) = a_queue s" "a_foreground (complete_each st is s) = a_foreground s"
  "a_active (complete_each st is s) = a_active s"
  "a_held (complete_each st is s) = a_held s" "a_heldRestart (complete_each st is s) = a_heldRestart s"
  "a_paused (complete_each st is s) = a_paused s" "a_mode (complete_each st is s) = a_mode s"
  "a_agentItems (complete_each st is s) = a_agentItems s"
  "turn_scan (a_log (complete_each st is s)) = turn_scan (a_log s)"
  "owner_scan (a_log (complete_each st is s)) = owner_scan (a_log s)"
  "item_scan (a_log (complete_each st is s)) = item_scan (a_log s) - set is"
  "request_scan (a_log (complete_each st is s)) = request_scan (a_log s)"
  by (induction st "is" s rule: complete_each.induct) (auto simp: scan_simps bare_completed_def)

lemma closeOpenItems_frame [simp]:
  "a_queue (closeOpenItems st s) = a_queue s" "a_foreground (closeOpenItems st s) = a_foreground s"
  "a_active (closeOpenItems st s) = map_option (\<lambda>t. t\<lparr>t_open := [], t_agentOpen := []\<rparr>) (a_active s)"
  "a_held (closeOpenItems st s) = a_held s" "a_heldRestart (closeOpenItems st s) = a_heldRestart s"
  "a_paused (closeOpenItems st s) = a_paused s" "a_mode (closeOpenItems st s) = a_mode s"
  "a_agentItems (closeOpenItems st s) = a_agentItems s"
  "turn_scan (a_log (closeOpenItems st s)) = turn_scan (a_log s)"
  "owner_scan (a_log (closeOpenItems st s)) = owner_scan (a_log s)"
  "item_scan (a_log (closeOpenItems st s)) = item_scan (a_log s) - (case a_active s of None \<Rightarrow> {} | Some t \<Rightarrow> set (t_open t))"
  "request_scan (a_log (closeOpenItems st s)) = request_scan (a_log s)"
  by (simp_all add: closeOpenItems_def split: option.splits)

lemma stopTurn_frame [simp]:
  "a_queue (stopTurn env s) = a_queue s" "a_foreground (stopTurn env s) = a_foreground s"
  "a_active (stopTurn env s) = map_option (\<lambda>t. t\<lparr>t_pending := [], t_aborted := True, t_grace := True\<rparr>) (a_active s)"
  "a_held (stopTurn env s) = a_held s" "a_heldRestart (stopTurn env s) = a_heldRestart s"
  "a_paused (stopTurn env s) = a_paused s" "a_mode (stopTurn env s) = a_mode s"
  "a_agentItems (stopTurn env s) = a_agentItems s"
  "turn_scan (a_log (stopTurn env s)) = turn_scan (a_log s)"
  "owner_scan (a_log (stopTurn env s)) = owner_scan (a_log s)"
  "item_scan (a_log (stopTurn env s)) = item_scan (a_log s)"
  "request_scan (a_log (stopTurn env s)) = request_scan (a_log s) - open_requests s"
  by (simp_all add: stopTurn_def Let_def scan_simps option.map_comp comp_def open_requests_def split: option.splits)

lemma drop_turn_frame [simp]:
  "a_queue (drop_turn s) = a_queue s" "a_foreground (drop_turn s) = a_foreground s" "a_active (drop_turn s) = None"
  "a_held (drop_turn s) = a_held s" "a_heldRestart (drop_turn s) = a_heldRestart s"
  "a_paused (drop_turn s) = a_paused s" "a_mode (drop_turn s) = a_mode s" "a_agentItems (drop_turn s) = a_agentItems s"
  "turn_scan (a_log (drop_turn s)) = turn_scan (a_log s)"
  "item_scan (a_log (drop_turn s)) = item_scan (a_log s)"
  "request_scan (a_log (drop_turn s)) = request_scan (a_log s)"
  by (simp_all add: drop_turn_def scan_simps split: option.splits)

lemma drop_turn_owner: "owner_scan (a_log s) = Some (map_option t_id (a_active s)) \<Longrightarrow> owner_scan (a_log (drop_turn s)) = Some None"
  by (simp add: drop_turn_def scan_simps split: option.splits)

lemma cancel_inv:
  assumes ok: "scans_ok s" and t: "a_active s = Some t" "\<not> stopping t"
  shows "actor_inv (cancel env by_whom s)"
proof -
  have "live_turn s = Some (t_id t)" using t by (simp add: live_turn_def stopping_def)
  then have "scans_ok (emit (TurnCancelled (t_id t) by_whom) (closeOpenItems Cancelled (compactionUpdated CCancelled None None
      (stopTurn env (upd_turn (\<lambda>t. t\<lparr>t_cancelBy := Some by_whom\<rparr>) s)))))" (is "scans_ok ?s")
    using ok t by (auto simp: inv_defs scan_simps turn_ok_def stopping_def)
  moreover have "live_turn ?s = None" using t by (simp add: live_turn_def)
  ultimately show ?thesis
    using t settleIdle_inv [of ?s env] by (simp add: cancel_def Let_def)
qed

text \<open>A turn is finished once its end is in the log, its items are closed and nothing of it is pending.\<close>

definition ended :: "actor \<Rightarrow> bool" where
  "ended s \<longleftrightarrow> turn_scan (a_log s) = Some None \<and> owner_scan (a_log s) = Some (map_option t_id (a_active s)) \<and>
     item_scan (a_log s) \<subseteq> set (a_agentItems s) \<and> request_scan (a_log s) = {}"

lemma drop_turn_scans: "ended s \<Longrightarrow> scans_ok (drop_turn s)"
  by (auto simp: ended_def inv_defs drop_turn_owner)

lemma finish_inv: "ended s \<Longrightarrow> actor_inv (finish env s)"
  unfolding finish_def by (rule settleIdle_inv) (simp_all add: drop_turn_scans live_turn_def)

section \<open>The engine returned\<close>

lemma auto_compaction_inv:
  assumes ok: "scans_ok s" and t: "a_active s = Some t'" "t_id t' = t_id t" "\<not> stopping t'"
  shows "actor_inv (auto_compaction t s)"
  using assms
  by (auto simp: auto_compaction_def Let_def inv_defs owner_run scan_simps call_turn_def turn_ok_def stopping_def
      setForeground_frame)

lemma compaction_done_frame [simp]:
  "a_active (compaction_done env t c k n s) = a_active s"
  "a_agentItems (compaction_done env t c k n s) = a_agentItems s"
  "turn_scan (a_log (compaction_done env t c k n s)) = turn_scan (a_log s)"
  "owner_scan (a_log (compaction_done env t c k n s)) = owner_scan (a_log s)"
  "item_scan (a_log (compaction_done env t c k n s)) = item_scan (a_log s)"
  "request_scan (a_log (compaction_done env t c k n s)) = request_scan (a_log s)"
  by (simp_all add: compaction_done_def Let_def scan_simps split: option.splits)

text \<open>The active turn of a state, seen by what the end of a phase needs of it.\<close>

definition same_turn :: "turn \<Rightarrow> actor \<Rightarrow> bool" where
  "same_turn t s \<longleftrightarrow> (\<exists>t2. a_active s = Some t2 \<and> t_id t2 = t_id t \<and> t_cancelBy t2 = t_cancelBy t \<and>
     t_interrupt t2 = t_interrupt t \<and> t_open t2 = t_open t \<and> t_aborted t2 = t_aborted t \<and> t_pending t2 = [])"

lemma done_failed_inv:
  assumes "turn_scan (a_log s) = Some (Some (t_id t))" "owner_scan (a_log s) = Some (map_option t_id (a_active s))"
    "item_scan (a_log s) \<subseteq> set (a_agentItems s)" "request_scan (a_log s) = {}"
  shows "actor_inv (done_failed env t code msg s)"
proof -
  let ?s4 = "drop_turn (emit (TurnFailed (t_id t) (take 64 code) (take 4000 msg)) (compactionUpdated CFailed None None s))"
  have "ended (emit (TurnFailed (t_id t) (take 64 code) (take 4000 msg)) (compactionUpdated CFailed None None s))"
    using assms by (auto simp: ended_def scan_simps)
  then have ok4: "scans_ok ?s4" by (rule drop_turn_scans)
  have "actor_inv (setForeground FError ?s4)" if "a_queue ?s4 = [] \<or> a_held ?s4 \<or> a_paused ?s4"
    using ok4 that by (auto simp: actor_inv_def fg_ok_def free_ok_def live_turn_def)
  moreover have "actor_inv (settleIdle env ?s4)"
    by (rule settleIdle_inv [OF ok4]) (simp add: live_turn_def)
  ultimately show ?thesis
    by (auto simp: done_failed_def Let_def)
qed

lemma done_ok_inv:
  assumes scan: "turn_scan (a_log s) = Some (Some (t_id t))" "owner_scan (a_log s) = Some (map_option t_id (a_active s))"
    "item_scan (a_log s) \<subseteq> set (a_agentItems s)" "request_scan (a_log s) = {}"
    and t2: "a_active s = Some t2" "t_id t2 = t_id t" "\<not> stopping t2" "\<not> t_aborted t2" "t_pending t2 = []"
  shows "actor_inv (done_ok env t p c k n s)"
proof -
  have "scans_ok s"
    using scan t2 by (auto simp: inv_defs turn_ok_def stopping_def)
  then have auto_c: "actor_inv (auto_compaction t s)"
    by (rule auto_compaction_inv [OF _ t2(1,2,3)])
  have "ended (emit (TurnCompleted (t_id t)) (if p = PCompaction then compaction_done env t c k n s else s))"
    using scan by (auto simp: ended_def scan_simps)
  from finish_inv [OF this, of env] auto_c show ?thesis
    by (auto simp: done_ok_def Let_def)
qed

lemma engine_ended_inv:
  assumes t: "same_turn t s" and tok: "turn_ok t"
    and scan: "turn_scan (a_log s) = Some (live_turn s)" "owner_scan (a_log s) = Some (Some (t_id t))"
      "item_scan (a_log s) \<subseteq> set (t_open t) \<union> set (a_agentItems s)" "request_scan (a_log s) = {}"
  shows "actor_inv (engine_ended env t p outcome s)"
proof -
  from t obtain t2 where t2: "a_active s = Some t2" "t_id t2 = t_id t" "t_cancelBy t2 = t_cancelBy t"
      "t_interrupt t2 = t_interrupt t" "t_open t2 = t_open t" "t_aborted t2 = t_aborted t" "t_pending t2 = []"
    by (auto simp: same_turn_def)
  show ?thesis
  proof (cases "t_cancelBy t = None")
    case False
    with scan t2 tok have "ended s"
      by (auto simp: ended_def live_turn_def turn_ok_def)
    with False show ?thesis by (simp add: engine_ended_def finish_inv)
  next
    case True
    then have live: "live_turn s = Some (t_id t)" using t2 by (simp add: live_turn_def)
    show ?thesis
    proof (cases "t_interrupt t")
      case (Some reason)
      have "ended (emit (TurnInterrupted (t_id t) reason (t_cause t))
          (closeOpenItems Interrupted (compactionUpdated CInterrupted None None s)))"
        using scan t2 live by (auto simp: ended_def scan_simps)
      from finish_inv [OF this, of env] show ?thesis
        using Some True by (simp add: engine_ended_def Let_def)
    next
      case None
      let ?s1 = "closeOpenItems Unknown s"
      have scan1: "turn_scan (a_log ?s1) = Some (Some (t_id t))"
          "owner_scan (a_log ?s1) = Some (map_option t_id (a_active ?s1))"
          "item_scan (a_log ?s1) \<subseteq> set (a_agentItems ?s1)" "request_scan (a_log ?s1) = {}"
        using scan t2 live by auto
      have "\<not> stopping t" "\<not> t_aborted t" using True None tok by (auto simp: stopping_def turn_ok_def)
      then have "actor_inv (done_ok env t p c k n ?s1)" for c k n
        using t2 by (intro done_ok_inv [OF scan1, of "t2\<lparr>t_open := [], t_agentOpen := []\<rparr>"]) (simp_all add: stopping_def)
      with done_failed_inv [OF scan1] True None show ?thesis
        by (simp add: engine_ended_def Let_def split: turn_outcome.splits)
    qed
  qed
qed

lemma onEngineDone_inv:
  assumes inv: "actor_inv s"
  shows "actor_inv (onEngineDone env turnId p outcome s)"
proof (cases "a_active s")
  case None
  with inv show ?thesis by (simp add: onEngineDone_def)
next
  case (Some t)
  let ?s2 = "abandonPending (if t_grace t then out (CancelGrace turnId) (upd_turn (\<lambda>t. t\<lparr>t_grace := False\<rparr>) s) else s)"
  have "same_turn t ?s2" using Some by (simp add: same_turn_def)
  moreover from inv Some have "turn_ok t" by (simp add: inv_defs)
  moreover have "turn_scan (a_log ?s2) = Some (live_turn ?s2)" "owner_scan (a_log ?s2) = Some (Some (t_id t))"
      "item_scan (a_log ?s2) \<subseteq> set (t_open t) \<union> set (a_agentItems ?s2)" "request_scan (a_log ?s2) = {}"
    using inv Some by (auto simp: inv_defs scan_simps)
  ultimately have "actor_inv (engine_ended env t p outcome ?s2)" by (rule engine_ended_inv)
  with Some inv show ?thesis
    by (auto simp: onEngineDone_def Let_def)
qed

end
