(* ===== verification/ActorSafety.thy ===== *)
theory ActorSafety
  imports ActorInvariant
begin

text \<open>
  Every handler of the session actor keeps the invariant of \<open>ActorInvariant\<close>, hence every run does; the properties
  of runs (turns that never overlap and end once, one engine call at a time, items and requests that are always
  closed, an idle session with an empty queue).
\<close>

section \<open>Engine messages\<close>

lemma isLive_turn:
  assumes "isLive i s" and "scans_ok s"
  shows "\<exists>t. a_active s = Some t \<and> t_id t = i \<and> \<not> t_aborted t \<and> \<not> stopping t \<and> t_cancelBy t = None \<and> t_interrupt t = None"
  using assms by (auto simp: isLive_def inv_defs turn_ok_def stopping_def split: option.splits)

text \<open>A change of the live turn's own fields that keeps what it has open and pending in view of the monitors.\<close>

definition live_ok :: "actor \<Rightarrow> bool" where
  "live_ok s = (case a_active s of None \<Rightarrow> False
     | Some t \<Rightarrow> \<not> stopping t \<and> \<not> t_aborted t \<and>
         turn_scan (a_log s) = Some (Some (t_id t)) \<and> owner_scan (a_log s) = Some (Some (t_id t)) \<and>
         item_scan (a_log s) \<subseteq> set (t_open t) \<union> set (a_agentItems s) \<and>
         request_scan (a_log s) \<subseteq> fst ` set (t_pending t) \<and>
         a_foreground s \<in> {FGenerating, FTool, FWaitingApproval, FCompacting})"

lemma actor_inv_live: "live_ok s \<Longrightarrow> actor_inv s"
  by (auto simp: live_ok_def inv_defs turn_ok_def stopping_def split: option.splits)

lemma stopping_update [simp]:
  "stopping (t\<lparr>t_offlineSince := x\<rparr>) = stopping t" "stopping (t\<lparr>t_open := xs\<rparr>) = stopping t"
  "stopping (t\<lparr>t_agentOpen := xs\<rparr>) = stopping t" "stopping (t\<lparr>t_pending := ps\<rparr>) = stopping t"
  "stopping (t\<lparr>t_questions := qs\<rparr>) = stopping t" "stopping (t\<lparr>t_plans := pl\<rparr>) = stopping t"
  "stopping (t\<lparr>t_handedOff := b\<rparr>) = stopping t" "stopping (t\<lparr>t_compaction := c\<rparr>) = stopping t"
  by (simp_all add: stopping_def)

lemma actor_inv_liveD:
  assumes "actor_inv s" and "a_active s = Some t" and "\<not> stopping t"
  shows "\<not> t_aborted t" "turn_scan (a_log s) = Some (Some (t_id t))" "owner_scan (a_log s) = Some (Some (t_id t))"
    "item_scan (a_log s) \<subseteq> set (t_open t) \<union> set (a_agentItems s)"
    "request_scan (a_log s) \<subseteq> fst ` set (t_pending t)"
    "a_foreground s \<in> {FGenerating, FTool, FWaitingApproval, FCompacting}"
proof -
  from assms show "\<not> t_aborted t" "turn_scan (a_log s) = Some (Some (t_id t))" "owner_scan (a_log s) = Some (Some (t_id t))"
    "item_scan (a_log s) \<subseteq> set (t_open t) \<union> set (a_agentItems s)"
    "request_scan (a_log s) \<subseteq> fst ` set (t_pending t)"
    by (auto simp: inv_defs turn_ok_def stopping_def)
  from assms have "a_foreground s \<notin> {FIdle, FQueued, FError, FCancelling}"
    by (auto simp: inv_defs stopping_def)
  then show "a_foreground s \<in> {FGenerating, FTool, FWaitingApproval, FCompacting}"
    by (cases "a_foreground s") auto
qed

lemma onEngineEvent_inv:
  assumes inv: "actor_inv s"
  shows "actor_inv (onEngineEvent env i ev s)"
proof (cases "isLive i s")
  case False
  with inv show ?thesis by (simp add: onEngineEvent_def split: option.splits)
next
  case True
  with inv isLive_turn obtain t where t: "a_active s = Some t" "t_id t = i" "\<not> t_aborted t" "\<not> stopping t"
    by (auto simp: actor_inv_def)
  note d = actor_inv_liveD [OF inv t(1,4)]
  show ?thesis
  proof (cases ev)
    case (ItemStarted itemId kind meta)
    have "actor_inv (on_item_started t itemId kind meta (upd_turn (\<lambda>t. t\<lparr>t_offlineSince := None\<rparr>) s))"
      by (rule actor_inv_live)
        (use t d in \<open>auto simp: live_ok_def on_item_started_def Let_def scan_simps\<close>)
    with ItemStarted t True show ?thesis by (simp add: onEngineEvent_def)
  next
    case (ItemDelta itemId tx inp)
    have "actor_inv (emit (EItemDelta itemId tx inp) (upd_turn (\<lambda>t. t\<lparr>t_offlineSince := None\<rparr>) s))"
      by (rule actor_inv_live) (use t d in \<open>auto simp: live_ok_def scan_simps\<close>)
    moreover have "actor_inv (upd_turn (\<lambda>t. t\<lparr>t_offlineSince := None\<rparr>) s)"
      by (rule actor_inv_live) (use t d in \<open>auto simp: live_ok_def scan_simps\<close>)
    ultimately show ?thesis using ItemDelta t True by (simp add: onEngineEvent_def Let_def)
  next
    case (ItemCompleted itemId status tx toolInput blob atts render meta)
    have "actor_inv (on_item_completed t itemId c (upd_turn (\<lambda>t. t\<lparr>t_offlineSince := None\<rparr>) s))"
      if "ic_item c = itemId" for c
      by (rule actor_inv_live)
        (use t d that in \<open>auto simp: live_ok_def on_item_completed_def Let_def scan_simps\<close>)
    moreover have "actor_inv (upd_turn (\<lambda>t. t\<lparr>t_offlineSince := None\<rparr>) s)"
      by (rule actor_inv_live) (use t d in \<open>auto simp: live_ok_def scan_simps\<close>)
    ultimately show ?thesis using ItemCompleted t True by (simp add: onEngineEvent_def Let_def bare_completed_def)
  next
    case (Usage u)
    have "actor_inv (emit (UsageRecorded i u) (out (OnLiveOutput i 0) s))"
      by (rule actor_inv_live) (use t d in \<open>auto simp: live_ok_def scan_simps\<close>)
    with Usage t True show ?thesis by (simp add: onEngineEvent_def)
  next
    case (UsageLive n)
    have "actor_inv (out (OnLiveOutput i n) s)"
      by (rule actor_inv_live) (use t d in \<open>auto simp: live_ok_def scan_simps\<close>)
    with UsageLive t True show ?thesis by (simp add: onEngineEvent_def)
  next
    case (Retrying attempt delayMs msg offline)
    have "actor_inv (on_retrying env t attempt delayMs msg offline s)"
      by (rule actor_inv_live) (use t d in \<open>auto simp: live_ok_def on_retrying_def Let_def scan_simps\<close>)
    with Retrying t True show ?thesis by (simp add: onEngineEvent_def)
  qed
qed

lemma onAgentEvent_inv: "actor_inv s \<Longrightarrow> actor_inv (onAgentEvent i ev s)"
  by (cases ev) (auto simp: onAgentEvent_def inv_defs scan_simps bare_completed_def)

lemma onEngineRequest_inv:
  assumes inv: "actor_inv s"
  shows "actor_inv (onEngineRequest env i rq h s)"
proof (cases "isLive i s \<and> \<not> rq_aborted rq")
  case False
  with inv show ?thesis by (auto simp: onEngineRequest_def inv_defs scan_simps)
next
  case True
  with inv isLive_turn obtain t where t: "a_active s = Some t" "t_id t = i" "\<not> t_aborted t" "\<not> stopping t"
    by (auto simp: actor_inv_def)
  note d = actor_inv_liveD [OF inv t(1,4)]
  have sr: "sr_id (server_request_of r j q) = r" for r j q by (simp add: server_request_of_def)
  show ?thesis
    by (rule actor_inv_live)
      (use t d True in \<open>auto simp: live_ok_def onEngineRequest_def Let_def scan_simps sr split: option.splits\<close>)
qed

lemma resolve_with_frame [simp]:
  "a_queue (resolve_with p r s) = a_queue s" "a_foreground (resolve_with p r s) = a_foreground s"
  "a_active (resolve_with p r s) = a_active s"
  "a_held (resolve_with p r s) = a_held s" "a_heldRestart (resolve_with p r s) = a_heldRestart s"
  "a_paused (resolve_with p r s) = a_paused s" "a_mode (resolve_with p r s) = a_mode s"
  "a_agentItems (resolve_with p r s) = a_agentItems s"
  "turn_scan (a_log (resolve_with p r s)) = turn_scan (a_log s)"
  "owner_scan (a_log (resolve_with p r s)) = owner_scan (a_log s)"
  "item_scan (a_log (resolve_with p r s)) = item_scan (a_log s)"
  "request_scan (a_log (resolve_with p r s)) = request_scan (a_log s)"
  by (simp_all add: resolve_with_def scan_simps)

lemma forget_request_frame [simp]:
  "a_queue (forget_request k s) = a_queue s" "a_foreground (forget_request k s) = a_foreground s"
  "a_active (forget_request k s) = map_option (\<lambda>t. t\<lparr>t_pending := AList.delete k (t_pending t),
     t_questions := AList.delete k (t_questions t), t_plans := AList.delete k (t_plans t)\<rparr>) (a_active s)"
  "a_held (forget_request k s) = a_held s" "a_heldRestart (forget_request k s) = a_heldRestart s"
  "a_paused (forget_request k s) = a_paused s" "a_mode (forget_request k s) = a_mode s"
  "a_agentItems (forget_request k s) = a_agentItems s" "a_log (forget_request k s) = a_log s"
  by (simp_all add: forget_request_def)

text \<open>A pending request belongs to a turn that is not stopping.\<close>

lemma pending_live:
  assumes "scans_ok s" and "a_active s = Some t" and "map_of (t_pending t) k = Some p"
  shows "\<not> stopping t"
  using assms by (auto simp: inv_defs turn_ok_def)

lemma resolved_inv:
  assumes inv: "actor_inv s" and t: "a_active s = Some t" "map_of (t_pending t) k = Some p"
    and f: "f \<in> {FGenerating, a_foreground s}"
  shows "actor_inv (setForeground f (resolve_with p r (emit (RequestResolved k kind plan client) (forget_request k s))))"
proof -
  have ns: "\<not> stopping t" using pending_live [OF _ t] inv by (simp add: actor_inv_def)
  note d = actor_inv_liveD [OF inv t(1) ns]
  show ?thesis
    by (rule actor_inv_live) (use t d f ns in \<open>auto simp: live_ok_def scan_simps\<close>)
qed

lemma setForeground_same [simp]: "setForeground (a_foreground s) s = s"
  by (simp add: setForeground_def)

lemma onRequestCancel_inv:
  assumes inv: "actor_inv s"
  shows "actor_inv (onRequestCancel i k s)"
proof (cases "a_active s")
  case None
  with inv show ?thesis by (simp add: onRequestCancel_def)
next
  case (Some t)
  show ?thesis
  proof (cases "map_of (t_pending t) k")
    case None
    with Some inv show ?thesis by (simp add: onRequestCancel_def)
  next
    case pk: (Some p)
    let ?s = "resolve_with p Abandoned (emit (RequestResolved k RAbandoned None None) (forget_request k s))"
    have "actor_inv ?s"
      using resolved_inv [OF inv Some pk, of "a_foreground s" Abandoned RAbandoned None None]
        setForeground_same [of ?s] by simp
    with resolved_inv [OF inv Some pk, of FGenerating Abandoned RAbandoned None None] inv Some pk show ?thesis
      by (simp add: onRequestCancel_def Let_def)
  qed
qed

lemma onEnginePermission_inv: "actor_inv s \<Longrightarrow> actor_inv (onEnginePermission i m s)"
  by (auto simp: onEnginePermission_def inv_defs scan_simps)

lemma onSendNow_inv: "actor_inv s \<Longrightarrow> actor_inv (onSendNow s)"
  by (cases "a_active s") (auto simp: onSendNow_def inv_defs turn_ok_def stopping_def)

lemma hand_over_frame [simp]:
  "a_active (hand_over env i e q h s) = a_active s" "a_foreground (hand_over env i e q h s) = a_foreground s"
  "a_agentItems (hand_over env i e q h s) = a_agentItems s"
  "turn_scan (a_log (hand_over env i e q h s)) = turn_scan (a_log s)"
  "owner_scan (a_log (hand_over env i e q h s)) = owner_scan (a_log s)"
  "request_scan (a_log (hand_over env i e q h s)) = request_scan (a_log s)"
  by (simp_all add: hand_over_def Let_def scan_simps split: option.split prod.split)

lemma hand_over_items: "item_scan (a_log (hand_over env i e q h s)) \<subseteq> item_scan (a_log s)"
  by (simp add: hand_over_def Let_def scan_simps bare_completed_def split: option.split prod.split)

lemma hand_over_inv:
  assumes inv: "actor_inv s" and t: "a_active s = Some t" "\<not> stopping t"
  shows "actor_inv (hand_over env i e q h s)"
proof -
  note d = actor_inv_liveD [OF inv t]
  show ?thesis
    by (rule actor_inv_live)
      (use t d hand_over_items [of env i e q h s] in \<open>simp add: live_ok_def; blast\<close>)
qed

lemma onEngineQueue_inv:
  assumes inv: "actor_inv s"
  shows "actor_inv (onEngineQueue env i userOnly h s)"
proof -
  have reply: "actor_inv s' \<Longrightarrow> actor_inv (out (Reply h r) s')" for s' r
    by (auto simp: inv_defs scan_simps)
  have drop: "actor_inv (dropShown env s)" using inv by (auto simp: inv_defs)
  have "actor_inv (hand_over env i e q h (dropShown env s))" if "takes_queued i s" for e q
  proof -
    from that inv isLive_turn obtain t where "a_active s = Some t" "\<not> stopping t"
      by (fastforce simp: actor_inv_def takes_queued_def)
    with hand_over_inv [OF drop] show ?thesis by simp
  qed
  with reply inv drop show ?thesis
    by (auto simp: onEngineQueue_def Let_def split: option.splits)
qed

section \<open>Commands\<close>

lemma queue_live_inv:
  assumes "actor_inv s" and "live_turn s \<noteq> None"
  shows "actor_inv (emitQueue (set_queue q s))" "actor_inv (emitQueue ((set_queue q s)\<lparr>a_held := b\<rparr>))"
  using assms by (auto simp: inv_defs split: option.splits if_splits)

lemma live_turn_frame [simp]:
  "live_turn (emitQueue s) = live_turn s" "live_turn (set_queue q s) = live_turn s" "live_turn (used_id s) = live_turn s"
  "live_turn (s\<lparr>a_held := b\<rparr>) = live_turn s" "live_turn (dropShown env s) = live_turn s"
  "live_turn (emit e s) = live_turn s" "live_turn (out x s) = live_turn s" "live_turn (setForeground f s) = live_turn s"
  by (simp_all add: live_turn_def)

text \<open>A queue operation that ends in \<open>settleIdle\<close>, whatever it did to the queue and the hold.\<close>

lemma settle_queue_inv:
  assumes "actor_inv s"
  shows "actor_inv (settleIdle env (emitQueue (set_queue q s)))"
    and "actor_inv (settleIdle env (emitQueue ((set_queue q s)\<lparr>a_held := b\<rparr>)))"
proof -
  have ok: "scans_ok s" using assms by (simp add: actor_inv_def)
  have "fg_ok (emitQueue (set_queue q s))" if "live_turn s \<noteq> None"
    using queue_live_inv (1) [OF assms that] by (simp add: actor_inv_def)
  then show "actor_inv (settleIdle env (emitQueue (set_queue q s)))"
    by (intro settleIdle_inv) (simp_all add: ok)
  have "fg_ok (emitQueue ((set_queue q s)\<lparr>a_held := b\<rparr>))" if "live_turn s \<noteq> None"
    using queue_live_inv (2) [OF assms that] by (simp add: actor_inv_def)
  then show "actor_inv (settleIdle env (emitQueue ((set_queue q s)\<lparr>a_held := b\<rparr>)))"
    by (intro settleIdle_inv) (simp_all add: ok)
qed

lemma used_id_inv [simp]: "actor_inv (used_id s) = actor_inv s"
  by (simp add: inv_defs)

lemma dropShown_inv: "actor_inv s \<Longrightarrow> actor_inv (dropShown env s)"
  by (auto simp: inv_defs)

lemma emit_added_inv: "actor_inv s \<Longrightarrow> actor_inv (emit (QueueAdded e) s)" "actor_inv s \<Longrightarrow> actor_inv (emit (QueueEdited i x c) s)"
  by (auto simp: inv_defs scan_simps)

lemma attempt_inv: "actor_inv s \<Longrightarrow> attempt env (QueueAdded e) s = (r, s') \<Longrightarrow> actor_inv s'"
  by (auto simp: attempt_def emit_added_inv split: option.splits)

lemma cancel_running_inv:
  assumes "actor_inv s" and "running s"
  shows "actor_inv (cancel env b s)"
  using assms cancel_inv [of s _ env b] by (auto simp: running_def actor_inv_def split: option.splits)

lemma settle_inv: "actor_inv s \<Longrightarrow> actor_inv (settleIdle env s)"
  by (rule settleIdle_inv) (simp_all add: actor_inv_def)

text \<open>A running turn keeps the invariant through any change of queue and hold.\<close>

lemma running_live: "running s \<Longrightarrow> live_turn s \<noteq> None"
  by (auto simp: running_def live_turn_def stopping_def split: option.splits)

lemma user_submit_inv:
  assumes inv: "actor_inv s" and r: "user_submit env tx atts display m sel opts d authority s = (r, s')"
  shows "actor_inv s'"
proof (cases "queue_full s")
  case True
  with inv r show ?thesis by (simp add: user_submit_def)
next
  case False
  let ?s2 = "dropShown env (used_id s)"
  let ?waited = "if a_held ?s2 then filter q_rides (a_queue ?s2) else []"
  let ?e = "submit_entry (fresh_id env QueueId s) ?waited tx atts display m sel opts authority"
  obtain refused s3 where at: "attempt env (QueueAdded ?e) ?s2 = (refused, s3)" by fastforce
  have i3: "actor_inv s3" by (rule attempt_inv [OF _ at]) (simp add: dropShown_inv inv)
  show ?thesis
  proof (cases refused)
    case (Some x)
    with r False at i3 show ?thesis by (simp add: user_submit_def Let_def)
  next
    case None
    let ?d = "submit_delivery env d (used_id s)"
    let ?s4 = "if ?waited = [] then s3 else set_queue (filter (\<lambda>x. \<not> q_rides x) (a_queue s3)) s3"
    let ?q = "place_submitted ?d (?e\<lparr>q_delivery := ?d\<rparr>) (a_queue ?s4)"
    let ?s6 = "emitQueue ((set_queue ?q ?s4)\<lparr>a_held := False\<rparr>)"
    have s6: "?s6 = emitQueue ((set_queue ?q s3)\<lparr>a_held := False\<rparr>)" by (simp add: set_queue_def)
    have settle: "actor_inv (settleIdle env ?s6)"
      unfolding s6 by (rule settle_queue_inv (2) [OF i3])
    have "actor_inv (settleIdle env (cancel env ByPromotion ?s6))" if "running ?s6"
    proof -
      have "live_turn s3 \<noteq> None" using running_live [OF that] unfolding s6 by simp
      then have "actor_inv ?s6" unfolding s6 by (rule queue_live_inv (2) [OF i3])
      with that show ?thesis by (simp add: cancel_running_inv settle_inv)
    qed
    with settle r False at None show ?thesis
      by (auto simp: user_submit_def Let_def split: if_splits)
  qed
qed

lemma user_shell_inv:
  assumes inv: "actor_inv s" and r: "user_shell env c l m s = (r, s')"
  shows "actor_inv s'"
proof -
  have "actor_inv (used_id s)" using inv by simp
  with attempt_inv [OF this] r inv show ?thesis
    by (auto simp: user_shell_def Let_def settle_queue_inv split: if_splits option.splits prod.splits)
qed

lemma queue_promote_inv:
  assumes inv: "actor_inv s" and r: "queue_promote env i s = (r, s')"
  shows "actor_inv s'"
proof (cases "entry_at i s")
  case None
  with r inv show ?thesis by (simp add: queue_promote_def)
next
  case (Some k)
  let ?e = "a_queue s ! k"
  let ?s2 = "emitQueue ((set_queue (?e\<lparr>q_alone := True\<rparr> # splice_out k (a_queue s)) s)\<lparr>a_held := False\<rparr>)"
  have settle: "actor_inv (settleIdle env ?s2)" by (rule settle_queue_inv (2) [OF inv])
  show ?thesis
  proof (cases "running s")
    case False
    with r Some settle show ?thesis
      by (auto simp: queue_promote_def Let_def running_def split: option.splits)
  next
    case True
    then obtain t where t: "a_active s = Some t" "\<not> stopping t"
      by (auto simp: running_def split: option.splits)
    have i2: "actor_inv ?s2" by (rule queue_live_inv (2) [OF inv running_live [OF True]])
    have i3: "actor_inv (out (SentNow x y) ?s2)" for x y
      using i2 by (auto simp: inv_defs scan_simps)
    have c: "actor_inv (cancel env ByPromotion ?s2)" "actor_inv (cancel env ByPromotion (out (SentNow x y) ?s2))" for x y
      by (rule cancel_running_inv; use i2 i3 t in \<open>simp add: running_def\<close>)+
    have h: "actor_inv (upd_turn (\<lambda>t. t\<lparr>t_handedOff := True\<rparr>) (out (SentNow x y) ?s2))" for x y
      using i3 [of x y] t by (auto simp: inv_defs turn_ok_def scan_simps stopping_def)
    from r Some t settle i2 c h show ?thesis
      by (auto simp: queue_promote_def Let_def split: if_splits)
  qed
qed

lemma queue_remove_inv: "actor_inv s \<Longrightarrow> queue_remove env i s = (r, s') \<Longrightarrow> actor_inv s'"
  by (auto simp: queue_remove_def settle_queue_inv split: option.splits)

lemma emit_set_queue: "emit e (set_queue q s) = set_queue q (emit e s)"
  by (simp add: actor_defs)

lemma same_emptiness_inv:
  assumes "actor_inv s" and "q = [] \<longleftrightarrow> a_queue s = []"
  shows "actor_inv (emitQueue (set_queue q s))"
  using assms by (auto simp: inv_defs)

lemma queue_reorder_inv: "actor_inv s \<Longrightarrow> queue_reorder i to s = (r, s') \<Longrightarrow> actor_inv s'"
  by (auto simp: queue_reorder_def Let_def splice_in_def entry_at_def split: option.splits if_splits intro!: same_emptiness_inv)

lemma queue_edit_inv:
  assumes inv: "actor_inv s" and r: "queue_edit i x c s = (r, s')"
  shows "actor_inv s'"
proof (cases "entry_at i s")
  case None
  with r inv show ?thesis by (simp add: queue_edit_def)
next
  case (Some k)
  let ?s = "set_queue ((a_queue s)[k := (a_queue s ! k)\<lparr>q_text := x\<rparr>]) s"
  have "actor_inv (emit (QueueEdited i x (Some c)) s)" by (rule emit_added_inv (2) [OF inv])
  from same_emptiness_inv [OF this, of "a_queue ?s"]
  have "actor_inv (emitQueue (emit (QueueEdited i x (Some c)) ?s))"
    by (simp add: emit_set_queue)
  with r inv Some show ?thesis
    by (cases "editable (a_queue s ! k)") (simp_all add: queue_edit_def Let_def)
qed

lemma queue_steer_inv:
  assumes inv: "actor_inv s" and r: "queue_steer env i s = (r, s')"
  shows "actor_inv s'"
proof -
  have "live_turn s \<noteq> None" if "steerable env s"
    using that by (auto simp: steerable_def live_turn_def split: option.splits)
  with r inv settle_queue_inv [OF inv] queue_live_inv [OF inv] same_emptiness_inv [OF inv] show ?thesis
    by (auto simp: queue_steer_def Let_def split: option.splits if_splits)
qed

lemma turn_cancel_inv:
  assumes inv: "actor_inv s" and r: "turn_cancel env i s = (r, s')"
  shows "actor_inv s'"
proof -
  have "actor_inv (cancel env ByUser (s\<lparr>a_held := True, a_heldRestart := False\<rparr>))" if "a_active s = Some t" "\<not> stopping t" for t
    by (rule cancel_inv) (use that inv in \<open>auto simp: actor_inv_def\<close>)
  with r inv show ?thesis
    by (auto simp: turn_cancel_def split: option.splits if_splits)
qed

lemma request_resolve_inv:
  assumes inv: "actor_inv s" and r: "request_resolve k d c s = (r, s')"
  shows "actor_inv s'"
proof (cases "a_active s")
  case None
  with r inv show ?thesis by (simp add: request_resolve_def)
next
  case (Some t)
  show ?thesis
  proof (cases "map_of (t_pending t) k")
    case None
    with Some r inv show ?thesis by (simp add: request_resolve_def)
  next
    case pk: (Some p)
    let ?s = "\<lambda>x kind plan client. resolve_with p x (emit (RequestResolved k kind plan client) (forget_request k s))"
    have a: "actor_inv (setForeground FGenerating (?s x kind plan client))" for x kind plan client
      by (rule resolved_inv [OF inv Some pk]) simp
    have b: "actor_inv (?s x kind plan client)" for x kind plan client
      using resolved_inv [OF inv Some pk, of "a_foreground s" x kind plan client]
        setForeground_same [of "?s x kind plan client"] by simp
    from r Some pk inv a b show ?thesis
      by (auto simp: request_resolve_def Let_def split: option.splits if_splits)
  qed
qed

lemma session_compact_inv:
  assumes inv: "actor_inv s" and r: "session_compact env ins sel s = (r, s')"
  shows "actor_inv s'"
proof -
  have "actor_inv (settleIdle env (emitQueue ((emit (QueueAdded e) (set_queue q (used_id s)))\<lparr>a_held := False\<rparr>)))" for e q
    using settle_queue_inv (2) [where s = "emit (QueueAdded e) (used_id s)" and q = q and b = False] inv
    by (simp add: emit_added_inv emit_set_queue)
  with r inv show ?thesis
    by (auto simp: session_compact_def Let_def split: if_splits)
qed

lemma permission_set_inv: "actor_inv s \<Longrightarrow> permission_set m c s = (r, s') \<Longrightarrow> actor_inv s'"
  by (cases "m = a_mode s") (clarsimp simp: permission_set_def inv_defs scan_simps simp del: split_paired_All)+

lemma upd_compaction_inv: "actor_inv s \<Longrightarrow> actor_inv (upd_turn (\<lambda>t. t\<lparr>t_compaction := c\<rparr>) s)"
  by (cases "a_active s") (auto simp: inv_defs turn_ok_def)

lemma compactionUpdated_inv: "actor_inv s \<Longrightarrow> actor_inv (compactionUpdated st f n s)"
  by (simp add: inv_defs)

lemma compaction_set_inv: "actor_inv s \<Longrightarrow> compaction_set i x s = (r, s') \<Longrightarrow> actor_inv s'"
  unfolding compaction_set_def
  by (simp split: option.splits if_splits) (auto intro: compactionUpdated_inv upd_compaction_inv)

lemma onCommand_inv:
  assumes "actor_inv s" and "onCommand env target c authority s = (r, s')"
  shows "actor_inv s'"
proof (cases "target = env_session env")
  case False
  with assms show ?thesis by (simp add: onCommand_def)
next
  case True
  with assms show ?thesis
    by (cases c) (auto simp: onCommand_def intro: user_submit_inv user_shell_inv queue_promote_inv queue_remove_inv
      queue_reorder_inv queue_edit_inv queue_steer_inv turn_cancel_inv request_resolve_inv session_compact_inv
      permission_set_inv compaction_set_inv)
qed

section \<open>Messages and runs\<close>

lemma reply_inv [simp]: "actor_inv (out (Reply h r) s) = actor_inv s"
  by (simp add: inv_defs scan_simps)

lemma onInterrupt_inv:
  assumes inv: "actor_inv s"
  shows "actor_inv (onInterrupt env reason cause s)"
proof (cases "running s")
  case True
  then obtain t where t: "a_active s = Some t" "\<not> stopping t"
    by (auto simp: running_def split: option.splits)
  note d = actor_inv_liveD [OF inv t]
  have "actor_inv (stopTurn env (upd_turn (\<lambda>t. t\<lparr>t_interrupt := Some reason, t_cause := cause \<or> t_cause t\<rparr>)
      (s\<lparr>a_held := True, a_heldRestart := False\<rparr>)))"
    using t d by (auto simp: inv_defs turn_ok_def stopping_def)
  with True show ?thesis by (simp add: onInterrupt_def running_def)
next
  case False
  have "actor_inv (settleIdle env (s\<lparr>a_held := True, a_heldRestart := False\<rparr>))"
    by (rule settleIdle_inv) (use inv in \<open>auto simp: inv_defs\<close>)
  with False show ?thesis by (simp add: onInterrupt_def running_def)
qed

lemma onSteer_inv:
  assumes inv: "actor_inv s" and r: "onSteer env st s = (b, s')"
  shows "actor_inv s'"
proof -
  have "actor_inv (start env e [] ((used_id s)\<lparr>a_held := False\<rparr>))" if "a_active s = None" for e
    by (rule start_inv) (use inv that in \<open>simp_all add: actor_inv_def\<close>)
  with inv r show ?thesis by (auto simp: onSteer_def Let_def split: if_splits)
qed

lemma onCompactIdle_inv:
  assumes inv: "actor_inv s" and r: "onCompactIdle env s = (b, s')"
  shows "actor_inv s'"
proof -
  have "actor_inv (start env e [] (used_id s))" if "a_active s = None" for e
    by (rule start_inv) (use inv that in \<open>simp_all add: actor_inv_def\<close>)
  with inv r show ?thesis by (auto simp: onCompactIdle_def Let_def split: if_splits)
qed

lemma inv_if: "(b \<Longrightarrow> actor_inv x) \<Longrightarrow> (\<not> b \<Longrightarrow> actor_inv y) \<Longrightarrow> actor_inv (if b then x else y)"
  by simp

lemma onPause_inv:
  assumes inv: "actor_inv s"
  shows "actor_inv (onPause env v k s)"
proof -
  have frame: "scans_ok (out (OnPause v) s') = scans_ok s'" "fg_ok (out (OnPause v) s') = fg_ok s'" for s'
    by (simp_all add: inv_defs scan_simps)
  have upd: "fg_ok (s\<lparr>a_paused := w, a_held := b\<rparr>) = fg_ok s" "fg_ok (s\<lparr>a_paused := w\<rparr>) = fg_ok s" for b w
    by (simp_all add: fg_ok_def live_turn_def)
  have ok: "scans_ok s" "fg_ok s" using inv by (simp_all add: actor_inv_def)
  let ?s2 = "if \<not> v \<and> \<not> k then s\<lparr>a_paused := v, a_held := False\<rparr> else s\<lparr>a_paused := v\<rparr>"
  let ?s3 = "if a_paused s \<noteq> v then out (OnPause v) ?s2 else ?s2"
  have s3: "scans_ok ?s3" "fg_ok ?s3" using ok by (simp_all add: frame upd)
  have settle: "actor_inv (settleIdle env ?s3)" by (rule settleIdle_inv) (use s3 in auto)
  have queued: "actor_inv (setForeground FQueued ?s3)" if "v" "a_active s = None" "a_queue s \<noteq> []"
    using s3 that by (auto simp: actor_inv_def fg_ok_def free_ok_def live_turn_def)
  have same: "actor_inv ?s3" if "v"
    using s3 that by (auto simp: actor_inv_def free_ok_def)
  have eq: "onPause env v k s = (if \<not> v then settleIdle env ?s3
      else if a_active s = None \<and> a_queue s \<noteq> [] then setForeground FQueued ?s3 else ?s3)"
    by (simp add: onPause_def Let_def)
  show ?thesis
    unfolding eq by (rule inv_if, rule settle, rule inv_if, rule queued, simp, simp, simp, rule same, simp)
qed

lemma onRestartRelease_inv:
  assumes inv: "actor_inv s" and r: "onRestartRelease env s = (b, s')"
  shows "actor_inv s'"
proof -
  have "actor_inv (settleIdle env (s\<lparr>a_held := False, a_heldRestart := False\<rparr>))"
    by (rule settleIdle_inv) (use inv in \<open>auto simp: inv_defs\<close>)
  with r inv show ?thesis by (auto simp: onRestartRelease_def split: if_splits)
qed

lemma onNotice_inv:
  assumes inv: "actor_inv s" and r: "onNotice env n s = (i, s')"
  shows "actor_inv s'"
proof (cases "queued_notice n s")
  case (Some k)
  let ?e = "a_queue s ! k"
  have "actor_inv (emit (QueueEdited (q_id ?e) (n_text n) None) s)" by (rule emit_added_inv (2) [OF inv])
  from same_emptiness_inv [OF this, of "(a_queue s)[k := ?e\<lparr>q_text := n_text n\<rparr>]"]
  have "actor_inv (emitQueue (emit (QueueEdited (q_id ?e) (n_text n) None)
      (set_queue ((a_queue s)[k := ?e\<lparr>q_text := n_text n\<rparr>]) s)))"
    by (simp add: emit_set_queue)
  with r Some show ?thesis by (auto simp: onNotice_def Let_def)
next
  case None
  have "actor_inv (settleIdle env (emitQueue (emit (QueueAdded e) (set_queue q s1))))" if "s1 \<in> {s, used_id s}" for e q s1
    using settle_queue_inv (1) [where s = "emit (QueueAdded e) s1"] that inv
    by (auto simp: emit_added_inv emit_set_queue)
  with r None inv show ?thesis
    by (auto simp: onNotice_def Let_def split: if_splits option.splits)
qed

lemma handleMessage_inv:
  assumes "actor_inv s"
  shows "actor_inv (handleMessage env m s)"
proof (cases m)
  case (MCommand target c authority h)
  with assms onCommand_inv show ?thesis by (auto simp: handleMessage_def split: prod.split)
next
  case (MNotice n h)
  with assms onNotice_inv show ?thesis by (auto simp: handleMessage_def split: prod.split)
next
  case (MSteer st h)
  with assms onSteer_inv show ?thesis by (auto simp: handleMessage_def split: prod.split)
next
  case (MCompactIdle h)
  with assms onCompactIdle_inv show ?thesis by (auto simp: handleMessage_def split: prod.split)
next
  case (MRestartRelease h)
  with assms onRestartRelease_inv show ?thesis by (auto simp: handleMessage_def split: prod.split)
qed (use assms in \<open>simp_all add: handleMessage_def onEngineEvent_inv onAgentEvent_inv onEngineRequest_inv onEngineDone_inv
      onEnginePermission_inv onRequestCancel_inv onEngineQueue_inv onInterrupt_inv onPause_inv\<close>)

lemma createSessionActor_inv: "actor_inv (createSessionActor restored mode)"
  by (auto simp: createSessionActor_def Let_def inv_defs)

lemma actor_run_inv: "actor_inv s \<Longrightarrow> actor_inv (actor_run steps s)"
  by (induction steps s rule: actor_run.induct) (simp_all add: handleMessage_inv onSendNow_inv)

lemma life_inv: "actor_inv (actor_run steps (createSessionActor restored mode))"
  by (rule actor_run_inv [OF createSessionActor_inv])

end
