(* ===== verification/ActorHold.thy ===== *)
theory ActorHold
  imports ActorSafety
begin

text \<open>
  When the session actor starts nothing: while it is paused, and after a user's cancel until the user acts. The
  turns that start are read off the log (\<open>starts\<close>); every operation below is shown to start none where the
  session is held or paused.
\<close>

section \<open>Turns started\<close>

definition started :: "effect \<Rightarrow> string list" where
  "started x = (case x of Emit ev \<Rightarrow> (case ev of TurnStarted i _ _ \<Rightarrow> [i] | _ \<Rightarrow> []) | _ \<Rightarrow> [])"

definition starts :: "actor \<Rightarrow> string list" where
  "starts s = concat (map started (a_log s))"

text \<open>Held or paused: \<open>settleIdle\<close> takes nothing from the queue.\<close>

definition blocked :: "actor \<Rightarrow> bool" where
  "blocked s \<longleftrightarrow> a_held s \<or> a_paused s"

lemma starts_out [simp]: "starts (out x s) = starts s @ started x" "starts (emit e s) = starts s @ started (Emit e)"
  by (simp_all add: starts_def)

lemma starts_frame [simp]:
  "starts (used_id s) = starts s" "starts (set_queue q s) = starts s" "starts (upd_turn f s) = starts s"
  "starts (s\<lparr>a_held := b\<rparr>) = starts s" "starts (s\<lparr>a_paused := b\<rparr>) = starts s" "starts (s\<lparr>a_mode := m\<rparr>) = starts s"
  "starts (s\<lparr>a_heldRestart := b\<rparr>) = starts s" "starts (s\<lparr>a_active := t\<rparr>) = starts s"
  "starts (s\<lparr>a_agentItems := is\<rparr>) = starts s"
  by (simp_all add: starts_def)

lemma starts_setForeground [simp]: "starts (setForeground f s) = starts s"
  by (simp add: setForeground_def Let_def started_def starts_def)

lemma starts_emitQueue [simp]: "starts (emitQueue s) = starts s"
  by (simp add: emitQueue_def started_def)

lemma starts_dropShown [simp]: "starts (dropShown env s) = starts s"
  by (simp add: dropShown_def)

lemma starts_compactionUpdated [simp]: "starts (compactionUpdated st f n s) = starts s"
  by (simp add: compactionUpdated_def started_def split: option.splits)

lemma starts_run [simp]: "starts (run p c s) = starts s"
  by (simp add: run_def started_def)

lemma starts_abandon [simp]: "starts (abandon_each ps t s) = starts s" "starts (abandonPending s) = starts s"
proof -
  show *: "starts (abandon_each ps t s) = starts s" for ps t s
    by (induction ps t s rule: abandon_each.induct) (simp_all add: Let_def started_def)
  show "starts (abandonPending s) = starts s" by (simp add: abandonPending_def * split: option.splits)
qed

lemma starts_close [simp]: "starts (complete_each st is s) = starts s" "starts (closeOpenItems st s) = starts s"
proof -
  show *: "starts (complete_each st is s) = starts s" for st "is" s
    by (induction st "is" s rule: complete_each.induct) (simp_all add: started_def)
  show "starts (closeOpenItems st s) = starts s" by (simp add: closeOpenItems_def * split: option.splits)
qed

lemma starts_stop [simp]: "starts (stopTurn env s) = starts s" "starts (drop_turn s) = starts s"
  by (simp_all add: stopTurn_def drop_turn_def Let_def started_def split: option.splits)

lemma starts_resolve [simp]: "starts (resolve_with p r s) = starts s" "starts (forget_request k s) = starts s"
  by (simp_all add: resolve_with_def forget_request_def started_def)

lemma starts_hand_over [simp]: "starts (hand_over env i e q h s) = starts s"
  by (simp add: hand_over_def Let_def started_def split: option.split prod.split)

lemma hand_over_blocked [simp]:
  "a_held (hand_over env i e q h s) = a_held s" "a_paused (hand_over env i e q h s) = a_paused s"
  "a_heldRestart (hand_over env i e q h s) = a_heldRestart s"
  by (simp_all add: hand_over_def Let_def split: option.split prod.split)

section \<open>Operations on a blocked session\<close>

text \<open>The flags an operation leaves alone, and no turn started.\<close>

definition calm :: "actor \<Rightarrow> actor \<Rightarrow> bool" where
  "calm s s' \<longleftrightarrow> starts s' = starts s \<and> a_held s' = a_held s \<and> a_paused s' = a_paused s \<and>
     a_heldRestart s' = a_heldRestart s"

lemma calm_refl [simp]: "calm s s"
  by (simp add: calm_def)

lemma calm_trans: "calm s t \<Longrightarrow> calm t u \<Longrightarrow> calm s u"
  by (simp add: calm_def)

lemma calm_blocked: "calm s t \<Longrightarrow> blocked s \<Longrightarrow> blocked t"
  by (simp add: calm_def blocked_def)

lemma settleIdle_calm: "blocked s \<Longrightarrow> calm s (settleIdle env s)"
  by (auto simp: settleIdle_def blocked_def calm_def Let_def split: option.splits)

text \<open>Settling after steps that start nothing.\<close>

lemma settle_after: "calm s t \<Longrightarrow> blocked s \<Longrightarrow> calm s (settleIdle env t)"
  using calm_trans settleIdle_calm calm_blocked by blast

lemma cancel_calm: "blocked s \<Longrightarrow> calm s (cancel env b s)"
  unfolding cancel_def
  by (cases "a_active s") (auto simp: Let_def intro!: settle_after, simp add: calm_def started_def)

lemma finish_calm: "blocked s \<Longrightarrow> calm s t \<Longrightarrow> calm s (finish env t)"
  unfolding finish_def by (rule settle_after) (auto simp: calm_def)

lemma compaction_done_calm [simp]:
  "starts (compaction_done env t c k n s) = starts s" "a_held (compaction_done env t c k n s) = a_held s"
  "a_paused (compaction_done env t c k n s) = a_paused s"
  "a_heldRestart (compaction_done env t c k n s) = a_heldRestart s"
  by (simp_all add: compaction_done_def Let_def started_def split: option.splits)

lemma auto_compaction_calm: "calm s (auto_compaction t s)"
  by (simp add: calm_def auto_compaction_def Let_def)

lemma done_ok_calm: "blocked s \<Longrightarrow> calm s (done_ok env t p c k n s)"
  by (auto simp: done_ok_def Let_def auto_compaction_calm intro!: finish_calm) (simp_all add: calm_def started_def)

lemma done_failed_calm: "blocked s \<Longrightarrow> calm s (done_failed env t code msg s)"
  by (auto simp: done_failed_def Let_def blocked_def calm_def started_def)

lemma engine_ended_calm:
  assumes "blocked s"
  shows "calm s (engine_ended env t p outcome s)"
proof -
  let ?c = "closeOpenItems Unknown s"
  have c: "calm s ?c" by (simp add: calm_def)
  note b = calm_blocked [OF c assms]
  have "calm s (done_ok env t p x k n ?c)" "calm s (done_failed env t code msg ?c)" for x k n code msg
    using calm_trans [OF c done_ok_calm [OF b]] calm_trans [OF c done_failed_calm [OF b]] by blast+
  moreover have "calm s (finish env (emit (TurnInterrupted (t_id t) reason (t_cause t))
      (closeOpenItems Interrupted (compactionUpdated CInterrupted None None s))))" for reason
    by (rule finish_calm [OF assms]) (simp add: calm_def started_def)
  ultimately show ?thesis
    using finish_calm [OF assms calm_refl]
    by (simp add: engine_ended_def Let_def split: option.splits turn_outcome.splits)
qed

lemma onEngineDone_calm:
  assumes "blocked s"
  shows "calm s (onEngineDone env i p outcome s)"
proof (cases "a_active s")
  case None
  then show ?thesis by (simp add: onEngineDone_def)
next
  case (Some t)
  let ?s = "abandonPending (if t_grace t then out (CancelGrace i) (upd_turn (\<lambda>t. t\<lparr>t_grace := False\<rparr>) s) else s)"
  have c: "calm s ?s" by (simp add: calm_def started_def)
  from calm_trans [OF c engine_ended_calm [OF calm_blocked [OF c assms]]] Some show ?thesis
    by (simp add: onEngineDone_def Let_def)
qed

lemma onEngineEvent_calm: "calm s (onEngineEvent env i ev s)"
  by (cases ev) (simp_all add: onEngineEvent_def calm_def on_retrying_def on_item_started_def on_item_completed_def
      started_def Let_def split: option.split)

lemma onAgentEvent_calm: "calm s (onAgentEvent i ev s)"
  by (cases ev) (simp_all add: onAgentEvent_def calm_def started_def)

lemma onEngineRequest_calm: "calm s (onEngineRequest env i rq h s)"
  by (simp add: onEngineRequest_def Let_def calm_def started_def split: option.split)

lemma onEnginePermission_calm: "calm s (onEnginePermission i m s)"
  by (simp add: onEnginePermission_def calm_def started_def)

lemma onRequestCancel_calm: "calm s (onRequestCancel i k s)"
  by (simp add: onRequestCancel_def Let_def calm_def started_def split: option.split)

lemma onEngineQueue_calm: "calm s (onEngineQueue env i u h s)"
  by (simp add: onEngineQueue_def Let_def calm_def started_def split: option.split)

lemma onNotice_calm:
  assumes "blocked s" and "onNotice env n s = (i, s')"
  shows "calm s s'"
proof -
  have "calm s (settleIdle env (emitQueue (emit (QueueAdded e) (set_queue q s1))))" if "s1 \<in> {s, used_id s}" for e q s1
    by (rule settle_after [OF _ assms(1)]) (use that in \<open>auto simp: calm_def started_def\<close>)
  moreover have "calm s (emitQueue (emit (QueueEdited j x c) (set_queue q s)))" for j x c q
    by (simp add: calm_def started_def)
  ultimately show ?thesis
    using assms(2) by (auto simp: onNotice_def Let_def split: option.splits if_splits)
qed

section \<open>Commands on a blocked session\<close>

text \<open>A paused session stays so through every command; some of them release a hold.\<close>

definition quiet_paused :: "actor \<Rightarrow> actor \<Rightarrow> bool" where
  "quiet_paused s s' \<longleftrightarrow> (a_paused s \<longrightarrow> starts s' = starts s \<and> a_paused s')"

lemma quiet_settle:
  assumes "starts t = starts s" and "a_paused t = a_paused s"
  shows "quiet_paused s (settleIdle env t)" "quiet_paused s (settleIdle env (cancel env b t))"
proof -
  have blocked: "a_paused s \<Longrightarrow> blocked t" using assms by (simp add: blocked_def)
  show "quiet_paused s (settleIdle env t)"
    using settleIdle_calm [OF blocked] assms by (auto simp: quiet_paused_def calm_def)
  show "quiet_paused s (settleIdle env (cancel env b t))"
    using settle_after [OF cancel_calm [OF blocked] blocked] assms by (auto simp: quiet_paused_def calm_def)
qed

lemma attempt_starts: "attempt env (QueueAdded e) s = (r, s') \<Longrightarrow> starts s' = starts s \<and> a_paused s' = a_paused s"
  by (auto simp: attempt_def started_def split: option.splits)

lemma user_submit_quiet:
  assumes r: "user_submit env tx atts display m sel opts d authority s = (r, s')"
  shows "quiet_paused s s'"
proof (cases "queue_full s")
  case True
  with r show ?thesis by (simp add: user_submit_def quiet_paused_def)
next
  case False
  let ?s2 = "dropShown env (used_id s)"
  let ?waited = "if a_held ?s2 then filter q_rides (a_queue ?s2) else []"
  let ?e = "submit_entry (fresh_id env QueueId s) ?waited tx atts display m sel opts authority"
  obtain refused s3 where at: "attempt env (QueueAdded ?e) ?s2 = (refused, s3)" by fastforce
  have s3: "starts s3 = starts s" "a_paused s3 = a_paused s" using attempt_starts [OF at] by auto
  show ?thesis
  proof (cases refused)
    case (Some x)
    with r False at s3 show ?thesis by (simp add: user_submit_def Let_def quiet_paused_def)
  next
    case None
    let ?d = "submit_delivery env d (used_id s)"
    let ?s4 = "if ?waited = [] then s3 else set_queue (filter (\<lambda>x. \<not> q_rides x) (a_queue s3)) s3"
    let ?q = "place_submitted ?d (?e\<lparr>q_delivery := ?d\<rparr>) (a_queue ?s4)"
    let ?s6 = "emitQueue ((set_queue ?q ?s4)\<lparr>a_held := False\<rparr>)"
    have s6: "?s6 = emitQueue ((set_queue ?q s3)\<lparr>a_held := False\<rparr>)" by (simp add: set_queue_def)
    have "quiet_paused s (settleIdle env ?s6)" "quiet_paused s (settleIdle env (cancel env ByPromotion ?s6))"
      unfolding s6 by (rule quiet_settle; simp add: s3)+
    with r False at None show ?thesis
      by (auto simp: user_submit_def Let_def split: if_splits)
  qed
qed

lemma user_shell_quiet: "user_shell env c l m s = (r, s') \<Longrightarrow> quiet_paused s s'"
  using attempt_starts [of env _ "used_id s"]
  by (auto simp: user_shell_def Let_def split: if_splits option.splits prod.splits intro!: quiet_settle)
    (auto simp: quiet_paused_def)

lemma queue_promote_quiet:
  assumes r: "queue_promote env i s = (r, s')"
  shows "quiet_paused s s'"
proof (cases "a_paused s")
  case False
  then show ?thesis by (simp add: quiet_paused_def)
next
  case True
  with r show ?thesis
    by (auto simp: queue_promote_def Let_def split: option.splits intro!: quiet_settle) (auto simp: quiet_paused_def)
qed

lemma queue_remove_quiet: "queue_remove env i s = (r, s') \<Longrightarrow> quiet_paused s s'"
  by (auto simp: queue_remove_def split: option.splits intro!: quiet_settle) (auto simp: quiet_paused_def)

lemma queue_steer_quiet: "queue_steer env i s = (r, s') \<Longrightarrow> quiet_paused s s'"
  by (auto simp: queue_steer_def Let_def split: option.splits if_splits intro!: quiet_settle) (auto simp: quiet_paused_def)

lemma session_compact_quiet: "session_compact env ins sel s = (r, s') \<Longrightarrow> quiet_paused s s'"
  by (auto simp: session_compact_def Let_def split: if_splits intro!: quiet_settle) (auto simp: quiet_paused_def started_def)

text \<open>The commands that neither start anything nor release a hold.\<close>

lemma queue_reorder_calm: "queue_reorder i to s = (r, s') \<Longrightarrow> calm s s'"
  by (auto simp: queue_reorder_def Let_def calm_def split: option.splits if_splits)

lemma queue_edit_calm: "queue_edit i x c s = (r, s') \<Longrightarrow> calm s s'"
  by (auto simp: queue_edit_def Let_def calm_def started_def split: option.splits if_splits)

lemma request_resolve_calm: "request_resolve k d c s = (r, s') \<Longrightarrow> calm s s'"
  by (auto simp: request_resolve_def Let_def calm_def started_def split: option.splits if_splits)

lemma permission_set_calm: "permission_set m c s = (r, s') \<Longrightarrow> calm s s'"
  by (auto simp: permission_set_def calm_def started_def split: if_splits)

lemma compaction_set_calm: "compaction_set i x s = (r, s') \<Longrightarrow> calm s s'"
  by (auto simp: compaction_set_def calm_def split: option.splits if_splits)

lemma queue_remove_calm: "blocked s \<Longrightarrow> queue_remove env i s = (r, s') \<Longrightarrow> calm s s'"
  by (auto simp: queue_remove_def split: option.splits intro!: settle_after) (simp add: calm_def)

lemma turn_cancel_starts:
  assumes "turn_cancel env i s = (r, s')"
  shows "starts s' = starts s \<and> a_paused s' = a_paused s \<and> (a_held s \<longrightarrow> a_held s') \<and> (\<not> a_heldRestart s \<longrightarrow> \<not> a_heldRestart s')"
proof -
  let ?s = "s\<lparr>a_held := True, a_heldRestart := False\<rparr>"
  have "starts ?s = starts s" by (simp add: starts_def)
  moreover have "calm ?s (cancel env ByUser ?s)" by (rule cancel_calm) (simp add: blocked_def)
  ultimately show ?thesis
    using assms by (auto simp: turn_cancel_def calm_def split: option.splits if_splits)
qed

lemma onInterrupt_starts:
  "starts (onInterrupt env reason c s) = starts s \<and> a_paused (onInterrupt env reason c s) = a_paused s \<and>
   a_held (onInterrupt env reason c s) \<and> \<not> a_heldRestart (onInterrupt env reason c s)"
proof -
  let ?s = "s\<lparr>a_held := True, a_heldRestart := False\<rparr>"
  have s: "starts ?s = starts s" by (simp add: starts_def)
  have "calm ?s (settleIdle env ?s)" by (rule settleIdle_calm) (simp add: blocked_def)
  then show ?thesis by (auto simp: onInterrupt_def Let_def calm_def s)
qed

lemma onCommand_quiet:
  assumes "onCommand env target c authority s = (r, s')"
  shows "quiet_paused s s'"
proof -
  have calm: "quiet_paused s s'" if "calm s s'" using that by (auto simp: quiet_paused_def calm_def)
  show ?thesis
  proof (cases "target \<noteq> env_session env")
    case True
    with assms show ?thesis by (auto simp: onCommand_def quiet_paused_def)
  next
    case False
    with assms show ?thesis
      using turn_cancel_starts [of env _ s r s']
      by (cases c)
        (auto simp: onCommand_def user_submit_quiet user_shell_quiet queue_promote_quiet queue_remove_quiet
          queue_steer_quiet session_compact_quiet quiet_paused_def [of s s] calm queue_reorder_calm queue_edit_calm
          request_resolve_calm permission_set_calm compaction_set_calm, auto simp: quiet_paused_def)
  qed
qed

section \<open>Messages that resume, and the messages of the background\<close>

text \<open>The message that resumes a paused session.\<close>

definition resumes :: "message \<Rightarrow> bool" where
  "resumes m = (case m of MPause v _ _ \<Rightarrow> \<not> v | _ \<Rightarrow> False)"

text \<open>What may arrive without the user asking for work: everything engines, notices and background agents send,
  the user's edits of the queue, answers and settings. A command that submits, promotes, steers, compacts or runs a shell command, a
  forced steer, an idle compaction and a resume that drops the hold are the others.\<close>

definition background_command :: "command \<Rightarrow> bool" where
  "background_command c =
     (case c of QueueRemove _ \<Rightarrow> True | QueueReorder _ _ \<Rightarrow> True | QueueEdit _ _ _ \<Rightarrow> True | QueueList \<Rightarrow> True
      | TurnCancel _ \<Rightarrow> True | RequestResolve _ _ _ \<Rightarrow> True | PermissionSet _ _ \<Rightarrow> True | CompactionSet _ _ \<Rightarrow> True
      | _ \<Rightarrow> False)"

definition background :: "message \<Rightarrow> bool" where
  "background m =
     (case m of MCommand _ c _ _ \<Rightarrow> background_command c
      | MSteer st _ \<Rightarrow> \<not> st_force st
      | MCompactIdle _ \<Rightarrow> False
      | MPause v keepHeld _ \<Rightarrow> v \<or> keepHeld
      | _ \<Rightarrow> True)"

text \<open>Held by the user: a restart's release does not apply.\<close>

definition user_held :: "actor \<Rightarrow> bool" where
  "user_held s \<longleftrightarrow> a_held s \<and> \<not> a_heldRestart s"

lemma calm_reply: "calm s (out (Reply h x) t) = calm s t"
  by (simp add: calm_def started_def)

lemma onPause_held:
  assumes held: "a_held s" and "v \<or> keepHeld"
  shows "starts (onPause env v keepHeld s) = starts s \<and> a_held (onPause env v keepHeld s) \<and>
         a_heldRestart (onPause env v keepHeld s) = a_heldRestart s"
proof -
  let ?p = "s\<lparr>a_paused := v\<rparr>"
  have 1: "calm ?p (settleIdle env ?p)" by (rule settleIdle_calm) (simp add: blocked_def held)
  have 2: "calm ?p (settleIdle env (out (OnPause v) ?p))"
    by (rule settle_after) (simp_all add: calm_def started_def blocked_def held)
  show ?thesis
  proof (cases v)
    case True
    then show ?thesis by (simp add: onPause_def Let_def started_def held)
  next
    case False
    with assms 1 2 show ?thesis by (simp add: onPause_def Let_def calm_def)
  qed
qed

lemma onPause_paused:
  "a_paused s \<Longrightarrow> starts (onPause env True keepHeld s) = starts s \<and> a_paused (onPause env True keepHeld s)"
  by (simp add: onPause_def Let_def)

lemma onCommand_background:
  assumes r: "onCommand env target c authority s = (r, s')" and b: "background_command c" and h: "user_held s"
  shows "starts s' = starts s \<and> user_held s'"
proof (cases "target \<noteq> env_session env")
  case True
  with r h show ?thesis by (simp add: onCommand_def)
next
  case False
  have calm: "calm s s' \<Longrightarrow> starts s' = starts s \<and> user_held s'" using h by (simp add: calm_def user_held_def)
  have blocked: "blocked s" using h by (simp add: user_held_def blocked_def)
  show ?thesis
  proof (cases c)
    case (TurnCancel i)
    with turn_cancel_starts [of env i s r s'] r False h show ?thesis by (simp add: onCommand_def user_held_def)
  next
    case (QueueRemove i)
    with r False queue_remove_calm [OF blocked] show ?thesis by (intro calm) (simp add: onCommand_def)
  next
    case (QueueReorder i to)
    with r False queue_reorder_calm show ?thesis by (intro calm) (simp add: onCommand_def)
  next
    case (QueueEdit i x k)
    with r False queue_edit_calm show ?thesis by (intro calm) (simp add: onCommand_def)
  next
    case (RequestResolve k d x)
    with r False request_resolve_calm show ?thesis by (intro calm) (simp add: onCommand_def)
  next
    case (PermissionSet k d)
    with r False permission_set_calm show ?thesis by (intro calm) (simp add: onCommand_def)
  next
    case (CompactionSet k d)
    with r False compaction_set_calm show ?thesis by (intro calm) (simp add: onCommand_def)
  next
    case QueueList
    with r False show ?thesis by (intro calm) (simp add: onCommand_def)
  qed (use b in \<open>simp_all add: background_command_def\<close>)
qed

lemmas handler_calm = onEngineEvent_calm onAgentEvent_calm onEngineRequest_calm onEnginePermission_calm
  onRequestCancel_calm onEngineQueue_calm

lemma handleMessage_background:
  assumes "background m" and "user_held s"
  shows "starts (handleMessage env m s) = starts s \<and> user_held (handleMessage env m s)"
proof -
  have blocked: "blocked s" using assms(2) by (simp add: user_held_def blocked_def)
  have calm: "starts t = starts s \<and> user_held t" if "calm s t" for t using that assms(2) by (simp add: calm_def user_held_def)
  show ?thesis
  proof (cases m)
    case (MCommand target c authority h)
    obtain r s1 where "onCommand env target c authority s = (r, s1)" by fastforce
    from onCommand_background [OF this _ assms(2)] this MCommand assms(1) show ?thesis
      by (simp add: handleMessage_def background_def user_held_def started_def)
  next
    case (MNotice n h)
    obtain i s1 where "onNotice env n s = (i, s1)" by fastforce
    with calm [OF onNotice_calm [OF blocked this]] MNotice show ?thesis
      by (simp add: handleMessage_def user_held_def started_def)
  next
    case (MSteer st h)
    with assms show ?thesis
      by (auto simp: handleMessage_def onSteer_def background_def user_held_def started_def Let_def)
  next
    case (MPause v keepHeld h)
    with assms onPause_held [of s v keepHeld env] show ?thesis
      by (auto simp: handleMessage_def background_def user_held_def started_def)
  next
    case (MRestartRelease h)
    with assms show ?thesis by (simp add: handleMessage_def onRestartRelease_def user_held_def started_def)
  next
    case (MInterrupt reason c h)
    with onInterrupt_starts [of env reason c s] show ?thesis by (simp add: handleMessage_def user_held_def started_def)
  qed (use assms(1) in \<open>simp_all add: handleMessage_def background_def calm [OF onEngineDone_calm [OF blocked]]
      handler_calm [THEN calm]\<close>)
qed

lemma handleMessage_paused:
  assumes "\<not> resumes m" and "a_paused s"
  shows "starts (handleMessage env m s) = starts s \<and> a_paused (handleMessage env m s)"
proof -
  have blocked: "blocked s" using assms(2) by (simp add: blocked_def)
  have calm: "starts t = starts s \<and> a_paused t" if "calm s t" for t using that assms(2) by (simp add: calm_def)
  show ?thesis
  proof (cases m)
    case (MCommand target c authority h)
    obtain r s1 where "onCommand env target c authority s = (r, s1)" by fastforce
    from onCommand_quiet [OF this] this MCommand assms(2) show ?thesis
      by (simp add: handleMessage_def quiet_paused_def started_def)
  next
    case (MNotice n h)
    obtain i s1 where "onNotice env n s = (i, s1)" by fastforce
    with calm [OF onNotice_calm [OF blocked this]] MNotice show ?thesis
      by (simp add: handleMessage_def started_def)
  next
    case (MInterrupt reason c h)
    with onInterrupt_starts [of env reason c s] assms show ?thesis by (simp add: handleMessage_def started_def)
  next
    case (MPause v keepHeld h)
    with assms onPause_paused [of s env keepHeld] show ?thesis
      by (auto simp: handleMessage_def resumes_def started_def)
  qed (use assms(2) in \<open>simp_all add: handleMessage_def onSteer_def onCompactIdle_def onRestartRelease_def started_def
      calm [OF onEngineDone_calm [OF blocked]] handler_calm [THEN calm]\<close>)
qed

end
