(* ===== verification/ActorProps.thy ===== *)
theory ActorProps
  imports ActorHold
begin

text \<open>
  What the session actor (\<open>packages/kernel/src/session-actor.ts\<close>) guarantees, as theorems over every sequence of
  messages an actor may handle from its creation on, and over the single operations. The witnesses evaluate the
  model on the small sessions of the first section.
\<close>

section \<open>Small sessions\<close>

text \<open>A session whose ids are the kind's letter and a count, with no shell, no steering boundary and no compaction.\<close>

definition small_ids :: "id_kind \<Rightarrow> nat \<Rightarrow> string" where
  "small_ids k n = (if k = TurnId then CHR ''t'' else if k = QueueId then CHR ''q'' else if k = ItemId then CHR ''i''
     else CHR ''r'') # replicate n CHR ''0''"

definition small_env :: env where
  "small_env = \<lparr>env_session = ''s'', env_graceMs = 5000, env_now = 0, env_ids = small_ids, env_queueMode = None,
     env_canSteer = True, env_runShell = False, env_needsCompaction = False, env_unless = (\<lambda>_. False),
     env_waiting = None, env_sendNow = (\<lambda>_ _. False), env_refuses = (\<lambda>_. None)\<rparr>"

definition submit_message :: "string \<Rightarrow> delivery option \<Rightarrow> message" where
  "submit_message t d = MCommand ''s'' (UserSubmit t [] None None None None d) None 0"

definition ask_message :: "string \<Rightarrow> message" where
  "ask_message turnId = MEngineRequest turnId \<lparr>rq_kind = ApprovalRequest, rq_title = ''run'', rq_detail = [], rq_item = None,
     rq_tool = None, rq_permission = None, rq_options = [], rq_multiple = False, rq_questions = None, rq_plan = None,
     rq_context = None, rq_flagged = False, rq_signal = False, rq_aborted = False\<rparr> 7"

text \<open>A new session, one with a running turn, and one whose turn the user cancelled with a message waiting.\<close>

definition new_session :: actor where
  "new_session = createSessionActor [] Ask"

definition submitted_session :: actor where
  "submitted_session = handleMessage small_env (submit_message ''hi'' None) new_session"

definition waiting_session :: actor where
  "waiting_session = handleMessage small_env (submit_message ''more'' None) submitted_session"

definition cancelled_session :: actor where
  "cancelled_session = handleMessage small_env (MCommand ''s'' (TurnCancel ''t0'') None 1) waiting_session"

lemmas small_defs = small_env_def small_ids_def submit_message_def ask_message_def new_session_def createSessionActor_def

section \<open>Runs\<close>

definition life :: "queue_entry list \<Rightarrow> permission_mode \<Rightarrow> actor_step list \<Rightarrow> actor" where
  "life restored mode steps = actor_run steps (createSessionActor restored mode)"

lemma life_invariant: "actor_inv (life restored mode steps)"
  by (simp add: life_def life_inv)

text \<open>C1: Whatever messages a session actor handles, in whatever order, its clients see one turn at a time: a turn
  starts only after the one before has completed, failed, been cancelled or interrupted, each turn that starts ends
  at most once and only by its own end, and the turn seen running at the end of the log is the actor's live turn.\<close>

theorem turns_never_overlap:
  "turn_scan (a_log (life restored mode steps)) = Some (live_turn (life restored mode steps))"
  using life_invariant by (simp add: actor_inv_def scans_ok_def)


text \<open>C2: No transcript item is left open: once the clients see no turn running, every item that was started has been
  completed, save those that background sub-agents are still reporting.\<close>

theorem items_are_closed:
  assumes "live_turn (life restored mode steps) = None"
  shows "item_scan (a_log (life restored mode steps)) \<subseteq> set (a_agentItems (life restored mode steps))"
proof -
  let ?s = "life restored mode steps"
  have i: "item_scan (a_log ?s) \<subseteq> open_items ?s" and t: "\<And>t. a_active ?s = Some t \<Longrightarrow> turn_ok t"
    using life_invariant by (simp_all add: actor_inv_def scans_ok_def)
  show ?thesis
  proof (cases "a_active ?s")
    case None
    with i show ?thesis by (simp add: open_items_def)
  next
    case (Some u)
    with assms t [OF Some] have "t_open u = []" by (auto simp: live_turn_def turn_ok_def split: if_splits)
    with i Some show ?thesis by (simp add: open_items_def)
  qed
qed

text \<open>C4: No request to the user outlives its turn: as soon as the turn is being stopped, or no turn is active, every
  request that was shown has been resolved.\<close>

theorem requests_are_resolved:
  assumes "\<not> running (life restored mode steps)"
  shows "request_scan (a_log (life restored mode steps)) = {}"
proof -
  let ?s = "life restored mode steps"
  have r: "request_scan (a_log ?s) \<subseteq> open_requests ?s" and t: "\<And>t. a_active ?s = Some t \<Longrightarrow> turn_ok t"
    using life_invariant by (simp_all add: actor_inv_def scans_ok_def)
  show ?thesis
  proof (cases "a_active ?s")
    case None
    with r show ?thesis by (simp add: open_requests_def)
  next
    case (Some u)
    with assms t [OF Some] have "t_pending u = []" by (auto simp: running_def turn_ok_def)
    with r Some show ?thesis by (simp add: open_requests_def)
  qed
qed

text \<open>C7: A session that nothing runs in, that is neither held nor paused, has nothing queued; nor has one whose
  foreground reads idle.\<close>

theorem free_session_has_no_queue:
  assumes "a_foreground (life restored mode steps) = FIdle \<or>
           (a_active (life restored mode steps) = None \<and> \<not> a_held (life restored mode steps) \<and>
            \<not> a_paused (life restored mode steps))"
  shows "a_queue (life restored mode steps) = []"
  using life_invariant [of restored mode steps] assms by (auto simp: actor_inv_def fg_ok_def free_ok_def)

definition ask_run :: "actor_step list" where
  "ask_run = [Handle small_env (submit_message ''hi'' None),
     Handle small_env (MEngineEvent ''t0'' (ItemStarted ''a'' AgentMessage None)),
     Handle small_env (ask_message ''t0''),
     Handle small_env (MCommand ''s'' (TurnCancel ''t0'') None 1)]"

lemma items_are_closed_witness:
  "live_turn (life [] Ask ask_run) = None \<and> item_scan (a_log (life [] Ask ask_run)) \<subseteq> set (a_agentItems (life [] Ask ask_run))"
proof -
  have h: "live_turn (life [] Ask ask_run) = None" by code_simp
  show ?thesis using h items_are_closed [OF h] by blast
qed

lemma requests_are_resolved_witness:
  "\<not> running (life [] Ask ask_run) \<and> request_scan (a_log (life [] Ask ask_run)) = {}"
proof -
  have h: "\<not> running (life [] Ask ask_run)" by code_simp
  show ?thesis using h requests_are_resolved [OF h] by blast
qed

lemma free_session_has_no_queue_witness:
  "a_foreground (life [] Ask ask_run) = FIdle \<and> a_queue (life [] Ask ask_run) = []"
proof -
  have h: "a_foreground (life [] Ask ask_run) = FIdle" by code_simp
  have "a_queue (life [] Ask ask_run) = []" by (rule free_session_has_no_queue) (simp add: h)
  with h show ?thesis by blast
qed

section \<open>Held and paused sessions\<close>

lemma drain_paused:
  "\<forall>(env, m) \<in> set ms. \<not> resumes m \<Longrightarrow> a_paused s \<Longrightarrow> starts (drain_list ms s) = starts s \<and> a_paused (drain_list ms s)"
  using handleMessage_paused by (induction ms s rule: drain_list.induct) auto

lemma drain_held:
  "\<forall>(env, m) \<in> set ms. background m \<Longrightarrow> user_held s \<Longrightarrow> starts (drain_list ms s) = starts s \<and> user_held (drain_list ms s)"
  using handleMessage_background by (induction ms s rule: drain_list.induct) auto

text \<open>C25: A paused session starts no turn, whatever is submitted, promoted, steered or reported, until the message
  that resumes it.\<close>

theorem paused_starts_nothing:
  assumes "a_paused s" and "\<forall>(env, m) \<in> set ms. \<not> resumes m"
  shows "starts (drain_list ms s) = starts s \<and> a_paused (drain_list ms s)"
  using assms drain_paused by blast

lemma paused_starts_nothing_witness:
  "starts (drain_list [(small_env, submit_message ''hi'' None), (small_env, MCommand ''s'' (QueueSteer ''q'') None 2)]
       (new_session\<lparr>a_paused := True\<rparr>)) = []"
proof -
  have "starts (new_session\<lparr>a_paused := True\<rparr>) = []" "a_paused (new_session\<lparr>a_paused := True\<rparr>)" by code_simp+
  with paused_starts_nothing [of "new_session\<lparr>a_paused := True\<rparr>"
      "[(small_env, submit_message ''hi'' None), (small_env, MCommand ''s'' (QueueSteer ''q'') None 2)]"]
  show ?thesis by (simp add: resumes_def submit_message_def)
qed

text \<open>C24: After the user cancels the running turn the session stays stopped: the engine winding down, notices of
  background tasks, interrupts, unforced steering, and the user's own edits of the queue, answers and settings start
  no turn, as long as nobody asks for one: the user neither submits, promotes, steers, runs a shell command, compacts nor
  resumes the session (which releases the hold), and the daemon neither forces a turn nor packs the idle session.\<close>

theorem cancel_holds_the_session:
  assumes "a_active s = Some t" and "\<not> stopping t" and "target = env_session env"
    and "\<forall>(env', m) \<in> set ms. background m"
  shows "starts (drain_list ms (handleMessage env (MCommand target (TurnCancel (t_id t)) authority h) s)) = starts s"
proof -
  let ?s = "handleMessage env (MCommand target (TurnCancel (t_id t)) authority h) s"
  let ?h = "s\<lparr>a_held := True, a_heldRestart := False\<rparr>"
  have eq: "?s = out (Reply h (RCommand (Inr NoResult))) (cancel env ByUser ?h)"
    by (simp add: handleMessage_def onCommand_def turn_cancel_def assms(1-3))
  have "calm ?h (cancel env ByUser ?h)" by (rule cancel_calm) (simp add: blocked_def)
  then have "starts ?s = starts s" "user_held ?s"
    unfolding eq by (simp_all add: calm_def user_held_def started_def)
  with drain_held [OF assms(4)] show ?thesis by simp
qed

lemma cancel_holds_the_session_witness:
  "starts (drain_list [(small_env, MEngineDone ''t0'' PTurn (TurnOk False None None)),
       (small_env, MSteer \<lparr>st_text = ''go'', st_label = ''go'', st_meta = [], st_force = False, st_afterRestart = True\<rparr> 3)]
     cancelled_session) = [''t0'']"
proof -
  obtain t where t: "a_active waiting_session = Some t" "t_id t = ''t0''" "\<not> stopping t"
  proof -
    have "(case a_active waiting_session of None \<Rightarrow> False | Some t \<Rightarrow> t_id t = ''t0'' \<and> \<not> stopping t)" by code_simp
    then show ?thesis using that by (cases "a_active waiting_session") auto
  qed
  have "starts waiting_session = [''t0'']" by code_simp
  moreover have "''s'' = env_session small_env" by (simp add: small_env_def)
  ultimately show ?thesis
    using cancel_holds_the_session [OF t(1) t(3), of "''s''" small_env
      "[(small_env, MEngineDone ''t0'' PTurn (TurnOk False None None)),
       (small_env, MSteer \<lparr>st_text = ''go'', st_label = ''go'', st_meta = [], st_force = False, st_afterRestart = True\<rparr> 3)]"
      None 1] t(2)
    by (simp add: background_def cancelled_session_def)
qed

section \<open>Submitting\<close>

lemma active_settle [simp]:
  "a_active s \<noteq> None \<Longrightarrow> a_queue (settleIdle env s) = a_queue s \<and> a_held (settleIdle env s) = a_held s \<and>
     starts (settleIdle env s) = starts s \<and> a_active (settleIdle env s) = a_active s"
  by (cases "a_active s") (simp_all add: settleIdle_def)

lemma stopTurn_keeps [simp]:
  "a_queue (stopTurn env s) = a_queue s" "a_held (stopTurn env s) = a_held s"
  "(a_active (stopTurn env s) = None) = (a_active s = None)"
  by (auto simp: stopTurn_def Let_def split: option.splits)

lemma cancel_keeps:
  "a_active s \<noteq> None \<Longrightarrow> a_queue (cancel env b s) = a_queue s \<and> a_held (cancel env b s) = a_held s \<and>
     starts (cancel env b s) = starts s \<and> a_active (cancel env b s) \<noteq> None"
  by (auto simp: cancel_def Let_def started_def closeOpenItems_def split: option.splits)

text \<open>The notices a stopped session folds into the next message, and what stays queued.\<close>

definition folded :: "env \<Rightarrow> actor \<Rightarrow> queue_entry list" where
  "folded env s = (if a_held s then filter (\<lambda>e. q_rides e \<and> \<not> is_shown env e) (a_queue s) else [])"

definition kept :: "env \<Rightarrow> actor \<Rightarrow> queue_entry list" where
  "kept env s = filter (\<lambda>e. \<not> is_shown env e \<and> \<not> (a_held s \<and> q_rides e)) (a_queue s)"

lemma folded_alt: "filter (\<lambda>x. \<not> is_shown env x \<and> q_rides x) q = filter (\<lambda>e. q_rides e \<and> \<not> is_shown env e) q"
  by (rule filter_cong) auto

lemma kept_alt:
  "a_held s \<Longrightarrow> filter (\<lambda>e. \<not> q_rides e) (filter (\<lambda>e. \<not> is_shown env e) (a_queue s)) = kept env s"
  by (auto simp: kept_def intro!: filter_cong)

lemma kept_no_fold: "folded env s = [] \<Longrightarrow> filter (\<lambda>e. \<not> is_shown env e) (a_queue s) = kept env s"
  by (auto simp: kept_def folded_def filter_empty_conv intro!: filter_cong)

lemma attempt_ok: "env_refuses env ev = None \<Longrightarrow> attempt env ev s = (None, emit ev s)"
  by (simp add: attempt_def)

lemma submit_queue:
  assumes room: "\<not> queue_full s" and busy: "a_active s \<noteq> None"
    and e: "e = submit_entry (fresh_id env QueueId s) (folded env s) tx atts display m sel opts authority"
    and ok: "env_refuses env (QueueAdded e) = None" and dl: "dl = submit_delivery env d s"
    and r: "user_submit env tx atts display m sel opts d authority s = (r, s')"
  shows "a_queue s' = place_submitted dl (e\<lparr>q_delivery := dl\<rparr>) (kept env s)" and "\<not> a_held s'" and "starts s' = starts s"
    and "\<exists>x. r = Inr (Submitted (fresh_id env QueueId s) x (dl = Some DSteer))"
proof -
  let ?s2 = "dropShown env (used_id s)"
  let ?w = "if a_held ?s2 then filter q_rides (a_queue ?s2) else []"
  have w: "?w = folded env s" by (simp add: folded_def folded_alt)
  have at: "attempt env (QueueAdded e) ?s2 = (None, emit (QueueAdded e) ?s2)" by (rule attempt_ok [OF ok])
  have d': "submit_delivery env d (used_id s) = dl"
    unfolding dl by (simp add: submit_delivery_def steerable_def)
  define s3 where "s3 = emit (QueueAdded e) ?s2"
  define s4 where "s4 = (if folded env s = [] then s3 else set_queue (filter (\<lambda>x. \<not> q_rides x) (a_queue s3)) s3)"
  have q4: "a_queue s4 = kept env s"
    unfolding s4_def s3_def using kept_no_fold [of env s] kept_alt [of s env]
    by (cases "a_held s") (auto simp: folded_def)
  have s4: "a_active s4 = a_active s" "starts s4 = starts s" by (simp_all add: s4_def s3_def started_def)
  define s6 where "s6 = emitQueue ((set_queue (place_submitted dl (e\<lparr>q_delivery := dl\<rparr>) (a_queue s4)) s4)\<lparr>a_held := False\<rparr>)"
  have s6: "a_active s6 \<noteq> None" "\<not> a_held s6" "starts s6 = starts s"
    "a_queue s6 = place_submitted dl (e\<lparr>q_delivery := dl\<rparr>) (kept env s)"
    unfolding s6_def using s4 q4 busy by simp_all
  let ?b = "(dl = Some DRestart \<or> (dl = None \<and> env_queueMode env = Some Immediate)) \<and> \<not> a_paused s6 \<and> running s6"
  have "(r, s') = (Inr (Submitted (fresh_id env QueueId s) (case d of None \<Rightarrow> None | Some d' \<Rightarrow> Some (orelse dl d')) (dl = Some DSteer)),
      settleIdle env (if ?b then cancel env ByPromotion s6 else s6))"
    unfolding r [symmetric] user_submit_def Let_def w e [symmetric] at d' s3_def [symmetric]
    using room by (simp only: prod.case option.case s4_def [symmetric] s6_def [symmetric] if_False not_False_eq_True)
  then obtain b where res: "s' = settleIdle env (if b then cancel env ByPromotion s6 else s6)"
    and rr: "\<exists>x. r = Inr (Submitted (fresh_id env QueueId s) x (dl = Some DSteer))" by blast
  have c: "a_queue (cancel env ByPromotion s6) = a_queue s6 \<and> a_held (cancel env ByPromotion s6) = a_held s6 \<and>
     starts (cancel env ByPromotion s6) = starts s6 \<and> a_active (cancel env ByPromotion s6) \<noteq> None"
    by (rule cancel_keeps [OF s6(1)])
  show "a_queue s' = place_submitted dl (e\<lparr>q_delivery := dl\<rparr>) (kept env s)" "\<not> a_held s'" "starts s' = starts s"
    unfolding res using c s6 by (cases b; simp)+
  show "\<exists>x. r = Inr (Submitted (fresh_id env QueueId s) x (dl = Some DSteer))" by (rule rr)
qed

text \<open>A message submitted while a turn is active is queued, never lost and never run by itself: the hold is
  released, the notices a stopped session waited with are folded into it, everything else that is still worth
  showing keeps its place and order, and the message goes to the end of the queue; steered, behind the steered
  messages and ahead of the rest; sent with a restart, to the head and on its own.\<close>

theorem submit_places_the_message:
  assumes "\<not> queue_full s" and "a_active s \<noteq> None"
    and "e = submit_entry (fresh_id env QueueId s) (folded env s) tx atts display m sel opts authority"
    and "env_refuses env (QueueAdded e) = None" and "dl = submit_delivery env d s"
    and "user_submit env tx atts display m sel opts d authority s = (r, s')"
  shows "\<not> a_held s' \<and> starts s' = starts s \<and>
    (dl = Some DSteer \<longrightarrow> a_queue s' = takeWhile (\<lambda>x. q_delivery x = Some DSteer) (kept env s) @ e\<lparr>q_delivery := dl\<rparr> #
       dropWhile (\<lambda>x. q_delivery x = Some DSteer) (kept env s)) \<and>
    (dl = Some DRestart \<longrightarrow> a_queue s' = e\<lparr>q_delivery := dl, q_alone := True\<rparr> # kept env s) \<and>
    (dl \<noteq> Some DSteer \<and> dl \<noteq> Some DRestart \<longrightarrow> a_queue s' = kept env s @ [e\<lparr>q_delivery := dl\<rparr>])"
  using submit_queue [OF assms] by (simp add: place_submitted_def placeSteered_split)

lemma submit_places_the_message_witness:
  "\<exists>r s'. user_submit small_env ''now'' [] None None None None (Some DSteer) None waiting_session = (r, s') \<and>
     map q_text (a_queue s') = [''now'', ''more''] \<and> starts s' = [''t0'']"
proof -
  let ?e = "submit_entry (fresh_id small_env QueueId waiting_session) (folded small_env waiting_session) ''now'' [] None None None None None"
  let ?dl = "submit_delivery small_env (Some DSteer) waiting_session"
  have room: "\<not> queue_full waiting_session" by code_simp
  have busy: "a_active waiting_session \<noteq> None" by code_simp
  have ok: "env_refuses small_env (QueueAdded ?e) = None" by (simp add: small_env_def)
  have d: "?dl = Some DSteer" by code_simp
  have s: "starts waiting_session = [''t0'']" by code_simp
  have k: "map q_text (takeWhile (\<lambda>x. q_delivery x = Some DSteer) (kept small_env waiting_session)) = []"
    by code_simp
  have k': "map q_text (dropWhile (\<lambda>x. q_delivery x = Some DSteer) (kept small_env waiting_session)) = [''more'']"
    by code_simp
  have "\<not> a_held waiting_session" by code_simp
  then have k'': "q_text ?e = ''now''" by (simp add: folded_def submit_entry_def plain_entry_def)
  obtain r s' where r: "user_submit small_env ''now'' [] None None None None (Some DSteer) None waiting_session = (r, s')"
    by fastforce
  note p = submit_places_the_message [OF room busy refl ok refl r]
  have "a_queue s' = takeWhile (\<lambda>x. q_delivery x = Some DSteer) (kept small_env waiting_session) @ ?e\<lparr>q_delivery := ?dl\<rparr> #
      dropWhile (\<lambda>x. q_delivery x = Some DSteer) (kept small_env waiting_session)"
    using p d by blast
  then have q: "map q_text (a_queue s') = [''now'', ''more'']" by (simp only: map_append list.map k k') (simp add: k'')
  have st: "starts s' = [''t0'']" using p unfolding s by blast
  show ?thesis by (intro exI conjI, rule r, rule q, rule st)
qed

text \<open>A full queue refuses every message that would add to it (a submission, a shell command, a compaction) as
  busy and leaves the session as it was; with room, the sink's refusal of a message is the answer and the message is
  not queued.\<close>

theorem full_queue_refuses:
  assumes "MAX_QUEUE_ENTRIES \<le> length (a_queue s)" and "target = env_session env" and "env_runShell env"
    and "c \<in> {UserSubmit tx atts display m sel opts d, UserShell tx local m, SessionCompact ins sel}"
  shows "onCommand env target c authority s = (Inl (Busy, QueueFull), s)"
  using assms by (auto simp: onCommand_def user_submit_def user_shell_def session_compact_def queue_full_def queueFull_def)

lemma full_queue_refuses_witness:
  "onCommand (small_env\<lparr>env_runShell := True\<rparr>) ''s'' (UserShell ''ls'' False None) None
     (new_session\<lparr>a_queue := replicate 256 (plain_entry ''q'' ''x'' [])\<rparr>) =
   (Inl (Busy, QueueFull), new_session\<lparr>a_queue := replicate 256 (plain_entry ''q'' ''x'' [])\<rparr>)"
  by (rule full_queue_refuses [where tx = "''ls''" and local = False and m = None])
    (simp_all add: MAX_QUEUE_ENTRIES_def small_env_def)

section \<open>Starting from the queue\<close>

lemma start_message_calls:
  "\<exists>item. last (a_log (start_message env i e js s)) =
     CallEngine (if q_shell e \<and> env_runShell env then RunShell (turn_input_of i item e js) else RunTurn (turn_input_of i item e js))"
  unfolding start_message_def Let_def run_def by (simp, blast)

lemma start_message_calls_turn:
  "\<exists>input. last (a_log (start_message env i e js s)) =
       CallEngine (if q_shell e \<and> env_runShell env then RunShell input else RunTurn input) \<and>
     ti_turn input = i \<and> ti_text input = js_join JOINED_SEPARATOR (map q_text (e # js)) \<and>
     ti_attachments input = concat (map q_attachments (e # js)) \<and> ti_selection input = q_selection e"
proof -
  obtain item where "last (a_log (start_message env i e js s)) =
     CallEngine (if q_shell e \<and> env_runShell env then RunShell (turn_input_of i item e js) else RunTurn (turn_input_of i item e js))"
    using start_message_calls by blast
  then show ?thesis by (intro exI [of _ "turn_input_of i item e js"]) (simp add: turn_input_of_def)
qed

lemma starts_start: "\<not> q_compact e \<Longrightarrow> starts (start env e js s) = starts s @ [fresh_id env TurnId s]"
proof -
  have "starts (emit_joined env i ks u) = starts u" for i ks u
    by (induction ks arbitrary: u) (simp_all add: Let_def started_def split: option.splits)
  then show "\<not> q_compact e \<Longrightarrow> ?thesis"
    by (simp add: start_def start_message_def Let_def started_def split: option.splits)
qed

text \<open>A free session that settles starts the first message that is still worth showing, together with exactly the
  plain messages right behind it that may join (at most 63, same selection and options, none sent on its own), and
  leaves the rest in order; the engine gets their texts as one request, in order.\<close>

theorem settle_starts_the_head:
  assumes "a_active s = None" and "\<not> a_held s" and "\<not> a_paused s"
    and "filter (\<lambda>e. \<not> is_shown env e) (a_queue s) = first # rest" and "\<not> q_compact first"
  shows "\<exists>joined input. rest = joined @ a_queue (settleIdle env s) \<and> length joined \<le> 63 \<and>
    (\<forall>e \<in> set joined. joins first e) \<and>
    starts (settleIdle env s) = starts s @ [fresh_id env TurnId s] \<and>
    last (a_log (settleIdle env s)) = CallEngine (if q_shell first \<and> env_runShell env then RunShell input else RunTurn input) \<and>
    ti_turn input = fresh_id env TurnId s \<and> ti_text input = js_join JOINED_SEPARATOR (map q_text (first # joined)) \<and>
    ti_attachments input = concat (map q_attachments (first # joined)) \<and> ti_selection input = q_selection first"
proof -
  let ?js = "joining first rest"
  let ?s = "set_queue (drop (length ?js) rest) (dropShown env s)"
  let ?i = "fresh_id env TurnId s"
  have i: "fresh_id env TurnId ?s = ?i" by (simp add: fresh_id_def)
  have eq: "settleIdle env s = start env first ?js ?s"
    using assms by (simp add: settleIdle_def Let_def)
  obtain s' where s': "start env first ?js ?s = start_message env ?i first ?js s'"
    using assms(5) by (auto simp: start_def Let_def i)
  obtain input where "last (a_log (settleIdle env s)) =
      CallEngine (if q_shell first \<and> env_runShell env then RunShell input else RunTurn input) \<and>
    ti_turn input = ?i \<and> ti_text input = js_join JOINED_SEPARATOR (map q_text (first # ?js)) \<and>
    ti_attachments input = concat (map q_attachments (first # ?js)) \<and> ti_selection input = q_selection first"
    unfolding eq s' using start_message_calls_turn by blast
  moreover have "rest = ?js @ a_queue (settleIdle env s)"
    unfolding eq by (simp add: joining_prefix)
  moreover have "starts (settleIdle env s) = starts s @ [?i]"
    unfolding eq by (simp add: starts_start [OF assms(5)] i)
  ultimately show ?thesis
    using joining_bound [of first rest] joining_joins [of _ first rest] by blast
qed

lemma settle_starts_the_head_witness:
  "starts (settleIdle small_env (new_session\<lparr>a_queue := [plain_entry ''a'' ''x'' [], plain_entry ''b'' ''y'' []]\<rparr>)) = [''t'']"
proof -
  let ?s = "new_session\<lparr>a_queue := [plain_entry ''a'' ''x'' [], plain_entry ''b'' ''y'' []]\<rparr>"
  have h: "a_active ?s = None" "\<not> a_held ?s" "\<not> a_paused ?s"
    "filter (\<lambda>e. \<not> is_shown small_env e) (a_queue ?s) = plain_entry ''a'' ''x'' [] # [plain_entry ''b'' ''y'' []]"
    "\<not> q_compact (plain_entry ''a'' ''x'' [])" "starts ?s = []" "fresh_id small_env TurnId ?s = ''t''"
    by code_simp+
  from settle_starts_the_head [OF h(1-5)] h(6,7) show ?thesis by auto
qed

section \<open>Late messages and answers\<close>

definition emitted :: "actor \<Rightarrow> event list" where
  "emitted s = concat (map (\<lambda>x. case x of Emit e \<Rightarrow> [e] | _ \<Rightarrow> []) (a_log s))"

text \<open>What an engine sends for one of its turns, and for the sub-agents the turn left in the background.\<close>

definition of_turn :: "string \<Rightarrow> message \<Rightarrow> bool" where
  "of_turn i m = (case m of MEngineEvent j _ \<Rightarrow> i = j | MEngineRequest j _ _ \<Rightarrow> i = j | MEnginePermission j _ \<Rightarrow> i = j
     | MEngineQueue j _ _ \<Rightarrow> i = j | MAgentEvent j _ \<Rightarrow> i = j | _ \<Rightarrow> False)"

text \<open>What such a sub-agent may still write: an item marked as one of a sub-agent, and what belongs to an item that was opened like that.\<close>

definition agent_item :: "string \<Rightarrow> actor \<Rightarrow> event \<Rightarrow> bool" where
  "agent_item i s ev =
     (case ev of EItemStarted j _ _ meta \<Rightarrow> i = j \<and> agent_parent meta
      | EItemDelta itemId _ _ \<Rightarrow> itemId \<in> set (a_agentItems s)
      | EItemCompleted c \<Rightarrow> ic_item c \<in> set (a_agentItems s) | _ \<Rightarrow> False)"

lemma agent_event:
  "(\<exists>new. emitted (onAgentEvent i ev s) = emitted s @ new \<and> length new \<le> 1 \<and> list_all (agent_item i s) new) \<and>
   a_queue (onAgentEvent i ev s) = a_queue s \<and> a_mode (onAgentEvent i ev s) = a_mode s \<and> a_active (onAgentEvent i ev s) = a_active s"
  by (cases ev) (auto simp: onAgentEvent_def emitted_def agent_item_def bare_completed_def)

text \<open>C26: After a turn is stopped, or once another runs, nothing its engine still sends for it changes the queue, the mode or the
  running turn, and items, usage, requests, permission changes and its asking for queued messages leave the
  transcript as it was; a request is answered as abandoned. The one thing that still reaches the transcript are the items of
  sub-agents the turn left in the background: each such message adds at most one event, which opens an item marked as
  one of a sub-agent or belongs to an item that was opened like that.\<close>

theorem late_engine_messages_are_dropped:
  assumes "\<not> isLive i s" and "of_turn i m"
  shows "((\<forall>ev. m \<noteq> MAgentEvent i ev) \<longrightarrow> emitted (handleMessage env m s) = emitted s) \<and>
    (\<exists>new. emitted (handleMessage env m s) = emitted s @ new \<and> length new \<le> 1 \<and> list_all (agent_item i s) new) \<and> a_queue (handleMessage env m s) = a_queue s \<and>
    a_mode (handleMessage env m s) = a_mode s \<and> a_active (handleMessage env m s) = a_active s \<and>
    (\<forall>j rq h. m = MEngineRequest j rq h \<longrightarrow> a_log (handleMessage env m s) = a_log s @ [Resolve h Abandoned])"
proof -
  have taken: "\<not> takes_queued i s" using assms(1) by (simp add: takes_queued_def)
  show ?thesis
  proof (cases m)
    case (MAgentEvent j ev)
    then show ?thesis using agent_event[of i ev s] assms(2) by (simp add: of_turn_def handleMessage_def)
  qed (use assms taken in \<open>auto simp: of_turn_def handleMessage_def onEngineEvent_def onEngineRequest_def onEnginePermission_def
        onEngineQueue_def emitted_def Let_def intro: exI[of _ "[]"] split: option.splits\<close>)
qed

lemma late_engine_messages_are_dropped_witness:
  "emitted (handleMessage small_env (ask_message ''t0'') cancelled_session) = emitted cancelled_session"
proof -
  have "\<not> isLive ''t0'' cancelled_session" by code_simp
  moreover have "of_turn ''t0'' (ask_message ''t0'')" by (simp add: of_turn_def ask_message_def)
  ultimately show ?thesis
    using late_engine_messages_are_dropped[of "''t0''" cancelled_session "ask_message ''t0''" small_env] by (simp add: ask_message_def)
qed


definition asked_session :: actor where
  "asked_session = handleMessage small_env (ask_message ''t0'') submitted_session"


end
