(* ===== verification/JobScheduler.thy ===== *)
theory JobScheduler
  imports Prelude "HOL-Library.Product_Lexorder"
begin

text \<open>
  The owner of background jobs (\<open>packages/kernel/src/job-scheduler.ts\<close>): jobs are scheduled for a time, run up to
  the concurrency of the resource mode, and those of low priority yield while a session's foreground is busy. One
  timer at most is armed, for the earliest job that is not due.

  A job's \<open>run\<close> is the effect \<open>RunJob\<close>; that it settled is the later operation \<open>Finished\<close>, its calls of
  \<open>checkpoint\<close> are the operation \<open>Checkpoint\<close> with the promise it waits on, and the timer's callback is
  \<open>Wake\<close>. Times are milliseconds. The sink and the jobs call back only in later operations.
\<close>

section \<open>Data\<close>

datatype priority = P3 | P4 | P5 | P6

text \<open>\<open>a.spec.priority.localeCompare(b.spec.priority)\<close> orders the names by their digit.\<close>

fun priority_rank :: "priority \<Rightarrow> nat" where
  "priority_rank P3 = 3"
| "priority_rank P4 = 4"
| "priority_rank P5 = 5"
| "priority_rank P6 = 6"

lemma priority_rank_inject [simp]: "priority_rank a = priority_rank b \<longleftrightarrow> a = b"
  by (cases a; cases b) simp_all

instantiation priority :: linorder
begin

definition less_eq_priority :: "priority \<Rightarrow> priority \<Rightarrow> bool" where
  "less_eq_priority a b \<longleftrightarrow> priority_rank a \<le> priority_rank b"

definition less_priority :: "priority \<Rightarrow> priority \<Rightarrow> bool" where
  "less_priority a b \<longleftrightarrow> priority_rank a < priority_rank b"

instance
  by standard (auto simp: less_eq_priority_def less_priority_def dest: antisym)

end

datatype job_state = Scheduled | Running | Paused | Done | Failed

datatype resource_mode = Low | Normal | High

record job =
  j_type :: string
  j_priority :: priority
  j_runAt :: "int option"
  j_state :: job_state
  j_aborted :: bool
  j_waiters :: "nat list" \<comment> \<open>the checkpoints waiting for a resume\<close>

datatype sched_effect =
    JobStateEvent string string job_state "string option" \<comment> \<open>job, type, state, detail\<close>
  | RunJob string
  | Resume nat
  | Reject nat
  | SetTimer int
  | CancelTimer

text \<open>\<open>jobs\<close> is a map in insertion order, \<open>s_wake\<close> the time of the armed timer.\<close>

record sched =
  s_jobs :: "(string \<times> job) list"
  s_busy :: "string list"
  s_mode :: resource_mode
  s_wake :: "int option"
  s_disposed :: bool
  s_log :: "sched_effect list"

section \<open>Operations\<close>

fun CONCURRENCY :: "resource_mode \<Rightarrow> nat" where
  "CONCURRENCY Low = 1"
| "CONCURRENCY Normal = 2"
| "CONCURRENCY High = 4"

definition YIELDING :: "priority \<Rightarrow> bool" where
  "YIELDING p \<longleftrightarrow> p = P5 \<or> p = P6"

definition tell :: "sched_effect list \<Rightarrow> sched \<Rightarrow> sched" where
  "tell xs s = s\<lparr>s_log := s_log s @ xs\<rparr>"

definition foregroundBusy :: "sched \<Rightarrow> bool" where
  "foregroundBusy s \<longleftrightarrow> s_busy s \<noteq> []"

definition mayRun :: "sched \<Rightarrow> job \<Rightarrow> bool" where
  "mayRun s j \<longleftrightarrow> \<not> (foregroundBusy s \<and> YIELDING (j_priority j))"

definition occupies :: "job \<Rightarrow> bool" where
  "occupies j \<longleftrightarrow> j_state j = Running \<or> j_state j = Paused"

definition running_jobs :: "sched \<Rightarrow> nat" where
  "running_jobs s = length (filter (\<lambda>(i, j). occupies j) (s_jobs s))"

text \<open>\<open>setState\<close>: the job's new state and the event, when something changed.\<close>

definition state_event :: "string \<Rightarrow> job \<Rightarrow> job_state \<Rightarrow> string option \<Rightarrow> sched_effect list" where
  "state_event i j st detail =
     (if j_state j = st \<and> detail = None then [] else [JobStateEvent i (j_type j) st (truthy detail)])"

definition upd_job :: "string \<Rightarrow> (job \<Rightarrow> job) \<Rightarrow> sched \<Rightarrow> sched" where
  "upd_job i f s = s\<lparr>s_jobs := map (\<lambda>(k, j). (k, if k = i then f j else j)) (s_jobs s)\<rparr>"

definition setState :: "string \<Rightarrow> job \<Rightarrow> job_state \<Rightarrow> string option \<Rightarrow> sched \<Rightarrow> sched" where
  "setState i j st detail s = tell (state_event i j st detail) (upd_job i (\<lambda>j. j\<lparr>j_state := st\<rparr>) s)"

text \<open>The first loop of \<open>pump\<close>: a paused job that may run again resumes everything that waits, a running one that
  may not is paused.\<close>

definition reconsider_job :: "bool \<Rightarrow> string \<Rightarrow> job \<Rightarrow> job \<times> sched_effect list" where
  "reconsider_job may i j =
     (if j_state j = Paused \<and> may then
        (j\<lparr>j_state := Running, j_waiters := []\<rparr>, state_event i j Running None @ map Resume (j_waiters j))
      else if j_state j = Running \<and> \<not> may then
        (j\<lparr>j_state := Paused\<rparr>, state_event i j Paused (Some ''yielding to foreground''))
      else (j, []))"

definition reconsider :: "sched \<Rightarrow> sched" where
  "reconsider s =
     tell (concat (map (\<lambda>(i, j). snd (reconsider_job (mayRun s j) i j)) (s_jobs s)))
       (s\<lparr>s_jobs := map (\<lambda>(i, j). (i, fst (reconsider_job (mayRun s j) i j))) (s_jobs s)\<rparr>)"

definition runAt0 :: "job \<Rightarrow> int" where
  "runAt0 j = (case j_runAt j of None \<Rightarrow> 0 | Some t \<Rightarrow> t)"

definition is_due :: "int \<Rightarrow> sched \<Rightarrow> job \<Rightarrow> bool" where
  "is_due now s j \<longleftrightarrow> j_state j = Scheduled \<and> runAt0 j \<le> now \<and> mayRun s j"

definition due_key :: "string \<times> job \<Rightarrow> priority \<times> int" where
  "due_key x = (j_priority (snd x), runAt0 (snd x))"

definition due_jobs :: "int \<Rightarrow> sched \<Rightarrow> (string \<times> job) list" where
  "due_jobs now s = sort_key due_key (filter (\<lambda>(i, j). is_due now s j) (s_jobs s))"

definition launch :: "string \<Rightarrow> job \<Rightarrow> sched \<Rightarrow> sched" where
  "launch i j s = tell [RunJob i] (setState i j Running None s)"

fun launch_due :: "(string \<times> job) list \<Rightarrow> sched \<Rightarrow> sched" where
  "launch_due [] s = s"
| "launch_due ((i, j) # js) s =
     (if CONCURRENCY (s_mode s) \<le> running_jobs s then s else launch_due js (launch i j s))"

definition wakes :: "int \<Rightarrow> sched \<Rightarrow> int list" where
  "wakes now s = concat (map (\<lambda>(i, j). case j_runAt j of
       Some t \<Rightarrow> if j_state j = Scheduled \<and> now < t then [t] else [] | None \<Rightarrow> []) (s_jobs s))"

definition next_wake :: "int \<Rightarrow> sched \<Rightarrow> int option" where
  "next_wake now s = foldl (\<lambda>next t. Some (case next of None \<Rightarrow> t | Some n \<Rightarrow> min n t)) None (wakes now s)"

definition arm :: "int \<Rightarrow> sched \<Rightarrow> sched" where
  "arm now s = (case next_wake now s of None \<Rightarrow> s | Some t \<Rightarrow> tell [SetTimer t] (s\<lparr>s_wake := Some t\<rparr>))"

definition pump :: "int \<Rightarrow> sched \<Rightarrow> sched" where
  "pump now s =
     (let s1 = (case s_wake s of None \<Rightarrow> s | Some _ \<Rightarrow> tell [CancelTimer] (s\<lparr>s_wake := None\<rparr>)) in
      if s_disposed s1 then s1
      else let s2 = reconsider s1; s3 = launch_due (due_jobs now s2) s2 in arm now s3)"

definition schedule :: "int \<Rightarrow> string \<Rightarrow> string \<Rightarrow> priority \<Rightarrow> int option \<Rightarrow> sched \<Rightarrow> sched" where
  "schedule now i ty p runAt s =
     (let j = \<lparr>j_type = ty, j_priority = p, j_runAt = runAt, j_state = Scheduled, j_aborted = False, j_waiters = []\<rparr>
      in pump now (tell [JobStateEvent i ty Scheduled None] (s\<lparr>s_jobs := AList.update i j (s_jobs s)\<rparr>)))"

definition abort_job :: "string \<Rightarrow> job \<Rightarrow> sched \<Rightarrow> sched" where
  "abort_job i j s =
     (if j_aborted j then s else tell (map Reject (j_waiters j)) (upd_job i (\<lambda>j. j\<lparr>j_aborted := True\<rparr>) s))"

definition cancel_job :: "int \<Rightarrow> string \<Rightarrow> sched \<Rightarrow> bool \<times> sched" where
  "cancel_job now i s =
     (case map_of (s_jobs s) i of
        None \<Rightarrow> (False, s)
      | Some j \<Rightarrow>
          let s1 = abort_job i j s in
          if j_state j = Scheduled
          then (True, pump now (tell (state_event i j Done (Some ''cancelled'')) (s1\<lparr>s_jobs := AList.delete i (s_jobs s1)\<rparr>)))
          else (True, s1))"

definition setForegroundBusy :: "int \<Rightarrow> string \<Rightarrow> bool \<Rightarrow> sched \<Rightarrow> sched" where
  "setForegroundBusy now sid busy s =
     (if busy = (sid \<in> set (s_busy s)) then s
      else pump now (s\<lparr>s_busy := (if busy then set_add sid (s_busy s) else set_del sid (s_busy s))\<rparr>))"

definition setMode :: "int \<Rightarrow> resource_mode \<Rightarrow> sched \<Rightarrow> sched" where
  "setMode now m s = pump now (s\<lparr>s_mode := m\<rparr>)"

definition checkpoint :: "string \<Rightarrow> nat \<Rightarrow> sched \<Rightarrow> sched" where
  "checkpoint i h s =
     (case map_of (s_jobs s) i of
        None \<Rightarrow> s
      | Some j \<Rightarrow>
          if j_aborted j then tell [Reject h] s
          else if j_state j \<noteq> Paused then tell [Resume h] s
          else upd_job i (\<lambda>j. j\<lparr>j_waiters := j_waiters j @ [h]\<rparr>) s)"

text \<open>The job's promise settled: fulfilled (\<open>None\<close>) or rejected with an error's message.\<close>

definition finished :: "int \<Rightarrow> string \<Rightarrow> string option \<Rightarrow> sched \<Rightarrow> sched" where
  "finished now i failure s =
     (case map_of (s_jobs s) i of
        None \<Rightarrow> s
      | Some j \<Rightarrow>
          let detail = (if j_aborted j then Some ''cancelled'' else map_option (take 500) failure);
              st = (if failure = None \<or> j_aborted j then Done else Failed);
              s1 = setState i j st detail s
          in pump now (s1\<lparr>s_jobs := AList.delete i (s_jobs s1)\<rparr>))"

fun abort_all :: "(string \<times> job) list \<Rightarrow> sched \<Rightarrow> sched" where
  "abort_all [] s = s"
| "abort_all ((i, j) # js) s = abort_all js (abort_job i j s)"

definition dispose_scheduler :: "sched \<Rightarrow> sched" where
  "dispose_scheduler s =
     (let s1 = (case s_wake s of None \<Rightarrow> s | Some _ \<Rightarrow> tell [CancelTimer] s)
      in abort_all (s_jobs s1) (s1\<lparr>s_disposed := True\<rparr>))"

definition snapshot :: "sched \<Rightarrow> (string \<times> string \<times> priority \<times> job_state) list" where
  "snapshot s = map (\<lambda>(i, j). (i, j_type j, j_priority j, j_state j)) (s_jobs s)"

definition createJobScheduler :: "resource_mode \<Rightarrow> sched" where
  "createJobScheduler m = \<lparr>s_jobs = [], s_busy = [], s_mode = m, s_wake = None, s_disposed = False, s_log = []\<rparr>"

section \<open>Every operation, as a step\<close>

datatype sched_op =
    Schedule string string priority "int option"
  | Cancel string
  | ForegroundBusy string bool
  | Mode resource_mode
  | Checkpoint string nat
  | Finished string "string option"
  | Wake
  | Dispose

definition sched_step :: "int \<Rightarrow> sched_op \<Rightarrow> sched \<Rightarrow> sched" where
  "sched_step now x s =
     (case x of
        Schedule i ty p t \<Rightarrow> schedule now i ty p t s
      | Cancel i \<Rightarrow> snd (cancel_job now i s)
      | ForegroundBusy sid b \<Rightarrow> setForegroundBusy now sid b s
      | Mode m \<Rightarrow> setMode now m s
      | Checkpoint i h \<Rightarrow> checkpoint i h s
      | Finished i f \<Rightarrow> finished now i f s
      | Wake \<Rightarrow> pump now s
      | Dispose \<Rightarrow> dispose_scheduler s)"

text \<open>What a scheduler goes through: operations in any order, at times that are not negative.\<close>

inductive sched_reachable :: "resource_mode \<Rightarrow> sched \<Rightarrow> bool" where
  created: "sched_reachable m (createJobScheduler m)"
| stepped: "sched_reachable m s \<Longrightarrow> 0 \<le> now \<Longrightarrow> sched_reachable m (sched_step now x s)"

section \<open>The invariant\<close>

definition job_keys :: "sched \<Rightarrow> string list" where
  "job_keys s = map fst (s_jobs s)"

text \<open>No job of low priority runs while a foreground is busy, and none is paused for longer than that.\<close>

definition yields :: "sched \<Rightarrow> bool" where
  "yields s \<longleftrightarrow> (\<forall>i j. (i, j) \<in> set (s_jobs s) \<longrightarrow> (j_state j = Running \<longrightarrow> mayRun s j) \<and> (j_state j = Paused \<longrightarrow> \<not> mayRun s j))"

text \<open>No scheduled job is forgotten: it yields, or the slots are taken, or the timer is armed for it in time.\<close>

definition served :: "sched \<Rightarrow> bool" where
  "served s \<longleftrightarrow> (\<forall>i j. (i, j) \<in> set (s_jobs s) \<longrightarrow> j_state j = Scheduled \<longrightarrow> \<not> mayRun s j \<or> CONCURRENCY (s_mode s) \<le> running_jobs s \<or>
     (\<exists>t w. j_runAt j = Some t \<and> s_wake s = Some w \<and> w \<le> t))"

definition sched_ok :: "sched \<Rightarrow> bool" where
  "sched_ok s \<longleftrightarrow> distinct (job_keys s) \<and> (s_disposed s \<or> yields s \<and> served s)"

lemma tell_fields [simp]:
  "s_jobs (tell x s) = s_jobs s" "s_busy (tell x s) = s_busy s" "s_mode (tell x s) = s_mode s" "s_wake (tell x s) = s_wake s"
  "s_disposed (tell x s) = s_disposed s" "s_log (tell x s) = s_log s @ x" "job_keys (tell x s) = job_keys s"
  "running_jobs (tell x s) = running_jobs s" "mayRun (tell x s) = mayRun s"
  by (simp_all add: tell_def job_keys_def running_jobs_def mayRun_def foregroundBusy_def fun_eq_iff)

lemma upd_job_fields [simp]:
  "s_busy (upd_job i f s) = s_busy s" "s_mode (upd_job i f s) = s_mode s" "s_wake (upd_job i f s) = s_wake s"
  "s_disposed (upd_job i f s) = s_disposed s" "s_log (upd_job i f s) = s_log s" "job_keys (upd_job i f s) = job_keys s"
  "mayRun (upd_job i f s) = mayRun s"
  by (simp_all add: upd_job_def job_keys_def mayRun_def foregroundBusy_def fun_eq_iff case_prod_beta comp_def)

lemma launch_fields [simp]:
  "s_busy (launch i j s) = s_busy s" "s_mode (launch i j s) = s_mode s" "s_wake (launch i j s) = s_wake s"
  "s_disposed (launch i j s) = s_disposed s" "job_keys (launch i j s) = job_keys s" "mayRun (launch i j s) = mayRun s"
  "s_jobs (launch i j s) = s_jobs (upd_job i (\<lambda>j. j\<lparr>j_state := Running\<rparr>) s)"
  by (simp_all add: launch_def setState_def)

lemma launch_due_fields [simp]:
  "s_busy (launch_due js s) = s_busy s" "s_mode (launch_due js s) = s_mode s" "s_wake (launch_due js s) = s_wake s"
  "s_disposed (launch_due js s) = s_disposed s" "job_keys (launch_due js s) = job_keys s" "mayRun (launch_due js s) = mayRun s"
  by (induction js s rule: launch_due.induct) simp_all

lemma reconsider_job_keeps [simp]:
  "j_priority (fst (reconsider_job b i j)) = j_priority j" "j_runAt (fst (reconsider_job b i j)) = j_runAt j"
  "(j_state (fst (reconsider_job b i j)) = Scheduled) = (j_state j = Scheduled)"
  "occupies (fst (reconsider_job b i j)) = occupies j"
  "j_state j = Scheduled \<Longrightarrow> fst (reconsider_job b i j) = j"
  by (auto simp: reconsider_job_def occupies_def)

lemma reconsider_fields [simp]:
  "s_busy (reconsider s) = s_busy s" "s_mode (reconsider s) = s_mode s" "s_wake (reconsider s) = s_wake s"
  "s_disposed (reconsider s) = s_disposed s" "job_keys (reconsider s) = job_keys s" "mayRun (reconsider s) = mayRun s"
  "s_jobs (reconsider s) = map (\<lambda>(i, j). (i, fst (reconsider_job (mayRun s j) i j))) (s_jobs s)"
  by (simp_all add: reconsider_def job_keys_def mayRun_def foregroundBusy_def fun_eq_iff case_prod_beta comp_def)

lemma mayRun_priority: "j_priority j = j_priority k \<Longrightarrow> mayRun s j = mayRun s k"
  by (simp add: mayRun_def)

lemma mayRun_reconsider_job [simp]: "mayRun s (fst (reconsider_job b i j)) = mayRun s j"
  by (simp add: mayRun_def)

lemma reconsider_running [simp]: "running_jobs (reconsider s) = running_jobs s"
  by (simp add: running_jobs_def filter_map comp_def case_prod_beta')

lemma reconsider_job_yields:
  "(j_state (fst (reconsider_job b i j)) = Running \<longrightarrow> j_state j = Running \<and> b \<or> j_state j = Paused \<and> b) \<and>
   (j_state (fst (reconsider_job b i j)) = Paused \<longrightarrow> \<not> b)"
  by (simp add: reconsider_job_def)

lemma reconsider_yields: "yields (reconsider s)"
  unfolding yields_def using reconsider_job_yields by fastforce

lemma filter_due: "filter (\<lambda>(i, j). is_due now s j) (map (\<lambda>(i, j). (i, fst (reconsider_job (mayRun s j) i j))) xs) =
    filter (\<lambda>(i, j). is_due now s j) xs"
proof (induction xs)
  case Nil
  then show ?case by simp
next
  case (Cons x xs)
  obtain i j where x: "x = (i, j)" by fastforce
  have "fst (reconsider_job (mayRun s j) i j) = j" if "j_state j = Scheduled" using that by simp
  with Cons x show ?case by (auto simp: is_due_def)
qed

lemma is_due_frame: "mayRun t = mayRun s \<Longrightarrow> is_due now t = is_due now s"
  by (simp add: is_due_def fun_eq_iff)

lemma due_jobs_reconsider: "due_jobs now (reconsider s) = due_jobs now s"
  by (simp add: due_jobs_def filter_due is_due_frame [of "reconsider s" s])

section \<open>Launching\<close>

lemma running_upd:
  assumes "distinct (map fst xs)"
  shows "length (filter (\<lambda>(k, j). occupies j) (map (\<lambda>(k, j). (k, if k = i then f j else j)) xs)) \<le>
    Suc (length (filter (\<lambda>(k, j). occupies j) xs))"
  using assms
proof (induction xs)
  case Nil
  then show ?case by simp
next
  case (Cons x xs)
  obtain k j where x: "x = (k, j)" by fastforce
  show ?case
  proof (cases "k = i")
    case True
    with Cons.prems x have "i \<notin> fst ` set xs" by auto
    then have "map (\<lambda>(k, j). (k, if k = i then f j else j)) xs = xs"
      by (auto intro!: map_idI simp: image_iff)
    then show ?thesis using x by simp
  next
    case False
    with Cons x show ?thesis by auto
  qed
qed

lemma running_launch: "distinct (job_keys s) \<Longrightarrow> running_jobs (launch i j s) \<le> Suc (running_jobs s)"
  using running_upd [of "s_jobs s" i "\<lambda>j. j\<lparr>j_state := Running\<rparr>"]
  by (simp add: running_jobs_def job_keys_def upd_job_def)

text \<open>Launching a job that is scheduled takes exactly one more slot.\<close>

lemma running_upd_new:
  assumes "distinct (map fst xs)" and "map_of xs i = Some j" and "\<not> occupies j" and "occupies (f j)"
  shows "length (filter (\<lambda>(k, j). occupies j) (map (\<lambda>(k, j). (k, if k = i then f j else j)) xs)) =
    Suc (length (filter (\<lambda>(k, j). occupies j) xs))"
  using assms
proof (induction xs)
  case Nil
  then show ?case by simp
next
  case (Cons x xs)
  obtain k j' where x: "x = (k, j')" by fastforce
  show ?case
  proof (cases "k = i")
    case True
    with Cons.prems x have "i \<notin> fst ` set xs" by auto
    then have "map (\<lambda>(k, j). (k, if k = i then f j else j)) xs = xs"
      by (auto intro!: map_idI simp: image_iff)
    then show ?thesis using x True Cons.prems by simp
  next
    case False
    with Cons x show ?thesis by auto
  qed
qed

lemma running_launch_new:
  "distinct (job_keys s) \<Longrightarrow> map_of (s_jobs s) i = Some j \<Longrightarrow> j_state j = Scheduled \<Longrightarrow>
     running_jobs (launch i j s) = Suc (running_jobs s)"
  using running_upd_new [of "s_jobs s" i j "\<lambda>j. j\<lparr>j_state := Running\<rparr>"]
  by (simp add: running_jobs_def job_keys_def upd_job_def occupies_def)

text \<open>The jobs handed to \<open>launch_due\<close>: jobs of the map, scheduled and free to run, each once.\<close>

definition launchable :: "(string \<times> job) list \<Rightarrow> sched \<Rightarrow> bool" where
  "launchable js s \<longleftrightarrow> distinct (map fst js) \<and> (\<forall>i j. (i, j) \<in> set js \<longrightarrow> map_of (s_jobs s) i = Some j \<and> j_state j = Scheduled \<and> mayRun s j)"

lemma map_of_upd: "map_of (map (\<lambda>(k, j). (k, if k = i then f j else j)) xs) k = (if k = i then map_option f (map_of xs k) else map_of xs k)"
  by (induction xs) auto

lemma launchable_rest: "launchable ((i, j) # js) s \<Longrightarrow> launchable js (launch i j s)"
  by (auto simp: launchable_def upd_job_def map_of_upd image_iff)

lemma launchable_hd: "launchable ((i, j) # js) s \<Longrightarrow> map_of (s_jobs s) i = Some j \<and> j_state j = Scheduled \<and> mayRun s j"
  unfolding launchable_def by (meson list.set_intros(1))

lemma yields_launch:
  assumes "yields s" and "map_of (s_jobs s) i = Some j" and "mayRun s j" and "distinct (job_keys s)"
  shows "yields (launch i j s)"
proof -
  have "b = j" if "(i, b) \<in> set (s_jobs s)" for b
    using map_of_is_SomeI [OF assms(4) [unfolded job_keys_def] that] assms(2) by simp
  with assms show ?thesis by (auto simp: yields_def upd_job_def mayRun_def split: if_splits)
qed

lemma yields_launch_due: "launchable js s \<Longrightarrow> distinct (job_keys s) \<Longrightarrow> yields s \<Longrightarrow> yields (launch_due js s)"
proof (induction js s rule: launch_due.induct)
  case (1 s)
  then show ?case by simp
next
  case (2 i j js s)
  have i: "map_of (s_jobs s) i = Some j" "mayRun s j" using launchable_hd [OF 2(2)] by blast+
  show ?case
  proof (cases "CONCURRENCY (s_mode s) \<le> running_jobs s")
    case True
    with 2(4) show ?thesis by simp
  next
    case False
    have "distinct (job_keys (launch i j s))" using 2(3) by (simp only: launch_fields)
    from 2(1) [OF False launchable_rest [OF 2(2)] this yields_launch [OF 2(4) i 2(3)]] False
    show ?thesis by (simp only: launch_due.simps if_False)
  qed
qed

lemma running_launch_due:
  "distinct (job_keys s) \<Longrightarrow> running_jobs (launch_due js s) \<le> max (running_jobs s) (CONCURRENCY (s_mode s))"
proof (induction js s rule: launch_due.induct)
  case (2 i j js s)
  then show ?case using running_launch [OF 2(2), of i j] by auto
qed simp

definition runs_of :: "sched \<Rightarrow> string list" where
  "runs_of s = concat (map (\<lambda>x. case x of RunJob i \<Rightarrow> [i] | _ \<Rightarrow> []) (s_log s))"

lemma runs_tell [simp]: "runs_of (tell xs s) = runs_of s @ concat (map (\<lambda>x. case x of RunJob i \<Rightarrow> [i] | _ \<Rightarrow> []) xs)"
  by (simp add: runs_of_def)

lemma state_event_quiet [simp]: "concat (map (\<lambda>x. case x of RunJob i \<Rightarrow> [i] | _ \<Rightarrow> []) (state_event i j st d)) = []"
  by (simp add: state_event_def)

lemma runs_upd [simp]: "runs_of (upd_job i f s) = runs_of s"
  by (simp add: runs_of_def)

lemma runs_launch [simp]: "runs_of (launch i j s) = runs_of s @ [i]"
  by (simp add: launch_def setState_def)

lemma launch_due_exact:
  "launchable js s \<Longrightarrow> distinct (job_keys s) \<Longrightarrow>
     runs_of (launch_due js s) = runs_of s @ map fst (take (CONCURRENCY (s_mode s) - running_jobs s) js)"
proof (induction js s rule: launch_due.induct)
  case (1 s)
  then show ?case by simp
next
  case (2 i j js s)
  show ?case
  proof (cases "CONCURRENCY (s_mode s) \<le> running_jobs s")
    case True
    then show ?thesis by simp
  next
    case False
    have i: "map_of (s_jobs s) i = Some j" "j_state j = Scheduled" using launchable_hd [OF 2(2)] by blast+
    have n: "running_jobs (launch i j s) = Suc (running_jobs s)" by (rule running_launch_new [OF 2(3) i])
    have m: "CONCURRENCY (s_mode s) - running_jobs s = Suc (CONCURRENCY (s_mode s) - Suc (running_jobs s))"
      using False by simp
    have "distinct (job_keys (launch i j s))" using 2(3) by (simp only: launch_fields)
    from 2(1) [OF False launchable_rest [OF 2(2)] this] False
    show ?thesis unfolding m by (simp only: launch_due.simps if_False n launch_fields runs_launch take_Suc_Cons list.map) simp
  qed
qed

text \<open>What is still scheduled after launching was scheduled before, and is not among the due unless the slots ran out.\<close>

lemma launch_due_left:
  assumes "launchable js s" and "(k, l) \<in> set (s_jobs (launch_due js s))" and "j_state l = Scheduled"
  shows "(k, l) \<in> set (s_jobs s) \<and> ((k, l) \<in> set js \<longrightarrow> CONCURRENCY (s_mode s) \<le> running_jobs (launch_due js s))"
  using assms
proof (induction js s rule: launch_due.induct)
  case (1 s)
  then show ?case by simp
next
  case (2 i j js s)
  show ?case
  proof (cases "CONCURRENCY (s_mode s) \<le> running_jobs s")
    case True
    with 2 show ?thesis by simp
  next
    case False
    from 2(1) [OF False launchable_rest [OF 2(2)]] 2(3,4) False
    have IH: "(k, l) \<in> set (s_jobs (launch i j s))"
      "(k, l) \<in> set js \<longrightarrow> CONCURRENCY (s_mode s) \<le> running_jobs (launch_due ((i, j) # js) s)" by simp_all
    from IH(1) 2(4) have "k \<noteq> i" "(k, l) \<in> set (s_jobs s)" by (auto simp: upd_job_def split: if_splits)
    with IH(2) show ?thesis by simp
  qed
qed

section \<open>The pump\<close>

lemma launchable_due: "distinct (job_keys s) \<Longrightarrow> launchable (due_jobs now s) s"
  unfolding launchable_def due_jobs_def job_keys_def
  by (auto simp: is_due_def distinct_map intro: map_of_is_SomeI inj_on_subset)

lemma foldl_min:
  "\<exists>w. foldl (\<lambda>next t. Some (case next of None \<Rightarrow> t | Some n \<Rightarrow> min n t)) (Some a) ts = Some w \<and> w \<le> a \<and> (\<forall>t \<in> set ts. w \<le> (t :: int))"
proof (induction ts arbitrary: a)
  case (Cons t ts)
  from Cons.IH [of "min a t"] show ?case by auto
qed simp

lemma next_wake_le: "t \<in> set (wakes now s) \<Longrightarrow> \<exists>w. next_wake now s = Some w \<and> w \<le> t"
  using foldl_min by (cases "wakes now s") (fastforce simp: next_wake_def)+

lemma arm_fields [simp]:
  "s_jobs (arm now s) = s_jobs s" "s_busy (arm now s) = s_busy s" "s_mode (arm now s) = s_mode s"
  "s_disposed (arm now s) = s_disposed s" "job_keys (arm now s) = job_keys s" "running_jobs (arm now s) = running_jobs s"
  "mayRun (arm now s) = mayRun s" "runs_of (arm now s) = runs_of s" "yields (arm now s) = yields s"
  by (simp_all add: arm_def job_keys_def running_jobs_def mayRun_def foregroundBusy_def runs_of_def tell_def fun_eq_iff
      yields_def split: option.splits)

lemma arm_wake: "t \<in> set (wakes now s) \<Longrightarrow> \<exists>w. s_wake (arm now s) = Some w \<and> w \<le> t"
  using next_wake_le by (fastforce simp: arm_def)

definition unwake :: "sched \<Rightarrow> sched" where
  "unwake s = (case s_wake s of None \<Rightarrow> s | Some _ \<Rightarrow> tell [CancelTimer] (s\<lparr>s_wake := None\<rparr>))"

lemma unwake_fields [simp]:
  "s_jobs (unwake s) = s_jobs s" "s_busy (unwake s) = s_busy s" "s_mode (unwake s) = s_mode s"
  "s_disposed (unwake s) = s_disposed s" "job_keys (unwake s) = job_keys s" "running_jobs (unwake s) = running_jobs s"
  "mayRun (unwake s) = mayRun s" "runs_of (unwake s) = runs_of s" "due_jobs now (unwake s) = due_jobs now s"
  by (simp_all add: unwake_def job_keys_def running_jobs_def mayRun_def foregroundBusy_def runs_of_def tell_def fun_eq_iff
      due_jobs_def is_due_def split: option.splits)

lemma pump_alt:
  "pump now s = (if s_disposed s then unwake s
     else arm now (launch_due (due_jobs now s) (reconsider (unwake s))))"
  by (simp add: pump_def Let_def due_jobs_reconsider flip: unwake_def)

lemma pump_ok:
  assumes "distinct (job_keys s)" and "0 \<le> now"
  shows "sched_ok (pump now s)"
proof (cases "s_disposed s")
  case True
  with assms show ?thesis by (simp add: pump_alt sched_ok_def)
next
  case False
  let ?r = "reconsider (unwake s)"
  let ?l = "launch_due (due_jobs now s) ?r"
  have due: "due_jobs now s = due_jobs now ?r" by (simp add: due_jobs_reconsider)
  have d: "distinct (job_keys ?r)" using assms by simp
  have la: "launchable (due_jobs now s) ?r" unfolding due by (rule launchable_due [OF d])
  have y: "yields ?l" by (rule yields_launch_due [OF la d reconsider_yields])
  have "served (arm now ?l)"
    unfolding served_def
  proof (intro allI impI, rule ccontr)
    fix i j
    assume m': "(i, j) \<in> set (s_jobs (arm now ?l))" and sch: "j_state j = Scheduled"
      and no: "\<not> (\<not> mayRun (arm now ?l) j \<or> CONCURRENCY (s_mode (arm now ?l)) \<le> running_jobs (arm now ?l) \<or>
        (\<exists>t w. j_runAt j = Some t \<and> s_wake (arm now ?l) = Some w \<and> w \<le> t))"
    from m' have m: "(i, j) \<in> set (s_jobs ?l)" by simp
    from no have may: "mayRun ?l j" and free: "\<not> CONCURRENCY (s_mode ?l) \<le> running_jobs ?l" by simp_all
    from launch_due_left [OF la m sch] free have "(i, j) \<in> set (s_jobs ?r)" "(i, j) \<notin> set (due_jobs now s)" by auto
    then have "\<not> is_due now ?r j" unfolding due by (auto simp: due_jobs_def)
    with sch may have "\<not> runAt0 j \<le> now" by (simp add: is_due_def)
    then obtain t where t: "j_runAt j = Some t" "now < t" using assms(2) by (cases "j_runAt j") (auto simp: runAt0_def)
    with m sch have "t \<in> set (wakes now ?l)" by (force simp: wakes_def)
    from arm_wake [OF this] t no show False by blast
  qed
  with y d False show ?thesis by (simp add: pump_alt sched_ok_def)
qed

lemma pump_running: "distinct (job_keys s) \<Longrightarrow> running_jobs (pump now s) \<le> max (running_jobs s) (CONCURRENCY (s_mode s))"
  using running_launch_due [of "reconsider (unwake s)" "due_jobs now s"] by (simp add: pump_alt)

lemma pump_mode [simp]: "s_mode (pump now s) = s_mode s" "job_keys (pump now s) = job_keys s"
  by (simp_all add: pump_alt)

section \<open>Steps that do not pump\<close>

definition same_work :: "(job \<Rightarrow> job) \<Rightarrow> bool" where
  "same_work f \<longleftrightarrow> (\<forall>j. j_state (f j) = j_state j \<and> j_priority (f j) = j_priority j \<and> j_runAt (f j) = j_runAt j)"

lemma same_work_updates [simp]:
  "same_work (\<lambda>j. j\<lparr>j_aborted := b\<rparr>)" "same_work (\<lambda>j. j\<lparr>j_waiters := g j\<rparr>)"
  by (simp_all add: same_work_def)

lemma running_same_work: "same_work f \<Longrightarrow> running_jobs (upd_job i f s) = running_jobs s"
  unfolding running_jobs_def upd_job_def
  by (simp add: filter_map comp_def case_prod_beta' same_work_def occupies_def if_distrib [of occupies] cong: if_cong)

lemma sched_ok_same_work:
  assumes f: "same_work f" and ok: "sched_ok s"
  shows "sched_ok (upd_job i f s)"
proof -
  have r: "running_jobs (upd_job i f s) = running_jobs s" by (rule running_same_work [OF f])
  have m: "mayRun s (f j) = mayRun s j" for j using f by (simp add: same_work_def mayRun_def)
  have *: "\<exists>k. (a, k) \<in> set (s_jobs s) \<and> j_state j = j_state k \<and> j_runAt j = j_runAt k \<and> mayRun s j = mayRun s k"
    if "(a, j) \<in> set (s_jobs (upd_job i f s))" for a j
    using that f m by (auto simp: upd_job_def same_work_def)
  show ?thesis
    using ok * unfolding sched_ok_def yields_def served_def r upd_job_fields by metis
qed

lemma sched_ok_tell [simp]: "sched_ok (tell xs s) = sched_ok s"
  by (simp add: sched_ok_def yields_def served_def)

lemma abort_job_ok: "sched_ok s \<Longrightarrow> sched_ok (abort_job i j s)"
  by (simp add: abort_job_def sched_ok_same_work)

lemma abort_job_fields [simp]:
  "s_mode (abort_job i j s) = s_mode s" "s_disposed (abort_job i j s) = s_disposed s" "job_keys (abort_job i j s) = job_keys s"
  "running_jobs (abort_job i j s) = running_jobs s"
  by (simp_all add: abort_job_def running_same_work)

lemma abort_all_fields [simp]:
  "s_mode (abort_all js s) = s_mode s" "s_disposed (abort_all js s) = s_disposed s" "job_keys (abort_all js s) = job_keys s"
  "running_jobs (abort_all js s) = running_jobs s"
  by (induction js s rule: abort_all.induct) simp_all

lemma dispose_update [simp]:
  "job_keys (s\<lparr>s_disposed := b\<rparr>) = job_keys s" "running_jobs (s\<lparr>s_disposed := b\<rparr>) = running_jobs s"
  by (simp_all add: job_keys_def running_jobs_def)

lemma dispose_fields [simp]:
  "s_disposed (dispose_scheduler s)" "job_keys (dispose_scheduler s) = job_keys s"
  "running_jobs (dispose_scheduler s) = running_jobs s" "s_mode (dispose_scheduler s) = s_mode s"
  by (cases "s_wake s"; simp add: dispose_scheduler_def)+

lemma checkpoint_ok: "sched_ok s \<Longrightarrow> sched_ok (checkpoint i h s)"
  by (simp add: checkpoint_def sched_ok_same_work split: option.splits)

section \<open>Every step\<close>

lemma job_keys_delete: "distinct (job_keys s) \<Longrightarrow> distinct (job_keys (s\<lparr>s_jobs := AList.delete i (s_jobs s)\<rparr>))"
  by (simp add: job_keys_def distinct_delete)

lemma sched_step_ok:
  assumes ok: "sched_ok s" and now: "0 \<le> now"
  shows "sched_ok (sched_step now x s)"
proof -
  have d: "distinct (job_keys s)" using ok by (simp add: sched_ok_def)
  note p = pump_ok [OF _ now]
  show ?thesis
  proof (cases x)
    case (Schedule i ty pr t)
    have "distinct (job_keys (s\<lparr>s_jobs := AList.update i j (s_jobs s)\<rparr>))" for j
      using d by (simp add: job_keys_def distinct_update)
    then show ?thesis unfolding Schedule sched_step_def by (simp add: schedule_def Let_def p)
  next
    case (Cancel i)
    have "sched_ok (abort_job i j s)" for j using abort_job_ok [OF ok] .
    moreover have "distinct (job_keys ((abort_job i j s)\<lparr>s_jobs := AList.delete i (s_jobs (abort_job i j s))\<rparr>))" for j
      by (rule job_keys_delete) (simp add: d)
    ultimately show ?thesis
      unfolding Cancel sched_step_def using ok by (simp add: cancel_job_def Let_def p split: option.splits)
  next
    case (ForegroundBusy sid b)
    have "distinct (job_keys (s\<lparr>s_busy := z\<rparr>))" for z using d by (simp add: job_keys_def)
    then show ?thesis unfolding ForegroundBusy sched_step_def using ok by (simp add: setForegroundBusy_def p)
  next
    case (Mode m)
    have "distinct (job_keys (s\<lparr>s_mode := m\<rparr>))" using d by (simp add: job_keys_def)
    then show ?thesis unfolding Mode sched_step_def by (simp add: setMode_def p)
  next
    case (Checkpoint i h)
    then show ?thesis using checkpoint_ok [OF ok] by (simp add: sched_step_def)
  next
    case (Finished i f)
    have "distinct (job_keys ((setState i j st dt s)\<lparr>s_jobs := AList.delete i (s_jobs (setState i j st dt s))\<rparr>))" for j st dt
      by (rule job_keys_delete) (simp add: setState_def d)
    then show ?thesis unfolding Finished sched_step_def using ok by (simp add: finished_def Let_def p split: option.splits)
  next
    case Wake
    then show ?thesis using p [OF d] by (simp add: sched_step_def)
  next
    case Dispose
    then show ?thesis using d by (simp add: sched_step_def sched_ok_def)
  qed
qed

lemma sched_reachable_ok: "sched_reachable m s \<Longrightarrow> sched_ok s"
proof (induction rule: sched_reachable.induct)
  case (created m)
  then show ?case by (simp add: createJobScheduler_def sched_ok_def job_keys_def yields_def served_def)
next
  case (stepped m s now x)
  then show ?case by (simp add: sched_step_ok)
qed

text \<open>C20: Whatever is scheduled, cancelled, finished or paused: while a session's foreground is busy no job of
  priority P5 or P6 runs, no job stays paused once it may run, and no scheduled job is forgotten: each one yields to
  the foreground, waits for a slot, or has the timer armed no later than its time.\<close>

theorem scheduler_yields_and_serves:
  assumes "sched_reachable m s" and "\<not> s_disposed s" and "(i, j) \<in> set (s_jobs s)"
  shows "(j_state j = Running \<longrightarrow> mayRun s j) \<and> (j_state j = Paused \<longrightarrow> \<not> mayRun s j) \<and>
    (j_state j = Scheduled \<longrightarrow> \<not> mayRun s j \<or> CONCURRENCY (s_mode s) \<le> running_jobs s \<or>
       (\<exists>t w. j_runAt j = Some t \<and> s_wake s = Some w \<and> w \<le> t))"
  using sched_reachable_ok [OF assms(1)] assms(2,3) unfolding sched_ok_def yields_def served_def by blast

text \<open>A pump launches exactly as many due jobs as there are free slots, in the order of priority and then of time,
  jobs of the same priority and time in the order they were scheduled; jobs that yield to the foreground are passed over.\<close>

theorem pump_launches_the_first_due:
  assumes "sched_reachable m s" and "\<not> s_disposed s"
  shows "runs_of (pump now s) = runs_of s @ map fst (take (CONCURRENCY (s_mode s) - running_jobs s) (due_jobs now s)) \<and>
    sorted (map due_key (due_jobs now s)) \<and>
    set (due_jobs now s) = {(i, j). (i, j) \<in> set (s_jobs s) \<and> is_due now s j}"
proof -
  let ?r = "reconsider (unwake s)"
  have d: "distinct (job_keys ?r)" using sched_reachable_ok [OF assms(1)] by (simp add: sched_ok_def)
  have la: "launchable (due_jobs now s) ?r"
    using launchable_due [OF d, of now] by (simp add: due_jobs_reconsider)
  have "runs_of ?r = runs_of s"
  proof -
    have "concat (map (\<lambda>x. case x of RunJob i \<Rightarrow> [i] | _ \<Rightarrow> []) (snd (reconsider_job b i j))) = []" for b i j
      by (simp add: reconsider_job_def state_event_def comp_def)
    then have "concat (map (\<lambda>x. case x of RunJob i \<Rightarrow> [i] | _ \<Rightarrow> [])
        (concat (map (\<lambda>(i, j). snd (reconsider_job (mayRun t j) i j)) xs))) = []" for t and xs :: "(string \<times> job) list"
      by (induction xs) auto
    then have "runs_of (reconsider t) = runs_of t" for t by (simp add: reconsider_def) (simp add: runs_of_def)
    then show ?thesis by simp
  qed
  with launch_due_exact [OF la d] assms(2) have "runs_of (pump now s) =
      runs_of s @ map fst (take (CONCURRENCY (s_mode s) - running_jobs s) (due_jobs now s))"
    by (simp add: pump_alt)
  moreover have "sorted (map due_key (due_jobs now s))" by (simp add: due_jobs_def)
  moreover have "set (due_jobs now s) = {(i, j). (i, j) \<in> set (s_jobs s) \<and> is_due now s j}"
    by (auto simp: due_jobs_def)
  ultimately show ?thesis by blast
qed

lemma running_filter_le: "length (filter (\<lambda>(i, j). occupies j) (AList.delete k xs)) \<le> length (filter (\<lambda>(i, j). occupies j) xs)"
  by (induction xs) auto

lemma running_update_le:
  "\<not> occupies v \<Longrightarrow> length (filter (\<lambda>(i, j). occupies j) (AList.update k v xs)) \<le> length (filter (\<lambda>(i, j). occupies j) xs)"
  by (induction xs) auto

lemma running_upd_le: "(\<And>j. \<not> occupies (f j)) \<Longrightarrow> running_jobs (upd_job i f s) \<le> running_jobs s"
proof -
  assume "\<And>j. \<not> occupies (f j)"
  then have "length (filter (\<lambda>(k, j). occupies j) (map (\<lambda>(k, j). (k, if k = i then f j else j)) xs)) \<le>
    length (filter (\<lambda>(k, j). occupies j) xs)" for xs
    by (induction xs) (auto split: if_splits)
  then show ?thesis by (simp add: running_jobs_def upd_job_def)
qed

lemma running_delete_le: "running_jobs (t\<lparr>s_jobs := AList.delete i (s_jobs t)\<rparr>) \<le> running_jobs t"
  by (simp add: running_jobs_def running_filter_le)

lemma pump_bounded:
  "distinct (job_keys t) \<Longrightarrow> running_jobs t \<le> n \<Longrightarrow> running_jobs (pump now t) \<le> max n (CONCURRENCY (s_mode t))"
  using pump_running [of t now] by linarith

lemma pump_bounded_mode:
  "distinct (job_keys t) \<Longrightarrow> running_jobs t \<le> n \<Longrightarrow> s_mode t = m \<Longrightarrow> running_jobs (pump now t) \<le> max n (CONCURRENCY m)"
  using pump_bounded by blast

lemma schedule_bounded:
  assumes "distinct (job_keys s)"
  shows "running_jobs (schedule now i ty p t s) \<le> max (running_jobs s) (CONCURRENCY (s_mode s))"
proof -
  let ?j = "\<lparr>j_type = ty, j_priority = p, j_runAt = t, j_state = Scheduled, j_aborted = False, j_waiters = []\<rparr>"
  let ?s = "tell [JobStateEvent i ty Scheduled None] (s\<lparr>s_jobs := AList.update i ?j (s_jobs s)\<rparr>)"
  have "distinct (job_keys ?s)" using assms by (simp add: job_keys_def distinct_update)
  moreover have "running_jobs ?s \<le> running_jobs s"
    using running_update_le [of ?j i "s_jobs s"] by (simp add: running_jobs_def occupies_def)
  ultimately have "running_jobs (pump now ?s) \<le> max (running_jobs s) (CONCURRENCY (s_mode ?s))" by (rule pump_bounded)
  then show ?thesis by (simp add: schedule_def Let_def)
qed

lemma cancel_bounded:
  assumes "distinct (job_keys s)"
  shows "running_jobs (snd (cancel_job now i s)) \<le> max (running_jobs s) (CONCURRENCY (s_mode s))"
proof (cases "map_of (s_jobs s) i")
  case (Some j)
  let ?a = "abort_job i j s"
  let ?s = "tell (state_event i j Done (Some ''cancelled'')) (?a\<lparr>s_jobs := AList.delete i (s_jobs ?a)\<rparr>)"
  have "distinct (job_keys ?s)" using job_keys_delete [of ?a i] assms by simp
  moreover have "running_jobs ?s \<le> running_jobs s" using running_delete_le [where t = ?a and i = i] by simp
  ultimately have "running_jobs (pump now ?s) \<le> max (running_jobs s) (CONCURRENCY (s_mode ?s))" by (rule pump_bounded)
  then show ?thesis using Some by (simp add: cancel_job_def Let_def)
qed (simp add: cancel_job_def)

lemma finished_bounded:
  assumes "distinct (job_keys s)"
  shows "running_jobs (finished now i f s) \<le> max (running_jobs s) (CONCURRENCY (s_mode s))"
proof -
  have "running_jobs (setState i j st dt s) \<le> running_jobs s" if "\<not> (st = Running \<or> st = Paused)" for j st dt
    unfolding setState_def using that by (simp add: running_upd_le occupies_def)
  then have "running_jobs ((setState i j st dt s)\<lparr>s_jobs := AList.delete i (s_jobs (setState i j st dt s))\<rparr>) \<le> running_jobs s"
    if "\<not> (st = Running \<or> st = Paused)" for j st dt using running_delete_le that order_trans by blast
  moreover have "distinct (job_keys ((setState i j st dt s)\<lparr>s_jobs := AList.delete i (s_jobs (setState i j st dt s))\<rparr>))" for j st dt
    by (rule job_keys_delete) (simp add: setState_def assms)
  ultimately show ?thesis
    by (auto simp: finished_def Let_def setState_def split: option.splits intro: pump_bounded_mode)
qed

lemma mode_bounded:
  assumes "distinct (job_keys s)"
  shows "running_jobs (pump now (s\<lparr>s_mode := m\<rparr>)) \<le> max (running_jobs s) (CONCURRENCY m)"
  using pump_bounded [of "s\<lparr>s_mode := m\<rparr>" "running_jobs s" now] assms by (simp add: job_keys_def running_jobs_def)

lemma busy_bounded:
  assumes "distinct (job_keys s)"
  shows "running_jobs (pump now (s\<lparr>s_busy := b\<rparr>)) \<le> max (running_jobs s) (CONCURRENCY (s_mode s))"
  using pump_bounded [of "s\<lparr>s_busy := b\<rparr>" "running_jobs s" now] assms by (simp add: job_keys_def running_jobs_def)

lemma mode_kept [simp]:
  "s_mode (schedule now i ty p t s) = s_mode s" "s_mode (snd (cancel_job now i s)) = s_mode s" "s_mode (finished now i f s) = s_mode s"
  by (auto simp: schedule_def cancel_job_def finished_def setState_def Let_def split: option.splits)

text \<open>C21: No operation takes more slots than the resource mode has: the jobs running or paused never grow beyond the
  mode's concurrency, and exceed it only while a lowered mode waits for them to end.\<close>

theorem concurrency_is_bounded:
  assumes "sched_reachable m s"
  shows "running_jobs (sched_step now x s) \<le> max (running_jobs s) (CONCURRENCY (s_mode (sched_step now x s)))"
proof -
  have d: "distinct (job_keys s)" using sched_reachable_ok [OF assms] by (simp add: sched_ok_def)
  note bounds = schedule_bounded [OF d] cancel_bounded [OF d] finished_bounded [OF d] mode_bounded [OF d] busy_bounded [OF d]
  show ?thesis
  proof (cases x)
    case (Checkpoint i h)
    then show ?thesis by (simp add: sched_step_def checkpoint_def running_same_work split: option.splits)
  next
    case Wake
    then show ?thesis using pump_bounded [OF d order_refl] by (simp add: sched_step_def)
  qed (use bounds in \<open>auto simp: sched_step_def setForegroundBusy_def setMode_def\<close>)
qed

section \<open>A small scheduler\<close>

text \<open>One slot; a dream runs, a loop run waits for it and a maintenance job for its time.\<close>

definition small_sched :: sched where
  "small_sched = sched_step 2 (Schedule ''c'' ''maintenance'' P6 (Some 9))
     (sched_step 1 (Schedule ''b'' ''loop'' P4 None) (sched_step 0 (Schedule ''a'' ''dream'' P5 None) (createJobScheduler Low)))"

lemma small_sched_reachable: "sched_reachable Low small_sched"
  unfolding small_sched_def by (intro sched_reachable.intros) simp_all

lemma scheduler_yields_and_serves_witness:
  "\<exists>j. (''c'', j) \<in> set (s_jobs small_sched) \<and> j_state j = Scheduled \<and>
     (\<not> mayRun small_sched j \<or> CONCURRENCY (s_mode small_sched) \<le> running_jobs small_sched \<or>
       (\<exists>t w. j_runAt j = Some t \<and> s_wake small_sched = Some w \<and> w \<le> t))"
proof -
  have l: "\<not> s_disposed small_sched" by code_simp
  have "(case map_of (s_jobs small_sched) ''c'' of None \<Rightarrow> False | Some j \<Rightarrow> j_state j = Scheduled)" by code_simp
  then obtain j where j: "map_of (s_jobs small_sched) ''c'' = Some j" "j_state j = Scheduled"
    by (cases "map_of (s_jobs small_sched) ''c''") auto
  from scheduler_yields_and_serves [OF small_sched_reachable l map_of_SomeD [OF j(1)]] j show ?thesis
    using map_of_SomeD by fastforce
qed

lemma pump_launches_the_first_due_witness:
  "runs_of (pump 10 small_sched) = runs_of small_sched \<and> map fst (due_jobs 10 small_sched) = [''b'', ''c'']"
proof -
  have l: "\<not> s_disposed small_sched" by code_simp
  have f: "CONCURRENCY (s_mode small_sched) - running_jobs small_sched = 0" by code_simp
  have d: "map fst (due_jobs 10 small_sched) = [''b'', ''c'']" by code_simp
  from pump_launches_the_first_due [OF small_sched_reachable l, of 10] f d show ?thesis by simp
qed

lemma concurrency_is_bounded_witness:
  "running_jobs (sched_step 10 (ForegroundBusy ''s'' True) small_sched) \<le> 1"
proof -
  have "running_jobs small_sched = 1" by code_simp
  moreover have "CONCURRENCY (s_mode (sched_step 10 (ForegroundBusy ''s'' True) small_sched)) = 1" by code_simp
  ultimately show ?thesis
    using concurrency_is_bounded [OF small_sched_reachable, of 10 "ForegroundBusy ''s'' True"] by simp
qed

end
