(* ===== verification/DeltaLengths.thy ===== *)
theory DeltaLengths
  imports Result
begin

text \<open>
  The varint blocks in which the store keeps the lengths of streamed deltas, whose text lives on in the completed item
  (\<open>packages/store/src/delta-lengths.ts\<close>): the interleaved form (version 1), the column form (version 2), the choice
  between them, and reading both back. A block is a list of bytes; the numbers are JavaScript's integral doubles,
  exact up to \<open>Number.MAX_SAFE_INTEGER\<close>, which is where the code checks them. \<open>JSON.parse\<close> of the payload is left
  to the caller: \<open>packDeltaLengths\<close> takes the entries.
\<close>

section \<open>Varints\<close>

datatype range_error = InvalidVarint | TruncatedVarint | OversizedVarint | InvalidCount | InvalidGroup | LengthMismatch

definition MAGIC :: "nat list" where "MAGIC = [0x4d, 0x44, 0x4c, 1]"
definition MAGIC_V2 :: "nat list" where "MAGIC_V2 = [0x4d, 0x44, 0x4c, 2]"
definition MIN_RUN :: nat where "MIN_RUN = 3"

fun varint_bytes :: "nat \<Rightarrow> nat list" where
  "varint_bytes v = (if 128 \<le> v then (v mod 128 + 128) # varint_bytes (v div 128) else [v])"

declare varint_bytes.simps [simp del]

definition putVarint :: "int \<Rightarrow> range_error + nat list" where
  "putVarint v = (if \<not> safe_integer v \<or> v < 0 then Inl InvalidVarint else Inr (varint_bytes (nat v)))"

definition put_all :: "int list \<Rightarrow> range_error + nat list" where
  "put_all vs = bindE (mapE putVarint vs) (\<lambda>bs. Inr (concat bs))"

text \<open>\<open>get\<close>: at most eight bytes from the cursor on; the rest of the block is returned.\<close>

fun get_loop :: "nat \<Rightarrow> nat \<Rightarrow> nat \<Rightarrow> nat list \<Rightarrow> range_error + nat \<times> nat list" where
  "get_loop 0 v f bs = Inl OversizedVarint"
| "get_loop (Suc n) v f [] = Inl TruncatedVarint"
| "get_loop (Suc n) v f (b # bs) =
     (let v' = v + (b mod 128) * f in
      if \<not> safe_integer (int v') then Inl InvalidVarint
      else if b < 128 then Inr (v', bs) else get_loop n v' (f * 128) bs)"

definition get :: "nat list \<Rightarrow> range_error + nat \<times> nat list" where
  "get bs = get_loop 8 0 1 bs"

fun gets :: "nat \<Rightarrow> nat list \<Rightarrow> range_error + nat list \<times> nat list" where
  "gets 0 bs = Inr ([], bs)"
| "gets (Suc n) bs = bindE (get bs) (\<lambda>(v, bs1). bindE (gets n bs1) (\<lambda>(vs, bs2). Inr (v # vs, bs2)))"

lemma gets_length: "gets n bs = Inr (vs, bs') \<Longrightarrow> length vs = n"
  by (induction n arbitrary: bs vs bs') (auto simp: bindE_Inr split: prod.splits)

section \<open>Columns\<close>

text \<open>How many equal values a list starts with, and how many values go into one group of literals: up to the next run
  that pays for a group of its own.\<close>

fun run_length :: "'a list \<Rightarrow> nat" where
  "run_length [] = 0"
| "run_length (x # xs) = Suc (length (takeWhile (\<lambda>y. y = x) xs))"

lemma run_length_le: "run_length xs \<le> length xs"
  by (cases xs) (simp_all add: length_takeWhile_le)

lemma run_length_pos [simp]: "xs \<noteq> [] \<Longrightarrow> 0 < run_length xs"
  by (cases xs) simp_all

function literal_end :: "int list \<Rightarrow> nat" where
  "literal_end vs =
     (if vs = [] then 0 else if MIN_RUN \<le> run_length vs then 0
      else run_length vs + literal_end (drop (run_length vs) vs))"
  by auto
termination
  by (relation "measure length") (auto simp: run_length_le)

declare literal_end.simps [simp del]

lemma literal_end_le: "literal_end vs \<le> length vs"
proof (induction vs rule: literal_end.induct)
  case (1 vs)
  show ?case
  proof (cases "vs = [] \<or> MIN_RUN \<le> run_length vs")
    case True
    then show ?thesis by (auto simp: literal_end.simps [of vs])
  next
    case False
    with 1 have "literal_end (drop (run_length vs) vs) \<le> length vs - run_length vs" by simp
    with False run_length_le [of vs] show ?thesis by (simp add: literal_end.simps [of vs])
  qed
qed

text \<open>The group that starts a column: the size of its run, or of its literals.\<close>

definition literals :: "int list \<Rightarrow> nat" where
  "literals vs = run_length vs + literal_end (drop (run_length vs) vs)"

lemma literals_bounds: "vs \<noteq> [] \<Longrightarrow> 0 < literals vs \<and> literals vs \<le> length vs"
  using literal_end_le [of "drop (run_length vs) vs"] run_length_le [of vs] run_length_pos [of vs]
  by (simp add: literals_def)

function encodeColumn :: "int list \<Rightarrow> range_error + nat list" where
  "encodeColumn vs =
     (if vs = [] then Inr []
      else let run = run_length vs in
        if MIN_RUN \<le> run then
          bindE (put_all [int run * 2 + 1, hd vs]) (\<lambda>a. bindE (encodeColumn (drop run vs)) (\<lambda>b. Inr (a @ b)))
        else let n = literals vs in
          bindE (put_all (int n * 2 # take n vs)) (\<lambda>a. bindE (encodeColumn (drop n vs)) (\<lambda>b. Inr (a @ b))))"
  by auto
termination
  by (relation "measure length") (auto simp: literals_bounds run_length_le)

declare encodeColumn.simps [simp del]

function column_loop :: "nat \<Rightarrow> nat list \<Rightarrow> nat list \<Rightarrow> range_error + nat list \<times> nat list" where
  "column_loop cnt values bs =
     (if cnt \<le> length values then Inr (values, bs)
      else case get bs of
        Inl e \<Rightarrow> Inl e
      | Inr (head, bs1) \<Rightarrow>
          let n = head div 2 in
          if n = 0 \<or> cnt < length values + n then Inl InvalidGroup
          else if head mod 2 = 1 then
            (case get bs1 of Inl e \<Rightarrow> Inl e | Inr (v, bs2) \<Rightarrow> column_loop cnt (values @ replicate n v) bs2)
          else (case gets n bs1 of Inl e \<Rightarrow> Inl e | Inr (vs, bs2) \<Rightarrow> column_loop cnt (values @ vs) bs2))"
  by pat_completeness auto
termination
  by (relation "measure (\<lambda>(cnt, values, bs). cnt - length values)") (auto dest: gets_length)

declare column_loop.simps [simp del]

definition column :: "nat \<Rightarrow> nat list \<Rightarrow> range_error + nat list \<times> nat list" where
  "column cnt bs = column_loop cnt [] bs"

section \<open>Packing\<close>

text \<open>An entry of the payload: sequence, time, text (\<open>None\<close> when it is not a string) and whether the three other fields
  are null.\<close>

record delta_entry =
  d_seq :: int
  d_at :: int
  d_text :: "string option"
  d_bare :: bool

definition zigzag :: "int \<Rightarrow> int" where
  "zigzag d = (if d < 0 then - d * 2 - 1 else d * 2)"

definition texts :: "delta_entry list \<Rightarrow> string list" where
  "texts es = map (\<lambda>e. orelse (d_text e) []) es"

fun steps :: "delta_entry list \<Rightarrow> int \<Rightarrow> int \<Rightarrow> (int \<times> int \<times> int) list option" where
  "steps [] sq tm = Some []"
| "steps (e # es) sq tm =
     (if d_seq e \<le> sq \<or> \<not> safe_integer ((d_at e - tm) * 2) then None
      else map_option (Cons (d_seq e - sq, zigzag (d_at e - tm), int (length (orelse (d_text e) []))))
             (steps es (d_seq e) (d_at e)))"

definition plain_block :: "(int \<times> int \<times> int) list \<Rightarrow> range_error + nat list" where
  "plain_block rows =
     bindE (put_all (int (length rows) # concat (map (\<lambda>(a, b, c). [a, b, c]) rows))) (\<lambda>bs. Inr (MAGIC @ bs))"

definition grouped_block :: "(int \<times> int \<times> int) list \<Rightarrow> range_error + nat list" where
  "grouped_block rows =
     bindE (put_all [int (length rows)]) (\<lambda>n.
     bindE (encodeColumn (map fst rows)) (\<lambda>a.
     bindE (encodeColumn (map (fst \<circ> snd) rows)) (\<lambda>b.
     bindE (encodeColumn (map (snd \<circ> snd) rows)) (\<lambda>c. Inr (MAGIC_V2 @ n @ a @ b @ c)))))"

definition packDeltaLengths :: "delta_entry list \<Rightarrow> string \<Rightarrow> range_error + nat list option" where
  "packDeltaLengths es completed =
     (if es = [] \<or> list_ex (\<lambda>e. d_text e = None \<or> \<not> d_bare e) es \<or> concat (texts es) \<noteq> completed then Inr None
      else case steps es 0 0 of
        None \<Rightarrow> Inr None
      | Some rows \<Rightarrow>
          bindE (plain_block rows) (\<lambda>p. bindE (grouped_block rows) (\<lambda>g. Inr (Some (if length g < length p then g else p)))))"

section \<open>Reading\<close>

definition has_magic :: "nat list \<Rightarrow> nat list \<Rightarrow> bool" where
  "has_magic bytes magic \<longleftrightarrow> take (length magic) bytes = magic"

definition isDeltaLengths :: "nat list \<Rightarrow> bool" where
  "isDeltaLengths bytes \<longleftrightarrow> has_magic bytes MAGIC \<or> has_magic bytes MAGIC_V2"

definition isPlainDeltaLengths :: "nat list \<Rightarrow> bool" where
  "isPlainDeltaLengths bytes \<longleftrightarrow> has_magic bytes MAGIC"

definition unzigzag :: "nat \<Rightarrow> int" where
  "unzigzag t = (if t mod 2 = 1 then - (int t + 1) div 2 else int t div 2)"

fun rows_of :: "nat list \<Rightarrow> (nat \<times> nat \<times> nat) list" where
  "rows_of (a # b # c # vs) = (a, b, c) # rows_of vs"
| "rows_of vs = []"

text \<open>The final loop: sequence and time are summed up, the text is cut out of the completed one.\<close>

fun restore :: "(nat \<times> nat \<times> nat) list \<Rightarrow> int \<Rightarrow> int \<Rightarrow> nat \<Rightarrow> string \<Rightarrow> (int \<times> int \<times> string) list \<times> nat" where
  "restore [] sq tm offset completed = ([], offset)"
| "restore ((a, b, c) # rows) sq tm offset completed =
     (let sq' = sq + int a; tm' = tm + unzigzag b;
          (rest, total) = restore rows sq' tm' (offset + c) completed
      in ((sq', tm', take c (drop offset completed)) # rest, total))"

definition read_rows :: "bool \<Rightarrow> nat \<Rightarrow> nat list \<Rightarrow> range_error + (nat \<times> nat \<times> nat) list \<times> nat list" where
  "read_rows grouped cnt bs =
     (if grouped then
        bindE (column cnt bs) (\<lambda>(a, bs1). bindE (column cnt bs1) (\<lambda>(b, bs2). bindE (column cnt bs2) (\<lambda>(c, bs3).
          Inr (zip a (zip b c), bs3))))
      else bindE (gets (3 * cnt) bs) (\<lambda>(vs, bs1). Inr (rows_of vs, bs1)))"

definition unpackDeltaLengths :: "nat list \<Rightarrow> string \<Rightarrow> range_error + (int \<times> int \<times> string) list" where
  "unpackDeltaLengths bytes completed =
     bindE (get (drop (length MAGIC) bytes)) (\<lambda>(cnt, bs1).
       if length bytes * 64 < cnt then Inl InvalidCount
       else bindE (read_rows (has_magic bytes MAGIC_V2) cnt bs1) (\<lambda>(rows, bs2).
         let (out, offset) = restore rows 0 0 0 completed in
         if bs2 \<noteq> [] \<or> offset \<noteq> length completed then Inl LengthMismatch else Inr out))"

section \<open>Varints read back\<close>

lemma varint_bytes_small: "v < 128 \<Longrightarrow> varint_bytes v = [v]"
  by (simp add: varint_bytes.simps [of v])

lemma varint_bytes_large: "128 \<le> v \<Longrightarrow> varint_bytes v = (v mod 128 + 128) # varint_bytes (v div 128)"
  by (simp add: varint_bytes.simps [of v])

lemma get_loop_varint:
  "v < 128 ^ n \<Longrightarrow> 0 < n \<Longrightarrow> acc + v * f \<le> 9007199254740991 \<Longrightarrow>
     get_loop n acc f (varint_bytes v @ bs) = Inr (acc + v * f, bs)"
proof (induction n arbitrary: v acc f)
  case 0
  then show ?case by simp
next
  case (Suc n)
  show ?case
  proof (cases "v < 128")
    case True
    with Suc.prems show ?thesis by (simp add: varint_bytes_small safe_integer_def max_safe_def)
  next
    case False
    have split: "v mod 128 * f + v div 128 * (f * 128) = v * f"
      by (metis add.commute add_mult_distrib mod_mult_div_eq mult.assoc mult.commute)
    have "v < 128 * 128 ^ n" using Suc.prems(1) by simp
    then have small: "v div 128 < 128 ^ n" by (simp add: less_mult_imp_div_less mult.commute)
    moreover have "0 < n" using small False by (cases n) auto
    moreover have sum: "(acc + v mod 128 * f) + v div 128 * (f * 128) \<le> 9007199254740991"
      using Suc.prems(3) split by simp
    ultimately have "get_loop n (acc + v mod 128 * f) (f * 128) (varint_bytes (v div 128) @ bs) = Inr (acc + v * f, bs)"
      using Suc.IH [of "v div 128" "acc + v mod 128 * f" "f * 128"] split by (simp add: add.assoc)
    moreover have "safe_integer (int (acc + v mod 128 * f))"
    proof -
      have "acc + v mod 128 * f \<le> 9007199254740991" using sum by linarith
      then show ?thesis by (intro safe_integerI) linarith+
    qed
    ultimately show ?thesis using False by (simp add: varint_bytes_large Let_def)
  qed
qed

lemma get_put: "putVarint v = Inr a \<Longrightarrow> get (a @ bs) = Inr (nat v, bs)"
proof -
  assume "putVarint v = Inr a"
  then have v: "safe_integer v" "0 \<le> v" "a = varint_bytes (nat v)" by (auto simp: putVarint_def split: if_splits)
  then have "nat v \<le> 9007199254740991" by (simp add: safe_integer_def max_safe_def)
  then show ?thesis using get_loop_varint [of "nat v" 8 0 1 bs] v by (simp add: get_def)
qed

lemma put_all_Nil [simp]: "put_all [] = Inr []"
  by (simp add: put_all_def)

lemma put_all_Cons: "put_all (v # vs) = bindE (putVarint v) (\<lambda>a. bindE (put_all vs) (\<lambda>b. Inr (a @ b)))"
  by (simp add: put_all_def bindE_def split: sum.splits)

lemma putVarint_pos: "putVarint v = Inr a \<Longrightarrow> 0 < length a \<and> 0 \<le> v"
  by (auto simp: putVarint_def varint_bytes.simps [of "nat v"] split: if_splits)

lemma put_all_length: "put_all vs = Inr out \<Longrightarrow> length vs \<le> length out"
proof (induction vs arbitrary: out)
  case (Cons v vs)
  from Cons.prems obtain a b where "putVarint v = Inr a" "put_all vs = Inr b" "out = a @ b"
    by (auto simp: put_all_Cons bindE_Inr)
  with Cons.IH [of b] putVarint_pos [of v a] show ?case by (cases a) simp_all
qed simp

lemma gets_puts: "put_all vs = Inr out \<Longrightarrow> gets (length vs) (out @ bs) = Inr (map nat vs, bs)"
proof (induction vs arbitrary: out)
  case Nil
  then show ?case by simp
next
  case (Cons v vs)
  from Cons.prems obtain a b where "putVarint v = Inr a" "put_all vs = Inr b" "out = a @ b"
    by (auto simp: put_all_Cons bindE_Inr)
  with Cons.IH [of b] show ?case by (simp add: get_put)
qed

lemma put_all_nonneg: "put_all vs = Inr out \<Longrightarrow> v \<in> set vs \<Longrightarrow> 0 \<le> v"
  by (induction vs arbitrary: out) (auto simp: put_all_Cons bindE_Inr dest: putVarint_pos)

section \<open>Columns read back\<close>

lemma run_take: "take (run_length vs) vs = replicate (run_length vs) (hd vs)"
proof (cases vs)
  case (Cons x xs)
  have "takeWhile (\<lambda>y. y = x) xs = replicate (length (takeWhile (\<lambda>y. y = x) xs)) x"
    by (metis (mono_tags, lifting) replicate_length_same set_takeWhileD)
  with Cons show ?thesis by (simp add: takeWhile_eq_take [symmetric])
qed simp

lemma encodeColumn_Nil [simp]: "encodeColumn [] = Inr []"
  by (simp add: encodeColumn.simps [of "[]"])

lemma column_loop_encode:
  "encodeColumn vs = Inr out \<Longrightarrow> cnt = length acc + length vs \<Longrightarrow>
     column_loop cnt acc (out @ bs) = Inr (acc @ map nat vs, bs)"
proof (induction vs arbitrary: out acc rule: encodeColumn.induct)
  case (1 vs)
  show ?case
  proof (cases "vs = []")
    case True
    with 1(3) have "out = []" by simp
    with True 1(4) show ?thesis by (simp add: column_loop.simps [of "length acc" acc])
  next
    case False
    let ?r = "run_length vs"
    show ?thesis
    proof (cases "MIN_RUN \<le> ?r")
      case True
      from 1(3) False True obtain h v b where p: "putVarint (int ?r * 2 + 1) = Inr h" "putVarint (hd vs) = Inr v"
        and e: "encodeColumn (drop ?r vs) = Inr b" and out: "out = (h @ v) @ b"
        by (auto simp: encodeColumn.simps [of vs] Let_def bindE_Inr put_all_Cons)
      have le: "?r \<le> length vs" "0 < ?r" using run_length_le [of vs] run_length_pos [OF False] by simp_all
      have c: "\<not> cnt \<le> length acc" "\<not> cnt < length acc + ?r" "0 < ?r" using 1(4) le by linarith+
      have odd: "Suc (?r * 2) mod 2 = 1" by presburger
      have g: "get (h @ v @ b @ bs) = Inr (?r * 2 + 1, v @ b @ bs)"
        using get_put [OF p(1), of "v @ b @ bs"] by (simp add: nat_add_distrib nat_mult_distrib)
      have g2: "get (v @ b @ bs) = Inr (nat (hd vs), b @ bs)" by (rule get_put [OF p(2)])
      have IH: "column_loop cnt (acc @ replicate ?r (nat (hd vs))) (b @ bs) =
          Inr ((acc @ replicate ?r (nat (hd vs))) @ map nat (drop ?r vs), bs)"
        by (rule 1(1) [OF False refl True e]) (use 1(4) le in simp)
      have vs: "replicate ?r (nat (hd vs)) @ map nat (drop ?r vs) = map nat vs"
        by (metis append_take_drop_id map_append map_replicate run_take)
      have "column_loop cnt acc (out @ bs) = column_loop cnt (acc @ replicate ?r (nat (hd vs))) (b @ bs)"
        using c odd by (simp add: column_loop.simps [of cnt acc] out g g2 Let_def)
      with IH vs show ?thesis by simp
    next
      case no_run: False
      let ?n = "literals vs"
      from 1(3) False no_run obtain h w b where p: "putVarint (int ?n * 2) = Inr h" "put_all (take ?n vs) = Inr w"
        and e: "encodeColumn (drop ?n vs) = Inr b" and out: "out = (h @ w) @ b"
        by (auto simp: encodeColumn.simps [of vs] Let_def bindE_Inr put_all_Cons)
      have le: "?n \<le> length vs" "0 < ?n" using literals_bounds [OF False] by simp_all
      have c: "\<not> cnt \<le> length acc" "\<not> cnt < length acc + ?n" "0 < ?n" using 1(4) le by linarith+
      have g: "get (h @ w @ b @ bs) = Inr (?n * 2, w @ b @ bs)"
        using get_put [OF p(1), of "w @ b @ bs"] by (simp add: nat_mult_distrib)
      have g2: "gets ?n (w @ b @ bs) = Inr (map nat (take ?n vs), b @ bs)"
        using gets_puts [OF p(2), of "b @ bs"] le by simp
      have IH: "column_loop cnt (acc @ map nat (take ?n vs)) (b @ bs) =
          Inr ((acc @ map nat (take ?n vs)) @ map nat (drop ?n vs), bs)"
        by (rule 1(2) [OF False refl no_run refl e]) (use 1(4) le in simp)
      have "column_loop cnt acc (out @ bs) = column_loop cnt (acc @ map nat (take ?n vs)) (b @ bs)"
        using c by (simp add: column_loop.simps [of cnt acc] out g g2 Let_def)
      with IH show ?thesis by (simp flip: map_append)
    qed
  qed
qed

lemma column_encode: "encodeColumn vs = Inr out \<Longrightarrow> length vs = cnt \<Longrightarrow> column cnt (out @ bs) = Inr (map nat vs, bs)"
  by (simp add: column_def column_loop_encode)

section \<open>Entries restored\<close>

lemma unzigzag_zigzag: "unzigzag (nat (zigzag d)) = d"
proof (cases "d < 0")
  case True
  define k where "k = nat (- d - 1)"
  have d: "d = - int k - 1" using True by (simp add: k_def)
  have "nat (zigzag d) = 2 * k + 1" by (simp add: zigzag_def d nat_add_distrib nat_mult_distrib)
  then show ?thesis by (simp add: unzigzag_def d)
next
  case False
  then show ?thesis by (simp add: unzigzag_def zigzag_def nat_mult_distrib)
qed

definition triple :: "int \<times> int \<times> int \<Rightarrow> nat \<times> nat \<times> nat" where
  "triple r = (nat (fst r), nat (fst (snd r)), nat (snd (snd r)))"

text \<open>The entries as they are read back.\<close>

definition shown :: "delta_entry list \<Rightarrow> (int \<times> int \<times> string) list" where
  "shown es = map (\<lambda>e. (d_seq e, d_at e, orelse (d_text e) [])) es"

lemma restore_steps:
  "steps es sq tm = Some rows \<Longrightarrow>
     restore (map triple rows) sq tm (length pre) (pre @ concat (texts es) @ post) =
       (shown es, length pre + length (concat (texts es)))"
proof (induction es arbitrary: sq tm rows pre)
  case Nil
  then show ?case by (simp add: shown_def texts_def)
next
  case (Cons e es)
  let ?t = "orelse (d_text e) []"
  from Cons.prems obtain rest where st: "steps es (d_seq e) (d_at e) = Some rest" and sq: "sq < d_seq e"
    and rows: "rows = (d_seq e - sq, zigzag (d_at e - tm), int (length ?t)) # rest"
    by (auto split: if_splits)
  from Cons.IH [OF st, of "pre @ ?t"]
  have "restore (map triple rest) (d_seq e) (d_at e) (length pre + length ?t) (pre @ ?t @ concat (texts es) @ post) =
      (shown es, length pre + length ?t + length (concat (texts es)))"
    by simp
  moreover have "triple (d_seq e - sq, zigzag (d_at e - tm), int (length ?t)) = (nat (d_seq e - sq), nat (zigzag (d_at e - tm)), length ?t)"
    by (simp add: triple_def)
  ultimately show ?case
    using sq by (simp add: rows unzigzag_zigzag Let_def shown_def texts_def)
qed

lemma steps_length: "steps es sq tm = Some rows \<Longrightarrow> length rows = length es"
  by (induction es arbitrary: sq tm rows) (auto split: if_splits)

lemma rows_of_concat: "rows_of (map nat (concat (map (\<lambda>(a, b, c). [a, b, c]) rows))) = map triple rows"
  by (induction rows) (auto simp: triple_def)

lemma length_concat_rows: "length (concat (map (\<lambda>(a, b, c). [a, b, c]) rows)) = 3 * length rows"
  by (induction rows) auto

lemma zip_columns:
  "zip (map nat (map fst rows)) (zip (map nat (map (fst \<circ> snd) rows)) (map nat (map (snd \<circ> snd) rows))) = map triple rows"
  by (induction rows) (auto simp: triple_def)

text \<open>What reading finds once the count has been read.\<close>

lemma read_plain:
  assumes "plain_block rows = Inr bytes"
  shows "\<exists>bs1. get (drop (length MAGIC) bytes) = Inr (length rows, bs1) \<and>
    read_rows (has_magic bytes MAGIC_V2) (length rows) bs1 = Inr (map triple rows, []) \<and>
    isPlainDeltaLengths bytes \<and> length rows \<le> length bytes * 64"
proof -
  let ?vs = "concat (map (\<lambda>(a, b, c). [a, b, c]) rows)"
  from assms obtain h b where h: "putVarint (int (length rows)) = Inr h" "put_all ?vs = Inr b" "bytes = MAGIC @ h @ b"
    by (auto simp: plain_block_def bindE_Inr put_all_Cons)
  have "get (h @ b) = Inr (length rows, b)" using get_put [OF h(1), of b] by simp
  moreover have "gets (3 * length rows) b = Inr (map nat ?vs, [])"
    using gets_puts [OF h(2), of "[]"] by (simp add: length_concat_rows)
  moreover have "\<not> has_magic bytes MAGIC_V2" "isPlainDeltaLengths bytes" "drop (length MAGIC) bytes = h @ b"
    by (simp_all add: h(3) has_magic_def isPlainDeltaLengths_def MAGIC_def MAGIC_V2_def)
  moreover have "length rows \<le> length bytes * 64"
    using put_all_length [OF h(2)] by (simp add: h(3) length_concat_rows)
  ultimately show ?thesis by (simp add: read_rows_def rows_of_concat)
qed

lemma read_grouped:
  assumes "grouped_block rows = Inr bytes"
  shows "\<exists>bs1. get (drop (length MAGIC) bytes) = Inr (length rows, bs1) \<and>
    read_rows (has_magic bytes MAGIC_V2) (length rows) bs1 = Inr (map triple rows, []) \<and>
    has_magic bytes MAGIC_V2"
proof -
  from assms obtain h a b c where h: "putVarint (int (length rows)) = Inr h" "encodeColumn (map fst rows) = Inr a"
    "encodeColumn (map (fst \<circ> snd) rows) = Inr b" "encodeColumn (map (snd \<circ> snd) rows) = Inr c"
    "bytes = MAGIC_V2 @ h @ a @ b @ c"
    by (auto simp: grouped_block_def bindE_Inr put_all_Cons)
  have "get (h @ a @ b @ c) = Inr (length rows, a @ b @ c)" using get_put [OF h(1), of "a @ b @ c"] by simp
  moreover have "has_magic bytes MAGIC_V2" "drop (length MAGIC) bytes = h @ a @ b @ c"
    by (simp_all add: h(5) has_magic_def MAGIC_def MAGIC_V2_def)
  moreover have "column (length rows) (a @ b @ c) = Inr (map nat (map fst rows), b @ c)"
    by (rule column_encode [OF h(2)]) simp
  moreover have "column (length rows) (b @ c) = Inr (map nat (map (fst \<circ> snd) rows), c)"
    by (rule column_encode [OF h(3)]) simp
  moreover have "column (length rows) (c @ []) = Inr (map nat (map (snd \<circ> snd) rows), [])"
    by (rule column_encode [OF h(4)]) simp
  ultimately show ?thesis
    using zip_columns [of rows] by (simp add: read_rows_def del: map_map)
qed

text \<open>C27: A block that was packed reads back as exactly the entries it was packed from, whichever form the writer kept,
  unless it claims more entries than 64 times its bytes, which the reader refuses; the interleaved form never does.\<close>

theorem packed_block_reads_back:
  assumes "packDeltaLengths es completed = Inr (Some bytes)"
  shows "isDeltaLengths bytes \<and> (isPlainDeltaLengths bytes \<longrightarrow> length es \<le> length bytes * 64) \<and>
    unpackDeltaLengths bytes completed =
      (if length bytes * 64 < length es then Inl InvalidCount else Inr (shown es))"
proof -
  from assms obtain rows p g where st: "steps es 0 0 = Some rows" and p: "plain_block rows = Inr p"
    and g: "grouped_block rows = Inr g" and bytes: "bytes = (if length g < length p then g else p)"
    and whole: "concat (texts es) = completed"
    by (auto simp: packDeltaLengths_def bindE_Inr split: if_splits option.splits)
  have n: "length rows = length es" by (rule steps_length [OF st])
  have res: "restore (map triple rows) 0 0 0 completed = (shown es, length completed)"
    using restore_steps [OF st, of "[]" "[]"] whole by simp
  have magics: "MAGIC \<noteq> MAGIC_V2" "length MAGIC = length MAGIC_V2" by (simp_all add: MAGIC_def MAGIC_V2_def)
  obtain bs1 where 1: "get (drop (length MAGIC) bytes) = Inr (length rows, bs1)"
    and 2: "read_rows (has_magic bytes MAGIC_V2) (length rows) bs1 = Inr (map triple rows, [])"
    using read_plain [OF p] read_grouped [OF g] bytes by (auto split: if_splits)
  have "unpackDeltaLengths bytes completed = (if length bytes * 64 < length es then Inl InvalidCount else Inr (shown es))"
    unfolding unpackDeltaLengths_def 1 using 2 n res by simp
  moreover have "isDeltaLengths bytes"
    using read_plain [OF p] read_grouped [OF g] bytes by (auto simp: isDeltaLengths_def isPlainDeltaLengths_def)
  moreover have "length es \<le> length bytes * 64" if "isPlainDeltaLengths bytes"
  proof -
    have "\<not> has_magic bytes MAGIC_V2" using that magics by (auto simp: isPlainDeltaLengths_def has_magic_def)
    then have "bytes = p" using bytes read_grouped [OF g] by (auto split: if_splits)
    with read_plain [OF p] n show ?thesis by auto
  qed
  ultimately show ?thesis by blast
qed

text \<open>Two deltas, one millisecond apart.\<close>

definition small_deltas :: "delta_entry list" where
  "small_deltas = [\<lparr>d_seq = 3, d_at = 700, d_text = Some ''ab'', d_bare = True\<rparr>, \<lparr>d_seq = 4, d_at = 701, d_text = Some ''c'', d_bare = True\<rparr>]"

lemma packed_block_reads_back_witness:
  "\<exists>bytes. packDeltaLengths small_deltas ''abc'' = Inr (Some bytes) \<and>
     unpackDeltaLengths bytes ''abc'' = Inr [(3, 700, ''ab''), (4, 701, ''c'')]"
proof -
  have p: "packDeltaLengths small_deltas ''abc'' = Inr (Some [77, 68, 76, 1, 2, 3, 248, 10, 2, 1, 2, 1])" by code_simp
  have n: "length small_deltas = 2" "shown small_deltas = [(3, 700, ''ab''), (4, 701, ''c'')]"
    by (simp_all add: small_deltas_def shown_def)
  from packed_block_reads_back [OF p] n show ?thesis using p by simp
qed

section \<open>Blocks the reader refuses\<close>

text \<open>A stream of one-character deltas, one step of the sequence each, all at time 0.\<close>

definition steady :: "nat \<Rightarrow> delta_entry list" where
  "steady n = map (\<lambda>i. \<lparr>d_seq = int i + 1, d_at = 0, d_text = Some ''a'', d_bare = True\<rparr>) [0..<n]"

lemma steps_steady: "steps (map (\<lambda>i. \<lparr>d_seq = int i + 1, d_at = 0, d_text = Some ''a'', d_bare = True\<rparr>) [k..<k + n]) (int k) 0 =
    Some (replicate n (1, 0, 1))"
proof (induction n arbitrary: k)
  case (Suc n)
  have "[k..<k + Suc n] = k # [Suc k..<Suc k + n]" by (simp add: upt_conv_Cons)
  with Suc [of "Suc k"] show ?case by (simp add: zigzag_def safe_integer_def max_safe_def algebra_simps)
qed simp

lemma encode_replicate: "3 \<le> n \<Longrightarrow> encodeColumn (replicate n x) = put_all [int n * 2 + 1, x]"
proof -
  assume n: "3 \<le> n"
  then have "run_length (replicate n x) = n" by (cases n) simp_all
  moreover have "replicate n x \<noteq> []" "hd (replicate n x) = x" using n by auto
  ultimately show ?thesis
    using n by (simp add: encodeColumn.simps [of "replicate n x"] MIN_RUN_def bindE_def split: sum.splits)
qed

text \<open>The writer can pack what the reader refuses: a stream of 1500 deltas of one character, each one step of the
  sequence after the other and at the same time, packs into 15 bytes of the column form, which reading rejects for
  its count.\<close>

theorem steady_stream_is_refused:
  "packDeltaLengths (steady 1500) (replicate 1500 CHR ''a'') =
     Inr (Some (MAGIC_V2 @ [220, 11, 185, 23, 1, 185, 23, 0, 185, 23, 1])) \<and>
   unpackDeltaLengths (MAGIC_V2 @ [220, 11, 185, 23, 1, 185, 23, 0, 185, 23, 1]) (replicate 1500 CHR ''a'') = Inl InvalidCount"
proof -
  let ?rows = "replicate 1500 (1, 0, 1) :: (int \<times> int \<times> int) list"
  let ?g = "MAGIC_V2 @ [220, 11, 185, 23, 1, 185, 23, 0, 185, 23, 1]"
  have st: "steps (steady 1500) 0 0 = Some ?rows" using steps_steady [of 0 1500] by (simp add: steady_def)
  have n1: "varint_bytes 1500 = [220, 11]" "varint_bytes 3001 = [185, 23]" by code_simp+
  have v: "putVarint 1500 = Inr [220, 11]" "putVarint 3001 = Inr [185, 23]" "putVarint 1 = Inr [1]" "putVarint 0 = Inr [0]"
    by (simp_all add: putVarint_def safe_integer_def max_safe_def n1 varint_bytes_small)
  have g: "grouped_block ?rows = Inr ?g"
    by (simp add: grouped_block_def encode_replicate put_all_Cons v)
  have "\<exists>bs. put_all (int 1500 # concat (map (\<lambda>(a, b, c). [a, b, c]) (replicate m (1, 0, 1)))) = Inr bs \<and> length bs = 2 + 3 * m" for m
  proof -
    have "\<exists>bs. put_all (concat (map (\<lambda>(a, b, c). [a, b, c]) (replicate m (1, 0, 1)))) = Inr bs \<and> length bs = 3 * m"
      by (induction m) (auto simp: put_all_Cons v)
    then show ?thesis by (auto simp: put_all_Cons v)
  qed
  from this [of 1500] obtain bs where bs: "put_all (int 1500 # concat (map (\<lambda>(a, b, c). [a, b, c]) ?rows)) = Inr bs" "length bs = 4502"
    by auto
  then have p: "plain_block ?rows = Inr (MAGIC @ bs)" by (simp add: plain_block_def)
  have "texts (steady 1500) = replicate 1500 ''a''" by (simp add: texts_def steady_def comp_def map_replicate_const)
  then have whole: "concat (texts (steady 1500)) = replicate 1500 CHR ''a''"
    by (simp add: concat_replicate_trivial)
  have "packDeltaLengths (steady 1500) (replicate 1500 CHR ''a'') = Inr (Some ?g)"
    using st g p bs(2) whole
    by (simp add: packDeltaLengths_def list_ex_iff) (simp add: steady_def MAGIC_def MAGIC_V2_def)
  moreover have "get [220, 11, 185, 23, 1, 185, 23, 0, 185, 23, 1] = Inr (1500, [185, 23, 1, 185, 23, 0, 185, 23, 1])"
  proof -
    have eight: "(8::nat) = Suc (Suc 6)" by simp
    show ?thesis unfolding get_def eight by (simp only: get_loop.simps Let_def) (simp add: safe_integer_def max_safe_def)
  qed
  ultimately show ?thesis by (simp add: unpackDeltaLengths_def MAGIC_V2_def MAGIC_def)
qed

end
