(* ===== verification/Framing.thy ===== *)
theory Framing
  imports Prelude
begin

text \<open>
  LSP message framing (\<open>packages/lsp/src/framing.ts\<close>): \<open>Content-Length\<close> headers around JSON bodies, written by
  \<open>encodeMessage\<close> and read back by the incremental \<open>FrameDecoder\<close>, whose chunks may split a message anywhere. A
  buffer is a list of bytes; \<open>JSON.parse\<close> of a body is the parameter \<open>parse\<close>, \<open>None\<close> where it throws.
\<close>

section \<open>Bytes\<close>

definition HEADER_END :: "nat list" where "HEADER_END = [13, 10, 13, 10]"
definition MAX_HEADER_BYTES :: nat where "MAX_HEADER_BYTES = 8 * 1024"
definition MAX_BODY_BYTES :: nat where "MAX_BODY_BYTES = 64 * 1024 * 1024"

definition ascii :: "string \<Rightarrow> nat list" where
  "ascii s = map of_char s"

text \<open>The decimal digits of a number, as \<open>`${n}`\<close> writes them.\<close>

fun decimal :: "nat \<Rightarrow> nat list" where
  "decimal n = (if n < 10 then [48 + n] else decimal (n div 10) @ [48 + n mod 10])"

declare decimal.simps [simp del]

definition encodeMessage :: "nat list \<Rightarrow> nat list" where
  "encodeMessage body = ascii ''Content-Length: '' @ decimal (length body) @ HEADER_END @ body"

text \<open>\<open>buffer.indexOf(HEADER_END)\<close>\<close>

fun index_of :: "nat list \<Rightarrow> nat list \<Rightarrow> nat option" where
  "index_of pat [] = (if pat = [] then Some 0 else None)"
| "index_of pat (b # bs) =
     (if take (length pat) (b # bs) = pat then Some 0 else map_option Suc (index_of pat bs))"

section \<open>The header\<close>

text \<open>\<open>toString("ascii")\<close> drops the high bit; the expression ignores case.\<close>

definition lower :: "nat \<Rightarrow> nat" where
  "lower b = (let c = b mod 128 in if 65 \<le> c \<and> c \<le> 90 then c + 32 else c)"

definition is_space :: "nat \<Rightarrow> bool" where
  "is_space b \<longleftrightarrow> b mod 128 \<in> {9, 10, 11, 12, 13, 32}"

definition is_digit :: "nat \<Rightarrow> bool" where
  "is_digit b \<longleftrightarrow> 48 \<le> b mod 128 \<and> b mod 128 \<le> 57"

definition number :: "nat list \<Rightarrow> nat" where
  "number ds = foldl (\<lambda>n d. n * 10 + (d mod 128 - 48)) 0 ds"

definition NAME :: "nat list" where
  "NAME = ascii ''content-length:''"

text \<open>The first match of \<open>/content-length:\s*(\d+)/i\<close>: the digits it captures, as a number.\<close>

definition length_at :: "nat list \<Rightarrow> nat option" where
  "length_at header =
     (if map lower (take (length NAME) header) = NAME then
        let digits = takeWhile is_digit (dropWhile is_space (drop (length NAME) header))
        in if digits = [] then None else Some (number digits)
      else None)"

fun content_length :: "nat list \<Rightarrow> nat option" where
  "content_length [] = None"
| "content_length (b # bs) =
     (case length_at (b # bs) of Some n \<Rightarrow> Some n | None \<Rightarrow> content_length bs)"

section \<open>The decoder\<close>

lemma index_of_le: "index_of pat bs = Some i \<Longrightarrow> i + length pat \<le> length bs"
proof (induction bs arbitrary: i)
  case (Cons b bs)
  then show ?case by (auto split: if_splits) (metis length_Cons length_take min.absorb_iff2 min.commute nat_le_linear)
qed (simp split: if_splits)

text \<open>The loop of \<open>push\<close>: the bodies of the frames complete in the buffer, and what is kept.\<close>

function frames :: "nat list \<Rightarrow> nat list list \<times> nat list" where
  "frames buffer =
     (case index_of HEADER_END buffer of
        None \<Rightarrow> ([], if MAX_HEADER_BYTES < length buffer then [] else buffer)
      | Some headerEnd \<Rightarrow>
          let bodyStart = headerEnd + length HEADER_END in
          case content_length (take headerEnd buffer) of
            None \<Rightarrow> frames (drop bodyStart buffer)
          | Some n \<Rightarrow>
              if MAX_BODY_BYTES < n then frames (drop bodyStart buffer)
              else let bodyEnd = bodyStart + n in
                if length buffer < bodyEnd then ([], buffer)
                else let (bodies, rest) = frames (drop bodyEnd buffer)
                     in (take n (drop bodyStart buffer) # bodies, rest))"
  by auto
termination
  by (relation "measure length") (auto simp: HEADER_END_def dest!: index_of_le)

declare frames.simps [simp del]

definition push :: "(nat list \<Rightarrow> 'm option) \<Rightarrow> nat list \<Rightarrow> nat list \<Rightarrow> 'm list \<times> nat list" where
  "push parse chunk buffer =
     (let (bodies, rest) = frames (buffer @ chunk) in (List.map_filter parse bodies, rest))"

fun push_all :: "(nat list \<Rightarrow> 'm option) \<Rightarrow> nat list list \<Rightarrow> nat list \<Rightarrow> 'm list \<times> nat list" where
  "push_all parse [] buffer = ([], buffer)"
| "push_all parse (c # cs) buffer =
     (let (ms, b1) = push parse c buffer; (rest, b2) = push_all parse cs b1 in (ms @ rest, b2))"

section \<open>One frame\<close>

lemma decimal_digits: "d \<in> set (decimal n) \<Longrightarrow> is_digit d \<and> d \<noteq> 13 \<and> d < 128"
proof (induction n rule: decimal.induct)
  case (1 n)
  have "48 + n mod 10 < 58" by simp
  with 1 show ?case
    by (auto simp: decimal.simps [of n] is_digit_def split: if_splits)
qed

lemma decimal_not_empty [simp]: "decimal n \<noteq> []"
  by (simp add: decimal.simps [of n])

lemma number_append: "number (ds @ [d]) = number ds * 10 + (d mod 128 - 48)"
  by (simp add: number_def)

lemma number_decimal [simp]: "number (decimal n) = n"
proof (induction n rule: decimal.induct)
  case (1 n)
  show ?case
  proof (cases "n < 10")
    case True
    then show ?thesis by (simp add: decimal.simps [of n] number_def)
  next
    case False
    have "(48 + n mod 10) mod 128 = 48 + n mod 10" by simp
    with False 1 show ?thesis by (simp add: decimal.simps [of n] number_append)
  qed
qed

definition header_of :: "nat list \<Rightarrow> nat list" where
  "header_of body = ascii ''Content-Length: '' @ decimal (length body)"

lemma encode_header: "encodeMessage body = header_of body @ HEADER_END @ body"
  by (simp add: encodeMessage_def header_of_def)

lemma content_length_header: "content_length (header_of body) = Some (length body)"
proof -
  have l: "map lower (take (length NAME) (header_of body)) = NAME"
    by (simp add: header_of_def NAME_def ascii_def lower_def Let_def)
  have d: "drop (length NAME) (header_of body) = 32 # decimal (length body)"
    by (simp add: header_of_def NAME_def ascii_def)
  have s: "is_space 32" by (simp add: is_space_def)
  have f: "\<not> is_space (hd (decimal (length body)))"
    using decimal_digits [of "hd (decimal (length body))" "length body"] by (auto simp: is_space_def is_digit_def)
  then have dw: "dropWhile is_space (32 # decimal (length body)) = decimal (length body)"
    using s by (cases "decimal (length body)") auto
  have tw: "takeWhile is_digit (decimal (length body)) = decimal (length body)"
    using decimal_digits [of _ "length body"] by (simp add: takeWhile_eq_all_conv)
  have "length_at (header_of body) = Some (length body)"
    unfolding length_at_def l d dw tw Let_def by simp
  moreover obtain b bs where "header_of body = b # bs" by (simp add: header_of_def ascii_def)
  ultimately show ?thesis by simp
qed

text \<open>A header holds no line end, so the first \<open>HEADER_END\<close> is the one that ends it.\<close>

lemma header_no_cr: "b \<in> set (header_of body) \<Longrightarrow> b \<noteq> 13"
  using decimal_digits [of b "length body"] by (auto simp: header_of_def ascii_def)

lemma index_of_header:
  "\<forall>b \<in> set h. b \<noteq> 13 \<Longrightarrow> index_of HEADER_END (h @ HEADER_END @ bs) = Some (length h)"
  by (induction h) (auto simp: HEADER_END_def)

lemma index_of_short:
  assumes "\<forall>b \<in> set h. b \<noteq> 13" and "k < length h + 4"
  shows "index_of HEADER_END (take k (h @ HEADER_END)) = None"
  using assms
proof (induction h arbitrary: k)
  case Nil
  then have "k \<in> {0, 1, 2, 3}" by auto
  then show ?case by (auto simp: HEADER_END_def numeral_2_eq_2 numeral_3_eq_3)
next
  case (Cons b h)
  show ?case
  proof (cases k)
    case (Suc m)
    with Cons have "index_of HEADER_END (take m (h @ HEADER_END)) = None" by simp
    then show ?thesis using Suc Cons.prems by (auto simp: HEADER_END_def)
  qed (simp add: HEADER_END_def)
qed

lemma decimal_length: "length (decimal n) \<le> Suc n"
proof (induction n rule: decimal.induct)
  case (1 n)
  show ?case
  proof (cases "n < 10")
    case False
    have "n div 10 < n" using False by simp
    with 1 False show ?thesis by (simp add: decimal.simps [of n])
  qed (simp add: decimal.simps [of n])
qed

lemma decimal_length_small: "n < 10 ^ Suc k \<Longrightarrow> length (decimal n) \<le> Suc k"
proof (induction k arbitrary: n)
  case 0
  then show ?case by (simp add: decimal.simps [of n])
next
  case (Suc k)
  show ?case
  proof (cases "n < 10")
    case False
    have "n div 10 < 10 ^ Suc k" using Suc.prems by (simp add: less_mult_imp_div_less mult.commute)
    with Suc.IH False show ?thesis by (simp add: decimal.simps [of n])
  qed (simp add: decimal.simps [of n])
qed

lemma header_short: "length body \<le> MAX_BODY_BYTES \<Longrightarrow> length (header_of body) \<le> 24"
  using decimal_length_small [of "length body" 7]
  by (simp add: header_of_def ascii_def MAX_BODY_BYTES_def)

lemma frames_whole:
  assumes "length body \<le> MAX_BODY_BYTES"
  shows "frames (encodeMessage body @ rest) = (let (bodies, r) = frames rest in (body # bodies, r))"
proof -
  define b where "b = encodeMessage body @ rest"
  let ?h = "length (header_of body)"
  have i: "index_of HEADER_END b = Some ?h"
    using index_of_header [of "header_of body" "body @ rest"] header_no_cr by (simp add: b_def encode_header)
  have t: "take ?h b = header_of body" by (simp add: b_def encode_header)
  have l: "\<not> length b < ?h + length HEADER_END + length body" by (simp add: b_def encode_header)
  have d: "drop (?h + length HEADER_END + length body) b = rest" "take (length body) (drop (?h + length HEADER_END) b) = body"
    by (simp_all add: b_def encode_header)
  have m: "\<not> MAX_BODY_BYTES < length body" using assms by simp
  show ?thesis
    unfolding b_def [symmetric] frames.simps [of b] i t content_length_header Let_def option.case d
    by (simp only: if_not_P [OF m] if_not_P [OF l])
qed

lemma frames_part:
  assumes "length body \<le> MAX_BODY_BYTES" and "k < length (encodeMessage body)"
  shows "frames (take k (encodeMessage body)) = ([], take k (encodeMessage body))"
proof -
  let ?h = "header_of body"
  have nocr: "\<forall>b \<in> set ?h. b \<noteq> 13" using header_no_cr by blast
  show ?thesis
  proof (cases "k < length ?h + 4")
    case True
    then have e: "take k (encodeMessage body) = take k (?h @ HEADER_END)"
      by (cases "k \<le> length ?h") (auto simp: encode_header HEADER_END_def take_Cons' not_le)
    have "index_of HEADER_END (take k (?h @ HEADER_END)) = None" by (rule index_of_short [OF nocr True])
    moreover have "\<not> MAX_HEADER_BYTES < length (take k (?h @ HEADER_END))"
      using header_short [OF assms(1)] True by (simp add: MAX_HEADER_BYTES_def)
    ultimately show ?thesis unfolding e by (subst frames.simps) simp
  next
    case False
    then obtain m where m: "k = length ?h + 4 + m" by (metis le_Suc_ex not_less)
    have e: "take k (encodeMessage body) = ?h @ HEADER_END @ take (k - length ?h - 4) body"
    proof -
      have "length HEADER_END = 4" by (simp add: HEADER_END_def)
      then show ?thesis by (simp add: encode_header m)
    qed
    define b where "b = take k (encodeMessage body)"
    have i: "index_of HEADER_END b = Some (length ?h)"
      unfolding b_def e by (rule index_of_header [OF nocr])
    have t: "take (length ?h) b = ?h" unfolding b_def e by simp
    have l: "length b < length ?h + length HEADER_END + length body"
      using assms(2) by (simp add: b_def encode_header)
    have m: "\<not> MAX_BODY_BYTES < length body" using assms(1) by simp
    show ?thesis
      unfolding b_def [symmetric] frames.simps [of b] i t content_length_header Let_def option.case
      by (simp only: if_not_P [OF m] if_P [OF l])
  qed
qed

section \<open>A stream of frames\<close>

lemma frames_prefix:
  assumes "\<forall>b \<in> set bodies. length b \<le> MAX_BODY_BYTES" and "k \<le> length (concat (map encodeMessage bodies))"
  shows "\<exists>m rest. frames (take k (concat (map encodeMessage bodies))) = (take m bodies, rest) \<and> m \<le> length bodies \<and>
    rest @ drop k (concat (map encodeMessage bodies)) = concat (map encodeMessage (drop m bodies)) \<and>
    (k = length (concat (map encodeMessage bodies)) \<longrightarrow> rest = [] \<and> m = length bodies) \<and> frames rest = ([], rest)"
  using assms
proof (induction bodies arbitrary: k)
  case Nil
  have "frames [] = ([], [])" by (subst frames.simps) (simp add: HEADER_END_def MAX_HEADER_BYTES_def)
  with Nil show ?case by simp
next
  case (Cons b bodies)
  let ?e = "encodeMessage b"
  show ?case
  proof (cases "k < length ?e")
    case True
    then have "frames (take k (concat (map encodeMessage (b # bodies)))) = ([], take k ?e)"
      using frames_part [of b k] Cons.prems by simp
    moreover have "take k ?e @ drop k (concat (map encodeMessage (b # bodies))) = concat (map encodeMessage (b # bodies))"
      using True by simp
    ultimately show ?thesis
      using True frames_part [of b k] Cons.prems(1) by (intro exI [of _ 0] exI [of _ "take k ?e"]) simp
  next
    case False
    let ?k = "k - length ?e"
    have "?k \<le> length (concat (map encodeMessage bodies))" using Cons.prems(2) False by simp
    with Cons.IH [of ?k] Cons.prems(1) obtain m rest where
      IH: "frames (take ?k (concat (map encodeMessage bodies))) = (take m bodies, rest)" "m \<le> length bodies"
        "rest @ drop ?k (concat (map encodeMessage bodies)) = concat (map encodeMessage (drop m bodies))"
        "?k = length (concat (map encodeMessage bodies)) \<longrightarrow> rest = [] \<and> m = length bodies"
        "frames rest = ([], rest)"
      by (metis list.set_intros(2))
    have "frames (take k (concat (map encodeMessage (b # bodies)))) = (b # take m bodies, rest)"
      using frames_whole [of b "take ?k (concat (map encodeMessage bodies))"] IH(1) Cons.prems False by simp
    then show ?thesis using IH False by (intro exI [of _ "Suc m"] exI [of _ rest]) auto
  qed
qed

lemma map_filter_append: "List.map_filter f (xs @ ys) = List.map_filter f xs @ List.map_filter f ys"
  by (induction xs) (auto simp: List.map_filter_def)

lemma push_all_stream:
  assumes "\<forall>b \<in> set bodies. length b \<le> MAX_BODY_BYTES" and "buffer @ concat chunks = concat (map encodeMessage bodies)"
    and "frames buffer = ([], buffer)"
  shows "push_all parse chunks buffer = (List.map_filter parse bodies, [])"
  using assms
proof (induction chunks arbitrary: buffer bodies)
  case Nil
  then have b: "buffer = concat (map encodeMessage bodies)" by simp
  from frames_prefix [OF Nil(1), of "length buffer"] b Nil(3)
  have "bodies = []" "buffer = []" by auto
  then show ?case by (simp add: List.map_filter_def)
next
  case (Cons c cs)
  let ?S = "concat (map encodeMessage bodies)"
  have S: "?S = (buffer @ c) @ concat cs" using Cons.prems(2) by simp
  then have k: "take (length (buffer @ c)) ?S = buffer @ c" "length (buffer @ c) \<le> length ?S" by simp_all
  obtain m rest where f: "frames (buffer @ c) = (take m bodies, rest)"
    and r: "rest @ concat cs = concat (map encodeMessage (drop m bodies))" and q: "frames rest = ([], rest)"
    using frames_prefix [OF Cons.prems(1) k(2)] unfolding k(1) by (auto simp: S)
  have "push_all parse cs rest = (List.map_filter parse (drop m bodies), [])"
    using Cons.IH [OF _ r q] Cons.prems(1) by (meson in_set_dropD)
  with f have "push_all parse (c # cs) buffer =
      (List.map_filter parse (take m bodies) @ List.map_filter parse (drop m bodies), [])"
    by (simp add: push_def)
  then show ?case by (simp flip: map_filter_append)
qed

text \<open>C28: Messages that \<open>encodeMessage\<close> wrote, each with a body of at most the 64 MiB a decoder takes (\<open>MAX_BODY_BYTES\<close>; a longer body is
  written but not read), come out of the decoder complete, in order and once each, however the bytes are cut into chunks, and nothing is left in the buffer; a body that is not JSON is skipped without losing the
  messages after it.\<close>

theorem framing_roundtrip:
  assumes "\<forall>b \<in> set bodies. length b \<le> MAX_BODY_BYTES" and "concat chunks = concat (map encodeMessage bodies)"
  shows "push_all parse chunks [] = (List.map_filter parse bodies, [])"
proof -
  have "frames [] = ([], [])" by (subst frames.simps) (simp add: HEADER_END_def MAX_HEADER_BYTES_def)
  then show ?thesis using push_all_stream [OF assms(1), of "[]"] assms(2) by simp
qed

text \<open>Two messages in three chunks; the first body does not parse.\<close>

lemma framing_roundtrip_witness:
  "push_all (\<lambda>b. if length b = 1 then None else Some (length b))
     [ascii ''Content-Le'', ascii ''ngth: 1'' @ [13, 10, 13, 10, 1] @ ascii ''Content-Length: 2'' @ [13], [10, 13, 10, 5, 6]] [] = ([2], [])"
proof -
  have b: "\<forall>b \<in> set [[1], [5, 6]]. length b \<le> MAX_BODY_BYTES" by (simp add: MAX_BODY_BYTES_def)
  have c: "concat [ascii ''Content-Le'', ascii ''ngth: 1'' @ [13, 10, 13, 10, 1] @ ascii ''Content-Length: 2'' @ [13],
      [10, 13, 10, 5, 6]] = concat (map encodeMessage [[1], [5, 6]])"
    by code_simp
  have "List.map_filter (\<lambda>b. if length b = 1 then None else Some (length b)) [[1], [5, 6 :: nat]] = [2]"
    by (simp add: List.map_filter_def)
  with framing_roundtrip [OF b c, of "\<lambda>b. if length b = 1 then None else Some (length b)"] show ?thesis
    by (simp only:)
qed

end
