(* ===== verification/Sse.thy ===== *)
theory Sse
  imports Result
begin

text \<open>
  Server-sent events (\<open>packages/mcp/src/sse.ts\<close>): \<open>parseSse\<close> as a machine that takes the body's chunks one by one.
  The chunks are decoded text (\<open>TextDecoder\<close> is the platform's), \<open>tail\<close> what the decoder still held at the end.
  The events yielded so far are kept in the state; where the generator throws, the result is \<open>Inl\<close> of the events
  yielded before.
\<close>

section \<open>Lines\<close>

definition LF :: char where "LF = CHR 0x0A"
definition CR :: char where "CR = CHR 0x0D"

definition MAX_EVENT_CHARS :: nat where "MAX_EVENT_CHARS = 32 * 1024 * 1024"

type_synonym sse_event = "string \<times> string" \<comment> \<open>event, data\<close>

text \<open>The event being read: its name, its data lines and their size; and the events yielded.\<close>

record sse_state =
  e_event :: string
  e_data :: "string list"
  e_size :: nat
  e_out :: "sse_event list"

definition no_event :: sse_state where
  "no_event = \<lparr>e_event = [], e_data = [], e_size = 0, e_out = []\<rparr>"

definition sse_flush :: "sse_state \<Rightarrow> sse_state" where
  "sse_flush s =
     s\<lparr>e_out := (if e_data s \<noteq> [] then e_out s @ [(if e_event s = [] then ''message'' else e_event s, js_join [LF] (e_data s))]
                 else e_out s),
       e_event := [], e_data := [], e_size := 0\<rparr>"

definition sse_line :: "string \<Rightarrow> sse_state \<Rightarrow> sse_event list + sse_state" where
  "sse_line text s =
     (if text = [] then Inr (sse_flush s)
      else if hd text = CHR '':'' then Inr s
      else
        let field = takeWhile (\<lambda>c. c \<noteq> CHR '':'') text;
            rest = drop (Suc (length field)) text;
            value = (if rest \<noteq> [] \<and> hd rest = CHR '' '' then tl rest else rest)
        in if field = ''event'' then Inr (s\<lparr>e_event := value\<rparr>)
           else if field = ''data'' then
             let n = e_size s + length value in
             if MAX_EVENT_CHARS < n then Inl (e_out s) else Inr (s\<lparr>e_size := n, e_data := e_data s @ [value]\<rparr>)
           else Inr s)"

fun sse_lines :: "string list \<Rightarrow> sse_state \<Rightarrow> sse_event list + sse_state" where
  "sse_lines [] s = Inr s"
| "sse_lines (l # ls) s = bindE (sse_line l s) (sse_lines ls)"

section \<open>Chunks\<close>

definition line_end :: "char \<Rightarrow> bool" where
  "line_end c \<longleftrightarrow> c = CR \<or> c = LF"

text \<open>The inner loop over one chunk: the lines that end in it (the first one completed with what was pending), what is
  left unfinished and whether the chunk ended in a carriage return.\<close>

function cut_lines :: "string list \<Rightarrow> string \<Rightarrow> string list \<times> string list \<times> string \<times> bool" where
  "cut_lines pending text =
     (case find_index line_end text of
        None \<Rightarrow> ([], pending, text, False)
      | Some n \<Rightarrow>
          if text ! n = CR \<and> n = length text - 1 then ([], pending, take n text, True)
          else
            let complete = (if pending \<noteq> [] then concat pending @ take n text else take n text);
                text' = drop (if text ! n = CR \<and> text ! Suc n = LF then n + 2 else n + 1) text;
                (ls, p, rest, carriage) = cut_lines [] text'
            in (complete # ls, p, rest, carriage))"
  by auto
termination
  by (relation "measure (length \<circ> snd)") (auto dest!: find_index_lt)

declare cut_lines.simps [simp del]

text \<open>What is kept between chunks: the unfinished line in pieces, their length, the carriage return, the event.\<close>

record sse_reader =
  r_pending :: "string list"
  r_chars :: nat
  r_carriage :: bool
  r_state :: sse_state

definition sse_chunk :: "string \<Rightarrow> sse_reader \<Rightarrow> sse_event list + sse_reader" where
  "sse_chunk chunk r =
     (let text = (if r_carriage r then [CR] else []) @ chunk;
          (ls, pending, rest, carriage) = cut_lines (r_pending r) text;
          chars = (if ls = [] then r_chars r else 0)
      in bindE (sse_lines ls (r_state r)) (\<lambda>s.
           let pending' = (if rest \<noteq> [] then pending @ [rest] else pending);
               chars' = (if rest \<noteq> [] then chars + length rest else chars)
           in if MAX_EVENT_CHARS < chars' + (if carriage then 1 else 0) then Inl (e_out s)
              else Inr \<lparr>r_pending = pending', r_chars = chars', r_carriage = carriage, r_state = s\<rparr>))"

fun sse_chunks :: "string list \<Rightarrow> sse_reader \<Rightarrow> sse_event list + sse_reader" where
  "sse_chunks [] r = Inr r"
| "sse_chunks (c # cs) r = bindE (sse_chunk c r) (sse_chunks cs)"

definition new_reader :: sse_reader where
  "new_reader = \<lparr>r_pending = [], r_chars = 0, r_carriage = False, r_state = no_event\<rparr>"

text \<open>\<open>rest.replace(/\r$/, "")\<close>\<close>

definition drop_cr :: "string \<Rightarrow> string" where
  "drop_cr s = (if s \<noteq> [] \<and> last s = CR then butlast s else s)"

text \<open>The events of a body: yielded before an error (\<open>Inl\<close>), or all of them.\<close>

definition parseSse :: "string list \<Rightarrow> string \<Rightarrow> sse_event list + sse_event list" where
  "parseSse chunks tail =
     bindE (sse_chunks chunks new_reader) (\<lambda>r.
       let rest = concat (r_pending r) @ (if r_carriage r then [CR] else []) @ tail in
       bindE (if rest \<noteq> [] then sse_line (drop_cr rest) (r_state r) else Inr (r_state r)) (\<lambda>s. Inr (e_out (sse_flush s))))"

section \<open>The specification of lines\<close>

text \<open>Line by line over the whole text: LF, CRLF and CR each end a line. The unfinished line follows, and whether the
  text ended in a CR whose line is not ended yet.\<close>

fun split_lines :: "string \<Rightarrow> string \<Rightarrow> string list \<times> string \<times> bool" where
  "split_lines cur [] = ([], cur, False)"
| "split_lines cur (c # cs) =
     (if c = LF then (let (ls, r) = split_lines [] cs in (cur # ls, r))
      else if c = CR then
        (case cs of [] \<Rightarrow> ([], cur, True)
         | d # ds \<Rightarrow> (let (ls, r) = split_lines [] (if d = LF then ds else d # ds) in (cur # ls, r)))
      else split_lines (cur @ [c]) cs)"

text \<open>What a body means, without any chunks.\<close>

definition finish_body :: "string \<Rightarrow> string \<Rightarrow> bool \<Rightarrow> sse_state \<Rightarrow> sse_event list + sse_event list" where
  "finish_body tail rest carriage s =
     (let r = rest @ (if carriage then [CR] else []) @ tail in
      bindE (if r \<noteq> [] then sse_line (drop_cr r) s else Inr s) (\<lambda>s. Inr (e_out (sse_flush s))))"

definition body_events :: "string \<Rightarrow> string \<Rightarrow> sse_event list + sse_event list" where
  "body_events text tail =
     (let (ls, rest, carriage) = split_lines [] text in bindE (sse_lines ls no_event) (finish_body tail rest carriage))"

section \<open>The chunk loop cuts lines as the specification does\<close>

lemma not_line_end: "\<not> line_end c \<longleftrightarrow> c \<noteq> CR \<and> c \<noteq> LF"
  by (simp add: line_end_def)

lemma CR_LF [simp]: "CR \<noteq> LF" "LF \<noteq> CR"
  by (simp_all add: CR_def LF_def)

lemma split_plain: "\<forall>c \<in> set a. \<not> line_end c \<Longrightarrow> split_lines cur (a @ b) = split_lines (cur @ a) b"
  by (induction a arbitrary: cur) (auto simp: not_line_end)

lemma split_at_end:
  assumes "find_index line_end text = Some n"
  shows "split_lines cur text = split_lines (cur @ take n text) (text ! n # drop (Suc n) text)"
proof -
  note f = find_index_Some [OF assms]
  have "\<forall>c \<in> set (take n text). \<not> line_end c"
    using f by (auto simp: in_set_conv_nth)
  then show ?thesis
    using split_plain [of "take n text" cur "text ! n # drop (Suc n) text"] f
    by (simp add: Cons_nth_drop_Suc)
qed

lemma cut_is_split:
  "cut_lines pending tx = (ls, p, rest, carriage) \<Longrightarrow>
     split_lines (concat pending) tx = (ls, concat p @ rest, carriage) \<and> (ls \<noteq> [] \<longrightarrow> p = []) \<and> (ls = [] \<longrightarrow> p = pending)"
proof (induction pending tx arbitrary: ls p rest carriage rule: cut_lines.induct)
  case (1 pending tx)
  show ?case
  proof (cases "find_index line_end tx")
    case None
    then have "\<forall>c \<in> set tx. \<not> line_end c" by (simp add: find_index_None)
    then have "split_lines (concat pending) tx = ([], concat pending @ tx, False)"
      using split_plain [of tx "concat pending" "[]"] by simp
    with None 1(2) show ?thesis by (auto simp: cut_lines.simps [of pending tx])
  next
    case (Some n)
    note f = find_index_Some [OF Some]
    note sp = split_at_end [OF Some, of "concat pending"]
    show ?thesis
    proof (cases "tx ! n = CR \<and> n = length tx - 1")
      case True
      then have d: "drop (Suc n) tx = []" by simp
      from True have cr: "tx ! n = CR" ..
      from sp have "split_lines (concat pending) tx = ([], concat pending @ take n tx, True)"
        unfolding d cr by simp
      with True Some 1(2) show ?thesis by (auto simp: cut_lines.simps [of pending tx])
    next
      case False
      let ?t = "drop (if tx ! n = CR \<and> tx ! Suc n = LF then n + 2 else n + 1) tx"
      obtain ls' p' rest' c' where cut: "cut_lines [] ?t = (ls', p', rest', c')" by (metis prod_cases4)
      have res: "ls = (concat pending @ take n tx) # ls'" "p = p'" "rest = rest'" "carriage = c'"
        using 1(2) Some False cut by (auto simp: cut_lines.simps [of pending tx] Let_def split: if_splits)
      have IH: "split_lines [] ?t = (ls', concat p' @ rest', c')" "ls' \<noteq> [] \<longrightarrow> p' = []" "ls' = [] \<longrightarrow> p' = []"
        using 1(1) [OF Some False refl refl cut] by simp_all
      have p': "p' = []" using IH by blast
      have "split_lines (concat pending) tx = ((concat pending @ take n tx) # ls', concat p' @ rest', c')"
      proof (cases "tx ! n = LF")
        case True
        with sp IH(1) show ?thesis by simp
      next
        case no_lf: False
        with f have cr: "tx ! n = CR" by (simp add: line_end_def)
        with False f have "Suc n < length tx" by auto
        then have "drop (Suc n) tx = tx ! Suc n # drop (Suc (Suc n)) tx" by (simp add: Cons_nth_drop_Suc)
        with sp IH(1) cr show ?thesis by (auto split: if_splits)
      qed
      then show ?thesis by (simp add: res p')
    qed
  qed
qed

lemma split_append:
  "split_lines cur a = (ls, cur', carriage) \<Longrightarrow>
     split_lines cur (a @ b) =
       (let (ls2, r) = split_lines cur' ((if carriage then [CR] else []) @ b) in (ls @ ls2, r))"
proof (induction cur a arbitrary: ls rule: split_lines.induct)
  case (1 cur)
  then show ?case by (auto split: prod.splits)
next
  case (2 cur c cs)
  show ?case
  proof (cases "c = LF")
    case True
    with 2(4) obtain ls' where l: "split_lines [] cs = (ls', cur', carriage)" "ls = cur # ls'" by (auto split: prod.splits)
    from 2(1) [OF True l(1)] True l(2) show ?thesis by (auto split: prod.splits)
  next
    case no_lf: False
    show ?thesis
    proof (cases "c = CR")
      case True
      show ?thesis
      proof (cases cs)
        case Nil
        with 2(4) True show ?thesis by (auto split: prod.splits)
      next
        case (Cons d ds)
        let ?r = "if d = LF then ds else d # ds"
        from 2(4) True Cons obtain ls' where l: "split_lines [] ?r = (ls', cur', carriage)" "ls = cur # ls'"
          by (auto split: prod.splits)
        from 2(2) [OF no_lf True Cons l(1)] True Cons l(2) show ?thesis by (auto split: prod.splits if_splits)
      qed
    next
      case False
      with no_lf 2(3) [OF no_lf False] 2(4) show ?thesis by simp
    qed
  qed
qed

lemma split_length:
  "split_lines cur a = (ls, cur', carriage) \<Longrightarrow> length cur' + (if carriage then 1 else 0) \<le> length cur + length a"
proof (induction cur a arbitrary: ls rule: split_lines.induct)
  case (1 cur)
  then show ?case by auto
next
  case (2 cur c cs)
  show ?case
  proof (cases "c = LF")
    case True
    with 2(4) obtain ls' where "split_lines [] cs = (ls', cur', carriage)" by (auto split: prod.splits)
    from 2(1) [OF True this] show ?thesis by simp
  next
    case no_lf: False
    show ?thesis
    proof (cases "c = CR")
      case True
      show ?thesis
      proof (cases cs)
        case Nil
        with 2(4) True show ?thesis by auto
      next
        case (Cons d ds)
        let ?r = "if d = LF then ds else d # ds"
        from 2(4) True Cons obtain ls' where "split_lines [] ?r = (ls', cur', carriage)" by (auto split: prod.splits)
        from 2(2) [OF no_lf True Cons this] Cons show ?thesis by (auto split: if_splits)
      qed
    next
      case False
      with no_lf 2(3) [OF no_lf False] 2(4) show ?thesis by simp
    qed
  qed
qed

lemma sse_lines_append: "sse_lines (a @ b) s = bindE (sse_lines a s) (sse_lines b)"
proof (induction a arbitrary: s)
  case (Cons l ls)
  then show ?case by (cases "sse_line l s") simp_all
qed simp

lemma bindE_assoc: "bindE (bindE r f) g = bindE r (\<lambda>x. bindE (f x) g)"
  by (cases r) simp_all

definition fits :: "sse_reader \<Rightarrow> bool" where
  "fits r \<longleftrightarrow> r_chars r = length (concat (r_pending r))"

lemma chunks_are_lines:
  assumes "fits r" and "r_chars r + (if r_carriage r then 1 else 0) + length (concat cs) \<le> MAX_EVENT_CHARS"
  shows "bindE (sse_chunks cs r) (\<lambda>r. K (concat (r_pending r)) (r_carriage r) (r_state r)) =
    (let (ls, rest, carriage) = split_lines (concat (r_pending r)) ((if r_carriage r then [CR] else []) @ concat cs)
     in bindE (sse_lines ls (r_state r)) (K rest carriage))"
  using assms
proof (induction cs arbitrary: r)
  case Nil
  then show ?case by (cases "r_carriage r") simp_all
next
  case (Cons c cs)
  let ?text = "(if r_carriage r then [CR] else []) @ c"
  obtain ls p rest carriage where cut: "cut_lines (r_pending r) ?text = (ls, p, rest, carriage)" by (metis prod_cases4)
  note sp = cut_is_split [OF cut]
  then have split: "split_lines (concat (r_pending r)) ?text = (ls, concat p @ rest, carriage)" by blast
  let ?chars = "if ls = [] then r_chars r else 0"
  have chars: "?chars = length (concat p)" using sp Cons.prems(1) by (auto simp: fits_def)
  have len: "length (concat p @ rest) + (if carriage then 1 else 0) \<le> length (concat (r_pending r)) + length ?text"
    by (rule split_length [OF split])
  have room: "\<not> MAX_EVENT_CHARS < (if rest \<noteq> [] then ?chars + length rest else ?chars) + (if carriage then 1 else 0)"
    using len Cons.prems unfolding chars by (cases "r_carriage r") (auto simp: fits_def)
  define r' where "r' = (\<lambda>s. \<lparr>r_pending = (if rest \<noteq> [] then p @ [rest] else p),
      r_chars = (if rest \<noteq> [] then ?chars + length rest else ?chars), r_carriage = carriage, r_state = s\<rparr>)"
  have ch: "sse_chunk c r = bindE (sse_lines ls (r_state r)) (\<lambda>s. Inr (r' s))"
    using room by (simp add: sse_chunk_def cut Let_def r'_def)
  have r': "fits (r' s)" "concat (r_pending (r' s)) = concat p @ rest" "r_carriage (r' s) = carriage" "r_state (r' s) = s"
    "r_chars (r' s) = length (concat p @ rest)" for s
    using chars by (auto simp: r'_def fits_def)
  have small: "r_chars (r' s) + (if r_carriage (r' s) then 1 else 0) + length (concat cs) \<le> MAX_EVENT_CHARS" for s
    using len Cons.prems unfolding r' by (cases "r_carriage r") (auto simp: fits_def)
  let ?rest = "split_lines (concat p @ rest) ((if carriage then [CR] else []) @ concat cs)"
  have IH: "bindE (sse_chunks cs (r' s)) (\<lambda>r. K (concat (r_pending r)) (r_carriage r) (r_state r)) =
      (let (ls2, rest2, c2) = ?rest in bindE (sse_lines ls2 s) (K rest2 c2))" for s
    using Cons.IH [OF r'(1) small, of s] unfolding r' .
  have whole: "split_lines (concat (r_pending r)) ((if r_carriage r then [CR] else []) @ concat (c # cs)) =
      (let (ls2, r2) = ?rest in (ls @ ls2, r2))"
    using split_append [OF split, of "concat cs"] by simp
  obtain ls2 rest2 c2 where rest: "?rest = (ls2, rest2, c2)" by (metis prod_cases3)
  show ?case
    unfolding whole rest using IH unfolding rest
    by (simp add: ch bindE_assoc sse_lines_append)
qed

text \<open>C29: The events of a stream do not depend on how its body is cut into chunks: as long as the body is not larger
  than the limit, the incremental reader yields, or fails after, exactly the events that reading the whole text line by
  line gives, with LF, CRLF and CR ending lines even where a chunk ends between a CR and its LF.\<close>

theorem sse_ignores_chunks:
  assumes "length (concat chunks) \<le> MAX_EVENT_CHARS"
  shows "parseSse chunks tail = body_events (concat chunks) tail"
proof -
  have "fits new_reader" by (simp add: fits_def new_reader_def)
  from chunks_are_lines [OF this, of chunks "finish_body tail"] assms show ?thesis
    by (simp add: parseSse_def body_events_def new_reader_def finish_body_def Let_def)
qed

lemma sse_ignores_chunks_witness:
  "parseSse [''event: a'' @ [CR], [LF] @ ''data: 1'' @ [CR, CR], ''data:2''] [] = Inr [(''a'', ''1''), (''message'', ''2'')]"
proof -
  have l: "length (concat [''event: a'' @ [CR], [LF] @ ''data: 1'' @ [CR, CR], ''data:2'']) \<le> MAX_EVENT_CHARS"
    by (simp add: MAX_EVENT_CHARS_def)
  have "body_events (concat [''event: a'' @ [CR], [LF] @ ''data: 1'' @ [CR, CR], ''data:2'']) [] =
      Inr [(''a'', ''1''), (''message'', ''2'')]"
    by (simp add: body_events_def finish_body_def no_event_def sse_line_def sse_flush_def drop_cr_def LF_def CR_def
        MAX_EVENT_CHARS_def Let_def)
  with sse_ignores_chunks [OF l] show ?thesis by simp
qed

end
