(* ===== verification/Shell.thy ===== *)
theory Shell
  imports Prelude
begin

text \<open>
  Shell command lines as the permission checks read them: \<open>splitCommand\<close> of
  \<open>packages/engine-native/src/smart-permissions.ts\<close> (simple commands and their words) and
  \<open>packages/engine-native/src/shell-script.ts\<close> (the shell source hidden in a command). The index into the command
  is the part of it that is still to be read; the character before it is kept where the code looks back.
\<close>

section \<open>Characters\<close>

definition SQUOTE :: char where "SQUOTE = CHR 0x27"
definition DQUOTE :: char where "DQUOTE = CHR 0x22"
definition BACKSLASH :: char where "BACKSLASH = CHR 0x5C"
definition BACKTICK :: char where "BACKTICK = CHR 0x60"
definition NEWLINE :: char where "NEWLINE = CHR 0x0A"
definition TAB :: char where "TAB = CHR 0x09"

definition starts :: "char \<Rightarrow> string \<Rightarrow> bool" where
  "starts c s \<longleftrightarrow> s \<noteq> [] \<and> hd s = c"

definition digit :: "char \<Rightarrow> bool" where
  "digit c \<longleftrightarrow> 48 \<le> (of_char c :: nat) \<and> (of_char c :: nat) \<le> 57"

definition letter :: "char \<Rightarrow> bool" where
  "letter c \<longleftrightarrow> (65 \<le> (of_char c :: nat) \<and> (of_char c :: nat) \<le> 90) \<or> (97 \<le> (of_char c :: nat) \<and> (of_char c :: nat) \<le> 122)"

section \<open>Splitting a command line\<close>

text \<open>A word with whether it is the target of a redirection.\<close>

type_synonym word_tok = "string \<times> bool"

record segment =
  sg_words :: "word_tok list"
  sg_expansion :: bool

record splitter =
  sp_segments :: "segment list"
  sp_words :: "word_tok list"
  sp_expansion :: bool
  sp_current :: "string option"
  sp_quote :: "char option"
  sp_redirect :: bool

definition endWord :: "splitter \<Rightarrow> splitter" where
  "endWord s = (case sp_current s of None \<Rightarrow> s
     | Some w \<Rightarrow> s\<lparr>sp_words := sp_words s @ [(w, sp_redirect s)], sp_redirect := False, sp_current := None\<rparr>)"

definition endSegment :: "splitter \<Rightarrow> splitter" where
  "endSegment s0 =
     (let s = endWord s0 in
      s\<lparr>sp_segments := (if sp_words s \<noteq> [] \<or> sp_expansion s
                        then sp_segments s @ [\<lparr>sg_words = sp_words s, sg_expansion = sp_expansion s\<rparr>] else sp_segments s),
        sp_words := [], sp_expansion := False, sp_redirect := False\<rparr>)"

text \<open>\<open>current = (current ?? "") + char\<close>\<close>

definition add_char :: "char \<Rightarrow> splitter \<Rightarrow> splitter" where
  "add_char c s = s\<lparr>sp_current := Some (orelse (sp_current s) [] @ [c])\<rparr>"

definition see_expansion :: "bool \<Rightarrow> splitter \<Rightarrow> splitter" where
  "see_expansion b s = (if b then s\<lparr>sp_expansion := True\<rparr> else s)"

definition all_digits :: "string option \<Rightarrow> bool" where
  "all_digits w = (case w of None \<Rightarrow> False | Some s \<Rightarrow> s \<noteq> [] \<and> list_all digit s)"

definition fd_part :: "char \<Rightarrow> bool" where
  "fd_part c \<longleftrightarrow> digit c \<or> c = CHR ''-''"

text \<open>One turn of the loop on a character: the character before the next one, what is left to read, the state.\<close>

definition split_step :: "char option \<Rightarrow> char \<Rightarrow> string \<Rightarrow> splitter \<Rightarrow> char option \<times> string \<times> splitter" where
  "split_step p c cs s =
     (if sp_quote s = Some SQUOTE then (Some c, cs, if c = SQUOTE then s\<lparr>sp_quote := None\<rparr> else add_char c s)
      else if c = BACKSLASH \<and> cs \<noteq> [] then (Some (hd cs), tl cs, add_char (hd cs) s)
      else if sp_quote s = Some DQUOTE then
        (Some c, cs,
          if c = DQUOTE then s\<lparr>sp_quote := None\<rparr>
          else add_char c (see_expansion (c = CHR ''$'' \<and> \<not> starts (CHR ''?'') cs \<or> c = BACKTICK) s))
      else if c = SQUOTE \<or> c = DQUOTE then
        (Some c, cs, s\<lparr>sp_quote := Some c, sp_current := Some (orelse (sp_current s) [])\<rparr>)
      else if c = CHR ''$'' \<or> c = BACKTICK then
        (Some c, cs, add_char c (see_expansion (c = BACKTICK \<or> \<not> starts (CHR ''?'') cs) s))
      else if c = CHR '' '' \<or> c = TAB then (Some c, cs, endWord s)
      else if c = NEWLINE \<or> c = CHR '';'' then (Some c, cs, endSegment s)
      else if c = CHR ''&'' \<or> c = CHR ''|'' then
        (if c = CHR ''&'' \<and> (p = Some (CHR ''>'') \<or> starts (CHR ''>'') cs) then (Some c, cs, s)
         else (Some c, if starts c cs then tl cs else cs, endSegment s))
      else if c = CHR ''>'' \<or> c = CHR ''<'' then
        (let s1 = (if all_digits (sp_current s) then s\<lparr>sp_current := None\<rparr> else endWord s);
             rest = dropWhile (\<lambda>x. x = c) cs;
             s2 = see_expansion (starts (CHR ''('') rest) s1
         in if starts (CHR ''&'') rest
            then (Some (last (CHR ''&'' # takeWhile fd_part (tl rest))), dropWhile fd_part (tl rest), s2)
            else (Some c, rest, s2\<lparr>sp_redirect := True\<rparr>))
      else (Some c, cs, add_char c s))"

lemma split_step_shorter: "length (fst (snd (split_step p c cs s))) \<le> length cs"
proof -
  have d: "length (dropWhile f xs) \<le> length xs" for f and xs :: string by (rule length_dropWhile_le)
  have d2: "length (dropWhile f (tl (dropWhile g xs))) \<le> length xs" for f g and xs :: string
    by (metis d diff_le_self le_trans length_tl)
  show ?thesis by (simp add: split_step_def Let_def d d2)
qed

function split_loop :: "char option \<Rightarrow> string \<Rightarrow> splitter \<Rightarrow> splitter" where
  "split_loop p [] s = endSegment s"
| "split_loop p (c # cs) s = (case split_step p c cs s of (p', rest, s') \<Rightarrow> split_loop p' rest s')"
  by pat_completeness auto
termination
proof (relation "measure (\<lambda>(p, cs, s). length cs)", goal_cases)
  case (2 p c cs s x y rest s')
  then show ?case using split_step_shorter [of p c cs s] by (metis case_prod_conv fst_conv in_measure le_imp_less_Suc length_Cons snd_conv)
qed simp

definition splitCommand :: "string \<Rightarrow> segment list" where
  "splitCommand command = sp_segments (split_loop None command
     \<lparr>sp_segments = [], sp_words = [], sp_expansion = False, sp_current = None, sp_quote = None, sp_redirect = False\<rparr>)"

text \<open>The words of a segment, joined by spaces: the pattern that rules are matched against.\<close>

definition segment_text :: "segment \<Rightarrow> string" where
  "segment_text g = js_join '' '' (map fst (sg_words g))"

section \<open>The source hidden in a command\<close>

definition MAX_SHELL_DEPTH :: nat where "MAX_SHELL_DEPTH = 8"

definition SHELLS :: "string list" where
  "SHELLS = [''sh'', ''bash'', ''zsh'', ''dash'', ''ksh'', ''ash'', ''fish'']"

definition SAFE_LONG_SHELL_FLAGS :: "string list" where
  "SAFE_LONG_SHELL_FLAGS = [''--login'', ''--noprofile'', ''--norc'', ''--posix'', ''--restricted'', ''--noediting'']"

definition starts_with :: "string \<Rightarrow> string \<Rightarrow> bool" where
  "starts_with p s \<longleftrightarrow> take (length p) s = p"

text \<open>\<open>word.slice(word.lastIndexOf("/") + 1)\<close>\<close>

definition programName :: "string \<Rightarrow> string" where
  "programName w = rev (takeWhile (\<lambda>c. c \<noteq> CHR ''/'') (rev w))"

text \<open>\<open>/^-[A-Za-z]+$/\<close> and \<open>/^\+[A-Za-z]+$/\<close>\<close>

definition letter_flag :: "char \<Rightarrow> string \<Rightarrow> bool" where
  "letter_flag c w \<longleftrightarrow> starts c w \<and> tl w \<noteq> [] \<and> list_all letter (tl w)"

fun shell_script_arg :: "string list \<Rightarrow> string option" where
  "shell_script_arg [] = None"
| "shell_script_arg [w] = None"
| "shell_script_arg (w # x # ws) =
     (if letter_flag (CHR ''-'') w then
        (if CHR ''c'' \<in> set w then Some x
         else if last w = CHR ''o'' \<or> last w = CHR ''O'' then shell_script_arg ws
         else shell_script_arg (x # ws))
      else if letter_flag (CHR ''+'') w \<or> w \<in> set SAFE_LONG_SHELL_FLAGS then shell_script_arg (x # ws)
      else None)"

definition wrappedScript :: "string list \<Rightarrow> string option" where
  "wrappedScript words =
     (case words of
        [] \<Rightarrow> None
      | w # args \<Rightarrow>
          let name = programName w in
          if name = ''eval'' then (if args \<noteq> [] then Some (js_join '' '' args) else None)
          else if name = ''trap'' then
            (case (if args \<noteq> [] \<and> hd args = ''--'' then tl args else args) of
               [] \<Rightarrow> None
             | action # _ \<Rightarrow> if action \<noteq> [] \<and> \<not> starts (CHR ''-'') action then Some action else None)
          else if name \<notin> set SHELLS then None
          else shell_script_arg args)"

text \<open>How much of the text \<open>closeParen\<close> takes, up to and with the closing parenthesis, all of it when it never closes.\<close>

fun closeParen :: "nat \<Rightarrow> char option \<Rightarrow> string \<Rightarrow> nat" where
  "closeParen d q [] = 0"
| "closeParen d q [c] = 1"
| "closeParen d q (c # x # cs) =
     (if c = BACKSLASH \<and> q \<noteq> Some SQUOTE then Suc (Suc (closeParen d q cs))
      else if q \<noteq> None then Suc (closeParen d (if q = Some c then None else q) (x # cs))
      else if c = SQUOTE \<or> c = DQUOTE then Suc (closeParen d (Some c) (x # cs))
      else if c = CHR ''('' then Suc (closeParen (Suc d) q (x # cs))
      else if c = CHR '')'' then (if d = 1 then 1 else Suc (closeParen (d - 1) q (x # cs)))
      else Suc (closeParen d q (x # cs)))"

lemma closeParen_le: "closeParen d q cs \<le> length cs"
proof (induction d q cs rule: closeParen.induct)
  case (3 d q c x cs)
  then show ?case by simp
qed simp_all

definition without_close :: "string \<Rightarrow> string" where
  "without_close s = (if s \<noteq> [] \<and> last s = CHR '')'' then butlast s else s)"

text \<open>The length of a backtick substitution, up to the closing backtick.\<close>

fun backtick_end :: "string \<Rightarrow> nat" where
  "backtick_end [] = 0"
| "backtick_end [c] = (if c = BACKTICK then 0 else if c = BACKSLASH then 2 else 1)"
| "backtick_end (c # x # cs) =
     (if c = BACKTICK then 0 else if c = BACKSLASH then 2 + backtick_end cs else Suc (backtick_end (x # cs)))"

function substitutions :: "char option \<Rightarrow> string \<Rightarrow> string list" where
  "substitutions q [] = []"
| "substitutions q (c # cs) =
     (if c = BACKSLASH \<and> q \<noteq> Some SQUOTE then substitutions q (drop 1 cs)
      else if q = Some SQUOTE then substitutions (if c = SQUOTE then None else q) cs
      else if c = DQUOTE then substitutions (if q = Some DQUOTE then None else Some DQUOTE) cs
      else if c = SQUOTE \<and> q = None then substitutions (Some SQUOTE) cs
      else if (c = CHR ''$'' \<and> starts (CHR ''('') cs \<and> \<not> starts (CHR ''('') (tl cs)) \<or>
              ((c = CHR ''<'' \<or> c = CHR ''>'') \<and> starts (CHR ''('') cs \<and> q = None) then
        (let n = closeParen 1 None (tl cs) in without_close (take n (tl cs)) # substitutions q (drop n (tl cs)))
      else if c = BACKTICK then
        (let n = backtick_end cs in take n cs # substitutions q (drop (Suc n) cs))
      else substitutions q cs)"
  by pat_completeness auto
termination
  by (relation "measure (\<lambda>(q, cs). length cs)") auto

definition commandSubstitutions :: "string \<Rightarrow> string list" where
  "commandSubstitutions command = substitutions None command"

section \<open>Wrappers\<close>

definition ENV_FLAGS_WITH_VALUE :: "string list" where "ENV_FLAGS_WITH_VALUE = [''-u'', ''--unset'']"
definition TIMEOUT_FLAGS_WITH_VALUE :: "string list" where
  "TIMEOUT_FLAGS_WITH_VALUE = [''-k'', ''--kill-after'', ''-s'', ''--signal'']"

text \<open>\<open>/^\d+(?:\.\d+)?[smhd]?$/\<close>\<close>

definition DURATION :: "string \<Rightarrow> bool" where
  "DURATION w =
     (let r = dropWhile digit w;
          r' = (if starts (CHR ''.'') r \<and> tl r \<noteq> [] \<and> digit (hd (tl r)) then dropWhile digit (tl r) else r)
      in w \<noteq> [] \<and> digit (hd w) \<and> r' \<in> {[], ''s'', ''m'', ''h'', ''d''})"

definition ident_char :: "char \<Rightarrow> bool" where
  "ident_char c \<longleftrightarrow> letter c \<or> digit c \<or> c = CHR ''_''"

text \<open>\<open>/^[A-Za-z_][A-Za-z0-9_]*=/\<close>\<close>

definition assignment :: "string \<Rightarrow> bool" where
  "assignment w \<longleftrightarrow> w \<noteq> [] \<and> (letter (hd w) \<or> hd w = CHR ''_'') \<and> starts (CHR ''='') (dropWhile ident_char w)"

definition env_plain_flag :: "string \<Rightarrow> bool" where
  "env_plain_flag w \<longleftrightarrow> w \<in> {''-i'', ''--ignore-environment'', ''-'', ''--''}"

fun env_flags :: "string list \<Rightarrow> string list" where
  "env_flags [] = []"
| "env_flags (w # ws) =
     (if env_plain_flag w then env_flags ws
      else if w \<in> set ENV_FLAGS_WITH_VALUE then (case ws of [] \<Rightarrow> [] | _ # r \<Rightarrow> env_flags r)
      else if starts_with ''--unset='' w then env_flags ws
      else w # ws)"

text \<open>\<open>/^(?:-\d+|--adjustment=.+)$/\<close>\<close>

definition nice_flag :: "string \<Rightarrow> bool" where
  "nice_flag w \<longleftrightarrow> (starts (CHR ''-'') w \<and> tl w \<noteq> [] \<and> list_all digit (tl w)) \<or>
     (starts_with ''--adjustment='' w \<and> length w > length ''--adjustment='' \<and>
      list_all (\<lambda>c. c \<noteq> NEWLINE \<and> c \<noteq> CHR 0x0D) (drop (length ''--adjustment='') w))"

definition nice_flags :: "string list \<Rightarrow> string list" where
  "nice_flags ws = (case ws of [] \<Rightarrow> []
     | w # r \<Rightarrow> if w = ''-n'' \<or> w = ''--adjustment'' then drop 1 r else if nice_flag w then r else w # r)"

fun timeout_flags :: "string list \<Rightarrow> string list" where
  "timeout_flags [] = []"
| "timeout_flags (w # ws) =
     (if w \<in> set TIMEOUT_FLAGS_WITH_VALUE then (case ws of [] \<Rightarrow> [] | _ # r \<Rightarrow> timeout_flags r)
      else if starts (CHR ''-'') w \<and> w \<noteq> ''-'' then timeout_flags ws
      else w # ws)"

definition after_timeout :: "string list \<Rightarrow> string list" where
  "after_timeout ws = (let r = timeout_flags ws in if r \<noteq> [] \<and> DURATION (hd r) then tl r else r)"

definition plain_wrapper :: "string \<Rightarrow> bool" where
  "plain_wrapper w \<longleftrightarrow> assignment w \<or> w \<in> {''time'', ''command'', ''nohup'', ''exec''}"

lemma env_flags_le: "length (env_flags ws) \<le> length ws"
proof (induction ws rule: env_flags.induct)
  case (2 w ws)
  have Cons: "length (env_flags x22) \<le> length ws" if "ws = x21 # x22" "length (env_flags x22) \<le> length x22" for x21 x22
    using that by simp
  show ?case unfolding env_flags.simps(2) [of w ws] using 2 Cons by (cases "env_plain_flag w") (auto simp del: env_flags.simps(2) split: list.split intro: le_SucI)
qed simp

lemma timeout_flags_le: "length (timeout_flags ws) \<le> length ws"
proof (induction ws rule: timeout_flags.induct)
  case (2 w ws)
  have Cons: "length (timeout_flags x22) \<le> length ws" if "ws = x21 # x22" "length (timeout_flags x22) \<le> length x22" for x21 x22
    using that by simp
  show ?case unfolding timeout_flags.simps(2) [of w ws] using 2 Cons by (auto simp del: timeout_flags.simps(2) split: list.split intro: le_SucI)
qed simp

lemma after_timeout_le: "length (after_timeout ws) \<le> length ws"
  using timeout_flags_le [of ws] by (auto simp: after_timeout_def Let_def)

lemma nice_flags_le: "length (nice_flags ws) \<le> length ws"
  by (auto simp: nice_flags_def split: list.splits)

function withoutTransparentWrappers :: "string list \<Rightarrow> string list" where
  "withoutTransparentWrappers [] = []"
| "withoutTransparentWrappers (w # ws) =
     (if plain_wrapper w then withoutTransparentWrappers ws
      else if w = ''env'' then withoutTransparentWrappers (env_flags ws)
      else if w = ''nice'' then withoutTransparentWrappers (nice_flags ws)
      else if w = ''timeout'' then withoutTransparentWrappers (after_timeout ws)
      else w # ws)"
  by pat_completeness auto
termination
  by (relation "measure length") (auto simp: le_imp_less_Suc env_flags_le nice_flags_le after_timeout_le)

definition XARGS_FLAGS_WITH_VALUE :: "string list" where
  "XARGS_FLAGS_WITH_VALUE = [''-n'', ''-P'', ''-I'', ''-L'', ''-d'', ''-E'', ''-s'', ''-a'', ''--max-args'', ''--max-procs'',
     ''--delimiter'', ''--arg-file'', ''--max-lines'', ''--max-chars'']"

fun xargs_rest :: "string list \<Rightarrow> string list" where
  "xargs_rest [] = []"
| "xargs_rest (w # ws) =
     (if w = ''--'' then ws
      else if starts (CHR ''-'') w then
        (if w \<in> set XARGS_FLAGS_WITH_VALUE then (case ws of [] \<Rightarrow> [] | _ # r \<Rightarrow> xargs_rest r) else xargs_rest ws)
      else w # ws)"

definition xargsCommand :: "string list \<Rightarrow> string list" where
  "xargsCommand words = xargs_rest (tl words)"

section \<open>Quoted words come back as they were\<close>

text \<open>A word in single quotes, each quote of its own written as \<open>'\''\<close>.\<close>

definition quoted_chars :: "string \<Rightarrow> string" where
  "quoted_chars w = concat (map (\<lambda>c. if c = SQUOTE then [SQUOTE, BACKSLASH, SQUOTE, SQUOTE] else [c]) w)"

definition shell_quote :: "string \<Rightarrow> string" where
  "shell_quote w = [SQUOTE] @ quoted_chars w @ [SQUOTE]"

lemma chars_differ [simp]:
  "SQUOTE \<noteq> BACKSLASH" "BACKSLASH \<noteq> SQUOTE" "SQUOTE \<noteq> DQUOTE" "DQUOTE \<noteq> SQUOTE" "BACKSLASH \<noteq> DQUOTE" "DQUOTE \<noteq> BACKSLASH"
  "SQUOTE \<noteq> BACKTICK" "BACKTICK \<noteq> SQUOTE" "DQUOTE \<noteq> BACKTICK" "BACKTICK \<noteq> DQUOTE" "BACKSLASH \<noteq> BACKTICK" "BACKTICK \<noteq> BACKSLASH"
  "TAB \<noteq> NEWLINE" "NEWLINE \<noteq> TAB"
  by (simp_all add: SQUOTE_def BACKSLASH_def DQUOTE_def BACKTICK_def TAB_def NEWLINE_def)

lemma quoted_chars_Cons:
  "quoted_chars (c # w) = (if c = SQUOTE then [SQUOTE, BACKSLASH, SQUOTE, SQUOTE] else [c]) @ quoted_chars w"
  by (simp add: quoted_chars_def)

lemma split_in_quotes:
  "sp_quote s = Some SQUOTE \<Longrightarrow> sp_current s = Some cur \<Longrightarrow>
     split_loop p (quoted_chars w @ SQUOTE # rest) s =
       split_loop (Some SQUOTE) rest (s\<lparr>sp_current := Some (cur @ w), sp_quote := None\<rparr>)"
proof (induction w arbitrary: p s cur)
  case Nil
  then show ?case by (cases s) (simp add: quoted_chars_def split_step_def)
next
  case (Cons c w)
  show ?case
  proof (cases "c = SQUOTE")
    case False
    have "split_step p c (quoted_chars w @ SQUOTE # rest) s = (Some c, quoted_chars w @ SQUOTE # rest, add_char c s)"
      using Cons.prems False by (simp add: split_step_def)
    moreover have "sp_quote (add_char c s) = Some SQUOTE" "sp_current (add_char c s) = Some (cur @ [c])"
      using Cons.prems by (simp_all add: add_char_def)
    ultimately show ?thesis
      using Cons.IH [of "add_char c s" "cur @ [c]" "Some c"] False by (simp add: quoted_chars_Cons add_char_def)
  next
    case True
    let ?r = "quoted_chars w @ SQUOTE # rest"
    let ?s1 = "s\<lparr>sp_quote := None\<rparr>"
    let ?s2 = "add_char SQUOTE ?s1"
    let ?s3 = "?s2\<lparr>sp_quote := Some SQUOTE, sp_current := Some (orelse (sp_current ?s2) [])\<rparr>"
    have 1: "split_step p SQUOTE (BACKSLASH # SQUOTE # SQUOTE # ?r) s = (Some SQUOTE, BACKSLASH # SQUOTE # SQUOTE # ?r, ?s1)"
      using Cons.prems by (simp add: split_step_def)
    have 2: "split_step (Some SQUOTE) BACKSLASH (SQUOTE # SQUOTE # ?r) ?s1 = (Some SQUOTE, SQUOTE # ?r, ?s2)"
      by (simp add: split_step_def)
    have 3: "split_step (Some SQUOTE) SQUOTE ?r ?s2 = (Some SQUOTE, ?r, ?s3)"
      by (simp add: split_step_def add_char_def)
    have s3: "sp_quote ?s3 = Some SQUOTE" "sp_current ?s3 = Some (cur @ [SQUOTE])"
      using Cons.prems by (simp_all add: add_char_def)
    have "split_loop p (quoted_chars (c # w) @ SQUOTE # rest) s = split_loop (Some SQUOTE) ?r ?s3"
      unfolding True quoted_chars_Cons by (simp add: 1 2 3)
    also have "\<dots> = split_loop (Some SQUOTE) rest (?s3\<lparr>sp_current := Some ((cur @ [SQUOTE]) @ w), sp_quote := None\<rparr>)"
      by (rule Cons.IH [OF s3])
    also have "?s3\<lparr>sp_current := Some ((cur @ [SQUOTE]) @ w), sp_quote := None\<rparr> = s\<lparr>sp_current := Some (cur @ c # w), sp_quote := None\<rparr>"
      unfolding True by (simp add: add_char_def)
    finally show ?thesis .
  qed
qed

lemma split_quoted:
  assumes "sp_quote s = None" and "sp_current s = None"
  shows "split_loop p (shell_quote w @ rest) s = split_loop (Some SQUOTE) rest (s\<lparr>sp_current := Some w\<rparr>)"
proof -
  let ?s = "s\<lparr>sp_quote := Some SQUOTE, sp_current := Some []\<rparr>"
  have "split_step p SQUOTE (quoted_chars w @ SQUOTE # rest) s = (Some SQUOTE, quoted_chars w @ SQUOTE # rest, ?s)"
    using assms by (simp add: split_step_def)
  then have "split_loop p (shell_quote w @ rest) s = split_loop (Some SQUOTE) (quoted_chars w @ SQUOTE # rest) ?s"
    by (simp add: shell_quote_def)
  also have "\<dots> = split_loop (Some SQUOTE) rest (?s\<lparr>sp_current := Some ([] @ w), sp_quote := None\<rparr>)"
    by (rule split_in_quotes) simp_all
  also have "?s\<lparr>sp_current := Some ([] @ w), sp_quote := None\<rparr> = s\<lparr>sp_current := Some w\<rparr>"
    using assms by simp
  finally show ?thesis .
qed

lemma split_quoted_words:
  "sp_quote s = None \<Longrightarrow> sp_current s = None \<Longrightarrow> \<not> sp_redirect s \<Longrightarrow> \<not> sp_expansion s \<Longrightarrow> sp_segments s = [] \<Longrightarrow> ws \<noteq> [] \<Longrightarrow>
     sp_segments (split_loop p (js_join '' '' (map shell_quote ws)) s) =
       [\<lparr>sg_words = sp_words s @ map (\<lambda>w. (w, False)) ws, sg_expansion = False\<rparr>]"
proof (induction ws arbitrary: p s)
  case Nil
  then show ?case by simp
next
  case (Cons w ws)
  show ?case
  proof (cases ws)
    case Nil
    have "split_loop p (shell_quote w @ []) s = endSegment (s\<lparr>sp_current := Some w\<rparr>)"
      unfolding split_quoted [OF Cons.prems(1,2)] by simp
    with Nil Cons.prems show ?thesis by (simp add: endSegment_def endWord_def)
  next
    case (Cons w2 ws2)
    let ?rest = "js_join '' '' (map shell_quote ws)"
    let ?s = "s\<lparr>sp_words := sp_words s @ [(w, False)], sp_current := None\<rparr>"
    have j: "js_join '' '' (map shell_quote (w # ws)) = shell_quote w @ CHR '' '' # ?rest"
      using Cons by simp
    have sp: "split_step (Some SQUOTE) (CHR '' '') ?rest (s\<lparr>sp_current := Some w\<rparr>) = (Some (CHR '' ''), ?rest, ?s)"
      using Cons.prems by (simp add: split_step_def SQUOTE_def BACKSLASH_def DQUOTE_def BACKTICK_def endWord_def)
    have "split_loop p (js_join '' '' (map shell_quote (w # ws))) s = split_loop (Some (CHR '' '')) ?rest ?s"
      unfolding j split_quoted [OF Cons.prems(1,2)] by (simp add: sp)
    moreover have "sp_segments (split_loop (Some (CHR '' '')) ?rest ?s) =
        [\<lparr>sg_words = sp_words ?s @ map (\<lambda>w. (w, False)) ws, sg_expansion = False\<rparr>]"
      by (rule Cons.IH) (use Cons.prems Cons in simp_all)
    ultimately show ?thesis by simp
  qed
qed

text \<open>Splitting a command line undoes shell quoting: words written in single quotes come back as one simple command
  of exactly these words, whatever characters they hold, none of them read as an operator, a redirection or an expansion.\<close>

theorem quoted_words_come_back:
  assumes "ws \<noteq> []"
  shows "splitCommand (js_join '' '' (map shell_quote ws)) = [\<lparr>sg_words = map (\<lambda>w. (w, False)) ws, sg_expansion = False\<rparr>]"
  using split_quoted_words [of "\<lparr>sp_segments = [], sp_words = [], sp_expansion = False, sp_current = None, sp_quote = None, sp_redirect = False\<rparr>" ws None] assms
  by (simp add: splitCommand_def)

lemma quoted_words_come_back_witness:
  "splitCommand (js_join '' '' (map shell_quote [''rm'', ''a; $(b)''])) = [\<lparr>sg_words = [(''rm'', False), (''a; $(b)'', False)], sg_expansion = False\<rparr>]"
  using quoted_words_come_back [of "[''rm'', ''a; $(b)'']"] by simp

section \<open>Hidden commands are flagged\<close>

definition flagged :: "splitter \<Rightarrow> bool" where
  "flagged s \<longleftrightarrow> sp_expansion s \<or> list_ex sg_expansion (sp_segments s)"

lemma flagged_simps [simp]:
  "flagged (endWord s) = flagged s" "flagged (add_char c s) = flagged s" "flagged (s\<lparr>sp_quote := q\<rparr>) = flagged s"
  "flagged (s\<lparr>sp_current := w\<rparr>) = flagged s" "flagged (s\<lparr>sp_redirect := b\<rparr>) = flagged s"
  "flagged (see_expansion b s) = (b \<or> flagged s)"
  by (auto simp: flagged_def endWord_def add_char_def see_expansion_def split: option.splits)

lemma flagged_endSegment [simp]: "flagged (endSegment s) = flagged s"
  by (auto simp: endSegment_def Let_def flagged_def endWord_def split: option.splits)

lemma flagged_step: "flagged s \<Longrightarrow> flagged (snd (snd (split_step p c cs s)))"
  by (simp add: split_step_def Let_def)

lemma segments_flagged: "list_ex sg_expansion (sp_segments (endSegment s)) = flagged s"
  by (auto simp: endSegment_def Let_def flagged_def endWord_def split: option.splits)

lemma flagged_loop: "flagged s \<Longrightarrow> list_ex sg_expansion (sp_segments (split_loop p cs s))"
proof (induction p cs s rule: split_loop.induct)
  case (1 p s)
  then show ?case by (simp add: segments_flagged)
next
  case (2 p c cs s)
  obtain p' rest s' where st: "split_step p c cs s = (p', rest, s')" by (metis prod_cases3)
  with flagged_step [OF 2(2), of p c cs] have "flagged s'" by simp
  with 2(1) [OF st [symmetric] refl] st show ?case by simp
qed

text \<open>What the scan for substitutions does on the characters it passes over.\<close>

lemma substitutions_plain:
  assumes "c \<noteq> BACKSLASH" and "c \<noteq> SQUOTE" and "c \<noteq> DQUOTE" and "c \<noteq> BACKTICK" and "c \<noteq> CHR ''$''"
    and "c \<noteq> CHR ''<'' \<and> c \<noteq> CHR ''>'' \<or> \<not> starts (CHR ''('') cs"
  shows "substitutions None (c # cs) = substitutions None cs"
  using assms by auto

lemma specials: "BACKSLASH = CHR 0x5C" "SQUOTE = CHR 0x27" "DQUOTE = CHR 0x22" "BACKTICK = CHR 0x60"
  by (simp_all add: BACKSLASH_def SQUOTE_def DQUOTE_def BACKTICK_def)

lemma substitutions_fd: "substitutions None cs \<noteq> [] \<Longrightarrow> substitutions None (dropWhile fd_part cs) \<noteq> []"
proof (induction cs)
  case (Cons c cs)
  show ?case
  proof (cases "fd_part c")
    case True
    then have c: "c = CHR ''-'' \<or> digit c" by (auto simp: fd_part_def)
    have n: "c \<noteq> d" if "d \<in> {CHR 0x5C, CHR 0x27, CHR 0x22, CHR 0x60, CHR ''$'', CHR ''<'', CHR ''>''}" for d
      using c that by (auto simp: digit_def)
    have "substitutions None (c # cs) = substitutions None cs"
      by (rule substitutions_plain) (use n in \<open>auto simp: specials\<close>)
    with Cons True show ?thesis by simp
  next
    case False
    with Cons.prems show ?thesis by simp
  qed
qed simp

lemma substitutions_run:
  assumes "c = CHR ''<'' \<or> c = CHR ''>''"
  shows "substitutions None cs \<noteq> [] \<Longrightarrow> starts (CHR ''('') (dropWhile (\<lambda>x. x = c) cs) \<or> substitutions None (dropWhile (\<lambda>x. x = c) cs) \<noteq> []"
proof (induction cs)
  case (Cons x cs)
  show ?case
  proof (cases "x = c")
    case True
    show ?thesis
    proof (cases "starts (CHR ''('') cs")
      case s: True
      then have "dropWhile (\<lambda>x. x = c) cs = cs" using assms by (cases cs) (auto simp: starts_def)
      with s True show ?thesis by simp
    next
      case False
      have "substitutions None (x # cs) = substitutions None cs"
        by (rule substitutions_plain) (use False True assms in \<open>auto simp: specials\<close>)
      with Cons True show ?thesis by simp
    qed
  next
    case False
    with Cons.prems show ?thesis by simp
  qed
qed simp

definition quote_ok :: "char option \<Rightarrow> bool" where
  "quote_ok q \<longleftrightarrow> q = None \<or> q = Some SQUOTE \<or> q = Some DQUOTE"

text \<open>One step of the splitter keeps up with the scan: it flags, or there is still a substitution ahead.\<close>

definition ahead :: "char option \<times> string \<times> splitter \<Rightarrow> bool" where
  "ahead r \<longleftrightarrow> flagged (snd (snd r)) \<or>
     (substitutions (sp_quote (snd (snd r))) (fst (snd r)) \<noteq> [] \<and> quote_ok (sp_quote (snd (snd r))))"

lemma quote_kept [simp]:
  "sp_quote (endWord s) = sp_quote s" "sp_quote (endSegment s) = sp_quote s" "sp_quote (add_char c s) = sp_quote s"
  "sp_quote (see_expansion b s) = sp_quote s"
  by (simp_all add: endWord_def endSegment_def Let_def add_char_def see_expansion_def split: option.splits)

lemma step_quoted:
  assumes "sp_quote s = Some SQUOTE" and "substitutions (Some SQUOTE) (c # cs) \<noteq> []"
  shows "ahead (split_step p c cs s)"
  using assms by (cases "c = SQUOTE") (simp_all add: split_step_def ahead_def quote_ok_def)

lemma step_escape:
  assumes "sp_quote s \<noteq> Some SQUOTE" and "quote_ok (sp_quote s)" and "c = BACKSLASH" and "substitutions (sp_quote s) (c # cs) \<noteq> []"
  shows "ahead (split_step p c cs s)"
  using assms by (cases cs) (simp_all add: split_step_def ahead_def)

lemma step_double:
  assumes "sp_quote s = Some DQUOTE" and "c \<noteq> BACKSLASH" and "substitutions (Some DQUOTE) (c # cs) \<noteq> []"
  shows "ahead (split_step p c cs s)"
proof (cases "c = DQUOTE")
  case True
  with assms show ?thesis by (simp add: split_step_def ahead_def quote_ok_def)
next
  case False
  show ?thesis
  proof (cases "c = BACKTICK \<or> c = CHR ''$'' \<and> starts (CHR ''('') cs")
    case True
    then have "c = CHR ''$'' \<and> \<not> starts (CHR ''?'') cs \<or> c = BACKTICK" by (auto simp: starts_def)
    with assms False show ?thesis by (simp add: split_step_def ahead_def)
  next
    case no: False
    then have "substitutions (Some DQUOTE) (c # cs) = substitutions (Some DQUOTE) cs" using assms False by auto
    with assms False show ?thesis by (simp add: split_step_def ahead_def quote_ok_def)
  qed
qed

lemma step_dollar:
  assumes "sp_quote s = None" and "c = CHR ''$'' \<or> c = BACKTICK" and "substitutions None (c # cs) \<noteq> []"
  shows "ahead (split_step p c cs s)"
proof (cases "c = BACKTICK \<or> starts (CHR ''('') cs")
  case True
  then have "c = BACKTICK \<or> \<not> starts (CHR ''?'') cs" by (auto simp: starts_def)
  with assms show ?thesis by (auto simp: split_step_def ahead_def specials)
next
  case False
  with assms have "substitutions None (c # cs) = substitutions None cs" by (auto simp: specials)
  with False assms show ?thesis by (auto simp: split_step_def ahead_def specials quote_ok_def)
qed

lemma redirect_char:
  "c = CHR ''<'' \<or> c = CHR ''>'' \<Longrightarrow> c \<noteq> BACKSLASH \<and> c \<noteq> SQUOTE \<and> c \<noteq> DQUOTE \<and> c \<noteq> BACKTICK \<and> c \<noteq> CHR ''$'' \<and>
     c \<noteq> CHR '' '' \<and> c \<noteq> TAB \<and> c \<noteq> NEWLINE \<and> c \<noteq> CHR '';'' \<and> c \<noteq> CHR ''&'' \<and> c \<noteq> CHR ''|''"
  by (auto simp: specials TAB_def NEWLINE_def)

lemma step_redirect:
  assumes "sp_quote s = None" and c: "c = CHR ''<'' \<or> c = CHR ''>''" and "substitutions None (c # cs) \<noteq> []"
  shows "ahead (split_step p c cs s)"
proof -
  let ?rest = "dropWhile (\<lambda>x. x = c) cs"
  let ?s1 = "if all_digits (sp_current s) then s\<lparr>sp_current := None\<rparr> else endWord s"
  let ?s2 = "see_expansion (starts (CHR ''('') ?rest) ?s1"
  have st: "split_step p c cs s = (if starts (CHR ''&'') ?rest
      then (Some (last (CHR ''&'' # takeWhile fd_part (tl ?rest))), dropWhile fd_part (tl ?rest), ?s2)
      else (Some c, ?rest, ?s2\<lparr>sp_redirect := True\<rparr>))"
    using redirect_char [OF c] c assms(1) by (simp add: split_step_def Let_def disj_commute)
  have q: "sp_quote ?s2 = None" using assms by simp
  have run: "starts (CHR ''('') ?rest \<or> substitutions None ?rest \<noteq> []"
  proof (cases "starts (CHR ''('') cs")
    case True
    then have "?rest = cs" using c by (cases cs) (auto simp: starts_def)
    with True show ?thesis by simp
  next
    case False
    have "substitutions None (c # cs) = substitutions None cs"
      by (rule substitutions_plain) (use c False in \<open>auto simp: specials\<close>)
    with substitutions_run [OF c, of cs] assms(3) show ?thesis by simp
  qed
  show ?thesis
  proof (cases "starts (CHR ''('') ?rest")
    case True
    then have "flagged ?s2" by simp
    with st show ?thesis by (simp add: ahead_def)
  next
    case False
    with run have r: "substitutions None ?rest \<noteq> []" by blast
    show ?thesis
    proof (cases "starts (CHR ''&'') ?rest")
      case True
      then obtain t where t: "?rest = CHR ''&'' # t" by (cases ?rest) (auto simp: starts_def)
      have "substitutions None (CHR ''&'' # t) = substitutions None t"
        by (rule substitutions_plain) (auto simp: specials)
      with r t have "substitutions None (dropWhile fd_part t) \<noteq> []" using substitutions_fd by simp
      with st True t q show ?thesis by (simp add: ahead_def quote_ok_def)
    next
      case no: False
      with st r q show ?thesis by (simp add: ahead_def quote_ok_def)
    qed
  qed
qed

lemma step_plain:
  assumes "sp_quote s = None" and "c \<noteq> BACKSLASH" and "c \<noteq> CHR ''$''" and "c \<noteq> BACKTICK" and "c \<noteq> CHR ''<''" and "c \<noteq> CHR ''>''"
    and "substitutions None (c # cs) \<noteq> []"
  shows "ahead (split_step p c cs s)"
proof (cases "c = SQUOTE \<or> c = DQUOTE")
  case True
  with assms show ?thesis by (auto simp: split_step_def ahead_def quote_ok_def)
next
  case False
  then have e: "substitutions None (c # cs) = substitutions None cs" using assms by (intro substitutions_plain) auto
  show ?thesis
  proof (cases "(c = CHR ''&'' \<or> c = CHR ''|'') \<and> \<not> (c = CHR ''&'' \<and> (p = Some (CHR ''>'') \<or> starts (CHR ''>'') cs)) \<and> starts c cs")
    case True
    then have t: "cs = c # tl cs" by (cases cs) (auto simp: starts_def)
    have "substitutions None (c # tl cs) = substitutions None (tl cs)"
      by (rule substitutions_plain) (use assms False in auto)
    then have "substitutions None (tl cs) \<noteq> []" using assms(7) e t by metis
    with True assms False show ?thesis by (auto simp: split_step_def ahead_def quote_ok_def specials TAB_def NEWLINE_def)
  next
    case no: False
    with assms False e show ?thesis by (auto simp: split_step_def ahead_def quote_ok_def)
  qed
qed

lemma step_ahead:
  assumes "quote_ok (sp_quote s)" and "substitutions (sp_quote s) (c # cs) \<noteq> []"
  shows "ahead (split_step p c cs s)"
proof -
  from assms(1) consider "sp_quote s = Some SQUOTE" | "sp_quote s \<noteq> Some SQUOTE" "c = BACKSLASH"
    | "sp_quote s = Some DQUOTE" "c \<noteq> BACKSLASH" | "sp_quote s = None" "c \<noteq> BACKSLASH"
    by (auto simp: quote_ok_def)
  then show ?thesis
  proof cases
    case 4
    then show ?thesis
      using assms(2) step_dollar [of s c cs p] step_redirect [of s c cs p] step_plain [of s c cs p] by auto
  qed (use assms step_quoted step_escape step_double in auto)
qed

lemma loop_ahead:
  "quote_ok (sp_quote s) \<Longrightarrow> substitutions (sp_quote s) cs \<noteq> [] \<Longrightarrow> list_ex sg_expansion (sp_segments (split_loop p cs s))"
proof (induction p cs s rule: split_loop.induct)
  case (1 p s)
  then show ?case by simp
next
  case (2 p c cs s)
  obtain p' rest s' where st: "split_step p c cs s = (p', rest, s')" by (metis prod_cases3)
  with step_ahead [OF 2(2,3), of p] have "flagged s' \<or> (substitutions (sp_quote s') rest \<noteq> [] \<and> quote_ok (sp_quote s'))"
    by (simp add: ahead_def)
  then show ?case using 2(1) [OF st [symmetric] refl] flagged_loop st by auto
qed

text \<open>C22: No hidden command goes unnoticed: whenever a command line contains a command substitution (\<open>$(...)\<close>, backticks,
  \<open><(...)\<close> or \<open>>(...)\<close> outside single quotes), splitting it marks some simple command as known only after expansion,
  so a wildcard allow rule cannot vouch for it.\<close>

theorem hidden_commands_are_flagged:
  assumes "commandSubstitutions command \<noteq> []"
  shows "\<exists>g \<in> set (splitCommand command). sg_expansion g"
  using loop_ahead [of "\<lparr>sp_segments = [], sp_words = [], sp_expansion = False, sp_current = None, sp_quote = None, sp_redirect = False\<rparr>" command None] assms
  by (simp add: commandSubstitutions_def splitCommand_def quote_ok_def list_ex_iff)

lemma hidden_commands_are_flagged_witness:
  "\<exists>g \<in> set (splitCommand ''ls ; echo <(rm x)''). sg_expansion g"
proof (rule hidden_commands_are_flagged)
  show "commandSubstitutions ''ls ; echo <(rm x)'' \<noteq> []" by code_simp
qed

end
