(* ===== verification/Json.thy ===== *)
theory Json
  imports Prelude
begin

text \<open>
  The untyped values the sources look into: a parsed JSON value, the fields of an object as \<open>record.key\<close> reads them,
  and \<open>[...new Set(xs)]\<close>. A number is a finite double, a rational. The properties of an object are in the order
  \<open>Object.entries\<close> lists them.
\<close>

datatype json = JNull | JBool bool | JNum rat | JStr string | JArr "json list" | JObj "(string \<times> json) list"

text \<open>\<open>(value ?? {})[key]\<close>, \<open>None\<close> for \<open>undefined\<close>.\<close>

definition jget :: "json \<Rightarrow> string \<Rightarrow> json option" where
  "jget j k = (case j of JObj kvs \<Rightarrow> map_of kvs k | _ \<Rightarrow> None)"

text \<open>The value, where \<open>typeof\<close> is \<open>"string"\<close>.\<close>

definition as_string :: "json option \<Rightarrow> string option" where
  "as_string v = (case v of Some (JStr s) \<Rightarrow> Some s | _ \<Rightarrow> None)"

definition str_field :: "json \<Rightarrow> string \<Rightarrow> string option" where
  "str_field j k = as_string (jget j k)"

text \<open>The elements, where \<open>Array.isArray\<close> holds.\<close>

definition arr_field :: "json \<Rightarrow> string \<Rightarrow> json list option" where
  "arr_field j k = (case jget j k of Some (JArr xs) \<Rightarrow> Some xs | _ \<Rightarrow> None)"

text \<open>\<open>.filter((value) => typeof value === "string")\<close>\<close>

definition strings_of :: "json option list \<Rightarrow> string list" where
  "strings_of vs = List.map_filter as_string vs"

text \<open>\<open>[...new Set(xs)]\<close>: each element once, where it comes first.\<close>

definition js_set :: "'a list \<Rightarrow> 'a list" where
  "js_set xs = rev (remdups (rev xs))"

lemma set_js_set [simp]: "set (js_set xs) = set xs"
  by (simp add: js_set_def)

lemma distinct_js_set [simp]: "distinct (js_set xs)"
  by (simp add: js_set_def)

lemma js_set_empty [simp]: "js_set xs = [] \<longleftrightarrow> xs = []"
  by (metis set_js_set set_empty)

lemma js_set_snoc: "js_set (xs @ [x]) = (if x \<in> set xs then js_set xs else js_set xs @ [x])"
  by (simp add: js_set_def)

lemma js_get_simps [simp]:
  "jget (JObj kvs) k = map_of kvs k" "as_string (Some (JStr s)) = Some s" "as_string None = None"
  by (simp_all add: jget_def as_string_def)

end
