(* ===== verification/Permissions.thy ===== *)
theory Permissions
  imports Shell Json
begin

text \<open>
  Permission rules (\<open>packages/engine-native/src/permission-rules.ts\<close>): the rules that settings, projects, agents and
  sessions give, how a rule matches a value, which rule decides, and the patterns of a tool call that are matched,
  those of the commands a shell call hides among them. The home directory, \<open>path.resolve\<close> and \<open>realOf\<close> (symbolic
  links resolved) are parameters; the platform is not Windows, so matching respects case.
\<close>

section \<open>Rules\<close>

datatype action = Allow | AskFirst | Deny

record rule =
  ru_permission :: string
  ru_pattern :: string
  ru_action :: action

datatype permission_value = Blanket action | Patterns "(string \<times> action) list"

datatype permission_config = Everything action | PerTool "(string \<times> permission_value) list"

definition EDIT :: "string list" where
  "EDIT = [''edit'', ''write'', ''apply_patch'', ''patch'', ''notebook_edit'']"

definition permissionName :: "string \<Rightarrow> string" where
  "permissionName tool =
     (if tool \<in> set EDIT then ''edit''
      else if tool = ''shell'' \<or> tool = ''shell_session'' then ''bash''
      else if tool = ''todo'' then ''todowrite''
      else if tool = ''web_search'' then ''websearch''
      else tool)"

section \<open>Matching\<close>

text \<open>The expression a pattern stands for, matched against the whole value: \<open>*\<close> is any text, \<open>?\<close> any one character,
  every other character itself.\<close>

fun glob :: "string \<Rightarrow> string \<Rightarrow> bool" where
  "glob [] v \<longleftrightarrow> v = []"
| "glob (p # ps) v \<longleftrightarrow>
     (if p = CHR ''*'' then glob ps v \<or> (case v of [] \<Rightarrow> False | _ # cs \<Rightarrow> glob (p # ps) cs)
      else case v of [] \<Rightarrow> False | c # cs \<Rightarrow> (p = CHR ''?'' \<or> p = c) \<and> glob ps cs)"

definition slashes :: "string \<Rightarrow> string" where
  "slashes s = map (\<lambda>c. if c = BACKSLASH then CHR ''/'' else c) s"

definition ends_with :: "string \<Rightarrow> string \<Rightarrow> bool" where
  "ends_with e s \<longleftrightarrow> length e \<le> length s \<and> drop (length s - length e) s = e"

text \<open>A pattern that ends in a space and a star also matches without them: \<open>( .*)?\<close>.\<close>

definition permissionMatch :: "string \<Rightarrow> string \<Rightarrow> bool" where
  "permissionMatch v pattern =
     (let p = slashes pattern; w = slashes v in
      if ends_with '' *'' p then glob (take (length p - 2) p) w \<or> glob p w else glob p w)"

definition expandPermissionPath :: "string \<Rightarrow> string \<Rightarrow> string" where
  "expandPermissionPath home p =
     (if p = ''~'' \<or> p = ''$HOME'' then home
      else if starts_with ''~/'' p then home @ drop 1 p
      else if starts_with ''$HOME/'' p then home @ drop 5 p
      else p)"

section \<open>Where rules come from\<close>

definition value_rules :: "string \<Rightarrow> string \<times> permission_value \<Rightarrow> rule list" where
  "value_rules home e =
     (case snd e of
        Blanket a \<Rightarrow> [\<lparr>ru_permission = permissionName (fst e), ru_pattern = ''*'', ru_action = a\<rparr>]
      | Patterns ps \<Rightarrow> map (\<lambda>(p, a). \<lparr>ru_permission = permissionName (fst e), ru_pattern = expandPermissionPath home p, ru_action = a\<rparr>) ps)"

definition configRules :: "string \<Rightarrow> permission_config option \<Rightarrow> rule list" where
  "configRules home config =
     (case config of
        None \<Rightarrow> []
      | Some (Everything a) \<Rightarrow> [\<lparr>ru_permission = ''*'', ru_pattern = ''*'', ru_action = a\<rparr>]
      | Some (PerTool entries) \<Rightarrow> concat (map (value_rules home) entries))"

text \<open>\<open>settings.projectConfig\<close>: each directory's entry with its permission config, if it has one.\<close>

definition projectRulesOf :: "string \<Rightarrow> (string \<Rightarrow> string) \<Rightarrow> (string \<Rightarrow> string)
    \<Rightarrow> (string \<times> permission_config option) list option \<Rightarrow> string option \<Rightarrow> rule list" where
  "projectRulesOf home resolve realOf projects directory =
     (case (truthy directory, projects) of
        (Some d, Some ps) \<Rightarrow>
          let absolute = resolve d;
              config = (case map_of ps (realOf absolute) of Some c \<Rightarrow> Some c | None \<Rightarrow> map_of ps absolute)
          in configRules home (case config of Some c \<Rightarrow> c | None \<Rightarrow> None)
      | _ \<Rightarrow> [])"

definition BUILT_IN :: "rule list" where
  "BUILT_IN =
     [\<lparr>ru_permission = ''read'', ru_pattern = ''*.env'', ru_action = AskFirst\<rparr>,
      \<lparr>ru_permission = ''read'', ru_pattern = ''*.env.*'', ru_action = AskFirst\<rparr>,
      \<lparr>ru_permission = ''read'', ru_pattern = ''*.env.example'', ru_action = Allow\<rparr>]"

definition tool_rule :: "string \<times> bool \<Rightarrow> rule" where
  "tool_rule t = \<lparr>ru_permission = permissionName (fst t), ru_pattern = ''*'', ru_action = (if snd t then Allow else Deny)\<rparr>"

definition own_rule :: "string \<Rightarrow> rule \<Rightarrow> rule" where
  "own_rule home r = r\<lparr>ru_permission := permissionName (ru_permission r), ru_pattern := expandPermissionPath home (ru_pattern r)\<rparr>"

definition policyRules :: "string \<Rightarrow> (string \<times> bool) list \<Rightarrow> permission_config option \<Rightarrow> rule list \<Rightarrow> rule list \<Rightarrow> rule list \<Rightarrow> rule list" where
  "policyRules home tools permission agent session project =
     BUILT_IN
     @ map tool_rule tools
     @ configRules home permission
     @ (if project \<noteq> [] then project @ filter (\<lambda>r. ru_action r = Deny) (configRules home permission) else [])
     @ map (own_rule home) agent
     @ map (own_rule home) session"

section \<open>The rule that decides\<close>

definition rule_matches :: "string \<Rightarrow> string \<Rightarrow> rule \<Rightarrow> bool" where
  "rule_matches permission pattern r \<longleftrightarrow> permissionMatch permission (ru_permission r) \<and> permissionMatch pattern (ru_pattern r)"

text \<open>\<open>rules.findLast\<close>\<close>

definition find_last :: "('a \<Rightarrow> bool) \<Rightarrow> 'a list \<Rightarrow> 'a option" where
  "find_last p xs = List.find p (rev xs)"

definition matchingRule :: "string \<Rightarrow> string \<Rightarrow> rule list \<Rightarrow> rule option" where
  "matchingRule permission pattern rules = find_last (rule_matches permission pattern) rules"

definition toolDisabled :: "string \<Rightarrow> rule list \<Rightarrow> bool" where
  "toolDisabled tool rules =
     (case find_last (\<lambda>r. permissionMatch (permissionName tool) (ru_permission r)) rules of
        None \<Rightarrow> False
      | Some r \<Rightarrow> ru_pattern r = ''*'' \<and> ru_action r = Deny)"

definition withoutBlindAllow :: "rule option \<Rightarrow> bool \<Rightarrow> rule option" where
  "withoutBlindAllow r expanded =
     (case r of
        None \<Rightarrow> None
      | Some x \<Rightarrow>
          if expanded \<and> ru_action x = Allow \<and> ru_pattern x \<noteq> ''*'' \<and> list_ex (\<lambda>c. c = CHR ''*'' \<or> c = CHR ''?'') (ru_pattern x)
          then Some (x\<lparr>ru_action := AskFirst\<rparr>) else r)"

section \<open>The patterns of a call\<close>

definition asShellCall :: "string \<Rightarrow> json \<Rightarrow> string \<times> json" where
  "asShellCall tool args =
     (if tool \<noteq> ''shell_session'' then (tool, args)
      else case (str_field args ''action'', str_field args ''command'') of
        (Some act, Some command) \<Rightarrow>
          if act \<noteq> ''start'' then (tool, args)
          else (''shell'', JObj ((''command'', JStr command)
                 # (case str_field args ''workdir'' of Some w \<Rightarrow> [(''workdir'', JStr w)] | None \<Rightarrow> [])))
      | _ \<Rightarrow> (tool, args))"

text \<open>The command line of a shell call.\<close>

definition shell_command :: "string \<Rightarrow> json \<Rightarrow> string option" where
  "shell_command toolName rawArgs =
     (let (tool, args) = asShellCall toolName rawArgs in if tool = ''shell'' then str_field args ''command'' else None)"

definition expandedShellPatterns :: "string \<Rightarrow> json \<Rightarrow> string list" where
  "expandedShellPatterns toolName rawArgs =
     (case shell_command toolName rawArgs of
        None \<Rightarrow> []
      | Some command \<Rightarrow> js_set (map segment_text (filter sg_expansion (splitCommand command))))"

text \<open>The lines of a patch that name a file: \<open>/^\*\*\* (?:Add File|Update File|Delete File|Move to): (.+)$/gm\<close>.\<close>

fun text_lines :: "string \<Rightarrow> string list" where
  "text_lines [] = [[]]"
| "text_lines (c # cs) =
     (if c = NEWLINE \<or> c = CHR 0x0D then [] # text_lines cs
      else case text_lines cs of [] \<Rightarrow> [[c]] | l # ls \<Rightarrow> (c # l) # ls)"

definition PATCH_HEADS :: "string list" where
  "PATCH_HEADS = [''*** Add File: '', ''*** Update File: '', ''*** Delete File: '', ''*** Move to: '']"

definition patch_file :: "string \<Rightarrow> string option" where
  "patch_file line =
     (case List.find (\<lambda>h. starts_with h line \<and> length h < length line) PATCH_HEADS of
        None \<Rightarrow> None
      | Some h \<Rightarrow> Some (js_trim (drop (length h) line)))"

definition listed_paths :: "string \<Rightarrow> json \<Rightarrow> json option list" where
  "listed_paths tool args =
     (case arr_field args ''paths'' of
        Some entries \<Rightarrow> if tool = ''read'' then map (\<lambda>e. jget e ''path'') entries else []
      | None \<Rightarrow> [])"

definition toolPaths :: "string \<Rightarrow> json \<Rightarrow> string list" where
  "toolPaths tool args =
     (case str_field args ''patch'' of
        Some patch \<Rightarrow> if tool = ''apply_patch'' then List.map_filter patch_file (text_lines patch)
                       else strings_of ([jget args ''path'', jget args ''filePath'', jget args ''directory''] @ listed_paths tool args)
      | None \<Rightarrow>
          if tool = ''image_gen'' then
            strings_of (jget args ''path'' # map Some (orelse (arr_field args ''referenced_image_paths'') []))
          else strings_of ([jget args ''path'', jget args ''filePath'', jget args ''directory''] @ listed_paths tool args))"

definition first_string :: "json \<Rightarrow> string list \<Rightarrow> string option" where
  "first_string args ks = (case List.map_filter (str_field args) ks of [] \<Rightarrow> None | s # _ \<Rightarrow> Some s)"

definition SUBJECT_KEYS :: "string list" where
  "SUBJECT_KEYS = [''pattern'', ''agent'', ''subagent_type'', ''name'', ''url'', ''query'']"

text \<open>What a call is matched by when it is no shell command and no browser step: its paths, absolute and with links
  resolved, else the patterns of \<open>glob\<close>, else its subject.\<close>

definition path_patterns :: "string \<Rightarrow> (string \<Rightarrow> string \<Rightarrow> string) \<Rightarrow> (string \<Rightarrow> string) \<Rightarrow> string \<Rightarrow> string list \<Rightarrow> string list" where
  "path_patterns home resolve realOf cwd targets =
     js_set (concat (map (\<lambda>t. let absolute = resolve cwd (expandPermissionPath home t) in [absolute, realOf absolute]) targets))"

definition subject_patterns :: "string \<Rightarrow> json \<Rightarrow> string list" where
  "subject_patterns tool args =
     (let listed = (case arr_field args ''patterns'' of
                      Some ps \<Rightarrow> if tool = ''glob'' then strings_of (jget args ''pattern'' # map Some ps) else []
                    | None \<Rightarrow> [])
      in if listed \<noteq> [] then js_set listed
         else case first_string args SUBJECT_KEYS of Some s \<Rightarrow> [s] | None \<Rightarrow> [''*''])"

definition permissionPatterns :: "string \<Rightarrow> (string \<Rightarrow> string \<Rightarrow> string) \<Rightarrow> (string \<Rightarrow> string) \<Rightarrow> string \<Rightarrow> json \<Rightarrow> string \<Rightarrow> string list" where
  "permissionPatterns home resolve realOf toolName rawArgs cwd =
     (case shell_command toolName rawArgs of
        Some command \<Rightarrow>
          let commands = map segment_text (splitCommand command) in if commands \<noteq> [] then commands else [''*'']
      | None \<Rightarrow>
          let (tool, args) = asShellCall toolName rawArgs in
          case (if tool = ''browser'' then str_field args ''action'' else None) of
            Some act \<Rightarrow>
              [case (if act = ''navigate'' then str_field args ''url'' else None) of Some url \<Rightarrow> url | None \<Rightarrow> act]
          | None \<Rightarrow>
              let targets = toolPaths tool args in
              if targets \<noteq> [] then path_patterns home resolve realOf cwd targets else subject_patterns tool args)"

section \<open>Commands hidden in a shell call\<close>

text \<open>What \<open>visit\<close> adds, in the order it adds it.\<close>

definition wrapped_patterns :: "nat \<Rightarrow> segment \<Rightarrow> string list" where
  "wrapped_patterns depth g =
     (let parts = map fst (sg_words g); ws = withoutTransparentWrappers parts in
      (if 0 < depth \<and> parts \<noteq> [] then [js_join '' '' parts] else [])
      @ (if ws \<noteq> [] \<and> length ws < length parts then [js_join '' '' ws] else []))"

definition segment_script :: "segment \<Rightarrow> string option" where
  "segment_script g = wrappedScript (withoutTransparentWrappers (map fst (sg_words g)))"

definition segment_xargs :: "segment \<Rightarrow> string list" where
  "segment_xargs g =
     (case withoutTransparentWrappers (map fst (sg_words g)) of
        [] \<Rightarrow> []
      | w # ws \<Rightarrow> if programName w = ''xargs'' then xargsCommand (w # ws) else [])"

function visit :: "nat \<Rightarrow> string \<Rightarrow> string list" where
  "visit depth line =
     (if MAX_SHELL_DEPTH < depth then []
      else
        concat (map (\<lambda>g.
          wrapped_patterns depth g
          @ (case segment_script g of Some script \<Rightarrow> visit (Suc depth) script | None \<Rightarrow> [])
          @ (let inner = segment_xargs g in
             if inner \<noteq> [] then js_join '' '' inner # visit (Suc depth) (js_join '' '' inner) else [])) (splitCommand line))
        @ concat (map (visit (Suc depth)) (commandSubstitutions line)))"
  by pat_completeness auto
termination
  by (relation "measure (\<lambda>(depth, line). Suc MAX_SHELL_DEPTH - depth)") auto

declare visit.simps [simp del]

definition nestedShellPatterns :: "string \<Rightarrow> (string \<Rightarrow> string \<Rightarrow> string) \<Rightarrow> (string \<Rightarrow> string) \<Rightarrow> string \<Rightarrow> json \<Rightarrow> string list" where
  "nestedShellPatterns home resolve realOf toolName rawArgs =
     (case shell_command toolName rawArgs of
        None \<Rightarrow> []
      | Some command \<Rightarrow>
          filter (\<lambda>p. p \<notin> set (permissionPatterns home resolve realOf toolName rawArgs [])) (js_set (visit 0 command)))"

text \<open>The rules a call meets in \<open>permit\<close> (\<open>packages/engine-native/src/engine.ts\<close>): the patterns of the call and, of those
  it hides, the ones a deny or an ask decides; a deny on any of them refuses the call.\<close>

definition decided_action :: "string \<Rightarrow> rule list \<Rightarrow> string \<Rightarrow> action option" where
  "decided_action permission rules p = map_option ru_action (matchingRule permission p rules)"

definition rulePatterns :: "string \<Rightarrow> (string \<Rightarrow> string \<Rightarrow> string) \<Rightarrow> (string \<Rightarrow> string) \<Rightarrow> string \<Rightarrow> json \<Rightarrow> string \<Rightarrow> rule list \<Rightarrow> string list" where
  "rulePatterns home resolve realOf tool args cwd rules =
     permissionPatterns home resolve realOf tool args cwd
     @ filter (\<lambda>p. decided_action (permissionName tool) rules p \<in> {Some Deny, Some AskFirst})
         (nestedShellPatterns home resolve realOf tool args)"

definition rule_denied :: "string \<Rightarrow> (string \<Rightarrow> string \<Rightarrow> string) \<Rightarrow> (string \<Rightarrow> string) \<Rightarrow> string \<Rightarrow> json \<Rightarrow> string \<Rightarrow> rule list \<Rightarrow> bool" where
  "rule_denied home resolve realOf tool args cwd rules \<longleftrightarrow>
     list_ex (\<lambda>p. decided_action (permissionName tool) rules p = Some Deny) (rulePatterns home resolve realOf tool args cwd rules)"

section \<open>Lemmas\<close>

lemma find_last_Nil [simp]: "find_last p [] = None"
  by (simp add: find_last_def)

lemma find_last_snoc [simp]: "find_last p (xs @ [x]) = (if p x then Some x else find_last p xs)"
  by (simp add: find_last_def)

lemma find_last_append: "find_last p (xs @ ys) = (case find_last p ys of None \<Rightarrow> find_last p xs | Some y \<Rightarrow> Some y)"
proof (induction ys rule: rev_induct)
  case (snoc y ys)
  then show ?case using find_last_snoc [of p "xs @ ys" y] by simp
qed simp

lemma find_last_None: "find_last p xs = None \<longleftrightarrow> (\<forall>x \<in> set xs. \<not> p x)"
  by (induction xs rule: rev_induct) auto

lemma find_last_SomeD: "find_last p xs = Some x \<Longrightarrow> x \<in> set xs \<and> p x"
  by (induction xs rule: rev_induct) (auto split: if_splits)

lemma matchingRule_append:
  "matchingRule perm p (xs @ ys) = (case matchingRule perm p ys of None \<Rightarrow> matchingRule perm p xs | Some r \<Rightarrow> Some r)"
  by (simp only: matchingRule_def find_last_append)

lemma matchingRule_None: "matchingRule perm p rules = None \<longleftrightarrow> (\<forall>r \<in> set rules. \<not> rule_matches perm p r)"
  by (simp add: matchingRule_def find_last_None)

lemma matchingRule_SomeD: "matchingRule perm p rules = Some r \<Longrightarrow> r \<in> set rules \<and> rule_matches perm p r"
  by (simp add: matchingRule_def find_last_SomeD)

section \<open>The user's denials\<close>

text \<open>C8: A saved project rule never overrides the user's denial: when any rule of the user's own configuration denies a value
  and the project has rules of its own, the value is denied, whatever the project allows, unless a rule of the agent or
  of the session speaks of it.\<close>

theorem user_deny_beats_project:
  assumes "r \<in> set (configRules home permission)" and "ru_action r = Deny" and "rule_matches perm v r"
    and "project \<noteq> []" and "\<forall>x \<in> set (agent @ session). \<not> rule_matches perm v (own_rule home x)"
  shows "decided_action perm (policyRules home tools permission agent session project) v = Some Deny"
proof -
  let ?denials = "filter (\<lambda>r. ru_action r = Deny) (configRules home permission)"
  have "matchingRule perm v ?denials \<noteq> None" using assms(1-3) by (auto simp: matchingRule_None)
  then obtain x where x: "matchingRule perm v ?denials = Some x" by blast
  then have "ru_action x = Deny" using matchingRule_SomeD by fastforce
  moreover have "matchingRule perm v (map (own_rule home) agent) = None" "matchingRule perm v (map (own_rule home) session) = None"
    using assms(5) by (auto simp: matchingRule_None)
  ultimately show ?thesis
    using x assms(4) by (simp add: decided_action_def policyRules_def matchingRule_append)
qed

definition user_config :: permission_config where
  "user_config = PerTool [(''bash'', Patterns [(''*'', Deny), (''git *'', Allow)])]"

lemma user_deny_beats_project_witness:
  "decided_action ''bash'' (policyRules ''/home/u'' [] (Some user_config) [] []
     [\<lparr>ru_permission = ''bash'', ru_pattern = ''rm *'', ru_action = Allow\<rparr>]) ''rm x'' = Some Deny"
proof (rule user_deny_beats_project [where r = "\<lparr>ru_permission = ''bash'', ru_pattern = ''*'', ru_action = Deny\<rparr>"])
  show "\<lparr>ru_permission = ''bash'', ru_pattern = ''*'', ru_action = Deny\<rparr> \<in> set (configRules ''/home/u'' (Some user_config))" by code_simp
  show "rule_matches ''bash'' ''rm x'' \<lparr>ru_permission = ''bash'', ru_pattern = ''*'', ru_action = Deny\<rparr>" by code_simp
qed simp_all

text \<open>An unrelated project rule turns a command the user allowed into a denied one: with every command denied but
  \<open>git\<close>, \<open>git status\<close> is allowed until the project saves a rule about reading files, because the user's denials are
  then repeated after the user's own exceptions.\<close>

theorem unrelated_rule_revives_deny:
  "decided_action ''bash'' (policyRules home [] (Some user_config) [] [] []) ''git status'' = Some Allow \<and>
   decided_action ''bash'' (policyRules home [] (Some user_config) [] []
     [\<lparr>ru_permission = ''read'', ru_pattern = ''*.md'', ru_action = Allow\<rparr>]) ''git status'' = Some Deny"
proof
  have rules: "configRules home (Some user_config) = [\<lparr>ru_permission = ''bash'', ru_pattern = ''*'', ru_action = Deny\<rparr>,
      \<lparr>ru_permission = ''bash'', ru_pattern = ''git *'', ru_action = Allow\<rparr>]"
    by (simp add: configRules_def user_config_def value_rules_def permissionName_def EDIT_def expandPermissionPath_def starts_with_def)
  have git: "rule_matches ''bash'' ''git status'' \<lparr>ru_permission = ''bash'', ru_pattern = ''git *'', ru_action = Allow\<rparr>" by code_simp
  have every: "rule_matches ''bash'' ''git status'' \<lparr>ru_permission = ''bash'', ru_pattern = ''*'', ru_action = Deny\<rparr>" by code_simp
  show "decided_action ''bash'' (policyRules home [] (Some user_config) [] [] []) ''git status'' = Some Allow"
    unfolding policyRules_def rules decided_action_def using git
    by (simp add: matchingRule_append) (simp add: matchingRule_def find_last_def)
  show "decided_action ''bash'' (policyRules home [] (Some user_config) [] []
     [\<lparr>ru_permission = ''read'', ru_pattern = ''*.md'', ru_action = Allow\<rparr>]) ''git status'' = Some Deny"
    unfolding policyRules_def rules decided_action_def using every
    by (simp add: matchingRule_append) (simp add: matchingRule_def find_last_def)
qed

section \<open>Wrapped commands\<close>

text \<open>A simple command, its words quoted, and the same behind shells: \<open>bash -c '...'\<close> in \<open>bash -c '...'\<close>.\<close>

fun behind_shells :: "nat \<Rightarrow> string list \<Rightarrow> string" where
  "behind_shells 0 ws = js_join '' '' (map shell_quote ws)"
| "behind_shells (Suc n) ws = js_join '' '' (map shell_quote [''bash'', ''-c'', behind_shells n ws])"

lemma split_behind:
  "ws \<noteq> [] \<Longrightarrow> splitCommand (js_join '' '' (map shell_quote ws)) = [\<lparr>sg_words = map (\<lambda>w. (w, False)) ws, sg_expansion = False\<rparr>]"
  using split_quoted_words [of "\<lparr>sp_segments = [], sp_words = [], sp_expansion = False, sp_current = None, sp_quote = None, sp_redirect = False\<rparr>" ws None]
  by (simp add: splitCommand_def)

lemma bash_script:
  "segment_script \<lparr>sg_words = map (\<lambda>w. (w, False)) [''bash'', ''-c'', script], sg_expansion = e\<rparr> = Some script"
proof -
  have "\<not> plain_wrapper ''bash''" by code_simp
  moreover have "letter_flag (CHR ''-'') ''-c''" by code_simp
  moreover have "programName ''bash'' = ''bash''" by code_simp
  ultimately show ?thesis by (simp add: segment_script_def wrappedScript_def SHELLS_def)
qed

lemma visit_script:
  assumes "d \<le> MAX_SHELL_DEPTH" and "g \<in> set (splitCommand line)" and "segment_script g = Some script" and "p \<in> set (visit (Suc d) script)"
  shows "p \<in> set (visit d line)"
  unfolding visit.simps [of d] using assms by force

lemma visit_finds:
  "ws \<noteq> [] \<Longrightarrow> d + n \<le> MAX_SHELL_DEPTH \<Longrightarrow> 0 < d + n \<Longrightarrow> js_join '' '' ws \<in> set (visit d (behind_shells n ws))"
proof (induction n arbitrary: d)
  case 0
  then show ?case
    unfolding visit.simps [of d] by (simp add: split_behind wrapped_patterns_def Let_def comp_def)
next
  case (Suc n)
  let ?g = "\<lparr>sg_words = map (\<lambda>w. (w, False)) [''bash'', ''-c'', behind_shells n ws], sg_expansion = False\<rparr>"
  have "splitCommand (behind_shells (Suc n) ws) = [?g]"
    unfolding behind_shells.simps by (rule split_behind) simp
  moreover have "js_join '' '' ws \<in> set (visit (Suc d) (behind_shells n ws))" using Suc by simp
  ultimately show ?case using Suc.prems(2) visit_script [of d ?g, OF _ _ bash_script] by simp
qed

text \<open>C9: Hiding a denied command behind shells does not get it past the deny rule: a command that a rule denies is refused
  as well behind up to eight nested \<open>bash -c\<close>, whatever characters its words hold.\<close>

theorem wrapping_keeps_the_denial:
  assumes "ws \<noteq> []" and "n \<le> MAX_SHELL_DEPTH" and "decided_action ''bash'' rules (js_join '' '' ws) = Some Deny"
  shows "rule_denied home resolve realOf ''shell'' (JObj [(''command'', JStr (behind_shells n ws))]) cwd rules"
proof -
  let ?args = "JObj [(''command'', JStr (behind_shells n ws))]"
  have c: "shell_command ''shell'' ?args = Some (behind_shells n ws)"
    by (simp add: shell_command_def asShellCall_def str_field_def)
  have "js_join '' '' ws \<in> set (permissionPatterns home resolve realOf ''shell'' ?args cwd) \<union> set (nestedShellPatterns home resolve realOf ''shell'' ?args)"
  proof (cases n)
    case 0
    then show ?thesis using c assms(1) by (simp add: permissionPatterns_def split_behind segment_text_def comp_def)
  next
    case (Suc k)
    then have "js_join '' '' ws \<in> set (visit 0 (behind_shells n ws))" using assms visit_finds [of ws 0 n] by simp
    moreover have "permissionPatterns home resolve realOf ''shell'' ?args cwd = permissionPatterns home resolve realOf ''shell'' ?args []"
      using c by (simp add: permissionPatterns_def)
    ultimately show ?thesis using c by (auto simp: nestedShellPatterns_def)
  qed
  then show ?thesis
    using assms(3) by (auto simp: rule_denied_def rulePatterns_def permissionName_def EDIT_def list_ex_iff)
qed

definition no_rm :: "rule list" where
  "no_rm = [\<lparr>ru_permission = ''*'', ru_pattern = ''*'', ru_action = Allow\<rparr>, \<lparr>ru_permission = ''bash'', ru_pattern = ''rm *'', ru_action = Deny\<rparr>]"

lemma wrapping_keeps_the_denial_witness:
  "rule_denied ''/'' (\<lambda>c p. p) (\<lambda>p. p) ''shell'' (JObj [(''command'', JStr (behind_shells 2 [''rm'', ''a b'']))]) ''/'' no_rm"
proof (rule wrapping_keeps_the_denial)
  show "decided_action ''bash'' no_rm (js_join '' '' [''rm'', ''a b'']) = Some Deny" by code_simp
qed (simp_all add: MAX_SHELL_DEPTH_def)

definition behind_evals :: "nat \<Rightarrow> string" where
  "behind_evals n = concat (replicate n ''eval '') @ ''rm x''"

text \<open>The ninth wrapper gets past it: \<open>rm x\<close> is refused behind eight \<open>eval\<close>s and allowed behind nine, since the search
  stops at its depth without a word about what it did not read.\<close>

theorem deep_wrapping_escapes:
  "rule_denied h r l ''shell'' (JObj [(''command'', JStr (behind_evals 8))]) c no_rm \<and>
   \<not> rule_denied h r l ''shell'' (JObj [(''command'', JStr (behind_evals 9))]) c no_rm"
proof
  have c: "shell_command ''shell'' (JObj [(''command'', JStr x)]) = Some x" for x
    by (simp add: shell_command_def asShellCall_def str_field_def)
  have one: "map segment_text (splitCommand (behind_evals 8)) = [behind_evals 8]" by code_simp
  have two: "map segment_text (splitCommand (behind_evals 9)) = [behind_evals 9]" by code_simp
  have name: "permissionName ''shell'' = ''bash''" by code_simp
  have "list_ex (\<lambda>p. decided_action ''bash'' no_rm p = Some Deny \<and> p \<noteq> behind_evals 8) (visit 0 (behind_evals 8))" by code_simp
  then show "rule_denied h r l ''shell'' (JObj [(''command'', JStr (behind_evals 8))]) c no_rm"
    by (auto simp: rule_denied_def rulePatterns_def nestedShellPatterns_def permissionPatterns_def c one name list_ex_iff)
  have "list_all (\<lambda>p. decided_action ''bash'' no_rm p \<noteq> Some Deny) (behind_evals 9 # visit 0 (behind_evals 9))" by code_simp
  then show "\<not> rule_denied h r l ''shell'' (JObj [(''command'', JStr (behind_evals 9))]) c no_rm"
    by (auto simp: rule_denied_def rulePatterns_def nestedShellPatterns_def permissionPatterns_def c two name list_ex_iff list_all_iff)
qed

end
