(* ===== verification/Grants.thy ===== *)
theory Grants
  imports Permissions
begin

text \<open>
  Session approvals (\<open>packages/engine-native/src/grants.ts\<close>): the grants of each session, the last call the permission
  reviewer refused and the one retry the user may approve; and the gate that asks the rules, then the grants, then the
  user (\<open>ruleGate\<close> in \<open>packages/engine-native/src/engine.ts\<close>). The clock, the SHA-256 digest and the random record
  ids are arguments; an attached audit is a log of the calls it gets.
\<close>

section \<open>The store\<close>

datatype tool_permission = PRead | PWrite | PExecute

text \<open>The two fingerprints of a provenance: the authority's and the action's.\<close>

record provenance =
  pv_authority :: string
  pv_action :: string

record grant =
  g_id :: string
  g_tool :: string
  g_permission :: tool_permission
  g_at :: int
  g_pattern :: "string option"
  g_rule :: "string option"
  g_provenance :: "provenance option"
  g_record :: "string option"

record denial =
  dn_fingerprint :: string
  dn_tool :: string
  dn_summary :: string
  dn_reason :: string
  dn_at :: int

datatype audit_call = AuditGrant string grant | AuditRevoke string string int | AuditReview string

record grant_store =
  gs_grants :: "(string \<times> (string \<times> grant) list) list"
  gs_denials :: "(string \<times> denial) list"
  gs_retries :: "(string \<times> (string \<times> int)) list"
  gs_audit :: "audit_call list"

definition RETRY_WINDOW_MS :: int where "RETRY_WINDOW_MS = 10 * 60000"
definition MAX_DENIAL_SESSIONS :: nat where "MAX_DENIAL_SESSIONS = 200"

definition createGrantStore :: grant_store where
  "createGrantStore = \<lparr>gs_grants = [], gs_denials = [], gs_retries = [], gs_audit = []\<rparr>"

definition grant_key :: "(string \<Rightarrow> string) \<Rightarrow> string \<Rightarrow> string option \<Rightarrow> string option \<Rightarrow> string" where
  "grant_key sha256 tool pattern permission =
     (case pattern of None \<Rightarrow> tool | Some p \<Rightarrow> orelse permission tool @ '':'' @ take 24 (sha256 p))"

definition is_fresh :: "int \<Rightarrow> int \<Rightarrow> bool" where
  "is_fresh now since \<longleftrightarrow> now - since \<le> RETRY_WINDOW_MS"

text \<open>\<open>if (map.size > MAX) map.delete(map.keys().next().value)\<close>\<close>

definition evict :: "('a \<times> 'b) list \<Rightarrow> ('a \<times> 'b) list" where
  "evict m = (if MAX_DENIAL_SESSIONS < length m then tl m else m)"

section \<open>Denials and retries\<close>

definition noteDenial :: "int \<Rightarrow> string \<Rightarrow> denial \<Rightarrow> grant_store \<Rightarrow> grant_store" where
  "noteDenial now sid d s = s\<lparr>gs_denials := evict (AList.update sid (d\<lparr>dn_at := now\<rparr>) (gs_denials s))\<rparr>"

definition lastDenial :: "int \<Rightarrow> string \<Rightarrow> grant_store \<Rightarrow> denial option" where
  "lastDenial now sid s =
     (case map_of (gs_denials s) sid of None \<Rightarrow> None | Some d \<Rightarrow> if is_fresh now (dn_at d) then Some d else None)"

definition approveRetry :: "int \<Rightarrow> string \<Rightarrow> grant_store \<Rightarrow> denial option \<times> grant_store" where
  "approveRetry now sid s =
     (case map_of (gs_denials s) sid of
        None \<Rightarrow> (None, s)
      | Some d \<Rightarrow>
          if \<not> is_fresh now (dn_at d) then (None, s)
          else (Some d, s\<lparr>gs_retries := evict (AList.update sid (dn_fingerprint d, now) (gs_retries s))\<rparr>))"

definition takeRetry :: "int \<Rightarrow> string \<Rightarrow> string \<Rightarrow> grant_store \<Rightarrow> bool \<times> grant_store" where
  "takeRetry now sid fingerprint s =
     (case map_of (gs_retries s) sid of
        None \<Rightarrow> (False, s)
      | Some (f, since) \<Rightarrow>
          if f \<noteq> fingerprint then (False, s)
          else (is_fresh now since, s\<lparr>gs_retries := AList.delete sid (gs_retries s), gs_denials := AList.delete sid (gs_denials s)\<rparr>))"

section \<open>Grants\<close>

definition session_grants :: "string \<Rightarrow> grant_store \<Rightarrow> (string \<times> grant) list" where
  "session_grants sid s = orelse (map_of (gs_grants s) sid) []"

definition list_grants :: "string \<Rightarrow> grant_store \<Rightarrow> grant list" where
  "list_grants sid s = map snd (session_grants sid s)"

definition has_grant :: "string \<Rightarrow> string \<Rightarrow> string option \<Rightarrow> string option \<Rightarrow> grant_store \<Rightarrow> bool" where
  "has_grant sid tool pattern permission s =
     (case pattern of
        None \<Rightarrow> map_of (session_grants sid s) tool \<noteq> None
      | Some p \<Rightarrow> list_ex (\<lambda>g. case g_pattern g of None \<Rightarrow> False
          | Some q \<Rightarrow> g_rule g = Some (orelse permission tool) \<and> permissionMatch p q) (list_grants sid s))"

definition hasExact :: "string \<Rightarrow> string \<Rightarrow> provenance \<Rightarrow> grant_store \<Rightarrow> bool" where
  "hasExact sid tool p s =
     list_ex (\<lambda>g. g_tool g = tool \<and> g_pattern g = None \<and> map_option pv_authority (g_provenance g) = Some (pv_authority p) \<and>
       map_option pv_action (g_provenance g) = Some (pv_action p)) (list_grants sid s)"

text \<open>Whether a grant is made anew: there is none under the key, or it was given for another action or authority.\<close>

definition renews :: "provenance option \<Rightarrow> grant option \<Rightarrow> bool" where
  "renews p old =
     (case old of None \<Rightarrow> True
      | Some g \<Rightarrow> (case p of None \<Rightarrow> False
          | Some v \<Rightarrow> map_option pv_action (g_provenance g) \<noteq> Some (pv_action v) \<or>
                      map_option pv_authority (g_provenance g) \<noteq> Some (pv_authority v)))"

definition add_grant :: "(string \<Rightarrow> string) \<Rightarrow> int \<Rightarrow> string option \<Rightarrow> string \<Rightarrow> string \<Rightarrow> tool_permission
    \<Rightarrow> string option \<Rightarrow> string option \<Rightarrow> provenance option \<Rightarrow> grant_store \<Rightarrow> grant_store" where
  "add_grant sha256 now uuid sid tool permission pattern rulePermission prov s =
     (let session = session_grants sid s; grantId = grant_key sha256 tool pattern rulePermission in
      if renews prov (map_of session grantId) then
        let g = \<lparr>g_id = grantId, g_tool = tool, g_permission = permission, g_at = now, g_pattern = pattern,
                 g_rule = (if pattern \<noteq> None then rulePermission else None), g_provenance = prov, g_record = uuid\<rparr>
        in s\<lparr>gs_grants := AList.update sid (AList.update grantId g session) (gs_grants s),
             gs_audit := gs_audit s @ (if uuid \<noteq> None then [AuditGrant sid g] else [])\<rparr>
      else s\<lparr>gs_grants := AList.update sid session (gs_grants s)\<rparr>)"

definition revoked :: "string \<Rightarrow> int \<Rightarrow> grant \<Rightarrow> audit_call list" where
  "revoked sid now g = (case g_record g of Some r \<Rightarrow> if r \<noteq> [] then [AuditRevoke sid r now] else [] | None \<Rightarrow> [])"

definition revoke_all :: "int \<Rightarrow> string \<Rightarrow> grant_store \<Rightarrow> nat \<times> grant_store" where
  "revoke_all now sid s =
     (case map_of (gs_grants s) sid of
        None \<Rightarrow> (0, s)
      | Some session \<Rightarrow>
          (length session, s\<lparr>gs_audit := gs_audit s @ concat (map (revoked sid now \<circ> snd) session),
                             gs_grants := AList.delete sid (gs_grants s)\<rparr>))"

definition revoke_one :: "int \<Rightarrow> string \<Rightarrow> string \<Rightarrow> grant_store \<Rightarrow> nat \<times> grant_store" where
  "revoke_one now sid grantId s =
     (case map_of (gs_grants s) sid of
        None \<Rightarrow> (0, s)
      | Some session \<Rightarrow>
          let rest = AList.delete grantId session in
          (if map_of session grantId \<noteq> None then 1 else 0,
           s\<lparr>gs_audit := gs_audit s @ (case map_of session grantId of Some g \<Rightarrow> revoked sid now g | None \<Rightarrow> []),
             gs_grants := (if rest = [] then AList.delete sid (gs_grants s) else AList.update sid rest (gs_grants s))\<rparr>))"

definition revoke :: "int \<Rightarrow> string \<Rightarrow> string \<Rightarrow> grant_store \<Rightarrow> nat \<times> grant_store" where
  "revoke now sid grantId s = (if grantId = ''all'' then revoke_all now sid s else revoke_one now sid grantId s)"

definition review :: "bool \<Rightarrow> string \<Rightarrow> grant_store \<Rightarrow> grant_store" where
  "review audited record_id s = s\<lparr>gs_audit := gs_audit s @ (if audited then [AuditReview record_id] else [])\<rparr>"

text \<open>\<open>history\<close>: what the audit kept, each grant with whether it is in force.\<close>

definition history_grants :: "string \<Rightarrow> (grant \<times> int option) list \<Rightarrow> grant_store \<Rightarrow> (grant \<times> bool) list" where
  "history_grants sid kept s =
     map (\<lambda>(g, revokedAt). (g, revokedAt = None \<and> g_record g \<in> g_record ` set (list_grants sid s))) kept"

section \<open>Sequences of operations\<close>

datatype grant_op =
    NoteDenial string denial
  | ApproveRetry string
  | TakeRetry string string
  | AddGrant string string tool_permission "string option" "string option" "provenance option" "string option"
  | Revoke string string

text \<open>One operation, with whether it gave a retry or let one run.\<close>

definition grant_step :: "(string \<Rightarrow> string) \<Rightarrow> int \<Rightarrow> grant_op \<Rightarrow> grant_store \<Rightarrow> bool \<times> grant_store" where
  "grant_step sha256 now x s =
     (case x of
        NoteDenial sid d \<Rightarrow> (False, noteDenial now sid d s)
      | ApproveRetry sid \<Rightarrow> (case approveRetry now sid s of (r, s') \<Rightarrow> (r \<noteq> None, s'))
      | TakeRetry sid f \<Rightarrow> takeRetry now sid f s
      | AddGrant sid tool p pat rp prov uuid \<Rightarrow> (False, add_grant sha256 now uuid sid tool p pat rp prov s)
      | Revoke sid i \<Rightarrow> (False, snd (revoke now sid i s)))"

fun grant_run :: "(string \<Rightarrow> string) \<Rightarrow> (int \<times> grant_op) list \<Rightarrow> grant_store \<Rightarrow> (grant_op \<times> bool) list \<times> grant_store" where
  "grant_run sha256 [] s = ([], s)"
| "grant_run sha256 ((now, x) # xs) s =
     (let (b, s1) = grant_step sha256 now x s; (bs, s2) = grant_run sha256 xs s1 in ((x, b) # bs, s2))"

definition approvals :: "string \<Rightarrow> (grant_op \<times> bool) list \<Rightarrow> nat" where
  "approvals sid h = length (filter (\<lambda>(x, b). b \<and> x = ApproveRetry sid) h)"

definition is_take :: "string \<Rightarrow> grant_op \<Rightarrow> bool" where
  "is_take sid x = (case x of TakeRetry i f \<Rightarrow> i = sid | _ \<Rightarrow> False)"

definition taken_retries :: "string \<Rightarrow> (grant_op \<times> bool) list \<Rightarrow> nat" where
  "taken_retries sid h = length (filter (\<lambda>(x, b). b \<and> is_take sid x) h)"

definition waiting_retry :: "string \<Rightarrow> grant_store \<Rightarrow> nat" where
  "waiting_retry sid s = (if map_of (gs_retries s) sid = None then 0 else 1)"

section \<open>Lemmas\<close>

lemma evict_map_of: "map_of (evict m) k \<noteq> None \<Longrightarrow> map_of m k \<noteq> None"
  by (cases m) (auto simp: evict_def split: if_splits)

lemma evict_map_of': "map_of (evict m) k = Some v \<Longrightarrow> \<exists>w. map_of m k = Some w"
  using evict_map_of [of m k] by auto

lemma evict_length: "length m \<le> Suc MAX_DENIAL_SESSIONS \<Longrightarrow> length (evict m) \<le> MAX_DENIAL_SESSIONS"
  by (auto simp: evict_def)

lemma update_length: "length (AList.update k v m) = (if k \<in> fst ` set m then length m else Suc (length m))"
  by (induction m) auto

lemma step_retry:
  assumes "grant_step sha256 now x s = (b, s')"
  shows "waiting_retry sid s' + taken_retries sid [(x, b)] \<le> waiting_retry sid s + approvals sid [(x, b)]"
proof (cases x)
  case (ApproveRetry i)
  show ?thesis
  proof (cases "i = sid \<and> b")
    case True
    then show ?thesis using ApproveRetry by (simp add: approvals_def taken_retries_def is_take_def waiting_retry_def)
  next
    case False
    have "waiting_retry sid s' \<le> waiting_retry sid s"
      using assms ApproveRetry False
      by (auto simp: grant_step_def approveRetry_def waiting_retry_def update_conv' dest!: evict_map_of' split: option.splits if_splits)
    then show ?thesis using ApproveRetry by (simp add: taken_retries_def is_take_def)
  qed
next
  case (TakeRetry i f)
  then show ?thesis using assms
    by (auto simp: grant_step_def takeRetry_def waiting_retry_def delete_conv' taken_retries_def is_take_def split: option.splits if_splits)
qed (use assms in \<open>auto simp: grant_step_def noteDenial_def add_grant_def revoke_def revoke_all_def revoke_one_def
  waiting_retry_def taken_retries_def is_take_def Let_def split: option.splits if_splits\<close>)

lemma history_Cons:
  "approvals sid (e # h) = approvals sid [e] + approvals sid h" "taken_retries sid (e # h) = taken_retries sid [e] + taken_retries sid h"
  by (auto simp: approvals_def taken_retries_def)

lemma run_retries:
  "grant_run sha256 xs s = (h, s') \<Longrightarrow> waiting_retry sid s' + taken_retries sid h \<le> waiting_retry sid s + approvals sid h"
proof (induction sha256 xs s arbitrary: h s' rule: grant_run.induct)
  case (1 sha256 s)
  then show ?case by (simp add: approvals_def taken_retries_def)
next
  case (2 sha256 now x xs s)
  obtain b s1 where st: "grant_step sha256 now x s = (b, s1)" by fastforce
  obtain bs s2 where r: "grant_run sha256 xs s1 = (bs, s2)" by fastforce
  have "waiting_retry sid s2 + taken_retries sid bs \<le> waiting_retry sid s1 + approvals sid bs"
    using 2(1) [OF st [symmetric] refl r] .
  with step_retry [OF st, of sid] show ?case using 2(2) st r history_Cons [of sid "(x, b)" bs] by auto
qed

text \<open>C34: An approved retry runs once: over any sequence of operations a session never gets more calls past the reviewer
  than the user approved retries for it.\<close>

theorem retries_run_once:
  "taken_retries sid (fst (grant_run sha256 xs createGrantStore)) \<le> approvals sid (fst (grant_run sha256 xs createGrantStore))"
proof -
  obtain h s where r: "grant_run sha256 xs createGrantStore = (h, s)" by fastforce
  show ?thesis using run_retries [OF r, of sid] r by (simp add: waiting_retry_def createGrantStore_def)
qed

definition capped :: "grant_store \<Rightarrow> bool" where
  "capped s \<longleftrightarrow> length (gs_denials s) \<le> MAX_DENIAL_SESSIONS \<and> length (gs_retries s) \<le> MAX_DENIAL_SESSIONS"

lemma delete_length: "length m \<le> n \<Longrightarrow> length (AList.delete k m) \<le> n"
  by (rule le_trans [OF length_delete_le])

lemma update_evict: "length m \<le> MAX_DENIAL_SESSIONS \<Longrightarrow> length (evict (AList.update k v m)) \<le> MAX_DENIAL_SESSIONS"
  by (rule evict_length) (simp add: update_length)

lemma step_capped: "capped s \<Longrightarrow> capped (snd (grant_step sha256 now x s))"
proof (cases x)
  case (TakeRetry i f)
  assume "capped s"
  then show ?thesis using TakeRetry
    by (auto simp: capped_def grant_step_def takeRetry_def delete_length split: option.splits)
qed (auto simp: capped_def grant_step_def noteDenial_def approveRetry_def add_grant_def revoke_def revoke_all_def revoke_one_def
  update_evict Let_def split: option.splits if_splits)

lemma run_capped: "capped s \<Longrightarrow> capped (snd (grant_run sha256 xs s))"
proof (induction sha256 xs s rule: grant_run.induct)
  case (2 sha256 now x xs s)
  then show ?case using step_capped [of s sha256 now x] by (auto split: prod.splits)
qed simp

lemma evict_update:
  assumes "length m \<le> MAX_DENIAL_SESSIONS"
  shows "map_of (evict (AList.update k v m)) k = Some v"
proof (cases "k \<in> fst ` set m")
  case True
  with assms show ?thesis by (simp add: evict_def update_length update_conv)
next
  case False
  then have u: "AList.update k v m = m @ [(k, v)]" by (induction m) auto
  from False have "map_of m k = None" "map_of (tl m) k = None" by (cases m; auto simp: map_of_eq_None_iff)+
  with u show ?thesis by (cases m) (auto simp: evict_def map_of_append map_add_def MAX_DENIAL_SESSIONS_def)
qed

text \<open>What an approved retry lets through is the call that was refused, while the approval is fresh: after the user
  approved a retry in any history of the store, a call of that session passes exactly when a refusal no older than ten
  minutes was noted for it, the call has that refusal's fingerprint, and it comes within ten minutes.\<close>

theorem retry_is_the_refused_call:
  assumes "s = snd (grant_run sha256 xs createGrantStore)" and "map_of (gs_retries s) sid = None"
  shows "fst (takeRetry later sid f (snd (approveRetry now sid s))) \<longleftrightarrow>
    (\<exists>d. lastDenial now sid s = Some d \<and> dn_fingerprint d = f \<and> later - now \<le> RETRY_WINDOW_MS)"
proof -
  have "capped createGrantStore" by (simp add: capped_def createGrantStore_def)
  then have "length (gs_retries s) \<le> MAX_DENIAL_SESSIONS" using run_capped assms(1) by (simp add: capped_def)
  then show ?thesis
    using assms(2) by (auto simp: takeRetry_def approveRetry_def lastDenial_def evict_update is_fresh_def split: option.splits)
qed

definition small_denial :: denial where
  "small_denial = \<lparr>dn_fingerprint = ''f'', dn_tool = ''shell'', dn_summary = ''ls'', dn_reason = ''no'', dn_at = 0\<rparr>"

lemma retry_is_the_refused_call_witness:
  "fst (takeRetry 20 ''s'' ''f'' (snd (approveRetry 10 ''s'' (snd (grant_run (\<lambda>p. p) [(5, NoteDenial ''s'' small_denial)] createGrantStore)))))"
proof -
  let ?s = "snd (grant_run (\<lambda>p. p) [(5, NoteDenial ''s'' small_denial)] createGrantStore)"
  have "map_of (gs_retries ?s) ''s'' = None" by code_simp
  moreover have "lastDenial 10 ''s'' ?s = Some (small_denial\<lparr>dn_at := 5\<rparr>)" by code_simp
  ultimately show ?thesis
    by (subst retry_is_the_refused_call [OF refl]) (simp_all add: small_denial_def RETRY_WINDOW_MS_def)
qed

end
