(* ===== verification/RuleGate.thy ===== *)
theory RuleGate
  imports Grants
begin

text \<open>
  The gate of a tool call: \<open>ruleGate\<close> in \<open>packages/engine-native/src/engine.ts\<close>. It asks the permission rules, then the
  permission mode, then the grants of the session, and the user about what is left. The hook that may refuse a prompt,
  the user's answer and whether the turn was stopped meanwhile are arguments; each reason is given by its parts.
\<close>

section \<open>The gate\<close>

datatype answer_source = FromGrant | FromUser

datatype gate_answer = UserApproves bool \<comment> \<open>for the session\<close> | UserDenies "string option" | UserAbandons | UserOther

datatype verdict =
    Approved bool "answer_source option" \<comment> \<open>for the session\<close>
  | RefusedByRule string string string \<comment> \<open>permission, pattern, the rule's pattern\<close>
  | RefusedByHook string
  | RefusedRepeat
  | Answered gate_answer
  | GateAbandoned

text \<open>The call at the gate: the permission and the patterns that are checked, the call's arguments, and how the
  gate is asked.\<close>

record gate_call =
  gc_session :: string
  gc_tool :: string
  gc_kind :: tool_permission
  gc_permission :: string
  gc_patterns :: "string list"
  gc_args :: json
  gc_fallbackAsk :: bool
  gc_obeyMode :: bool
  gc_full :: bool
  gc_provenance :: "provenance option"

definition gate_expanded :: "gate_call \<Rightarrow> string list" where
  "gate_expanded c = (if gc_permission c = ''bash'' then expandedShellPatterns (gc_tool c) (gc_args c) else [])"

definition gate_rule :: "rule list \<Rightarrow> gate_call \<Rightarrow> string \<Rightarrow> rule option" where
  "gate_rule rules c p = withoutBlindAllow (matchingRule (gc_permission c) p rules) (p \<in> set (gate_expanded c))"

definition gate_action :: "rule list \<Rightarrow> gate_call \<Rightarrow> string \<Rightarrow> action option" where
  "gate_action rules c p = map_option ru_action (gate_rule rules c p)"

definition granted :: "gate_call \<Rightarrow> grant_store \<Rightarrow> string \<Rightarrow> bool" where
  "granted c s p =
     (if p \<in> set (gate_expanded c)
      then list_ex (\<lambda>g. g_rule g = Some (gc_permission c) \<and> g_pattern g = Some p) (list_grants (gc_session c) s)
      else has_grant (gc_session c) (gc_tool c) (Some p) (Some (gc_permission c)) s)"

definition pending :: "rule list \<Rightarrow> gate_call \<Rightarrow> grant_store \<Rightarrow> string list" where
  "pending rules c s =
     filter (\<lambda>p. (gate_action rules c p = Some AskFirst \<or> (gate_action rules c p = None \<and> gc_fallbackAsk c)) \<and> \<not> granted c s p)
       (gc_patterns c)"

text \<open>What is settled without a prompt, \<open>Inl None\<close> where the gate has no opinion; \<open>Inr\<close> the patterns to ask about.\<close>

definition gate_rules :: "rule list \<Rightarrow> gate_call \<Rightarrow> grant_store \<Rightarrow> verdict option + string list" where
  "gate_rules rules c s =
     (case List.find (\<lambda>p. gate_action rules c p = Some Deny) (gc_patterns c) of
        Some p \<Rightarrow> Inl (Some (RefusedByRule (gc_permission c) p (case gate_rule rules c p of Some r \<Rightarrow> ru_pattern r | None \<Rightarrow> [])))
      | None \<Rightarrow>
          let waiting = pending rules c s in
          if (gc_obeyMode c \<and> gc_full c) \<or> (waiting = [] \<and> list_all (\<lambda>p. gate_action rules c p = Some Allow) (gc_patterns c))
          then Inl (Some (Approved False None))
          else if waiting = [] then
            Inl (if list_ex (\<lambda>p. gate_action rules c p = Some AskFirst) (gc_patterns c) then Some (Approved True (Some FromGrant)) else None)
          else if \<not> gc_obeyMode c \<and> gc_full c then Inl (Some RefusedRepeat)
          else Inr waiting)"

fun add_pending :: "(string \<Rightarrow> string) \<Rightarrow> int \<Rightarrow> string option \<Rightarrow> gate_call \<Rightarrow> string list \<Rightarrow> grant_store \<Rightarrow> grant_store" where
  "add_pending sha256 now uuid c [] s = s"
| "add_pending sha256 now uuid c (p # ps) s =
     add_pending sha256 now uuid c ps
       (add_grant sha256 now uuid (gc_session c) (gc_tool c) (gc_kind c) (Some p) (Some (gc_permission c)) (gc_provenance c) s)"

definition ruleGate :: "(string \<Rightarrow> string) \<Rightarrow> int \<Rightarrow> string option \<Rightarrow> rule list \<Rightarrow> gate_call \<Rightarrow> string option \<Rightarrow> bool \<Rightarrow> gate_answer
    \<Rightarrow> grant_store \<Rightarrow> verdict option \<times> grant_store" where
  "ruleGate sha256 now uuid rules c hook aborted answer s =
     (case gate_rules rules c s of
        Inl v \<Rightarrow> (v, s)
      | Inr waiting \<Rightarrow>
          (case hook of
             Some reason \<Rightarrow> (Some (RefusedByHook reason), s)
           | None \<Rightarrow>
               if aborted then (Some GateAbandoned, s)
               else (Some (Answered answer),
                     if answer = UserApproves True then add_pending sha256 now uuid c waiting s else s)))"

section \<open>Denials\<close>

lemma find_SomeD: "List.find p xs = Some x \<Longrightarrow> x \<in> set xs \<and> p x"
  by (induction xs) (auto split: if_splits)

lemma find_not_None: "x \<in> set xs \<Longrightarrow> p x \<Longrightarrow> List.find p xs \<noteq> None"
  by (induction xs) auto

text \<open>C10: Nothing overrides a denial at the gate: when the rule that decides one of the call's patterns denies it, the call is
  refused by a rule, in every permission mode, whatever is granted and whatever the user would have answered, and
  nothing is granted.\<close>

theorem gate_obeys_denials:
  assumes "p \<in> set (gc_patterns c)" and "decided_action (gc_permission c) rules p = Some Deny"
  shows "\<exists>q r. ruleGate sha256 now uuid rules c hook aborted answer s = (Some (RefusedByRule (gc_permission c) q r), s)
    \<and> q \<in> set (gc_patterns c) \<and> decided_action (gc_permission c) rules q = Some Deny"
proof -
  have act: "gate_action rules c x = Some Deny \<longleftrightarrow> decided_action (gc_permission c) rules x = Some Deny" for x
    by (auto simp: gate_action_def gate_rule_def decided_action_def withoutBlindAllow_def split: option.splits)
  then obtain q where q: "List.find (\<lambda>p. gate_action rules c p = Some Deny) (gc_patterns c) = Some q"
    using find_not_None [OF assms(1), of "\<lambda>p. gate_action rules c p = Some Deny"] assms(2) by auto
  with find_SomeD [OF q] act show ?thesis by (simp add: ruleGate_def gate_rules_def)
qed

definition shell_gate :: "string list \<Rightarrow> gate_call" where
  "shell_gate ps = \<lparr>gc_session = ''s'', gc_tool = ''shell'', gc_kind = PExecute, gc_permission = ''bash'', gc_patterns = ps,
     gc_args = JNull, gc_fallbackAsk = False, gc_obeyMode = True, gc_full = True, gc_provenance = None\<rparr>"

lemma gate_obeys_denials_witness:
  "\<exists>q r. ruleGate (\<lambda>p. p) 0 None no_rm (shell_gate [''ls'', ''rm x'']) None False (UserApproves True) createGrantStore =
     (Some (RefusedByRule ''bash'' q r), createGrantStore)"
proof -
  have "decided_action (gc_permission (shell_gate [''ls'', ''rm x''])) no_rm ''rm x'' = Some Deny" by code_simp
  then show ?thesis
    using gate_obeys_denials [of "''rm x''" "shell_gate [''ls'', ''rm x'']" no_rm "\<lambda>p. p" 0 None None False "UserApproves True" createGrantStore]
    by (auto simp: shell_gate_def)
qed

section \<open>Commands known only after expansion\<close>

text \<open>C35: A rule with a wildcard in it, other than the rule that allows everything, does not vouch for a command that only exists after
  expansion: outside full access such a command, where the rule that decides is an allow rule whose pattern has a \<open>*\<close> or a \<open>?\<close> and is not
  \<open>*\<close> alone, is never approved without a prompt, unless the session was granted that
  exact text; the user is asked about it, or a rule refuses the call.\<close>

theorem expanded_commands_are_asked:
  assumes "p \<in> set (gc_patterns c)" and "p \<in> set (gate_expanded c)"
    and "matchingRule (gc_permission c) p rules = Some r" and "ru_pattern r \<noteq> ''*''"
    and "CHR ''*'' \<in> set (ru_pattern r) \<or> CHR ''?'' \<in> set (ru_pattern r)" and "ru_action r = Allow"
    and "\<not> gc_full c" and "\<forall>g \<in> set (list_grants (gc_session c) s). \<not> (g_rule g = Some (gc_permission c) \<and> g_pattern g = Some p)"
  shows "(\<exists>waiting. gate_rules rules c s = Inr waiting \<and> p \<in> set waiting) \<or> (\<exists>a q x. gate_rules rules c s = Inl (Some (RefusedByRule a q x)))"
proof -
  have "gate_action rules c p = Some AskFirst"
    using assms(2-6) by (auto simp: gate_action_def gate_rule_def withoutBlindAllow_def list_ex_iff)
  moreover have "\<not> granted c s p" using assms(2,8) by (auto simp: granted_def list_ex_iff)
  ultimately have "p \<in> set (pending rules c s)" using assms(1) by (simp add: pending_def)
  then show ?thesis using assms(7) by (auto simp: gate_rules_def Let_def split: option.splits)
qed

definition echo_gate :: gate_call where
  "echo_gate = (shell_gate [''echo $(id)''])\<lparr>gc_args := JObj [(''command'', JStr ''echo $(id)'')], gc_full := False\<rparr>"

lemma expanded_commands_are_asked_witness:
  "(\<exists>waiting. gate_rules [\<lparr>ru_permission = ''bash'', ru_pattern = ''echo *'', ru_action = Allow\<rparr>] echo_gate createGrantStore = Inr waiting \<and>
      ''echo $(id)'' \<in> set waiting) \<or>
   (\<exists>a q x. gate_rules [\<lparr>ru_permission = ''bash'', ru_pattern = ''echo *'', ru_action = Allow\<rparr>] echo_gate createGrantStore =
      Inl (Some (RefusedByRule a q x)))"
proof (rule expanded_commands_are_asked [where r = "\<lparr>ru_permission = ''bash'', ru_pattern = ''echo *'', ru_action = Allow\<rparr>"])
  have "expandedShellPatterns ''shell'' (JObj [(''command'', JStr ''echo $(id)'')]) = [''echo $(id)'']" by code_simp
  then show "''echo $(id)'' \<in> set (gate_expanded echo_gate)" by (simp add: echo_gate_def gate_expanded_def shell_gate_def)
  show "matchingRule (gc_permission echo_gate) ''echo $(id)'' [\<lparr>ru_permission = ''bash'', ru_pattern = ''echo *'', ru_action = Allow\<rparr>] =
    Some \<lparr>ru_permission = ''bash'', ru_pattern = ''echo *'', ru_action = Allow\<rparr>" by code_simp
qed (simp_all add: echo_gate_def shell_gate_def list_grants_def session_grants_def createGrantStore_def)

section \<open>Answers for the session\<close>

lemma glob_refl: "glob p p"
  by (induction p) auto

lemma permissionMatch_refl: "permissionMatch p p"
  by (simp add: permissionMatch_def Let_def glob_refl)

text \<open>The grant of a pattern under its key; and the key is free or that grant's.\<close>

definition holds_grant :: "(string \<Rightarrow> string) \<Rightarrow> gate_call \<Rightarrow> grant_store \<Rightarrow> string \<Rightarrow> bool" where
  "holds_grant sha256 c s p \<longleftrightarrow>
     (\<exists>g. map_of (session_grants (gc_session c) s) (grant_key sha256 (gc_tool c) (Some p) (Some (gc_permission c))) = Some g \<and>
        g_pattern g = Some p \<and> g_rule g = Some (gc_permission c))"

definition key_clear :: "(string \<Rightarrow> string) \<Rightarrow> gate_call \<Rightarrow> grant_store \<Rightarrow> string \<Rightarrow> bool" where
  "key_clear sha256 c s p \<longleftrightarrow>
     map_of (session_grants (gc_session c) s) (grant_key sha256 (gc_tool c) (Some p) (Some (gc_permission c))) = None \<or> holds_grant sha256 c s p"

lemma holds_granted: "holds_grant sha256 c s p \<Longrightarrow> granted c s p"
  by (auto simp: holds_grant_def granted_def has_grant_def list_grants_def list_ex_iff permissionMatch_refl
      intro!: rev_bexI [OF map_of_SomeD])

lemma add_holds:
  assumes "key_clear sha256 c s q"
  shows "holds_grant sha256 c (add_grant sha256 now uuid (gc_session c) (gc_tool c) k (Some q) (Some (gc_permission c)) v s) q"
  using assms by (auto simp: add_grant_def Let_def holds_grant_def key_clear_def session_grants_def update_conv' renews_def split: option.splits)

lemma add_other:
  assumes "take 24 (sha256 p) \<noteq> take 24 (sha256 q)"
  shows "holds_grant sha256 c (add_grant sha256 now uuid (gc_session c) (gc_tool c) k (Some q) (Some (gc_permission c)) v s) p = holds_grant sha256 c s p"
    and "key_clear sha256 c (add_grant sha256 now uuid (gc_session c) (gc_tool c) k (Some q) (Some (gc_permission c)) v s) p = key_clear sha256 c s p"
  using assms by (simp_all add: add_grant_def Let_def holds_grant_def key_clear_def session_grants_def update_conv' grant_key_def)

lemma add_clear:
  assumes "inj_on (\<lambda>x. take 24 (sha256 x)) (set (q # ps))" and "\<forall>x \<in> set (q # ps). key_clear sha256 c s x"
  shows "\<forall>x \<in> set (q # ps). key_clear sha256 c (add_grant sha256 now uuid (gc_session c) (gc_tool c) k (Some q) (Some (gc_permission c)) v s) x"
proof
  fix x
  assume x: "x \<in> set (q # ps)"
  show "key_clear sha256 c (add_grant sha256 now uuid (gc_session c) (gc_tool c) k (Some q) (Some (gc_permission c)) v s) x"
  proof (cases "x = q")
    case True
    then show ?thesis using add_holds assms(2) by (simp add: key_clear_def)
  next
    case False
    then have "take 24 (sha256 x) \<noteq> take 24 (sha256 q)" using x assms(1) by (auto simp: inj_on_def)
    then show ?thesis using assms(2) x by (subst add_other(2)) auto
  qed
qed

lemma add_pending_holds:
  "inj_on (\<lambda>x. take 24 (sha256 x)) (set ps \<union> {p}) \<Longrightarrow> \<forall>x \<in> set ps. key_clear sha256 c s x \<Longrightarrow> p \<in> set ps \<or> holds_grant sha256 c s p \<Longrightarrow>
     holds_grant sha256 c (add_pending sha256 now uuid c ps s) p"
proof (induction ps arbitrary: s)
  case (Cons q ps)
  let ?s = "add_grant sha256 now uuid (gc_session c) (gc_tool c) (gc_kind c) (Some q) (Some (gc_permission c)) (gc_provenance c) s"
  have i: "inj_on (\<lambda>x. take 24 (sha256 x)) (set (q # ps))" using Cons.prems(1) by (auto intro: inj_on_subset)
  have "\<forall>x \<in> set ps. key_clear sha256 c ?s x" using add_clear [OF i Cons.prems(2)] by simp
  moreover have "p \<in> set ps \<or> holds_grant sha256 c ?s p"
  proof (cases "p = q")
    case True
    then show ?thesis using add_holds Cons.prems(2) by simp
  next
    case False
    then have "take 24 (sha256 p) \<noteq> take 24 (sha256 q)" using Cons.prems(1) by (auto simp: inj_on_def)
    then show ?thesis using False Cons.prems(3) add_other(1) by auto
  qed
  moreover have "inj_on (\<lambda>x. take 24 (sha256 x)) (set ps \<union> {p})" using Cons.prems(1) by (auto intro: inj_on_subset)
  ultimately show ?case using Cons.IH by simp
qed simp

lemma update_keeps: "x \<in> set m \<Longrightarrow> x \<in> set (AList.update k v m) \<or> map_of m k = Some (snd x)"
  by (induction m) (auto split: if_splits)

lemma add_keeps_grants:
  assumes "key_clear sha256 c s q" and "g \<in> set (list_grants (gc_session c) s)"
  shows "\<exists>h \<in> set (list_grants (gc_session c) (add_grant sha256 now uuid (gc_session c) (gc_tool c) k (Some q) (Some (gc_permission c)) v s)).
    g_pattern h = g_pattern g \<and> g_rule h = g_rule g"
proof -
  let ?m = "session_grants (gc_session c) s" and ?k = "grant_key sha256 (gc_tool c) (Some q) (Some (gc_permission c))"
  let ?s = "add_grant sha256 now uuid (gc_session c) (gc_tool c) k (Some q) (Some (gc_permission c)) v s"
  obtain i where i: "(i, g) \<in> set ?m" using assms(2) by (auto simp: list_grants_def)
  show ?thesis
  proof (cases "renews v (map_of ?m ?k)")
    case True
    then obtain h where h: "session_grants (gc_session c) ?s = AList.update ?k h ?m" "g_pattern h = Some q" "g_rule h = Some (gc_permission c)"
      by (simp add: add_grant_def Let_def session_grants_def update_conv')
    from update_keeps [OF i, of ?k h] show ?thesis
    proof
      assume "(i, g) \<in> set (AList.update ?k h ?m)"
      then show ?thesis using h(1) by (force simp: list_grants_def)
    next
      assume "map_of ?m ?k = Some (snd (i, g))"
      then have "g_pattern g = Some q \<and> g_rule g = Some (gc_permission c)" using assms(1) by (auto simp: key_clear_def holds_grant_def)
      moreover have "(?k, h) \<in> set (AList.update ?k h ?m)" by (rule map_of_SomeD) (simp add: update_conv')
      ultimately show ?thesis using h by (force simp: list_grants_def)
    qed
  next
    case False
    then have "session_grants (gc_session c) ?s = ?m" by (simp add: add_grant_def Let_def session_grants_def update_conv')
    with assms(2) show ?thesis by (auto simp: list_grants_def)
  qed
qed

lemma add_keeps_granted:
  assumes "key_clear sha256 c s q" and "granted c s p"
  shows "granted c (add_grant sha256 now uuid (gc_session c) (gc_tool c) k (Some q) (Some (gc_permission c)) v s) p"
  using assms(2) add_keeps_grants [OF assms(1)]
  by (auto simp: granted_def has_grant_def list_ex_iff split: option.splits if_splits) (metis option.inject)+

lemma pending_keeps_granted:
  "inj_on (\<lambda>x. take 24 (sha256 x)) (set ps) \<Longrightarrow> \<forall>x \<in> set ps. key_clear sha256 c s x \<Longrightarrow> granted c s p \<Longrightarrow>
     granted c (add_pending sha256 now uuid c ps s) p"
proof (induction ps arbitrary: s)
  case (Cons q ps)
  show ?case
    using add_clear [OF Cons.prems(1,2)] add_keeps_granted Cons.prems by (simp add: Cons.IH)
qed simp

text \<open>An approval for the session settles the same call from then on: once the user approved it for the session, the gate
  neither asks about it nor refuses it again, as long as the digests tell its patterns apart from each other and from
  what the session was granted before.\<close>

theorem session_approval_settles:
  assumes "gate_rules rules c s = Inr waiting"
    and "inj_on (\<lambda>p. take 24 (sha256 p)) (set waiting)" and "\<forall>p \<in> set waiting. key_clear sha256 c s p"
    and "ruleGate sha256 now uuid rules c None False (UserApproves True) s = (v, s')"
  shows "gate_rules rules c s' \<in> {Inl None, Inl (Some (Approved False None)), Inl (Some (Approved True (Some FromGrant)))}"
proof -
  have s': "s' = add_pending sha256 now uuid c waiting s" using assms(1,4) by (simp add: ruleGate_def)
  from assms(1) have none: "List.find (\<lambda>p. gate_action rules c p = Some Deny) (gc_patterns c) = None" and w: "waiting = pending rules c s"
    by (auto simp: gate_rules_def Let_def split: option.splits if_splits)
  have one: "granted c s' p" if "p \<in> set waiting" for p
    unfolding s' by (rule holds_granted, rule add_pending_holds) (use assms(2,3) that in \<open>simp_all add: insert_absorb\<close>)
  have two: "granted c s' p" if "granted c s p" for p
    using pending_keeps_granted [OF assms(2,3) that] s' by simp
  have "p \<notin> set (pending rules c s')" for p
  proof
    assume p: "p \<in> set (pending rules c s')"
    then have "\<not> granted c s' p" by (simp add: pending_def)
    with two have "\<not> granted c s p" by blast
    with p have "p \<in> set waiting" by (simp add: w pending_def)
    with one p show False by (simp add: pending_def)
  qed
  then have "pending rules c s' = []" by (metis last_in_set)
  with none show ?thesis by (simp add: gate_rules_def)
qed

definition ask_rm :: "rule list" where
  "ask_rm = [\<lparr>ru_permission = ''bash'', ru_pattern = ''*'', ru_action = AskFirst\<rparr>]"

definition rm_gate :: gate_call where
  "rm_gate = (shell_gate [''rm x''])\<lparr>gc_full := False\<rparr>"

lemma session_approval_settles_witness:
  "gate_rules ask_rm rm_gate (snd (ruleGate (\<lambda>p. p) 0 None ask_rm rm_gate None False (UserApproves True) createGrantStore)) \<in>
     {Inl None, Inl (Some (Approved False None)), Inl (Some (Approved True (Some FromGrant)))}"
proof (rule session_approval_settles [where waiting = "[''rm x'']"])
  show "gate_rules ask_rm rm_gate createGrantStore = Inr [''rm x'']" by code_simp
  show "\<forall>p \<in> set [''rm x'']. key_clear (\<lambda>p. p) rm_gate createGrantStore p"
    by (simp add: key_clear_def session_grants_def createGrantStore_def)
  show "ruleGate (\<lambda>p. p) 0 None ask_rm rm_gate None False (UserApproves True) createGrantStore =
     (fst (ruleGate (\<lambda>p. p) 0 None ask_rm rm_gate None False (UserApproves True) createGrantStore),
      snd (ruleGate (\<lambda>p. p) 0 None ask_rm rm_gate None False (UserApproves True) createGrantStore))" by simp
qed simp

end
