(* ===== verification/Approval.thy ===== *)
theory Approval
  imports Permissions
begin

text \<open>
  "Always allow" (\<open>packages/protocol/src/approval-rule.ts\<close>): the rules an approval prompt offers to save for a pending
  request, and the configuration with them saved. What they then decide is what the permission rules of the engine
  (\<open>Permissions\<close>) make of them.
\<close>

section \<open>Programs\<close>

text \<open>Permissions that guard something else; programs that run what they are given; interpreters; git subcommands that run
  what they are given; programs with subcommands; and subcommands that run a script.\<close>

definition GUARDS :: "string list" where
  "GUARDS =
    [''external_directory'', ''doom_loop'']"

definition OPEN_ENDED :: "string list" where
  "OPEN_ENDED =
    [''sh'', ''bash'', ''zsh'', ''fish'', ''dash'', ''ksh'', ''csh'', ''tcsh'', ''eval'', ''exec'', ''source'', ''.'',
     ''sudo'', ''doas'', ''su'', ''env'', ''xargs'', ''nohup'', ''time'', ''timeout'', ''command'', ''builtin'', ''nice'',
     ''watch'', ''find'', ''rm'', ''dd'', ''mkfs'', ''chmod'', ''chown'', ''ssh'', ''scp'', ''sftp'', ''rsync'', ''nc'',
     ''ncat'', ''curl'', ''wget'', ''node'', ''deno'', ''python'', ''python3'', ''ruby'', ''perl'', ''php'', ''npx'',
     ''bunx'', ''pnpx'', ''osascript'', ''open'', ''awk'', ''sed'', ''tee'', ''kill'', ''pkill'', ''killall'', ''rg'',
     ''fd'', ''fdfind'', ''parallel'', ''tar'', ''zip'', ''busybox'', ''stdbuf'', ''flock'', ''chroot'', ''unshare'',
     ''setsid'', ''ionice'', ''taskset'', ''tmux'', ''screen'', ''expect'', ''script'', ''strace'', ''ltrace'', ''gdb'',
     ''lldb'', ''vim'', ''vi'', ''nvim'', ''view'', ''ex'', ''ed'', ''emacs'', ''nano'', ''less'', ''more'', ''man'',
     ''tsx'', ''ts-node'', ''lua'', ''luajit'', ''Rscript'', ''R'', ''java'', ''jshell'', ''swift'', ''tclsh'', ''pwsh'',
     ''powershell'', ''gawk'', ''mawk'', ''nawk'', ''pkexec'', ''runuser'', ''at'', ''batch'', ''xterm'', ''cmd'']"

definition GIT_OPEN_ENDED :: "string list" where
  "GIT_OPEN_ENDED =
    [''config'', ''rebase'', ''bisect'', ''submodule'', ''filter-branch'', ''difftool'', ''mergetool'', ''daemon'',
     ''instaweb'', ''credential'', ''hook'', ''fast-import'', ''send-email'', ''request-pull'']"

definition SUBCOMMANDS :: "string list" where
  "SUBCOMMANDS =
    [''git'', ''npm'', ''pnpm'', ''yarn'', ''bun'', ''cargo'', ''go'', ''docker'', ''kubectl'', ''gh'', ''make'', ''pip'',
     ''pip3'', ''uv'', ''poetry'', ''brew'', ''systemctl'', ''terraform'', ''helm'', ''dotnet'', ''gradle'', ''mvn'']"

definition RUNNERS :: "string list" where
  "RUNNERS =
    [''run'', ''exec'', ''dlx'', ''x'', ''r'', ''create'']"

definition INTERPRETERS :: "string list" where
  "INTERPRETERS = [''python'', ''pypy'', ''ruby'', ''perl'', ''php'', ''node'', ''nodejs'', ''lua'', ''luajit'', ''tclsh'', ''bash'', ''zsh'', ''sh'', ''dash'', ''ksh'']"

definition MAX_SEGMENTS :: nat where "MAX_SEGMENTS = 4"

definition to_lower :: "char \<Rightarrow> char" where
  "to_lower c = (if 65 \<le> (of_char c :: nat) \<and> (of_char c :: nat) \<le> 90 then char_of ((of_char c :: nat) + 32) else c)"

text \<open>\<open>/^(?:python|...)[\d.]*$/i\<close>\<close>

definition VERSIONED_INTERPRETER :: "string \<Rightarrow> bool" where
  "VERSIONED_INTERPRETER w \<longleftrightarrow>
     list_ex (\<lambda>i. map to_lower (take (length i) w) = i \<and> list_all (\<lambda>c. digit c \<or> c = CHR ''.'') (drop (length i) w)) INTERPRETERS"

text \<open>\<open>/[`$]|<\(|>\(|[\r\n]/\<close>\<close>

fun DYNAMIC :: "string \<Rightarrow> bool" where
  "DYNAMIC [] \<longleftrightarrow> False"
| "DYNAMIC (c # cs) \<longleftrightarrow>
     c = BACKTICK \<or> c = CHR ''$'' \<or> c = NEWLINE \<or> c = CHR 0x0D
     \<or> ((c = CHR ''<'' \<or> c = CHR ''>'') \<and> starts (CHR ''('') cs) \<or> DYNAMIC cs"

text \<open>\<open>/^[A-Za-z][\w:.-]*$/\<close> and \<open>/^[A-Za-z][\w.+-]*$/\<close>\<close>

definition subcommand_char :: "char \<Rightarrow> bool" where
  "subcommand_char c \<longleftrightarrow> ident_char c \<or> c \<in> set '':.-''"

definition program_char :: "char \<Rightarrow> bool" where
  "program_char c \<longleftrightarrow> ident_char c \<or> c \<in> set ''.+-''"

definition PLAIN_WORD :: "string \<Rightarrow> bool" where
  "PLAIN_WORD w \<longleftrightarrow> w \<noteq> [] \<and> letter (hd w) \<and> list_all subcommand_char (tl w)"

definition program_word :: "string \<Rightarrow> bool" where
  "program_word w \<longleftrightarrow> w \<noteq> [] \<and> letter (hd w) \<and> list_all program_char (tl w)"

text \<open>\<open>split(/\s+/).filter(Boolean)\<close>\<close>

fun words_from :: "string \<Rightarrow> string \<Rightarrow> string list" where
  "words_from cur [] = (if cur = [] then [] else [cur])"
| "words_from cur (c # cs) =
     (if js_space c then (if cur = [] then words_from [] cs else cur # words_from [] cs) else words_from (cur @ [c]) cs)"

definition words_of :: "string \<Rightarrow> string list" where
  "words_of s = words_from [] s"

section \<open>The offer\<close>

definition prefixOf :: "string \<Rightarrow> string option" where
  "prefixOf command =
     (if DYNAMIC command then None
      else case words_of (js_trim command) of
        [] \<Rightarrow> None
      | head # rest \<Rightarrow>
          if \<not> program_word head \<or> head \<in> set OPEN_ENDED \<or> VERSIONED_INTERPRETER head then None
          else if head \<notin> set SUBCOMMANDS then Some (head @ '' *'')
          else case rest of
            [] \<Rightarrow> None
          | subc # after \<Rightarrow>
              if \<not> PLAIN_WORD subc \<or> (head = ''git'' \<and> subc \<in> set GIT_OPEN_ENDED) then None
              else if subc \<notin> set RUNNERS then Some (head @ '' '' @ subc @ '' *'')
              else case after of
                [] \<Rightarrow> None
              | target # _ \<Rightarrow> if PLAIN_WORD target then Some (head @ '' '' @ subc @ '' '' @ target @ '' *'') else None)"

type_synonym approval_rule = "string \<times> string" \<comment> \<open>permission, pattern\<close>

record offer =
  of_label :: string
  of_rules :: "approval_rule list"

datatype request_permission = ReadRequest | WriteRequest | ExecuteRequest

text \<open>The prefixes of a pipeline, once each; none when one command has no safe prefix.\<close>

fun prefixes_of :: "string list \<Rightarrow> string list \<Rightarrow> string list option" where
  "prefixes_of [] found = Some found"
| "prefixes_of (p # ps) found = (case prefixOf p of None \<Rightarrow> None | Some x \<Rightarrow> prefixes_of ps (set_add x found))"

definition ticked :: "string \<Rightarrow> string" where
  "ticked s = [BACKTICK] @ s @ [BACKTICK]"

definition approvalRuleOffer :: "string \<Rightarrow> request_permission option \<Rightarrow> string list \<Rightarrow> offer option" where
  "approvalRuleOffer name permission patterns =
     (if name = [] \<or> name \<in> set GUARDS then None
      else if name = ''bash'' then
        (if patterns = [] \<or> MAX_SEGMENTS < length patterns then None
         else case prefixes_of patterns [] of
           None \<Rightarrow> None
         | Some ps \<Rightarrow> Some \<lparr>of_label = js_join '' and '' (map ticked ps), of_rules = map (\<lambda>p. (''bash'', p)) ps\<rparr>)
      else if permission = Some ExecuteRequest then None
      else Some \<lparr>of_label = (if name = ''edit'' then ''edits'' else ticked name), of_rules = [(name, ''*'')]\<rparr>)"

section \<open>Saving it\<close>

definition config_entries :: "permission_config option \<Rightarrow> (string \<times> permission_value) list" where
  "config_entries config =
     (case config of None \<Rightarrow> [] | Some (Everything a) \<Rightarrow> [(''*'', Blanket a)] | Some (PerTool es) \<Rightarrow> es)"

definition saved_patterns :: "permission_value option \<Rightarrow> string \<Rightarrow> (string \<times> action) list" where
  "saved_patterns current pattern =
     AList.delete pattern (case current of None \<Rightarrow> [] | Some (Blanket a) \<Rightarrow> [(''*'', a)] | Some (Patterns ps) \<Rightarrow> ps) @ [(pattern, Allow)]"

definition save_rule :: "approval_rule \<Rightarrow> (string \<times> permission_value) list \<Rightarrow> (string \<times> permission_value) list" where
  "save_rule r entries =
     (let current = map_of entries (fst r) in
      if current = Some (Blanket Allow) then entries
      else AList.update (fst r) (Patterns (saved_patterns current (snd r))) entries)"

definition withApprovalRules :: "permission_config option \<Rightarrow> approval_rule list \<Rightarrow> permission_config" where
  "withApprovalRules config rules = PerTool (fold save_rule rules (config_entries config))"

section \<open>What a prefix matches\<close>

definition plain_char :: "char \<Rightarrow> bool" where
  "plain_char c \<longleftrightarrow> c \<noteq> CHR ''*'' \<and> c \<noteq> CHR ''?'' \<and> c \<noteq> CHR ''/'' \<and> c \<noteq> BACKSLASH"

lemma plain_chars: "subcommand_char c \<or> program_char c \<or> letter c \<Longrightarrow> plain_char c"
proof (rule ccontr)
  assume c: "subcommand_char c \<or> program_char c \<or> letter c" and "\<not> plain_char c"
  then have "c \<in> {CHR ''*'', CHR ''?'', CHR ''/'', CHR 0x5C}" by (auto simp: plain_char_def BACKSLASH_def)
  with c show False by (elim insertE; simp add: subcommand_char_def program_char_def ident_char_def letter_def digit_def)
qed

lemma plain_words:
  "PLAIN_WORD w \<Longrightarrow> list_all plain_char w" "program_word w \<Longrightarrow> list_all plain_char w"
  by (cases w; simp add: PLAIN_WORD_def program_word_def list_all_iff plain_chars)+

lemma glob_star [simp]: "glob ''*'' v"
  by (induction v) auto

lemma glob_literal: "list_all plain_char ps \<Longrightarrow> glob (ps @ qs) v \<longleftrightarrow> (\<exists>w. v = ps @ w \<and> glob qs w)"
  by (induction ps arbitrary: v) (auto simp: plain_char_def split: list.splits)

lemma slashes_plain: "list_all plain_char p \<Longrightarrow> slashes p = p"
  by (induction p) (auto simp: slashes_def plain_char_def)

lemma slashes_append_plain: "list_all plain_char p \<Longrightarrow> slashes v = p @ w \<longleftrightarrow> (\<exists>u. v = p @ u \<and> slashes u = w)"
proof (induction p arbitrary: v)
  case (Cons c p)
  show ?case
  proof (cases v)
    case (Cons d u)
    then show ?thesis using Cons.prems Cons.IH [of u] \<open>list_all plain_char (c # p)\<close>
      by (auto simp: slashes_def plain_char_def Cons.IH)
  qed (simp add: slashes_def)
qed simp

lemma match_prefix:
  assumes "list_all plain_char p"
  shows "permissionMatch v (p @ '' *'') \<longleftrightarrow> v = p \<or> (\<exists>r. v = p @ '' '' @ r)"
proof -
  have "slashes (p @ '' *'') = p @ '' *''" using slashes_plain [OF assms] by (simp add: slashes_def BACKSLASH_def)
  moreover have "ends_with '' *'' (p @ '' *'')" by (simp add: ends_with_def)
  ultimately have "permissionMatch v (p @ '' *'') \<longleftrightarrow> glob p (slashes v) \<or> glob (p @ '' *'') (slashes v)"
    by (simp add: permissionMatch_def Let_def)
  also have "glob p (slashes v) \<longleftrightarrow> slashes v = p @ []" using glob_literal [OF assms, of "[]"] by simp
  also have "\<dots> \<longleftrightarrow> v = p" unfolding slashes_append_plain [OF assms] by (simp add: slashes_def)
  also have "glob (p @ '' *'') (slashes v) \<longleftrightarrow> (\<exists>r. v = p @ '' '' @ r)"
  proof -
    have sp: "list_all plain_char '' ''" by code_simp
    have s: "slashes u = '' '' @ w \<longleftrightarrow> (\<exists>r. u = '' '' @ r \<and> slashes r = w)" for u w by (rule slashes_append_plain [OF sp])
    have "glob (p @ '' *'') (slashes v) \<longleftrightarrow> (\<exists>w. slashes v = p @ w \<and> (\<exists>r. w = '' '' @ r))"
      unfolding glob_literal [OF assms, of "'' *''"] using glob_literal [OF sp, of "''*''"] by (simp del: glob.simps)
    also have "\<dots> \<longleftrightarrow> (\<exists>w u. v = p @ u \<and> slashes u = w \<and> (\<exists>r. w = '' '' @ r))" unfolding slashes_append_plain [OF assms] by blast
    also have "\<dots> \<longleftrightarrow> (\<exists>r. v = p @ '' '' @ r)" using s by blast
    finally show ?thesis .
  qed
  finally show ?thesis by blast
qed

text \<open>The words a prefix is made of.\<close>

lemma prefix_words:
  assumes "prefixOf command = Some p"
  obtains ws n where "ws = take n (words_of (js_trim command))" "ws \<noteq> []" "p = js_join '' '' ws @ '' *''"
    "list_all plain_char (js_join '' '' ws)" "letter (hd p)" "hd ws \<notin> set OPEN_ENDED" "\<not> VERSIONED_INTERPRETER (hd ws)"
    "hd ws \<in> set SUBCOMMANDS \<longrightarrow> 2 \<le> length ws"
proof -
  have sp: "plain_char (CHR '' '')" by code_simp
  obtain head rest where h: "words_of (js_trim command) = head # rest" "program_word head" "head \<notin> set OPEN_ENDED" "\<not> VERSIONED_INTERPRETER head"
    using assms by (auto simp: prefixOf_def split: if_splits list.splits)
  then have l: "letter (hd (head @ x))" for x by (cases head) (auto simp: program_word_def)
  from assms h consider "head \<notin> set SUBCOMMANDS" "p = head @ '' *''"
    | s after where "rest = s # after" "PLAIN_WORD s" "p = head @ '' '' @ s @ '' *''"
    | s t after where "rest = s # t # after" "PLAIN_WORD s" "PLAIN_WORD t" "p = head @ '' '' @ s @ '' '' @ t @ '' *''"
    by (auto simp: prefixOf_def split: if_splits list.splits)
  then show thesis
  proof cases
    case 1
    then show thesis using that [of "[head]" 1] h l plain_words(2) [OF h(2)] by simp
  next
    case 2
    then show thesis using that [of "[head, s]" 2] h l plain_words(2) [OF h(2)] plain_words(1) [of s] sp by simp
  next
    case 3
    then show thesis using that [of "[head, s, t]" 3] h l plain_words(2) [OF h(2)] plain_words(1) [of s] plain_words(1) [of t] sp by simp
  qed
qed



section \<open>What a saved rule decides\<close>

text \<open>A value of the configuration that allows what a pattern matches: \<open>allow\<close> for the whole tool, or the pattern's own
  allow with nothing but allows behind it.\<close>

definition allowing :: "string \<Rightarrow> permission_value \<Rightarrow> bool" where
  "allowing p val \<longleftrightarrow> val = Blanket Allow \<or> (\<exists>as bs. val = Patterns (as @ (p, Allow) # bs) \<and> list_all (\<lambda>x. snd x = Allow) bs)"

definition saved_value :: "string \<Rightarrow> permission_value option \<Rightarrow> permission_value" where
  "saved_value p current = (if current = Some (Blanket Allow) then Blanket Allow else Patterns (saved_patterns current p))"

lemma allowing_saved: "allowing p (saved_value p current)"
  by (force simp: allowing_def saved_value_def saved_patterns_def)

lemma delete_append: "AList.delete k (xs @ ys) = AList.delete k xs @ AList.delete k ys"
  by (induction xs) auto

lemma all_delete: "list_all P xs \<Longrightarrow> list_all P (AList.delete k xs)"
  by (induction xs) auto

lemma allowing_kept:
  assumes "allowing q val"
  shows "allowing q (saved_value p (Some val))"
proof -
  consider "p = q" | "val = Blanket Allow" | "p \<noteq> q" "val \<noteq> Blanket Allow" by blast
  then show ?thesis
  proof cases
    case 1
    then show ?thesis using allowing_saved [of q "Some val"] by simp
  next
    case 2
    then show ?thesis by (simp add: saved_value_def allowing_def)
  next
    case 3
    with assms obtain as bs where v: "val = Patterns (as @ (q, Allow) # bs)" "list_all (\<lambda>x. snd x = Allow) bs" by (auto simp: allowing_def)
    with 3 have "saved_patterns (Some val) p = AList.delete p as @ (q, Allow) # (AList.delete p bs @ [(p, Allow)])"
      by (simp add: saved_patterns_def delete_append)
    moreover have "list_all (\<lambda>x. snd x = Allow) (AList.delete p bs @ [(p, Allow)])" using v(2) all_delete [of "\<lambda>x. snd x = Allow"] by simp
    ultimately show ?thesis using 3(2) unfolding allowing_def saved_value_def by (simp del: list_all_append) blast
  qed
qed

lemma update_in: "k \<notin> fst ` set as \<Longrightarrow> AList.update k w (as @ (k, v) # bs) = as @ (k, w) # bs"
  by (induction as) auto

lemma update_out: "k \<notin> fst ` set es \<Longrightarrow> AList.update k w es = es @ [(k, w)]"
  by (induction es) auto

lemma map_of_in: "k \<notin> fst ` set as \<Longrightarrow> map_of (as @ (k, v) # bs) k = Some v"
  by (induction as) auto

lemma save_in: "k \<notin> fst ` set as \<Longrightarrow> save_rule (k, p) (as @ (k, v) # bs) = as @ (k, saved_value p (Some v)) # bs"
  using map_of_in [of k as v bs] update_in [of k as _ v bs] by (simp add: save_rule_def saved_value_def)

lemma save_out: "k \<notin> fst ` set es \<Longrightarrow> save_rule (k, p) es = es @ [(k, saved_value p None)]"
proof -
  assume "k \<notin> fst ` set es"
  moreover from this have "map_of es k = None" by (simp add: map_of_eq_None_iff)
  ultimately show ?thesis using update_out [of k es] by (simp add: save_rule_def saved_value_def)
qed

lemma save_many:
  "k \<notin> fst ` set as \<Longrightarrow> \<exists>w. fold save_rule (map (\<lambda>p. (k, p)) ps) (as @ (k, v) # bs) = as @ (k, w) # bs \<and>
     (\<forall>q. allowing q v \<or> q \<in> set ps \<longrightarrow> allowing q w)"
proof (induction ps arbitrary: v)
  case (Cons p ps)
  from Cons.IH [OF Cons.prems, of "saved_value p (Some v)"] obtain w where
    "fold save_rule (map (\<lambda>p. (k, p)) ps) (as @ (k, saved_value p (Some v)) # bs) = as @ (k, w) # bs"
    "\<forall>q. allowing q (saved_value p (Some v)) \<or> q \<in> set ps \<longrightarrow> allowing q w" by blast
  then show ?case using Cons.prems allowing_kept allowing_saved by (auto simp: save_in)
qed auto

lemma split_key: "k \<in> fst ` set es \<Longrightarrow> \<exists>as v bs. es = as @ (k, v) # bs \<and> k \<notin> fst ` set as"
proof (induction es)
  case (Cons e es)
  show ?case
  proof (cases "fst e = k")
    case True
    then have "e # es = [] @ (k, snd e) # es" by auto
    then show ?thesis by (metis empty_iff image_empty list.set(1))
  next
    case False
    with Cons obtain as v bs where "es = as @ (k, v) # bs" "k \<notin> fst ` set as" by auto
    then have "e # es = (e # as) @ (k, v) # bs" "k \<notin> fst ` set (e # as)" using False by auto
    then show ?thesis by blast
  qed
qed simp

lemma from_key: "k \<notin> fst ` set as \<Longrightarrow> dropWhile (\<lambda>e. fst e \<noteq> k) (as @ (k, v) # bs) = (k, v) # bs"
  by (induction as) auto

lemma save_all:
  assumes "ps \<noteq> []" and "\<forall>e \<in> set (tl (dropWhile (\<lambda>e. fst e \<noteq> k) es)). Q (fst e)"
  shows "\<exists>as w bs. fold save_rule (map (\<lambda>p. (k, p)) ps) es = as @ (k, w) # bs \<and> (\<forall>q \<in> set ps. allowing q w) \<and> (\<forall>e \<in> set bs. Q (fst e))"
proof (cases "k \<in> fst ` set es")
  case True
  then obtain as v bs where es: "es = as @ (k, v) # bs" "k \<notin> fst ` set as"
    using split_key by metis
  have "\<forall>e \<in> set bs. Q (fst e)" using assms(2) from_key [OF es(2), of v bs] es(1) by simp
  with save_many [OF es(2), of ps v bs] es(1) show ?thesis by blast
next
  case False
  obtain p qs where ps: "ps = p # qs" using assms(1) by (cases ps) auto
  from save_many [OF False, of qs "saved_value p None" "[]"] obtain w where
    w: "fold save_rule (map (\<lambda>p. (k, p)) qs) (es @ [(k, saved_value p None)]) = es @ [(k, w)]"
    "\<forall>q. allowing q (saved_value p None) \<or> q \<in> set qs \<longrightarrow> allowing q w" by blast
  then have "\<forall>q \<in> set ps. allowing q w" using allowing_saved ps by auto
  moreover have "fold save_rule (map (\<lambda>p. (k, p)) ps) es = es @ (k, w) # []" using w(1) ps save_out [OF False, of p] by simp
  ultimately show ?thesis by fastforce
qed

lemma matching_allowed:
  assumes "rule_matches perm v r" and "ru_action r = Allow" and "\<forall>x \<in> set bs. ru_action x = Allow"
  shows "decided_action perm (as @ r # bs) v = Some Allow"
proof -
  have "matchingRule perm v (as @ [r]) = Some r" using assms(1) by (simp add: matchingRule_def)
  then have "matchingRule perm v (as @ r # bs) = (case matchingRule perm v bs of None \<Rightarrow> Some r | Some x \<Rightarrow> Some x)"
    using matchingRule_append [of perm v "as @ [r]" bs] by (simp split: option.split)
  then show ?thesis using assms(2,3) matchingRule_SomeD [of perm v bs] by (auto simp: decided_action_def split: option.splits)
qed

lemma value_rules_name: "x \<in> set (value_rules home e) \<Longrightarrow> ru_permission x = permissionName (fst e)"
  by (auto simp: value_rules_def split: permission_value.splits)

lemma allowing_decides:
  assumes "allowing p w" and "permissionMatch v p" and "letter (hd p)" and "\<forall>e \<in> set bs. \<not> permissionMatch ''bash'' (permissionName (fst e))"
  shows "decided_action ''bash'' (configRules home (Some (PerTool (as @ (''bash'', w) # bs)))) v = Some Allow"
proof -
  let ?val = "value_rules home (''bash'', w)"
  have name: "permissionName ''bash'' = ''bash''" by code_simp
  have self: "permissionMatch ''bash'' ''bash''" by code_simp
  have any: "permissionMatch v ''*''" by (simp add: permissionMatch_def slashes_def ends_with_def BACKSLASH_def del: glob.simps)
  have expand: "expandPermissionPath home p = p"
    using assms(3) by (cases p) (auto simp: expandPermissionPath_def starts_with_def letter_def)
  have "\<exists>as' r bs'. ?val = as' @ r # bs' \<and> rule_matches ''bash'' v r \<and> ru_action r = Allow \<and> (\<forall>x \<in> set bs'. ru_action x = Allow)"
  proof (cases "w = Blanket Allow")
    case True
    then have "?val = [] @ \<lparr>ru_permission = ''bash'', ru_pattern = ''*'', ru_action = Allow\<rparr> # []" by (simp add: value_rules_def name)
    moreover have "rule_matches ''bash'' v \<lparr>ru_permission = ''bash'', ru_pattern = ''*'', ru_action = Allow\<rparr>" using self any by (simp add: rule_matches_def)
    ultimately show ?thesis by (intro exI conjI) auto
  next
    case False
    let ?rule = "\<lambda>(q, a). \<lparr>ru_permission = ''bash'', ru_pattern = expandPermissionPath home q, ru_action = a\<rparr>"
    from False assms(1) obtain xs ys where w: "w = Patterns (xs @ (p, Allow) # ys)" "list_all (\<lambda>x. snd x = Allow) ys" by (auto simp: allowing_def)
    then have "?val = map ?rule xs @ ?rule (p, Allow) # map ?rule ys" by (simp add: value_rules_def name)
    moreover have "rule_matches ''bash'' v (?rule (p, Allow))" using self assms(2) expand by (simp add: rule_matches_def)
    moreover have "\<forall>x \<in> set (map ?rule ys). ru_action x = Allow" using w(2) by (auto simp: list_all_iff)
    ultimately show ?thesis by fastforce
  qed
  then obtain as' r bs' where val: "?val = as' @ r # bs'" "rule_matches ''bash'' v r" "ru_action r = Allow" "\<forall>x \<in> set bs'. ru_action x = Allow" by blast
  let ?late = "concat (map (value_rules home) bs)"
  have "\<not> rule_matches ''bash'' v x" if "x \<in> set ?late" for x
    using that assms(4) value_rules_name by (fastforce simp: rule_matches_def)
  then have "matchingRule ''bash'' v ?late = None" by (simp add: matchingRule_None)
  then have "decided_action ''bash'' (configRules home (Some (PerTool (as @ (''bash'', w) # bs)))) v =
      decided_action ''bash'' (concat (map (value_rules home) as) @ ?val) v"
    by (simp add: configRules_def decided_action_def matchingRule_append)
  also have "\<dots> = Some Allow" unfolding val(1) append_assoc [symmetric] by (rule matching_allowed [OF val(2-4)])
  finally show ?thesis .
qed

text \<open>A command as \<open>permissionPatterns\<close> gives it, its words without white space joined by single spaces, reads back as
  its words.\<close>

definition solid :: "string \<Rightarrow> bool" where
  "solid w \<longleftrightarrow> w \<noteq> [] \<and> list_all (\<lambda>c. \<not> js_space c) w"

lemma words_from_solid: "list_all (\<lambda>c. \<not> js_space c) w \<Longrightarrow> words_from cur (w @ rest) = words_from (cur @ w) rest"
  by (induction w arbitrary: cur) auto

lemma words_from_join: "ws \<noteq> [] \<Longrightarrow> list_all solid ws \<Longrightarrow> words_from [] (js_join '' '' ws) = ws"
proof (induction ws rule: induct_list012)
  case (2 w)
  then show ?case using words_from_solid [of w "[]" "[]"] by (simp add: solid_def)
next
  case (3 w x ws)
  have "js_space (CHR '' '')" by code_simp
  then show ?case using 3 words_from_solid [of w "[]" "'' '' @ js_join '' '' (x # ws)"] by (simp add: solid_def)
qed simp

lemma join_ends:
  "ws \<noteq> [] \<Longrightarrow> list_all solid ws \<Longrightarrow> js_join '' '' ws \<noteq> [] \<and> \<not> js_space (hd (js_join '' '' ws)) \<and> \<not> js_space (last (js_join '' '' ws))"
proof (induction ws rule: induct_list012)
  case (2 w)
  then show ?case by (simp add: solid_def list_all_iff)
next
  case (3 w x ws)
  then show ?case by (cases w) (auto simp: solid_def)
qed simp

lemma trim_id: "s \<noteq> [] \<Longrightarrow> \<not> js_space (hd s) \<Longrightarrow> \<not> js_space (last s) \<Longrightarrow> js_trim s = s"
proof -
  assume a: "s \<noteq> []" "\<not> js_space (hd s)" "\<not> js_space (last s)"
  then have "dropWhile js_space s = s" by (cases s) auto
  moreover have "dropWhile js_space (rev s) = rev s" using a by (cases s rule: rev_cases) auto
  ultimately show ?thesis by (simp add: js_trim_def)
qed

lemma read_back: "ws \<noteq> [] \<Longrightarrow> list_all solid ws \<Longrightarrow> words_of (js_trim (js_join '' '' ws)) = ws"
  using join_ends [of ws] trim_id [of "js_join '' '' ws"] words_from_join [of ws] by (simp add: words_of_def)

lemma join_take: "0 < n \<Longrightarrow> ws \<noteq> [] \<Longrightarrow> js_join '' '' ws = js_join '' '' (take n ws) \<or> (\<exists>r. js_join '' '' ws = js_join '' '' (take n ws) @ '' '' @ r)"
proof (induction ws arbitrary: n rule: induct_list012)
  case (3 w x ws)
  show ?case
  proof (cases "n = 1")
    case False
    then obtain m where n: "n = Suc (Suc m)" using 3(3) by (metis One_nat_def Suc_pred less_SucE gr0_conv_Suc)
    then show ?thesis using 3(2) [of "Suc m"] by auto
  qed simp
qed auto

lemma prefix_covers:
  assumes "prefixOf (js_join '' '' ws) = Some p" and "ws \<noteq> []" and "list_all solid ws"
  shows "permissionMatch (js_join '' '' ws) p" and "letter (hd p)"
proof -
  obtain xs n where x: "xs = take n ws" "xs \<noteq> []" "p = js_join '' '' xs @ '' *''" "list_all plain_char (js_join '' '' xs)" "letter (hd p)"
    using prefix_words [OF assms(1)] read_back [OF assms(2,3)] by metis
  then show "letter (hd p)" by simp
  have "0 < n" using x(1,2) by (cases n) auto
  then show "permissionMatch (js_join '' '' ws) p" using join_take [of n ws] assms(2) x match_prefix by metis
qed

lemma prefixes_of_all:
  "prefixes_of ps found = Some qs \<Longrightarrow> set found \<subseteq> set qs \<and> (\<forall>c \<in> set ps. \<exists>p \<in> set qs. prefixOf c = Some p)"
  by (induction ps arbitrary: found) (fastforce split: option.splits)+

text \<open>What "always allow" saves is in force: once the rules offered for a pending shell call are saved into a configuration
  in which no later entry speaks of shell commands, every command of that call is allowed.\<close>

theorem saved_rules_allow:
  assumes "approvalRuleOffer ''bash'' perm patterns = Some off" and "js_join '' '' ws \<in> set patterns" and "ws \<noteq> []" and "list_all solid ws"
    and "\<forall>e \<in> set (tl (dropWhile (\<lambda>e. fst e \<noteq> ''bash'') (config_entries config))). \<not> permissionMatch ''bash'' (permissionName (fst e))"
  shows "decided_action ''bash'' (configRules home (Some (withApprovalRules config (of_rules off)))) (js_join '' '' ws) = Some Allow"
proof -
  obtain ps where ps: "prefixes_of patterns [] = Some ps" "of_rules off = map (\<lambda>p. (''bash'', p)) ps"
    using assms(1) by (auto simp: approvalRuleOffer_def split: if_splits option.splits)
  obtain p where p: "p \<in> set ps" "prefixOf (js_join '' '' ws) = Some p" using prefixes_of_all [OF ps(1)] assms(2) by blast
  then have "ps \<noteq> []" by auto
  from save_all [OF this assms(5)] obtain as w bs where
    s: "fold save_rule (of_rules off) (config_entries config) = as @ (''bash'', w) # bs" "allowing p w"
       "\<forall>e \<in> set bs. \<not> permissionMatch ''bash'' (permissionName (fst e))" using p(1) ps(2) by auto
  show ?thesis unfolding withApprovalRules_def s(1)
    by (rule allowing_decides [OF s(2) prefix_covers [OF p(2) assms(3,4)] s(3)])
qed

lemma saved_rules_allow_witness:
  "decided_action ''bash'' (configRules ''/'' (Some (withApprovalRules (Some (PerTool [(''*'', Blanket AskFirst), (''bash'', Patterns [(''git *'', Deny)])]))
     [(''bash'', ''git status *'')]))) ''git status -s'' = Some Allow"
proof -
  let ?config = "Some (PerTool [(''*'', Blanket AskFirst), (''bash'', Patterns [(''git *'', Deny)])])"
  have 1: "approvalRuleOffer ''bash'' None [''git status -s''] =
      Some \<lparr>of_label = ticked ''git status *'', of_rules = [(''bash'', ''git status *'')]\<rparr>" by code_simp
  have 2: "\<forall>e \<in> set (tl (dropWhile (\<lambda>e. fst e \<noteq> ''bash'') (config_entries ?config))). \<not> permissionMatch ''bash'' (permissionName (fst e))" by code_simp
  have 3: "list_all solid [''git'', ''status'', ''-s'']" by code_simp
  show ?thesis using saved_rules_allow [OF 1 _ _ 3 2, of "''/''"] by simp
qed

text \<open>A blanket entry behind the tool's own wins over what was saved: with \<open>bash\<close> and then everything asked first, the
  rule saved for \<open>git status\<close> changes nothing, and the command is asked about again.\<close>

theorem saved_rule_is_shadowed:
  "decided_action ''bash'' (configRules ''/'' (Some (withApprovalRules
     (Some (PerTool [(''bash'', Blanket AskFirst), (''*'', Blanket AskFirst)])) [(''bash'', ''git status *'')]))) ''git status'' = Some AskFirst"
  by code_simp

end
