(* ===== verification/WfTypes.thy ===== *)
theory WfTypes
  imports Result Json
begin

text \<open>
  The data of the workflow engine, from \<open>packages/protocol/src/workflows.ts\<close>: what a plan says, what a task and a run
  record. An object with one property (\<open>WorkflowWorkspacePolicy\<close>) is its property. An absent flag is the flag
  \<open>False\<close> where the code only asks whether it is set. A model choice, a JSON schema and the arguments of a script are
  handed on unread. Times are milliseconds; identifiers and titles are strings.
\<close>

type_synonym slug = string
type_synonym model_choice = json

section \<open>Policies, budgets and routing\<close>

datatype run_permission = PPlan | PAsk | PSmart | PEdits | PFull

fun WORKFLOW_PERMISSION_RANK :: "run_permission \<Rightarrow> nat" where
  "WORKFLOW_PERMISSION_RANK PPlan = 0"
| "WORKFLOW_PERMISSION_RANK PAsk = 1"
| "WORKFLOW_PERMISSION_RANK PSmart = 2"
| "WORKFLOW_PERMISSION_RANK PEdits = 3"
| "WORKFLOW_PERMISSION_RANK PFull = 4"

datatype policy_mode = PolNormal | PolReportOnly | PolCustom

record policy =
  pol_mode :: policy_mode
  pol_allowedTools :: "string list option"
  pol_approvalRequiredFor :: "string list option"
  pol_approvedActions :: "string list option"
  pol_allowEdits :: "bool option"
  pol_allowMutatingCommands :: "bool option"
  pol_allowExternalSend :: "bool option"

datatype workspace = InPlace | ReadOnlyWorkspace | PerRunWorktree | PerLoopWorktree

record task_budget =
  bud_maxTurns :: "nat option"
  bud_maxRuntimeMs :: "nat option"
  bud_maxTokens :: "nat option"
  bud_maxCost :: "rat option"
  bud_maxChildren :: "nat option"
  bud_maxDepth :: "nat option"

record task_usage =
  us_input :: nat
  us_output :: nat
  us_calls :: nat
  us_children :: nat
  us_costMicros :: "nat option"
  us_costUnknown :: bool

record execution =
  ex_directory :: string
  ex_workspace :: workspace
  ex_permission :: run_permission
  ex_readOnly :: bool
  ex_model :: "model_choice option"
  ex_engine :: "string option"
  ex_agent :: "string option"
  ex_permissions :: "policy option"
  ex_budget :: "task_budget option"

section \<open>The tasks of a plan\<close>

record selector =
  sel_taskId :: slug
  sel_path :: "string option"
  sel_projection :: "string option"
  sel_required :: "bool option"

datatype output_contract = OutText "nat option" | OutJson "json option" | OutArtifact string "json option" | OutNone

datatype barrier = BarrierAll | BarrierQuorum nat | BarrierBestEffort | BarrierCondition string

record phase =
  ph_id :: slug
  ph_title :: string
  ph_tasks :: "slug list"
  ph_barrier :: barrier

datatype failure_class = FTransient | FEnvironment | FPolicy | FQuality | FBudget | FUserInput | FTerminal

record retry_policy =
  rp_maxAttempts :: nat
  rp_backoffMs :: int
  rp_retryOn :: "failure_class list"

datatype task_mode = ReadMode | WorkMode

text \<open>An agent task is the template of a map task (the same schema without \<open>kind\<close>, \<open>id\<close> and \<open>needs\<close>) with an id and needs.\<close>

record task_template =
  ag_title :: string
  ag_prompt :: string
  ag_mode :: task_mode
  ag_timeoutMinutes :: "nat option"
  ag_retry :: "retry_policy option"
  ag_model :: "model_choice option"
  ag_agent :: "string option"
  ag_permission :: "run_permission option"
  ag_permissions :: "policy option"
  ag_workspace :: "workspace option"
  ag_budget :: "task_budget option"
  ag_engine :: "string option"
  ag_allowedTools :: "string list option"
  ag_inputs :: "selector list option"
  ag_output :: "output_contract option"

record agent_spec = task_template +
  ag_id :: slug
  ag_needs :: "slug list"

record check_spec =
  ck_id :: slug
  ck_title :: string
  ck_command :: string
  ck_needs :: "slug list"
  ck_timeoutSeconds :: "nat option"
  ck_workspace :: "workspace option"
  ck_retry :: "retry_policy option"

record human_spec =
  hu_id :: slug
  hu_title :: string
  hu_prompt :: string
  hu_needs :: "slug list"

record map_spec =
  mp_id :: slug
  mp_title :: string
  mp_needs :: "slug list"
  mp_source :: selector
  mp_maxItems :: nat
  mp_taskTemplate :: task_template
  mp_workspace :: "workspace option"

datatype task_spec = AgentSpec agent_spec | CheckSpec check_spec | MapSpec map_spec | HumanSpec human_spec

datatype task_kind = KAgent | KCheck | KMap | KHuman

fun spec_kind :: "task_spec \<Rightarrow> task_kind" where
  "spec_kind (AgentSpec a) = KAgent"
| "spec_kind (CheckSpec k) = KCheck"
| "spec_kind (MapSpec p) = KMap"
| "spec_kind (HumanSpec h) = KHuman"

fun spec_id :: "task_spec \<Rightarrow> slug" where
  "spec_id (AgentSpec a) = ag_id a"
| "spec_id (CheckSpec k) = ck_id k"
| "spec_id (MapSpec p) = mp_id p"
| "spec_id (HumanSpec h) = hu_id h"

fun spec_title :: "task_spec \<Rightarrow> string" where
  "spec_title (AgentSpec a) = ag_title a"
| "spec_title (CheckSpec k) = ck_title k"
| "spec_title (MapSpec p) = mp_title p"
| "spec_title (HumanSpec h) = hu_title h"

fun spec_needs :: "task_spec \<Rightarrow> slug list" where
  "spec_needs (AgentSpec a) = ag_needs a"
| "spec_needs (CheckSpec k) = ck_needs k"
| "spec_needs (MapSpec p) = mp_needs p"
| "spec_needs (HumanSpec h) = hu_needs h"

section \<open>The contract\<close>

record criterion =
  cr_id :: slug
  cr_text :: string
  cr_required :: bool
  cr_owners :: "slug list option"

record contract_check =
  cc_id :: slug
  cc_command :: string
  cc_timeoutSeconds :: "nat option"
  cc_covers :: "slug list option"
  cc_owners :: "slug list option"

datatype audit_mode = AuditAuto | AuditIndependent | AuditNone

record contract =
  ct_criteria :: "criterion list"
  ct_checks :: "contract_check list"
  ct_audit :: audit_mode
  ct_maxRepairs :: nat
  ct_maxAudits :: nat

datatype contract_ref = Inline contract | Named string

section \<open>The plan\<close>

record script_budget =
  sb_agents :: "nat option"
  sb_tokens :: "nat option"
  sb_usd :: "rat option"
  sb_minutes :: "nat option"

record script_meta =
  sm_name :: string
  sm_description :: string
  sm_phases :: "(string \<times> string option) list"
  sm_budget :: "script_budget option"
  sm_contract :: "contract_ref option"
  sm_permission :: "run_permission option"
  sm_maxConcurrent :: "nat option"

datatype script_origin = OModel | OFile | OInline | OUser | OProject | OPackage

record wf_script =
  sc_source :: string
  sc_hash :: string
  sc_meta :: script_meta
  sc_args :: "json option"
  sc_origin :: script_origin

datatype overlap_policy = OverlapSkip | OverlapQueue | OverlapReplace

record retention =
  rt_maxArtifacts :: "nat option"
  rt_maxAgeMs :: "int option"
  rt_maxBytes :: "nat option"

record plan =
  pl_name :: string
  pl_objective :: string
  pl_tasks :: "task_spec list"
  pl_contract :: "contract_ref option"
  pl_permission :: "run_permission option"
  pl_maxConcurrent :: "nat option"
  pl_maxRuntimeMinutes :: "nat option"
  pl_model :: "model_choice option"
  pl_agent :: "string option"
  pl_permissions :: "policy option"
  pl_workspace :: "workspace option"
  pl_budget :: "task_budget option"
  pl_phases :: "phase list option"
  pl_overlapPolicy :: "overlap_policy option"
  pl_overlapKey :: "string option"
  pl_retention :: "retention option"
  pl_script :: "wf_script option"

section \<open>The record of a run\<close>

datatype task_state = TPending | TRunning | TNeedsInput | TDone | TFailed | TSkipped | TStopped

datatype run_state =
  RRunning | RNeedsInput | RVerifying | RPaused | RCompleted | RFailed | RBlocked | RStopped | RQueued

datatype output_kind = OkText | OkJson | OkArtifact

record task_output =
  ou_kind :: output_kind
  ou_value :: string
  ou_artifactKind :: "string option"

record wtask =
  tk_id :: slug
  tk_title :: string
  tk_kind :: task_kind
  tk_mode :: "task_mode option"
  tk_needs :: "slug list"
  tk_state :: task_state
  tk_attempt :: nat
  tk_retryAt :: "int option"
  tk_sessionId :: "string option"
  tk_startedAt :: "int option"
  tk_endedAt :: "int option"
  tk_result :: "string option"
  tk_reason :: "string option"
  tk_feedback :: "string option"
  tk_latest :: "string option"
  tk_execution :: "execution option"
  tk_usage :: "task_usage option"
  tk_phaseId :: "slug option"
  tk_mapParentId :: "slug option"
  tk_mapIndex :: "nat option"
  tk_mapItem :: "string option"
  tk_mapRetired :: bool
  tk_output :: "task_output option"
  tk_expanded :: bool
  tk_label :: "string option"
  tk_phase :: "string option"
  tk_engine :: "string option"
  tk_modelId :: "string option"
  tk_isolated :: bool

datatype gate_status = GPass | GFail

record gate =
  ga_id :: string
  ga_status :: gate_status
  ga_detail :: "string option"

datatype criterion_status = CPass | CFail | CUnsure | CUnverified

datatype judged_by = ByCheck | ByAudit | ByNobody

datatype audit_status = SaidPass | SaidFail | SaidUnsure

record audit_entry =
  ae_id :: slug
  ae_status :: audit_status
  ae_evidence :: string

record audit_outcome =
  ao_verdict :: gate_status
  ao_sessionId :: string
  ao_inspections :: nat
  ao_workspaceChanged :: bool
  ao_findings :: string
  ao_criteria :: "audit_entry list"

record verification =
  ve_round :: nat
  ve_at :: int
  ve_gates :: "gate list"
  ve_audit :: "audit_outcome option"
  ve_criteria :: "(slug \<times> criterion_status \<times> judged_by) list"
  ve_accepted :: bool

datatype script_host = HostIdle | HostRunning | HostDone | HostFailed

record script_state =
  ss_host :: script_host
  ss_calls :: nat
  ss_phase :: "string option"
  ss_logCount :: nat
  ss_logs :: "string list"
  ss_result :: "string option"
  ss_error :: "string option"
  ss_budget :: "script_budget option"
  ss_starts :: nat

record run =
  rn_workflowId :: string
  rn_name :: string
  rn_directory :: string
  rn_objective :: string
  rn_plan :: plan
  rn_planHash :: string
  rn_permission :: run_permission
  rn_state :: run_state
  rn_reason :: "string option"
  rn_rootSessionId :: string
  rn_originSessionId :: "string option"
  rn_tasks :: "wtask list"
  rn_verifications :: "verification list"
  rn_repairs :: nat
  rn_override :: "(string \<times> int) option"
  rn_startedAt :: int
  rn_endedAt :: "int option"
  rn_updatedAt :: int
  rn_queuedBehind :: "string option"
  rn_script :: "script_state option"

section \<open>Texts\<close>

text \<open>The decimal digits of a number in a template string.\<close>

fun nat_text :: "nat \<Rightarrow> string" where
  "nat_text n = (if n < 10 then [char_of (48 + n)] else nat_text (n div 10) @ [char_of (48 + n mod 10)])"

declare nat_text.simps [simp del]

text \<open>
  The ellipsis U+2026. A \<^typ>\<open>char\<close> has eight bits, so one code unit that the texts do not use otherwise stands for it;
  only its length matters.
\<close>

definition ELLIPSIS :: char where
  "ELLIPSIS = CHR 0x85"

definition clip :: "string \<Rightarrow> nat \<Rightarrow> string" where
  "clip s n = (if length s > n then take (n - 1) s @ [ELLIPSIS] else s)"

lemma clip_bound: "0 < n \<Longrightarrow> length (clip s n) \<le> n"
  by (simp add: clip_def)

text \<open>\<open>text.split(separator)\<close> for one character: always at least one part.\<close>

fun js_split :: "char \<Rightarrow> string \<Rightarrow> string list" where
  "js_split c [] = [[]]"
| "js_split c (x # xs) =
     (if x = c then [] # js_split c xs
      else case js_split c xs of [] \<Rightarrow> [[x]] | p # ps \<Rightarrow> (x # p) # ps)"

definition lower :: "string \<Rightarrow> string" where
  "lower = map (\<lambda>ch. if 65 \<le> (of_char ch :: nat) \<and> of_char ch \<le> (90 :: nat) then char_of (of_char ch + 32 :: nat) else ch)"

section \<open>Plain records\<close>

text \<open>A plan, a task and a run without any option, for the examples the theorems are applied to.\<close>

definition plain_plan :: "task_spec list \<Rightarrow> plan" where
  "plain_plan specs = \<lparr>pl_name = ''plan'', pl_objective = ''objective'', pl_tasks = specs, pl_contract = None, pl_permission = None,
     pl_maxConcurrent = None, pl_maxRuntimeMinutes = None, pl_model = None, pl_agent = None, pl_permissions = None,
     pl_workspace = None, pl_budget = None, pl_phases = None, pl_overlapPolicy = None, pl_overlapKey = None, pl_retention = None,
     pl_script = None\<rparr>"

definition plain_agent :: "slug \<Rightarrow> slug list \<Rightarrow> agent_spec" where
  "plain_agent i ns = \<lparr>ag_title = i, ag_prompt = ''prompt'', ag_mode = WorkMode, ag_timeoutMinutes = None, ag_retry = None,
     ag_model = None, ag_agent = None, ag_permission = None, ag_permissions = None, ag_workspace = None, ag_budget = None,
     ag_engine = None, ag_allowedTools = None, ag_inputs = None, ag_output = None, ag_id = i, ag_needs = ns\<rparr>"

definition plain_policy :: "policy_mode \<Rightarrow> policy" where
  "plain_policy m = \<lparr>pol_mode = m, pol_allowedTools = None, pol_approvalRequiredFor = None, pol_approvedActions = None,
     pol_allowEdits = None, pol_allowMutatingCommands = None, pol_allowExternalSend = None\<rparr>"

definition plain_run :: "plan \<Rightarrow> run" where
  "plain_run p = \<lparr>rn_workflowId = ''wf'', rn_name = pl_name p, rn_directory = ''/work'', rn_objective = pl_objective p, rn_plan = p,
     rn_planHash = ''hash'', rn_permission = PEdits, rn_state = RRunning, rn_reason = None, rn_rootSessionId = ''ses'',
     rn_originSessionId = None, rn_tasks = [], rn_verifications = [], rn_repairs = 0, rn_override = None, rn_startedAt = 0,
     rn_endedAt = None, rn_updatedAt = 0, rn_queuedBehind = None, rn_script = None\<rparr>"

end
