(* ===== verification/Composition.thy ===== *)
theory Composition
  imports WfTypes
begin

text \<open>
  How the tasks of a workflow compose (\<open>packages/workflows/src/composition.ts\<close>): phases and their barriers, the spec behind
  a task, the value a selector takes out of another task's output, and the expansion of a map task into its children.
  What the functions read beside the run is the record \<open>wf_env\<close>: the registry of script specs with its loaders, \<open>JSON.parse\<close>
  and the decimal text of a number. \<open>JSON.stringify\<close> is written out for the values that have no number.
\<close>

text \<open>\<open>scriptSpecs\<close> and \<open>scriptSpecLoaders\<close>, with the two library functions.\<close>

type_synonym registry = "(string \<times> (slug \<times> task_spec) list) list"

record wf_env =
  we_registry :: registry
  we_loaders :: "(string \<Rightarrow> slug \<Rightarrow> task_spec option) list"
  we_parse :: "string \<Rightarrow> json option"
  we_number :: "rat \<Rightarrow> string"

section \<open>JSON text\<close>

definition hex_digit :: "nat \<Rightarrow> char" where
  "hex_digit n = (if n < 10 then char_of (48 + n) else char_of (87 + n))"

definition json_char :: "char \<Rightarrow> string" where
  "json_char c =
     (if c = CHR 0x22 then [CHR 0x5C, CHR 0x22] else if c = CHR 0x5C then [CHR 0x5C, CHR 0x5C]
      else if c = CHR 0x08 then [CHR 0x5C, CHR 0x62] else if c = CHR 0x0C then [CHR 0x5C, CHR 0x66]
      else if c = CHR 0x0A then [CHR 0x5C, CHR 0x6E] else if c = CHR 0x0D then [CHR 0x5C, CHR 0x72]
      else if c = CHR 0x09 then [CHR 0x5C, CHR 0x74]
      else if (of_char c :: nat) < 32
        then [CHR 0x5C, CHR 0x75, CHR 0x30, CHR 0x30, hex_digit (of_char c div 16), hex_digit (of_char c mod 16)]
      else [c])"

definition json_string :: "string \<Rightarrow> string" where
  "json_string s = [CHR 0x22] @ concat (map json_char s) @ [CHR 0x22]"

fun stringify :: "(rat \<Rightarrow> string) \<Rightarrow> json \<Rightarrow> string" where
  "stringify num JNull = ''null''"
| "stringify num (JBool b) = (if b then ''true'' else ''false'')"
| "stringify num (JNum q) = num q"
| "stringify num (JStr s) = json_string s"
| "stringify num (JArr xs) = ''['' @ js_join '','' (map (stringify num) xs) @ '']''"
| "stringify num (JObj kvs) = ''{'' @ js_join '','' (map (\<lambda>(k, v). json_string k @ '':'' @ stringify num v) kvs) @ ''}''"

text \<open>\<open>new TextEncoder().encode(text).byteLength\<close> for code units below 256.\<close>

definition utf8_length :: "string \<Rightarrow> nat" where
  "utf8_length s = sum_list (map (\<lambda>c. if (of_char c :: nat) < 128 then 1 else 2) s)"

section \<open>Phases and barriers\<close>

definition taskTerminal :: "wtask \<Rightarrow> bool" where
  "taskTerminal t \<longleftrightarrow> tk_state t \<in> {TDone, TFailed, TSkipped, TStopped}"

definition met_condition :: "string \<Rightarrow> bool" where
  "met_condition expression \<longleftrightarrow> lower (js_trim expression) \<in> {''true'', ''all'', ''completed''}"

definition phase_members :: "wtask list \<Rightarrow> phase \<Rightarrow> wtask list" where
  "phase_members ts ph = filter (\<lambda>t. tk_id t \<in> set (ph_tasks ph)) ts"

definition barrier_met :: "wtask list \<Rightarrow> phase \<Rightarrow> bool" where
  "barrier_met all ph =
     (let ts = phase_members all ph; finished = length (filter (\<lambda>t. tk_state t = TDone) ts) in
      case ph_barrier ph of
        BarrierQuorum n \<Rightarrow> n \<le> finished
      | BarrierBestEffort \<Rightarrow> ts \<noteq> [] \<and> list_all taskTerminal ts
      | BarrierCondition e \<Rightarrow> met_condition e \<and> ts \<noteq> [] \<and> finished = length ts
      | BarrierAll \<Rightarrow> ts \<noteq> [] \<and> finished = length ts)"

definition barrierSatisfied :: "run \<Rightarrow> phase \<Rightarrow> bool" where
  "barrierSatisfied r ph = barrier_met (rn_tasks r) ph"

text \<open>\<open>task.mapParentId ?? task.id\<close>: the task of the plan a task of the run belongs to.\<close>

definition plan_id :: "wtask \<Rightarrow> slug" where
  "plan_id t = orelse (tk_mapParentId t) (tk_id t)"

definition parent_expanding :: "run \<Rightarrow> slug \<Rightarrow> bool" where
  "parent_expanding r pid \<longleftrightarrow> (\<exists>p \<in> set (rn_tasks r). tk_id p = pid \<and> tk_state p = TRunning \<and> tk_expanded p)"

definition phaseReady :: "run \<Rightarrow> wtask \<Rightarrow> bool" where
  "phaseReady r t =
     (if (case truthy (tk_mapParentId t) of Some pid \<Rightarrow> \<not> parent_expanding r pid | None \<Rightarrow> False) \<or> tk_mapRetired t then False
      else case pl_phases (rn_plan r) of
        None \<Rightarrow> True
      | Some phs \<Rightarrow>
          (case find_index (\<lambda>ph. plan_id t \<in> set (ph_tasks ph)) phs of
             None \<Rightarrow> False
           | Some i \<Rightarrow> list_all (barrierSatisfied r) (take i phs)))"

section \<open>The specs of script tasks\<close>

definition registry_set :: "string \<Rightarrow> task_spec \<Rightarrow> registry \<Rightarrow> registry" where
  "registry_set wid s reg = AList.update wid (AList.update (spec_id s) s (orelse (map_of reg wid) [])) reg"

fun first_load :: "(string \<Rightarrow> slug \<Rightarrow> task_spec option) list \<Rightarrow> string \<Rightarrow> slug \<Rightarrow> task_spec option" where
  "first_load [] wid tid = None"
| "first_load (l # ls) wid tid = (case l wid tid of Some s \<Rightarrow> Some s | None \<Rightarrow> first_load ls wid tid)"

text \<open>\<open>get\<close> answers from the registry and asks the loaders otherwise; what a loader answers is kept.\<close>

definition registry_known :: "registry \<Rightarrow> string \<Rightarrow> slug \<Rightarrow> task_spec option" where
  "registry_known reg wid tid = (case map_of reg wid of None \<Rightarrow> None | Some specs \<Rightarrow> map_of specs tid)"

definition registry_get ::
  "(string \<Rightarrow> slug \<Rightarrow> task_spec option) list \<Rightarrow> string \<Rightarrow> slug \<Rightarrow> registry \<Rightarrow> task_spec option \<times> registry" where
  "registry_get ls wid tid reg =
     (case registry_known reg wid tid of
        Some s \<Rightarrow> (Some s, reg)
      | None \<Rightarrow> (case first_load ls wid tid of
          Some s \<Rightarrow> (Some s, registry_set wid s reg)
        | None \<Rightarrow> (None, reg)))"

definition registry_clear :: "string \<Rightarrow> registry \<Rightarrow> registry" where
  "registry_clear wid reg = AList.delete wid reg"

definition addLoader ::
  "(string \<Rightarrow> slug \<Rightarrow> task_spec option) \<Rightarrow> (string \<Rightarrow> slug \<Rightarrow> task_spec option) list \<Rightarrow> (string \<Rightarrow> slug \<Rightarrow> task_spec option) list" where
  "addLoader l ls = ls @ [l]"

lemma registry_known_set:
  "registry_known (registry_set wid s reg) w t = (if w = wid \<and> t = spec_id s then Some s else registry_known reg w t)"
  by (auto simp: registry_known_def registry_set_def update_conv' orelse_def split: option.splits)

text \<open>Keeping what a loader answered changes no later answer, as long as a loader answers with the spec it was asked for.\<close>

lemma registry_cache:
  assumes "\<And>w t s. first_load ls w t = Some s \<Longrightarrow> spec_id s = t"
  shows "fst (registry_get ls w t (snd (registry_get ls wid tid reg))) = fst (registry_get ls w t reg)"
  using assms by (auto simp: registry_get_def registry_known_set split: option.splits)

section \<open>The spec behind a task\<close>

definition to_agent :: "task_template \<Rightarrow> slug \<Rightarrow> slug list \<Rightarrow> workspace option \<Rightarrow> agent_spec" where
  "to_agent tpl i ns outer =
     task_template.extend (tpl\<lparr>ag_workspace := (if ag_workspace tpl = None then outer else ag_workspace tpl)\<rparr>) (agent_spec.fields i ns)"

definition find_spec :: "slug \<Rightarrow> task_spec list \<Rightarrow> task_spec option" where
  "find_spec i specs = find (\<lambda>s. spec_id s = i) specs"

definition find_task :: "slug \<Rightarrow> wtask list \<Rightarrow> wtask option" where
  "find_task i ts = find (\<lambda>t. tk_id t = i) ts"

definition child_spec :: "run \<Rightarrow> slug \<Rightarrow> task_spec option" where
  "child_spec r tid =
     (case find_task tid (rn_tasks r) of
        None \<Rightarrow> None
      | Some t \<Rightarrow>
          (case Option.bind (tk_mapParentId t) (\<lambda>p. find_spec p (pl_tasks (rn_plan r))) of
             Some (MapSpec p) \<Rightarrow>
               (if tk_mapIndex t = None then None
                else Some (AgentSpec (to_agent (mp_taskTemplate p\<lparr>ag_title := tk_title t\<rparr>) tid (mp_needs p) (mp_workspace p))))
           | _ \<Rightarrow> None))"

definition taskSpec :: "wf_env \<Rightarrow> run \<Rightarrow> slug \<Rightarrow> task_spec option" where
  "taskSpec env r tid =
     (case find_spec tid (pl_tasks (rn_plan r)) of
        Some s \<Rightarrow> Some s
      | None \<Rightarrow>
          (if pl_script (rn_plan r) \<noteq> None
           then fst (registry_get (we_loaders env) (rn_workflowId r) tid (we_registry env))
           else child_spec r tid))"

definition agentSpecs :: "plan \<Rightarrow> agent_spec list" where
  "agentSpecs p = concat (map (\<lambda>s. case s of
       AgentSpec a \<Rightarrow> [a]
     | MapSpec q \<Rightarrow> [to_agent (mp_taskTemplate q) (mp_id q) (mp_needs q) (mp_workspace q)]
     | _ \<Rightarrow> []) (pl_tasks p))"

section \<open>Selecting from an output\<close>

definition outputValue :: "wf_env \<Rightarrow> task_output \<Rightarrow> string + json" where
  "outputValue env ou =
     (if ou_kind ou = OkText then Inr (JStr (ou_value ou))
      else case we_parse env (ou_value ou) of
        Some v \<Rightarrow> Inr v
      | None \<Rightarrow> if ou_kind ou = OkArtifact then Inr (JStr (ou_value ou)) else Inl ''stored output is not valid JSON'')"

text \<open>\<open>.replace(/~1/g, "/").replace(/~0/g, "~")\<close>\<close>

fun unescape :: "char \<Rightarrow> char \<Rightarrow> string \<Rightarrow> string" where
  "unescape d by (x # y # s) = (if x = CHR 0x7E \<and> y = d then by # unescape d by s else x # unescape d by (y # s))"
| "unescape d by s = s"

definition selection_parts :: "string \<Rightarrow> string list" where
  "selection_parts s =
     (case s of
        CHR 0x2F # rest \<Rightarrow> map (\<lambda>p. unescape (CHR 0x30) (CHR 0x7E) (unescape (CHR 0x31) (CHR 0x2F) p)) (js_split (CHR 0x2F) rest)
      | CHR 0x24 # CHR 0x2E # rest \<Rightarrow> js_split (CHR 0x2E) rest
      | CHR 0x24 # rest \<Rightarrow> js_split (CHR 0x2E) rest
      | _ \<Rightarrow> js_split (CHR 0x2E) s)"

definition UNSAFE_PARTS :: "string set" where
  "UNSAFE_PARTS = {''__proto__'', ''prototype'', ''constructor''}"

text \<open>\<open>Object.hasOwn(value, part)\<close> and \<open>value[part]\<close>: an array owns its indices and its length.\<close>

definition own_prop :: "json \<Rightarrow> string \<Rightarrow> json option" where
  "own_prop v k =
     (case v of
        JObj kvs \<Rightarrow> map_of kvs k
      | JArr xs \<Rightarrow> (if k = ''length'' then Some (JNum (of_nat (length xs)))
                    else map_of (zip (map nat_text [0..<length xs]) xs) k)
      | _ \<Rightarrow> None)"

text \<open>Along the parts of a selection; \<open>Inr None\<close> is the early \<open>undefined\<close> of an optional selector.\<close>

fun walk_parts :: "selector \<Rightarrow> string \<Rightarrow> string list \<Rightarrow> json \<Rightarrow> string + json option" where
  "walk_parts sel whole [] v = Inr (Some v)"
| "walk_parts sel whole (p # ps) v =
     (if p \<in> UNSAFE_PARTS then Inl ''unsafe output selector''
      else case own_prop v p of
        Some w \<Rightarrow> walk_parts sel whole ps w
      | None \<Rightarrow> if sel_required sel = Some False then Inr None
                else Inl (''output '' @ sel_taskId sel @ '' has no '' @ whole))"

definition walk_selection :: "selector \<Rightarrow> string option \<Rightarrow> json \<Rightarrow> string + json option" where
  "walk_selection sel selection v =
     (case selection of
        None \<Rightarrow> Inr (Some v)
      | Some s \<Rightarrow> if s = [] \<or> s = [CHR 0x24] then Inr (Some v) else walk_parts sel s (selection_parts s) v)"

definition selectOutput :: "wf_env \<Rightarrow> run \<Rightarrow> selector \<Rightarrow> string + json option" where
  "selectOutput env r sel =
     (case Option.bind (find_task (sel_taskId sel) (rn_tasks r)) (\<lambda>p. if tk_state p = TDone then tk_output p else None) of
        None \<Rightarrow> if sel_required sel = Some False then Inr None else Inl (''missing output from '' @ sel_taskId sel)
      | Some ou \<Rightarrow>
          bindE (outputValue env ou) (\<lambda>v.
          bindE (walk_selection sel (sel_path sel) v) (\<lambda>w.
            case w of None \<Rightarrow> Inr None | Some v' \<Rightarrow> walk_selection sel (sel_projection sel) v')))"

section \<open>Map tasks\<close>

definition compositionBytes :: "wtask list \<Rightarrow> nat" where
  "compositionBytes ts = utf8_length (stringify (\<lambda>_. []) (JArr (map (\<lambda>t.
     JArr [JStr (case tk_output t of None \<Rightarrow> [] | Some ou \<Rightarrow> ou_value ou), JStr (orelse (tk_mapItem t) [])]) ts)))"

definition MAX_COMPOSITION_BYTES :: nat where
  "MAX_COMPOSITION_BYTES = 24 * 1024"

definition is_child_of :: "slug \<Rightarrow> wtask \<Rightarrow> bool" where
  "is_child_of pid t \<longleftrightarrow> tk_mapParentId t = Some pid"

definition child_id :: "slug \<Rightarrow> nat \<Rightarrow> slug" where
  "child_id pid index = pid @ ''-'' @ nat_text (index + 1)"

definition map_child :: "map_spec \<Rightarrow> wtask \<Rightarrow> wtask list \<Rightarrow> nat \<Rightarrow> string \<Rightarrow> wtask" where
  "map_child spec t previous index item =
     (let former = find (\<lambda>c. tk_mapIndex c = Some index) previous;
          tpl = mp_taskTemplate spec
      in \<lparr>tk_id = child_id (tk_id t) index, tk_title = take 80 (ag_title tpl @ '' '' @ nat_text (index + 1)), tk_kind = KAgent,
          tk_mode = Some (ag_mode tpl), tk_needs = mp_needs spec, tk_state = TPending,
          tk_attempt = (case former of None \<Rightarrow> 0 | Some c \<Rightarrow> tk_attempt c), tk_retryAt = None,
          tk_sessionId = Option.bind former (\<lambda>c. truthy (tk_sessionId c)), tk_startedAt = None, tk_endedAt = None, tk_result = None,
          tk_reason = None, tk_feedback = None, tk_latest = None, tk_execution = Option.bind former tk_execution,
          tk_usage = Option.bind former tk_usage, tk_phaseId = truthy (tk_phaseId t), tk_mapParentId = Some (tk_id t),
          tk_mapIndex = Some index, tk_mapItem = Some item, tk_mapRetired = False, tk_output = None, tk_expanded = False,
          tk_label = None, tk_phase = None, tk_engine = None, tk_modelId = None, tk_isolated = False\<rparr>)"

definition checked_children :: "run \<Rightarrow> wtask \<Rightarrow> wtask list \<Rightarrow> string + wtask list" where
  "checked_children r t children =
     (if list_ex (\<lambda>c. 8000 < length (orelse (tk_mapItem c) [])) children then Inl ''map item exceeds 8000 characters''
      else if MAX_COMPOSITION_BYTES < compositionBytes (filter (\<lambda>c. \<not> is_child_of (tk_id t) c) (rn_tasks r) @ children)
        then Inl ''workflow output/item storage exceeds 24 KiB''
      else Inr children)"

definition expandedTasks :: "wf_env \<Rightarrow> run \<Rightarrow> wtask \<Rightarrow> string + wtask list" where
  "expandedTasks env r t =
     (case taskSpec env r (tk_id t) of
        Some (MapSpec spec) \<Rightarrow>
          bindE (selectOutput env r (mp_source spec)) (\<lambda>v.
            case v of
              Some (JArr items) \<Rightarrow>
                (if mp_maxItems spec < length items
                 then Inl (''map '' @ tk_id t @ '': '' @ nat_text (length items) @ '' items exceed maxItems '' @ nat_text (mp_maxItems spec))
                 else
                   let previous = filter (is_child_of (tk_id t)) (rn_tasks r) in
                   if 32 < length (rn_tasks r) + (length items - length previous) then Inl ''map expansion exceeds 32 tasks''
                   else checked_children r t
                     (map (\<lambda>(index, item). map_child spec t previous index (stringify (we_number env) item)) (enumerate 0 items)))
            | _ \<Rightarrow> Inl (''map '' @ tk_id t @ '': source must be a JSON array''))
      | _ \<Rightarrow> Inl ''not a map task'')"

lemma expandedTasks_shape:
  assumes "expandedTasks env r t = Inr cs"
  obtains spec where "taskSpec env r (tk_id t) = Some (MapSpec spec)" "length cs \<le> mp_maxItems spec"
    "\<forall>c \<in> set cs. tk_state c = TPending \<and> tk_needs c = mp_needs spec \<and> tk_mapParentId c = Some (tk_id t) \<and> tk_kind c = KAgent"
    "map tk_id cs = map (child_id (tk_id t)) [0..<length cs]"
proof -
  have chk: "checked_children r t xs = Inr ys \<Longrightarrow> ys = xs" for xs ys
    by (simp add: checked_children_def split: if_splits)
  from assms obtain spec where s: "taskSpec env r (tk_id t) = Some (MapSpec spec)"
    by (auto simp: expandedTasks_def split: option.splits task_spec.splits)
  from assms obtain w where w: "selectOutput env r (mp_source spec) = Inr w"
    by (cases "selectOutput env r (mp_source spec)") (simp_all add: expandedTasks_def s)
  with assms obtain items where "w = Some (JArr items)"
    by (cases w) (auto simp: expandedTasks_def s split: json.splits)
  with assms w have "checked_children r t (map (\<lambda>(i, x). map_child spec t (filter (is_child_of (tk_id t)) (rn_tasks r)) i (stringify (we_number env) x)) (enumerate 0 items)) = Inr cs"
    and items: "length items \<le> mp_maxItems spec"
    by (simp_all add: expandedTasks_def s Let_def split: if_splits)
  from chk[OF this(1)] obtain v where cs: "cs = map (\<lambda>(i, x). map_child spec t v i (stringify (we_number env) x)) (enumerate 0 items)"
    by blast
  show thesis
  proof (rule that[OF s])
    show "length cs \<le> mp_maxItems spec"
      using items by (simp add: cs)
    show "\<forall>c \<in> set cs. tk_state c = TPending \<and> tk_needs c = mp_needs spec \<and> tk_mapParentId c = Some (tk_id t) \<and> tk_kind c = KAgent"
      by (auto simp: cs map_child_def Let_def)
  next
    show "map tk_id cs = map (child_id (tk_id t)) [0..<length cs]"
      by (rule nth_equalityI) (auto simp: cs map_child_def Let_def nth_enumerate_eq)
  qed
qed

end
