(* ===== verification/Checks.thy ===== *)
theory Checks
  imports WfTypes
begin

text \<open>
  Host checks (\<open>packages/loops/src/checks.ts\<close>): a command line as the argument vector of one plain program, or why it is
  refused, and a round of checks. The program that runs a command is a parameter: what the \<open>i\<close>-th call answers, and
  whether the round was aborted before it.
\<close>

definition FORBIDDEN :: "char set" where
  "FORBIDDEN = set '';&|<>'' \<union> {CHR 0x60, CHR 0x24, CHR 0x0A, CHR 0x0D, CHR 0x5C}"

definition forbidden_char :: "char \<Rightarrow> bool" where
  "forbidden_char c \<longleftrightarrow> c \<in> FORBIDDEN"

datatype check_error = EmptyCheck | ShellSyntax string | UnclosedQuote string

definition is_quote :: "char \<Rightarrow> bool" where
  "is_quote c \<longleftrightarrow> c = CHR 0x22 \<or> c = CHR 0x27"

definition push_word :: "string option \<Rightarrow> string list \<Rightarrow> string list" where
  "push_word word argv = (case word of None \<Rightarrow> argv | Some w \<Rightarrow> argv @ [w])"

text \<open>The loop over the characters: the open quote, the word so far and the words before it.\<close>

fun check_loop :: "char option \<Rightarrow> string option \<Rightarrow> string list \<Rightarrow> string \<Rightarrow> char option \<times> string option \<times> string list" where
  "check_loop q w argv [] = (q, w, argv)"
| "check_loop (Some d) w argv (c # cs) =
     (if c = d then check_loop None w argv cs else check_loop (Some d) (Some (orelse w [] @ [c])) argv cs)"
| "check_loop None w argv (c # cs) =
     (if is_quote c then check_loop (Some c) (Some (orelse w [])) argv cs
      else if js_space c then check_loop None None (push_word w argv) cs
      else check_loop None (Some (orelse w [] @ [c])) argv cs)"

definition parseCheck :: "string \<Rightarrow> check_error + string list" where
  "parseCheck command =
     (let text = js_trim command in
      if text = [] then Inl EmptyCheck
      else if list_ex forbidden_char text then Inl (ShellSyntax (take 80 text))
      else case check_loop None None [] text of
        (Some d, w, argv) \<Rightarrow> Inl (UnclosedQuote (take 80 text))
      | (None, w, argv) \<Rightarrow> Inr (push_word w argv))"

definition checkProblems :: "string list \<Rightarrow> check_error list" where
  "checkProblems checks = List.map_filter (\<lambda>c. case parseCheck c of Inl e \<Rightarrow> Some e | Inr _ \<Rightarrow> None) checks"

section \<open>A round of checks\<close>

fun error_text :: "check_error \<Rightarrow> string" where
  "error_text EmptyCheck = ''empty check''"
| "error_text (ShellSyntax s) =
     ''check '' @ [CHR 0x22] @ s @ [CHR 0x22] @ '' uses shell syntax (; & | < > '' @ [CHR 0x60] @ '' $ '' @ [CHR 0x5C] @ ''); use one plain command''"
| "error_text (UnclosedQuote s) = ''check '' @ [CHR 0x22] @ s @ [CHR 0x22] @ '' has an unclosed quote''"

record check_result =
  cx_exitCode :: int
  cx_output :: string

definition DETAIL_CHARS :: nat where
  "DETAIL_CHARS = 1500"

definition int_text :: "int \<Rightarrow> string" where
  "int_text n = (if n < 0 then ''-'' @ nat_text (nat (- n)) else nat_text (nat n))"

text \<open>\<open>output.replace(/\s+$/, "").slice(-DETAIL_CHARS)\<close>\<close>

definition output_tail :: "string \<Rightarrow> string" where
  "output_tail s = rev (take DETAIL_CHARS (dropWhile js_space (rev s)))"

definition check_gate :: "bool \<Rightarrow> string \<Rightarrow> check_result \<Rightarrow> gate" where
  "check_gate keepOutput check res =
     (let tail = output_tail (cx_output res) in
      \<lparr>ga_id = check, ga_status = (if cx_exitCode res = 0 then GPass else GFail),
       ga_detail = (if cx_exitCode res = 0 \<and> \<not> keepOutput then None
                    else Some (''exit '' @ int_text (cx_exitCode res) @ (if tail = [] then [] else CHR 0x0A # tail)))\<rparr>)"

text \<open>A rejected call counts as exit code \<open>-1\<close> with the message of the error as its output.\<close>

definition settled :: "string + check_result \<Rightarrow> check_result" where
  "settled r = (case r of Inl message \<Rightarrow> \<lparr>cx_exitCode = -1, cx_output = message\<rparr> | Inr res \<Rightarrow> res)"

fun runChecks ::
  "(nat \<Rightarrow> string list \<Rightarrow> string + check_result) \<Rightarrow> (nat \<Rightarrow> bool) \<Rightarrow> bool \<Rightarrow> nat \<Rightarrow> string list \<Rightarrow> gate list" where
  "runChecks runner aborted keepOutput i [] = []"
| "runChecks runner aborted keepOutput i (check # checks) =
     (if aborted i then []
      else (case parseCheck check of
          Inl e \<Rightarrow> \<lparr>ga_id = check, ga_status = GFail, ga_detail = Some (error_text e)\<rparr>
        | Inr argv \<Rightarrow> check_gate keepOutput check (settled (runner i argv)))
        # runChecks runner aborted keepOutput (Suc i) checks)"

section \<open>What the parser keeps\<close>

text \<open>Plain words, separated by blanks, come back as they are: no word is split, joined or changed.\<close>

definition plain_char :: "char \<Rightarrow> bool" where
  "plain_char c \<longleftrightarrow> \<not> forbidden_char c \<and> \<not> is_quote c \<and> \<not> js_space c"

lemma check_loop_word:
  "list_all plain_char w \<Longrightarrow>
     check_loop None v argv (w @ cs) = check_loop None (if w = [] then v else Some (orelse v [] @ w)) argv cs"
  by (induction w arbitrary: v) (auto simp: plain_char_def)

definition blank :: char where
  "blank = CHR 0x20"

lemma blank_space [simp]: "js_space blank" "\<not> is_quote blank" "\<not> forbidden_char blank"
  by (simp_all add: blank_def js_space_def is_quote_def forbidden_char_def FORBIDDEN_def)

lemma check_loop_words:
  "list_all (list_all plain_char) (w # ws) \<Longrightarrow> [] \<notin> set (w # ws) \<Longrightarrow>
     check_loop None None argv (js_join [blank] (w # ws)) = (None, Some (last (w # ws)), argv @ butlast (w # ws))"
proof (induction ws arbitrary: w argv)
  case Nil
  then show ?case using check_loop_word[of w None argv "[]"] by simp
next
  case (Cons v vs)
  then show ?case
    using Cons.IH[of v "argv @ [w]"] by (auto simp: check_loop_word push_word_def)
qed

lemma plain_join:
  "list_all (list_all plain_char) ws \<Longrightarrow> \<not> list_ex forbidden_char (js_join [blank] ws)"
proof (induction ws)
  case (Cons w ws)
  then show ?case
    by (cases ws) (auto simp: list_ex_iff list_all_iff plain_char_def)
qed simp

lemma check_join_ends:
  assumes "list_all (list_all plain_char) (w # ws)" "[] \<notin> set (w # ws)"
  shows "js_trim (js_join [blank] (w # ws)) = js_join [blank] (w # ws)" "js_join [blank] (w # ws) \<noteq> []"
proof -
  have ends: "js_join [blank] (w # ws) \<noteq> [] \<and> \<not> js_space (hd (js_join [blank] (w # ws))) \<and> \<not> js_space (last (js_join [blank] (w # ws)))"
    using assms
  proof (induction ws arbitrary: w)
    case Nil
    then show ?case by (auto simp: list_all_iff plain_char_def)
  next
    case (Cons v vs)
    then show ?case
      using Cons.IH[of v] by (auto simp: list_all_iff plain_char_def hd_append)
  qed
  then show "js_join [blank] (w # ws) \<noteq> []"
    by simp
  have keep: "xs \<noteq> [] \<Longrightarrow> \<not> js_space (hd xs) \<Longrightarrow> dropWhile js_space xs = xs" for xs
    by (cases xs) simp_all
  show "js_trim (js_join [blank] (w # ws)) = js_join [blank] (w # ws)"
    using ends by (simp add: js_trim_def keep hd_rev)
qed

text \<open>Plain words, separated by blanks, are the arguments of the check: no word is split, joined, changed or dropped.\<close>

theorem plain_checks_parse:
  assumes "list_all (list_all plain_char) (w # ws)" "[] \<notin> set (w # ws)"
  shows "parseCheck (js_join [blank] (w # ws)) = Inr (w # ws)"
  using check_join_ends[OF assms] plain_join[OF assms(1)] check_loop_words[OF assms, of "[]"]
  by (simp add: parseCheck_def push_word_def)

lemma plain_checks_parse_witness: "parseCheck ''bun test unit'' = Inr [''bun'', ''test'', ''unit'']"
  using plain_checks_parse[of "''bun''" "[''test'', ''unit'']"]
  by (simp add: plain_char_def forbidden_char_def FORBIDDEN_def is_quote_def js_space_def blank_def)

text \<open>The last word of a text that does not end in a blank is open when the text ends.\<close>

lemma check_loop_open:
  assumes "check_loop q w argv cs = (None, w', argv')" "cs \<noteq> [] \<and> \<not> js_space (last cs) \<or> cs = [] \<and> w \<noteq> None" "q \<noteq> None \<longrightarrow> w \<noteq> None"
  shows "w' \<noteq> None"
  using assms by (induction q w argv cs rule: check_loop.induct) (auto split: if_splits)

lemma check_loop_chars:
  assumes "check_loop q w argv cs = (q', w', argv')"
  shows "set (concat (push_word w' argv')) \<subseteq> set (concat (push_word w argv)) \<union> set cs"
  using assms
  by (induction q w argv cs rule: check_loop.induct) (force simp: push_word_def orelse_def split: option.splits if_splits)+

lemma trimmed_end: "js_trim s \<noteq> [] \<Longrightarrow> \<not> js_space (last (js_trim s))"
  by (simp add: js_trim_def last_rev hd_dropWhile)

text \<open>C32: A check that is accepted is one plain command: there is at least one argument, every character of an argument stands in the
  command, and none is a semicolon, an ampersand, a pipe, an angle bracket, a backtick, a dollar sign, a backslash or a line
  break, whether it stood in quotes or not.\<close>

theorem accepted_check_is_plain:
  assumes "parseCheck command = Inr argv"
  shows "argv \<noteq> [] \<and> (\<forall>word \<in> set argv. \<forall>c \<in> set word. c \<in> set command \<and>
    c \<notin> {CHR '';'', CHR ''&'', CHR ''|'', CHR ''<'', CHR ''>'', CHR 0x60, CHR ''$'', CHR 0x5C, CHR 0x0A, CHR 0x0D})"
proof -
  let ?text = "js_trim command"
  obtain w argv' where loop: "check_loop None None [] ?text = (None, w, argv')" and argv: "argv = push_word w argv'"
      and body: "?text \<noteq> []" "\<forall>c \<in> set ?text. \<not> forbidden_char c"
    using assms by (auto simp: parseCheck_def Let_def list_ex_iff split: if_splits prod.splits option.splits)
  have "w \<noteq> None"
    using check_loop_open[OF loop] trimmed_end body(1) by simp
  then have "argv \<noteq> []"
    using argv by (auto simp: push_word_def)
  have "set (concat argv) \<subseteq> set ?text"
    using check_loop_chars[OF loop] argv by (simp add: push_word_def)
  then have chars: "c \<in> set ?text" if "word \<in> set argv" "c \<in> set word" for word c
    using that by auto
  show ?thesis
  proof (intro conjI ballI)
    show "argv \<noteq> []" by fact
  next
    fix word c assume "word \<in> set argv" "c \<in> set word"
    then have c: "c \<in> set ?text" by (rule chars)
    then show "c \<in> set command" unfolding js_trim_def by (metis set_dropWhileD set_rev)
    show "c \<notin> {CHR '';'', CHR ''&'', CHR ''|'', CHR ''<'', CHR ''>'', CHR 0x60, CHR ''$'', CHR 0x5C, CHR 0x0A, CHR 0x0D}"
      using bspec[OF body(2) c] by (simp add: forbidden_char_def FORBIDDEN_def)
  qed
qed

lemma accepted_check_is_plain_witness: "parseCheck ''bun \"a b\"'' = Inr [''bun'', ''a b''] \<and> CHR ''|'' \<notin> set ''a b''"
proof -
  have "parseCheck ''bun \"a b\"'' = Inr [''bun'', ''a b'']" by code_simp
  with accepted_check_is_plain[OF this] show ?thesis by simp
qed

end
