(* ===== verification/PlanChecks.thy ===== *)
theory PlanChecks
  imports Composition Checks
begin

text \<open>
  What a plan is refused for before anything starts: the graph and the contract (\<open>packages/workflows/src/plan.ts\<close>), phases,
  selectors and maps (\<open>compositionProblems\<close> in \<open>composition.ts\<close>). A problem is a value with the ids its text names. The two
  searches through the graph carry fuel; \<open>dependsOn_iff\<close> and \<open>findCycle_iff\<close> show that the fuel they get is enough.
\<close>

section \<open>The graph\<close>

definition known :: "plan \<Rightarrow> slug \<Rightarrow> bool" where
  "known p i \<longleftrightarrow> i \<in> set (map spec_id (pl_tasks p))"

text \<open>\<open>new Map(tasks.map((task) => [task.id, task]))\<close>: the last of equal ids counts.\<close>

definition task_map :: "plan \<Rightarrow> slug \<Rightarrow> task_spec option" where
  "task_map p i = map_of (rev (map (\<lambda>s. (spec_id s, s)) (pl_tasks p))) i"

definition needs_of :: "plan \<Rightarrow> slug \<Rightarrow> slug list" where
  "needs_of p i = (case task_map p i of None \<Rightarrow> [] | Some s \<Rightarrow> spec_needs s)"

lemma task_map_dom: "task_map p i \<noteq> None \<longleftrightarrow> known p i"
  by (force simp: task_map_def known_def map_of_eq_None_iff)

lemma needs_of_unknown: "\<not> known p i \<Longrightarrow> needs_of p i = []"
  using task_map_dom[of p i] by (simp add: needs_of_def)

section \<open>Cycles\<close>

definition known_needs :: "plan \<Rightarrow> slug \<Rightarrow> slug list" where
  "known_needs p i = filter (known p) (needs_of p i)"

fun visit_id :: "plan \<Rightarrow> nat \<Rightarrow> slug \<Rightarrow> slug list \<Rightarrow> slug list \<Rightarrow> slug list option \<times> slug list"
and visit_needs :: "plan \<Rightarrow> nat \<Rightarrow> slug \<Rightarrow> slug list \<Rightarrow> slug list \<Rightarrow> slug list \<Rightarrow> slug list option \<times> slug list" where
  "visit_id p 0 i path fin = (None, fin)"
| "visit_id p (Suc n) i path fin = visit_needs p n i (known_needs p i) (path @ [i]) fin"
| "visit_needs p n i [] path fin = (None, set_add i fin)"
| "visit_needs p n i (x # xs) path fin =
     (case find_index (\<lambda>y. y = x) path of
        Some k \<Rightarrow> (Some (drop k path @ [x]), fin)
      | None \<Rightarrow>
          if x \<in> set fin then visit_needs p n i xs path fin
          else (case visit_id p n x path fin of
              (Some c, d) \<Rightarrow> (Some c, d)
            | (None, d) \<Rightarrow> visit_needs p n i xs path d))"

fun cycle_loop :: "plan \<Rightarrow> nat \<Rightarrow> slug list \<Rightarrow> slug list \<Rightarrow> slug list option" where
  "cycle_loop p n [] fin = None"
| "cycle_loop p n (i # is) fin =
     (if i \<in> set fin then cycle_loop p n is fin
      else case visit_id p n i [] fin of
        (Some c, d) \<Rightarrow> Some c
      | (None, d) \<Rightarrow> cycle_loop p n is d)"

definition findCycle :: "plan \<Rightarrow> slug list option" where
  "findCycle p = cycle_loop p (length (pl_tasks p)) (map spec_id (pl_tasks p)) []"

text \<open>The needs between tasks of the plan, as a relation, and a path along them.\<close>

definition need_edges :: "plan \<Rightarrow> (slug \<times> slug) set" where
  "need_edges p = {(i, x). x \<in> set (known_needs p i)}"

fun chain :: "plan \<Rightarrow> slug list \<Rightarrow> bool" where
  "chain p [] \<longleftrightarrow> True"
| "chain p [x] \<longleftrightarrow> True"
| "chain p (x # y # ys) \<longleftrightarrow> y \<in> set (known_needs p x) \<and> chain p (y # ys)"

lemma chain_snoc: "chain p (xs @ [x, y]) \<longleftrightarrow> chain p (xs @ [x]) \<and> y \<in> set (known_needs p x)"
  by (induction p xs rule: chain.induct) auto

lemma chain_drop: "chain p xs \<Longrightarrow> chain p (drop k xs)"
proof (induction p xs arbitrary: k rule: chain.induct)
  case (3 p x y ys)
  then show ?case by (cases k) auto
next
  case (2 p x)
  then show ?case by (cases k) auto
qed simp

lemma chain_path: "chain p (x # xs) \<Longrightarrow> xs \<noteq> [] \<Longrightarrow> (x, last xs) \<in> (need_edges p)\<^sup>+"
proof (induction xs arbitrary: x)
  case (Cons y ys)
  then have e: "(x, y) \<in> need_edges p"
    by (simp add: need_edges_def)
  show ?case
  proof (cases "ys = []")
    case True
    then show ?thesis using e by auto
  next
    case False
    then show ?thesis
      using Cons.IH[of y] Cons.prems e by (auto intro: trancl_into_trancl2)
  qed
qed simp

text \<open>A cycle that is reported is one.\<close>

definition is_cycle :: "plan \<Rightarrow> slug list \<Rightarrow> bool" where
  "is_cycle p c \<longleftrightarrow> (\<exists>i mid. c = i # mid @ [i] \<and> chain p c)"

lemma visit_sound:
  "visit_id p n i path fin = (Some c, d) \<Longrightarrow> chain p (path @ [i]) \<Longrightarrow> is_cycle p c"
  "visit_needs p n i xs path fin = (Some c, d) \<Longrightarrow> path \<noteq> [] \<Longrightarrow> last path = i \<Longrightarrow> chain p path \<Longrightarrow>
     set xs \<subseteq> set (known_needs p i) \<Longrightarrow> is_cycle p c"
proof (induction p n i path fin and p n i xs path fin arbitrary: c d and c d rule: visit_id_visit_needs.induct)
  case (4 p n i x xs path fin)
  have snoc: "chain p (path @ [x])"
    using 4(5-8) chain_snoc[of p "butlast path" i x] append_butlast_last_id[OF 4(5)] by (metis append.assoc append_Cons append_Nil list.set_intros(1) subsetD)
  show ?case
  proof (cases "find_index (\<lambda>y. y = x) path")
    case (Some k)
    then have k: "k < length path" "path ! k = x"
      using find_index_Some by blast+
    then have "c = x # drop (Suc k) path @ [x]"
      using 4(4) Some by (simp add: Cons_nth_drop_Suc[symmetric])
    moreover have "chain p c"
      using chain_drop[OF snoc, of k] 4(4) Some k by simp
    ultimately show ?thesis
      unfolding is_cycle_def by blast
  next
    case None
    then show ?thesis
      using 4 snoc by (auto split: if_splits prod.splits option.splits)
  qed
qed auto

text \<open>When none is reported, the finished tasks are in an order in which each one comes after its needs.\<close>

definition topo :: "plan \<Rightarrow> slug list \<Rightarrow> bool" where
  "topo p fin \<longleftrightarrow> (\<forall>k < length fin. set (known_needs p (fin ! k)) \<subseteq> set (take k fin))"

lemma topo_snoc: "topo p fin \<Longrightarrow> set (known_needs p i) \<subseteq> set fin \<Longrightarrow> topo p (fin @ [i])"
  by (auto simp: topo_def nth_append less_Suc_eq)

lemma topo_add: "topo p fin \<Longrightarrow> set (known_needs p i) \<subseteq> set fin \<Longrightarrow> topo p (set_add i fin)"
  by (simp add: set_add_def topo_snoc)

definition ids_of :: "plan \<Rightarrow> slug set" where
  "ids_of p = {i. known p i}"

lemma finite_ids [simp]: "finite (ids_of p)"
  by (simp add: ids_of_def known_def)

definition fuelled :: "plan \<Rightarrow> slug list \<Rightarrow> nat \<Rightarrow> bool" where
  "fuelled p path n \<longleftrightarrow> card (ids_of p - set path) \<le> n"

lemma fuel_step: "fuelled p path n \<Longrightarrow> known p i \<Longrightarrow> i \<notin> set path \<Longrightarrow> \<exists>m. n = Suc m \<and> fuelled p (path @ [i]) m"
proof -
  assume a: "fuelled p path n" "known p i" "i \<notin> set path"
  then have "i \<in> ids_of p - set path"
    by (simp add: ids_of_def)
  then have "card (ids_of p - set path) = Suc (card (ids_of p - set path - {i}))"
    by (rule card.remove[OF finite_Diff[OF finite_ids]])
  moreover have "ids_of p - set (path @ [i]) = ids_of p - set path - {i}"
    by auto
  ultimately show ?thesis
    using a(1) by (cases n) (auto simp: fuelled_def)
qed

lemma visit_complete:
  "visit_id p n i path fin = (None, d) \<Longrightarrow> fuelled p path n \<Longrightarrow> known p i \<Longrightarrow> i \<notin> set path \<Longrightarrow> topo p fin \<Longrightarrow>
     topo p d \<and> set fin \<subseteq> set d \<and> i \<in> set d"
  "visit_needs p n i xs path fin = (None, d) \<Longrightarrow> fuelled p path n \<Longrightarrow> list_all (known p) xs \<Longrightarrow> topo p fin \<Longrightarrow>
     set (known_needs p i) \<subseteq> set fin \<union> set xs \<Longrightarrow> topo p d \<and> set fin \<subseteq> set d \<and> i \<in> set d"
proof (induction p n i path fin and p n i xs path fin arbitrary: d and d rule: visit_id_visit_needs.induct)
  case (1 p i path fin)
  then show ?case
    using fuel_step[of p path 0 i] by simp
next
  case (2 p n i path fin)
  then show ?case
    using fuel_step[of p path "Suc n" i] by (auto simp: known_needs_def list_all_iff)
next
  case (3 p n i path fin)
  then show ?case
    using topo_add[of p fin i] by auto
next
  case (4 p n i x xs path fin)
  have new: "find_index (\<lambda>y. y = x) path = None"
    using 4(4) by (cases "find_index (\<lambda>y. y = x) path") simp_all
  then have x: "x \<notin> set path"
    by (auto simp: find_index_None)
  have xs: "list_all (known p) xs" "known p x"
    using 4(6) by simp_all
  show ?case
  proof (cases "x \<in> set fin")
    case True
    then have "visit_needs p n i xs path fin = (None, d)"
      using 4(4) new by simp
    then show ?thesis
      using 4(8) True by (intro 4(1)[OF new True _ 4(5) xs(1) 4(7)]) auto
  next
    case False
    then obtain e where e: "visit_id p n x path fin = (None, e)" "visit_needs p n i xs path e = (None, d)"
      using 4(4) new by (auto split: prod.splits option.splits)
    have f: "topo p e \<and> set fin \<subseteq> set e \<and> x \<in> set e"
      by (rule 4(2)[OF new False e(1) 4(5) xs(2) x 4(7)])
    then have "topo p d \<and> set e \<subseteq> set d \<and> i \<in> set d"
      using 4(8) by (intro 4(3)[OF new False e(1)[symmetric] refl e(2) 4(5) xs(1)]) auto
    then show ?thesis
      using f by blast
  qed
qed

lemma cycle_loop_None:
  "cycle_loop p n is fin = None \<Longrightarrow> fuelled p [] n \<Longrightarrow> list_all (known p) is \<Longrightarrow> topo p fin \<Longrightarrow>
     \<exists>d. topo p d \<and> set fin \<subseteq> set d \<and> set is \<subseteq> set d"
proof (induction "is" arbitrary: fin)
  case (Cons i "is")
  show ?case
  proof (cases "i \<in> set fin")
    case True
    then have "cycle_loop p n is fin = None"
      using Cons.prems(1) by simp
    then obtain d where "topo p d \<and> set fin \<subseteq> set d \<and> set is \<subseteq> set d"
      using Cons.IH[of fin] Cons.prems by auto
    then show ?thesis using True by auto
  next
    case False
    then obtain d where d: "visit_id p n i [] fin = (None, d)" "cycle_loop p n is d = None"
      using Cons.prems(1) by (auto split: prod.splits option.splits)
    then have "topo p d \<and> set fin \<subseteq> set d \<and> i \<in> set d"
      using visit_complete(1)[OF d(1)] Cons.prems by simp
    then show ?thesis
      using Cons.IH[OF d(2)] Cons.prems by auto
  qed
qed auto

lemma cycle_loop_Some: "cycle_loop p n is fin = Some c \<Longrightarrow> is_cycle p c"
  by (induction "is" arbitrary: fin) (auto split: if_splits prod.splits option.splits dest: visit_sound(1))

lemma topo_acyclic:
  assumes t: "topo p d" and all: "\<And>i. known p i \<Longrightarrow> i \<in> set d"
  shows "acyclic (need_edges p)"
proof -
  define pos where "pos i = the (find_index (\<lambda>y. y = i) d)" for i
  have "pos x < pos i" if "x \<in> set (known_needs p i)" for i x
  proof -
    have "known p i"
      using that needs_of_unknown[of p i] by (cases "known p i") (simp_all add: known_needs_def)
    then obtain k where k: "find_index (\<lambda>y. y = i) d = Some k"
      using all[of i] by (cases "find_index (\<lambda>y. y = i) d") (auto simp: find_index_None)
    then have "x \<in> set (take k d)"
      using t that find_index_Some[OF k] by (auto simp: topo_def)
    then obtain m where m: "m < k" "d ! m = x" "m < length d"
      by (auto simp: in_set_conv_nth)
    then obtain j where "find_index (\<lambda>y. y = x) d = Some j" "j \<le> m"
      using find_index_Some[of "\<lambda>y. y = x" d] find_index_None[of "\<lambda>y. y = x" d] nth_mem[of m d]
      by (metis not_le_imp_less option.exhaust)
    then show ?thesis
      using k m by (simp add: pos_def)
  qed
  then have "(need_edges p)\<inverse> \<subseteq> measure pos"
    by (auto simp: need_edges_def)
  then have "wf ((need_edges p)\<inverse>)"
    by (rule wf_subset[OF wf_measure])
  then show ?thesis
    by (metis acyclic_converse wf_acyclic)
qed

lemma cycle_cyclic: "is_cycle p c \<Longrightarrow> \<not> acyclic (need_edges p)"
  using chain_path by (fastforce simp: is_cycle_def acyclic_def)

text \<open>C30: The search for cycles is exact: it reports none just when the needs between the tasks of the plan have no cycle, and
  what it reports is a cycle of them.\<close>

theorem findCycle_iff:
  "(findCycle p = None \<longleftrightarrow> acyclic (need_edges p)) \<and> (\<forall>c. findCycle p = Some c \<longrightarrow> is_cycle p c)"
proof -
  have some: "is_cycle p c" if "findCycle p = Some c" for c
    using that by (simp add: findCycle_def cycle_loop_Some)
  have "card (ids_of p) \<le> length (pl_tasks p)"
    using card_length[of "map spec_id (pl_tasks p)"] by (simp add: ids_of_def known_def)
  then have "acyclic (need_edges p)" if "findCycle p = None"
    using that cycle_loop_None[of p "length (pl_tasks p)" "map spec_id (pl_tasks p)" "[]"] topo_acyclic
    by (auto simp: findCycle_def fuelled_def topo_def[of _ "[]"] list_all_iff known_def)
  then show ?thesis
    using some cycle_cyclic by (cases "findCycle p") auto
qed

lemma findCycle_iff_witness:
  "is_cycle (plain_plan [AgentSpec (plain_agent ''a'' [''b'']), AgentSpec (plain_agent ''b'' [''a''])]) [''a'', ''b'', ''a'']"
proof -
  have "findCycle (plain_plan [AgentSpec (plain_agent ''a'' [''b'']), AgentSpec (plain_agent ''b'' [''a''])]) = Some [''a'', ''b'', ''a'']"
    by code_simp
  then show ?thesis
    using findCycle_iff by blast
qed

section \<open>Tasks\<close>

datatype task_problem =
  DuplicateTask slug
| NeedsItself slug
| NeedsUnknown slug slug
| NeedTwice slug slug
| BadCheck slug check_error
| NeedCycle "slug list"
| PromptsTooLong nat slug nat

definition MAX_PLAN_PROMPT_CHARS :: nat where "MAX_PLAN_PROMPT_CHARS = 48000"

fun repeated :: "slug list \<Rightarrow> slug list \<Rightarrow> slug list" where
  "repeated seen [] = []"
| "repeated seen (i # is) = (if i \<in> set seen then [i] else []) @ repeated (set_add i seen) is"

fun need_problems :: "plan \<Rightarrow> slug \<Rightarrow> slug list \<Rightarrow> slug list \<Rightarrow> task_problem list" where
  "need_problems p i listed [] = []"
| "need_problems p i listed (x # xs) =
     (if x = i then [NeedsItself i] else if \<not> known p x then [NeedsUnknown i x] else [])
     @ (if x \<in> set listed then [NeedTwice i x] else [])
     @ need_problems p i (set_add x listed) xs"

definition check_problems :: "task_spec \<Rightarrow> task_problem list" where
  "check_problems s =
     (case s of
        CheckSpec k \<Rightarrow> (case parseCheck (ck_command k) of Inl e \<Rightarrow> [BadCheck (ck_id k) e] | Inr _ \<Rightarrow> [])
      | _ \<Rightarrow> [])"

definition longer_prompt :: "agent_spec \<Rightarrow> agent_spec \<Rightarrow> agent_spec" where
  "longer_prompt a b = (if length (ag_prompt a) < length (ag_prompt b) then b else a)"

definition prompt_problems :: "plan \<Rightarrow> task_problem list" where
  "prompt_problems p =
     (let ags = agentSpecs p; chars = sum_list (map (\<lambda>a. length (ag_prompt a)) ags) in
      if MAX_PLAN_PROMPT_CHARS < chars
      then (let longest = foldl longer_prompt (hd ags) (tl ags) in [PromptsTooLong chars (ag_id longest) (length (ag_prompt longest))])
      else [])"

definition taskProblems :: "plan \<Rightarrow> task_problem list" where
  "taskProblems p =
     map DuplicateTask (repeated [] (map spec_id (pl_tasks p)))
     @ concat (map (\<lambda>s. need_problems p (spec_id s) [] (spec_needs s) @ check_problems s) (pl_tasks p))
     @ (case findCycle p of Some c \<Rightarrow> [NeedCycle c] | None \<Rightarrow> [])
     @ prompt_problems p"

lemma repeated_none: "repeated seen is = [] \<longleftrightarrow> distinct is \<and> set seen \<inter> set is = {}"
  by (induction "is" arbitrary: seen) auto

lemma need_problems_none: "need_problems p i listed xs = [] \<Longrightarrow> i \<notin> set xs \<and> list_all (known p) xs \<and> distinct xs"
proof -
  have "need_problems p i listed xs = [] \<Longrightarrow> i \<notin> set xs \<and> list_all (known p) xs \<and> distinct xs \<and> set listed \<inter> set xs = {}"
    by (induction xs arbitrary: listed) (fastforce split: if_splits)+
  then show "need_problems p i listed xs = [] \<Longrightarrow> i \<notin> set xs \<and> list_all (known p) xs \<and> distinct xs"
    by blast
qed

section \<open>The contract\<close>

datatype contract_problem =
  DuplicateCriterion slug
| CriterionOwner slug slug
| DuplicateCheck slug
| BadContractCheck slug check_error
| CoversUnknown slug slug
| CheckOwner slug slug

definition owner_problems :: "(slug \<Rightarrow> contract_problem) \<Rightarrow> slug list option \<Rightarrow> slug list option \<Rightarrow> contract_problem list" where
  "owner_problems problem taskIds owners =
     (case taskIds of None \<Rightarrow> []
      | Some ids \<Rightarrow> map problem (filter (\<lambda>i. i \<notin> set ids) (orelse owners [])))"

fun criterion_problems :: "slug list option \<Rightarrow> slug list \<Rightarrow> criterion list \<Rightarrow> contract_problem list" where
  "criterion_problems taskIds seen [] = []"
| "criterion_problems taskIds seen (cr # crs) =
     (if cr_id cr \<in> set seen then [DuplicateCriterion (cr_id cr)] else [])
     @ owner_problems (CriterionOwner (cr_id cr)) taskIds (cr_owners cr)
     @ criterion_problems taskIds (set_add (cr_id cr) seen) crs"

fun contract_check_problems :: "slug list option \<Rightarrow> slug list \<Rightarrow> slug list \<Rightarrow> contract_check list \<Rightarrow> contract_problem list" where
  "contract_check_problems taskIds criteria seen [] = []"
| "contract_check_problems taskIds criteria seen (k # ks) =
     (if cc_id k \<in> set seen then [DuplicateCheck (cc_id k)] else [])
     @ (case parseCheck (cc_command k) of Inl e \<Rightarrow> [BadContractCheck (cc_id k) e] | Inr _ \<Rightarrow> [])
     @ map (CoversUnknown (cc_id k)) (filter (\<lambda>i. i \<notin> set criteria) (orelse (cc_covers k) []))
     @ owner_problems (CheckOwner (cc_id k)) taskIds (cc_owners k)
     @ contract_check_problems taskIds criteria (set_add (cc_id k) seen) ks"

definition validateContract :: "contract \<Rightarrow> slug list option \<Rightarrow> contract_problem list" where
  "validateContract ct taskIds =
     criterion_problems taskIds [] (ct_criteria ct)
     @ contract_check_problems taskIds (map cr_id (ct_criteria ct)) [] (ct_checks ct)"

definition contractProblems :: "plan \<Rightarrow> contract_problem list" where
  "contractProblems p =
     (case pl_contract p of
        Some (Inline ct) \<Rightarrow> validateContract ct (Some (map spec_id (pl_tasks p)))
      | _ \<Rightarrow> [])"

section \<open>Dependencies of selectors\<close>

text \<open>\<open>dependsOn\<close> with the set of visited ids threaded through the calls.\<close>

fun depends_on :: "plan \<Rightarrow> nat \<Rightarrow> slug \<Rightarrow> slug \<Rightarrow> slug list \<Rightarrow> bool \<times> slug list"
and depends_any :: "plan \<Rightarrow> nat \<Rightarrow> slug list \<Rightarrow> slug \<Rightarrow> slug list \<Rightarrow> bool \<times> slug list" where
  "depends_on p 0 i producer visited = (False, visited)"
| "depends_on p (Suc n) i producer visited =
     (if i \<in> set visited then (False, visited) else depends_any p n (needs_of p i) producer (visited @ [i]))"
| "depends_any p n [] producer visited = (False, visited)"
| "depends_any p n (x # xs) producer visited =
     (if x = producer then (True, visited)
      else case depends_on p n x producer visited of
        (True, v) \<Rightarrow> (True, v)
      | (False, v) \<Rightarrow> depends_any p n xs producer v)"

definition dependsOn :: "plan \<Rightarrow> slug \<Rightarrow> slug \<Rightarrow> bool" where
  "dependsOn p i producer = fst (depends_on p (length (pl_tasks p) + 2) i producer [])"

definition all_needs :: "plan \<Rightarrow> (slug \<times> slug) set" where
  "all_needs p = {(i, x). x \<in> set (needs_of p i)}"

lemma depends_sound:
  "depends_on p n i producer visited = (True, v) \<Longrightarrow> (i, producer) \<in> (all_needs p)\<^sup>+"
  "depends_any p n xs producer visited = (True, v) \<Longrightarrow> \<exists>x \<in> set xs. x = producer \<or> (x, producer) \<in> (all_needs p)\<^sup>+"
proof (induction p n i producer visited and p n xs producer visited arbitrary: v and v rule: depends_on_depends_any.induct)
  case (2 p n i producer visited)
  then obtain x where x: "x \<in> set (needs_of p i)" "x = producer \<or> (x, producer) \<in> (all_needs p)\<^sup>+"
    by (auto split: if_splits)
  then have "(i, x) \<in> all_needs p"
    by (simp add: all_needs_def)
  with x(2) show ?case
    by (auto intro: trancl_into_trancl2)
next
  case (4 p n x xs producer visited)
  then show ?case
    by (auto split: if_splits prod.splits bool.splits)
qed auto

text \<open>Ids that were visited, save those still open, are closed under needs and never need the producer.\<close>

definition closed_off :: "plan \<Rightarrow> slug \<Rightarrow> slug list \<Rightarrow> slug set \<Rightarrow> bool" where
  "closed_off p producer visited opened \<longleftrightarrow>
     (\<forall>i \<in> set visited - opened. set (needs_of p i) \<subseteq> set visited \<and> producer \<notin> set (needs_of p i))"

definition depth_left :: "plan \<Rightarrow> slug list \<Rightarrow> nat" where
  "depth_left p visited = card (ids_of p - set visited)"

lemma depth_left_anti: "set v \<subseteq> set w \<Longrightarrow> depth_left p w \<le> depth_left p v"
  unfolding depth_left_def by (rule card_mono) auto

lemma depth_left_visit: "known p i \<Longrightarrow> i \<notin> set v \<Longrightarrow> depth_left p (v @ [i]) < depth_left p v"
  unfolding depth_left_def by (rule psubset_card_mono) (auto simp: ids_of_def known_def)

lemma depends_complete:
  "depends_on p n i producer visited = (False, v) \<Longrightarrow> depth_left p visited < n \<Longrightarrow>
     closed_off p producer visited opened \<Longrightarrow> opened \<subseteq> set visited \<Longrightarrow>
     closed_off p producer v opened \<and> set visited \<subseteq> set v \<and> i \<in> set v"
  "depends_any p n xs producer visited = (False, v) \<Longrightarrow> xs = [] \<or> depth_left p visited < n \<Longrightarrow>
     closed_off p producer visited opened \<Longrightarrow> opened \<subseteq> set visited \<Longrightarrow>
     closed_off p producer v opened \<and> set visited \<subseteq> set v \<and> set xs \<subseteq> set v \<and> producer \<notin> set xs"
proof (induction p n i producer visited and p n xs producer visited arbitrary: v opened and v opened rule: depends_on_depends_any.induct)
  case (2 p n i producer visited)
  show ?case
  proof (cases "i \<in> set visited")
    case True
    then show ?thesis using 2(2,4) by simp
  next
    case False
    have left: "needs_of p i = [] \<or> depth_left p (visited @ [i]) < n"
      using depth_left_visit[OF _ False] needs_of_unknown[of p i] 2(3) by (cases "known p i") fastforce+
    have "closed_off p producer (visited @ [i]) (insert i opened)"
      using 2(4) by (auto simp: closed_off_def)
    moreover have "depends_any p n (needs_of p i) producer (visited @ [i]) = (False, v)"
      using 2(2) False by simp
    ultimately have "closed_off p producer v (insert i opened) \<and> set (visited @ [i]) \<subseteq> set v
        \<and> set (needs_of p i) \<subseteq> set v \<and> producer \<notin> set (needs_of p i)"
      using 2(1)[OF False _ left] 2(5) by fastforce
    then show ?thesis
      by (auto simp: closed_off_def)
  qed
next
  case (4 p n x xs producer visited)
  then have x: "x \<noteq> producer" and left: "depth_left p visited < n"
    by (auto split: if_splits)
  obtain w where w: "depends_on p n x producer visited = (False, w)" "depends_any p n xs producer w = (False, v)"
    using 4(3) x by (auto split: prod.splits bool.splits)
  have a: "closed_off p producer w opened \<and> set visited \<subseteq> set w \<and> x \<in> set w"
    by (rule 4(1)[OF x w(1) left 4(5,6)])
  then have "depth_left p w < n"
    using depth_left_anti[of visited w p] left by linarith
  then have "closed_off p producer v opened \<and> set w \<subseteq> set v \<and> set xs \<subseteq> set v \<and> producer \<notin> set xs"
    using 4(2)[OF x w(1)[symmetric] _ w(2)] a 4(6) by blast
  then show ?case
    using a x by auto
qed auto

lemma dependsOn_iff: "dependsOn p i producer \<longleftrightarrow> (i, producer) \<in> (all_needs p)\<^sup>+"
proof
  show "dependsOn p i producer \<Longrightarrow> (i, producer) \<in> (all_needs p)\<^sup>+"
    by (cases "depends_on p (length (pl_tasks p) + 2) i producer []") (simp add: dependsOn_def depends_sound(1) del: depends_on.simps)
  assume path: "(i, producer) \<in> (all_needs p)\<^sup>+"
  show "dependsOn p i producer"
  proof (rule ccontr)
    assume "\<not> dependsOn p i producer"
    then obtain v where v: "depends_on p (length (pl_tasks p) + 2) i producer [] = (False, v)"
      by (cases "depends_on p (length (pl_tasks p) + 2) i producer []") (simp add: dependsOn_def)
    have "card (ids_of p) \<le> length (pl_tasks p)"
      using card_length[of "map spec_id (pl_tasks p)"] by (simp add: ids_of_def known_def)
    then have c: "closed_off p producer v {} \<and> i \<in> set v"
      using depends_complete(1)[OF v, of "{}"] by (simp add: depth_left_def closed_off_def)
    have stay: "y \<in> set v" if "(i, y) \<in> (all_needs p)\<^sup>*" for y
      using that c by (induction rule: rtrancl_induct) (auto simp: all_needs_def closed_off_def)
    from path obtain y where "(i, y) \<in> (all_needs p)\<^sup>*" "(y, producer) \<in> all_needs p"
      by (meson tranclD2)
    then show False
      using stay[of y] c by (auto simp: all_needs_def closed_off_def)
  qed
qed

end
