(* ===== verification/Routing.thy ===== *)
theory Routing
  imports Composition Grants
begin

text \<open>
  What a task may do (\<open>packages/workflows/src/routing.ts\<close>): the settings a task runs with, composed from the plan, the task
  and the grant of the run; the contradictions a plan is refused for; and the limits of a budget. With it, what the engine
  makes of the composed policy on every tool call (\<open>packages/engine-native/src/workflow-policy.ts\<close>).
\<close>

section \<open>Composition of the settings\<close>

definition intersect :: "string list option \<Rightarrow> string list option \<Rightarrow> string list option" where
  "intersect a b =
     (case (a, b) of
        (Some xs, Some ys) \<Rightarrow> Some (filter (\<lambda>name. name \<in> set ys) xs)
      | (Some xs, None) \<Rightarrow> Some xs
      | (None, _) \<Rightarrow> b)"

fun agent_of :: "task_spec \<Rightarrow> agent_spec option" where
  "agent_of (AgentSpec a) = Some a"
| "agent_of _ = None"

fun spec_workspace :: "task_spec \<Rightarrow> workspace option" where
  "spec_workspace (AgentSpec a) = ag_workspace a"
| "spec_workspace (CheckSpec k) = ck_workspace k"
| "spec_workspace (MapSpec p) = mp_workspace p"
| "spec_workspace (HumanSpec h) = None"

definition has_mode :: "policy_mode \<Rightarrow> policy option \<Rightarrow> bool" where
  "has_mode m p \<longleftrightarrow> map_option pol_mode p = Some m"

definition forbids :: "(policy \<Rightarrow> bool option) \<Rightarrow> policy option \<Rightarrow> bool" where
  "forbids flag p \<longleftrightarrow> Option.bind p flag = Some False"

definition read_only :: "plan \<Rightarrow> task_spec \<Rightarrow> bool" where
  "read_only p spec \<longleftrightarrow>
     map_option ag_mode (agent_of spec) = Some ReadMode
     \<or> has_mode PolReportOnly (pl_permissions p)
     \<or> has_mode PolReportOnly (Option.bind (agent_of spec) ag_permissions)
     \<or> pl_workspace p = Some ReadOnlyWorkspace
     \<or> spec_workspace spec = Some ReadOnlyWorkspace"

definition merged_policy :: "bool \<Rightarrow> policy option \<Rightarrow> policy option \<Rightarrow> string list option \<Rightarrow> policy option" where
  "merged_policy readOnly a b taskTools =
     (if a = None \<and> b = None \<and> taskTools = None then None
      else Some \<lparr>
        pol_mode = (if readOnly then PolReportOnly
                    else if has_mode PolCustom a \<or> has_mode PolCustom b then PolCustom else PolNormal),
        pol_allowedTools = intersect (intersect (Option.bind a pol_allowedTools) (Option.bind b pol_allowedTools)) taskTools,
        pol_approvalRequiredFor =
          Some (js_set (orelse (Option.bind a pol_approvalRequiredFor) [] @ orelse (Option.bind b pol_approvalRequiredFor) [])),
        pol_approvedActions = intersect (Option.bind a pol_approvedActions) (Option.bind b pol_approvedActions),
        pol_allowEdits = (if readOnly \<or> forbids pol_allowEdits a \<or> forbids pol_allowEdits b then Some False else None),
        pol_allowMutatingCommands =
          (if readOnly \<or> forbids pol_allowMutatingCommands a \<or> forbids pol_allowMutatingCommands b then Some False else None),
        pol_allowExternalSend =
          (if readOnly \<or> forbids pol_allowExternalSend a \<or> forbids pol_allowExternalSend b then Some False else None)\<rparr>)"

text \<open>\<open>Math.min(...limits)\<close> of the limits that are given; the key stays away when none is.\<close>

definition tighter :: "'a::linorder option \<Rightarrow> 'a option \<Rightarrow> 'a option" where
  "tighter x y =
     (case (x, y) of
        (Some m, Some n) \<Rightarrow> Some (min m n)
      | (Some m, None) \<Rightarrow> Some m
      | (None, _) \<Rightarrow> y)"

definition merged_budget :: "task_budget option \<Rightarrow> task_budget option \<Rightarrow> task_budget" where
  "merged_budget a b =
     \<lparr>bud_maxTurns = tighter (Option.bind a bud_maxTurns) (Option.bind b bud_maxTurns),
      bud_maxRuntimeMs = tighter (Option.bind a bud_maxRuntimeMs) (Option.bind b bud_maxRuntimeMs),
      bud_maxTokens = tighter (Option.bind a bud_maxTokens) (Option.bind b bud_maxTokens),
      bud_maxCost = tighter (Option.bind a bud_maxCost) (Option.bind b bud_maxCost),
      bud_maxChildren = tighter (Option.bind a bud_maxChildren) (Option.bind b bud_maxChildren),
      bud_maxDepth = tighter (Option.bind a bud_maxDepth) (Option.bind b bud_maxDepth)\<rparr>"

definition no_budget :: task_budget where
  "no_budget = \<lparr>bud_maxTurns = None, bud_maxRuntimeMs = None, bud_maxTokens = None, bud_maxCost = None,
                bud_maxChildren = None, bud_maxDepth = None\<rparr>"

definition task_workspace :: "bool \<Rightarrow> plan \<Rightarrow> task_spec \<Rightarrow> workspace" where
  "task_workspace readOnly p spec =
     (if readOnly then ReadOnlyWorkspace
      else case pl_workspace p of
        Some w \<Rightarrow> if w \<noteq> InPlace then w else orelse (spec_workspace spec) w
      | None \<Rightarrow> orelse (spec_workspace spec) InPlace)"

definition either :: "'a option \<Rightarrow> 'a option \<Rightarrow> 'a option" where
  "either x y = (case x of None \<Rightarrow> y | Some v \<Rightarrow> Some v)"

definition taskExecution :: "run \<Rightarrow> task_spec \<Rightarrow> execution" where
  "taskExecution r spec =
     (let p = rn_plan r;
          task = agent_of spec;
          readOnly = read_only p spec;
          requested = orelse (Option.bind task ag_permission) (rn_permission r);
          limits = merged_budget (pl_budget p) (Option.bind task ag_budget)
      in \<lparr>ex_directory = rn_directory r,
          ex_workspace = task_workspace readOnly p spec,
          ex_permission = (if WORKFLOW_PERMISSION_RANK requested < WORKFLOW_PERMISSION_RANK (rn_permission r) then requested else rn_permission r),
          ex_readOnly = readOnly,
          ex_model = either (Option.bind task ag_model) (pl_model p),
          ex_engine = truthy (Option.bind task ag_engine),
          ex_agent = truthy (either (Option.bind task ag_agent) (pl_agent p)),
          ex_permissions = merged_policy readOnly (pl_permissions p) (Option.bind task ag_permissions) (Option.bind task ag_allowedTools),
          ex_budget = (if limits = no_budget then None else Some limits)\<rparr>)"

section \<open>Contradictions\<close>

datatype routing_problem =
  ReportOnlySideEffects "slug option"
| ContractChecksDisabled
| CheckTaskDisabled slug
| CannotEnable slug string
| CannotWidenReportOnly slug
| CannotWidenReadOnly slug

definition policy_problems :: "policy option \<Rightarrow> slug option \<Rightarrow> routing_problem list" where
  "policy_problems v label =
     (case v of None \<Rightarrow> []
      | Some p \<Rightarrow>
          if pol_mode p = PolReportOnly
             \<and> (pol_allowEdits p = Some True \<or> pol_allowMutatingCommands p = Some True \<or> pol_allowExternalSend p = Some True)
          then [ReportOnlySideEffects label] else [])"

definition host_commands_off :: "plan \<Rightarrow> bool" where
  "host_commands_off p \<longleftrightarrow>
     has_mode PolReportOnly (pl_permissions p) \<or> forbids pol_allowMutatingCommands (pl_permissions p)
     \<or> pl_workspace p = Some ReadOnlyWorkspace"

definition inline_contract :: "plan \<Rightarrow> contract option" where
  "inline_contract p = (case pl_contract p of Some (Inline ct) \<Rightarrow> Some ct | _ \<Rightarrow> None)"

definition check_task_problems :: "plan \<Rightarrow> task_spec \<Rightarrow> routing_problem list" where
  "check_task_problems p s =
     (case s of
        CheckSpec k \<Rightarrow> if host_commands_off p \<or> ck_workspace k = Some ReadOnlyWorkspace then [CheckTaskDisabled (ck_id k)] else []
      | _ \<Rightarrow> [])"

definition flag_problem :: "plan \<Rightarrow> agent_spec \<Rightarrow> (policy \<Rightarrow> bool option) \<Rightarrow> string \<Rightarrow> routing_problem list" where
  "flag_problem p a flag name =
     (if forbids flag (pl_permissions p) \<and> Option.bind (ag_permissions a) flag = Some True then [CannotEnable (ag_id a) name] else [])"

definition agent_problems :: "plan \<Rightarrow> agent_spec \<Rightarrow> routing_problem list" where
  "agent_problems p a =
     policy_problems (ag_permissions a) (Some (ag_id a))
     @ flag_problem p a pol_allowEdits ''allowEdits''
     @ flag_problem p a pol_allowMutatingCommands ''allowMutatingCommands''
     @ flag_problem p a pol_allowExternalSend ''allowExternalSend''
     @ (if has_mode PolReportOnly (pl_permissions p) \<and> ag_permissions a \<noteq> None \<and> \<not> has_mode PolReportOnly (ag_permissions a)
        then [CannotWidenReportOnly (ag_id a)] else [])
     @ (if pl_workspace p = Some ReadOnlyWorkspace \<and> ag_workspace a \<noteq> None \<and> ag_workspace a \<noteq> Some ReadOnlyWorkspace
        then [CannotWidenReadOnly (ag_id a)] else [])"

definition routingProblems :: "plan \<Rightarrow> routing_problem list" where
  "routingProblems p =
     policy_problems (pl_permissions p) None
     @ (case inline_contract p of
          Some ct \<Rightarrow> if ct_checks ct \<noteq> [] \<and> host_commands_off p then [ContractChecksDisabled] else []
        | None \<Rightarrow> [])
     @ concat (map (check_task_problems p) (pl_tasks p))
     @ concat (map (agent_problems p) (agentSpecs p))"

section \<open>Usage and budgets\<close>

definition emptyTaskUsage :: task_usage where
  "emptyTaskUsage = \<lparr>us_input = 0, us_output = 0, us_calls = 0, us_children = 0, us_costMicros = None, us_costUnknown = False\<rparr>"

definition add_task_usage :: "task_usage \<Rightarrow> wtask \<Rightarrow> task_usage" where
  "add_task_usage acc t =
     (let u = orelse (tk_usage t) emptyTaskUsage in
      \<lparr>us_input = us_input acc + us_input u, us_output = us_output acc + us_output u, us_calls = us_calls acc + us_calls u,
       us_children = us_children acc + us_children u,
       us_costMicros = Some (orelse (us_costMicros acc) 0 + orelse (us_costMicros u) 0),
       us_costUnknown = us_costUnknown acc \<or> us_costUnknown u\<rparr>)"

definition totalTaskUsage :: "run \<Rightarrow> task_usage" where
  "totalTaskUsage r = foldl add_task_usage emptyTaskUsage (rn_tasks r)"

datatype budget_reason = RuntimeExceeded | TokensExhausted nat nat | PriceUnknown | CostExhausted nat rat | CallsExhausted nat nat

text \<open>\<open>Math.round(maxCost * 1_000_000)\<close> on the exact product.\<close>

definition micros :: "rat \<Rightarrow> int" where
  "micros c = floor (c * 1000000 + 1/2)"

text \<open>The checks in the order of the code: each one is reached when the ones before it found nothing.\<close>

definition token_reason :: "task_budget \<Rightarrow> task_usage \<Rightarrow> budget_reason option" where
  "token_reason b u =
     (case bud_maxTokens b of
        Some n \<Rightarrow> if n \<le> us_input u + us_output u then Some (TokensExhausted (us_input u + us_output u) n) else None
      | None \<Rightarrow> None)"

definition cost_reason :: "task_budget \<Rightarrow> task_usage \<Rightarrow> budget_reason option" where
  "cost_reason b u =
     (case bud_maxCost b of
        Some c \<Rightarrow>
          if us_costUnknown u then Some PriceUnknown
          else if micros c \<le> int (orelse (us_costMicros u) 0) then Some (CostExhausted (orelse (us_costMicros u) 0) c)
          else None
      | None \<Rightarrow> None)"

definition call_reason :: "bool \<Rightarrow> task_budget \<Rightarrow> task_usage \<Rightarrow> budget_reason option" where
  "call_reason includeCalls b u =
     (case bud_maxTurns b of
        Some n \<Rightarrow> if includeCalls \<and> n \<le> us_calls u then Some (CallsExhausted (us_calls u) n) else None
      | None \<Rightarrow> None)"

definition budgetReason :: "task_budget option \<Rightarrow> task_usage \<Rightarrow> bool \<Rightarrow> budget_reason option" where
  "budgetReason limits u includeCalls =
     (case limits of None \<Rightarrow> None
      | Some b \<Rightarrow>
          if bud_maxRuntimeMs b = Some 0 then Some RuntimeExceeded
          else either (token_reason b u) (either (cost_reason b u) (call_reason includeCalls b u)))"

section \<open>The policy on a tool call\<close>

definition CHILD_TOOLS :: "string set" where
  "CHILD_TOOLS = {''task'', ''loop'', ''workflow_start'', ''workflow_script'', ''workflow_control''}"

definition EDIT_TOOLS :: "string set" where
  "EDIT_TOOLS = {''edit'', ''write'', ''apply_patch'', ''patch'', ''notebook_edit''}"

definition SHELL_TOOLS :: "string set" where
  "SHELL_TOOLS = {''shell'', ''bash'', ''shell_session''}"

definition external_tool :: "string \<Rightarrow> bool" where
  "external_tool name \<longleftrightarrow>
     take 4 name \<in> {''mcp_'', ''mcp.''} \<or> take 8 name = ''custom__''
     \<or> name \<in> {''external_send'', ''send'', ''tell'', ''notify'', ''post'', ''message''}"

definition action_matches :: "string \<Rightarrow> string list \<Rightarrow> bool" where
  "action_matches name actions \<longleftrightarrow>
     (\<exists>action \<in> set actions. permissionMatch name action \<or> permissionMatch (permissionName name) (permissionName action))"

datatype tool_denial = NotAllowlisted | WorkspaceReadOnly | EditsDisabled | CommandsDisabled | SendsDisabled | ChildBudget

definition blocked_when_read_only :: "string \<Rightarrow> tool_permission option \<Rightarrow> bool" where
  "blocked_when_read_only name permission \<longleftrightarrow>
     (permission \<noteq> None \<and> permission \<noteq> Some PRead) \<or> name \<in> EDIT_TOOLS \<or> name \<in> SHELL_TOOLS \<or> name \<in> CHILD_TOOLS
     \<or> external_tool name \<or> name \<in> {''plan_submit'', ''plan_exit''}"

definition no_children :: "task_budget option \<Rightarrow> bool" where
  "no_children b \<longleftrightarrow>
     (case b of None \<Rightarrow> False
      | Some l \<Rightarrow> bud_maxChildren l = Some 0 \<or> (case bud_maxDepth l of None \<Rightarrow> False | Some d \<Rightarrow> d \<le> 1))"

definition workflowToolDenied :: "execution option \<Rightarrow> string \<Rightarrow> tool_permission option \<Rightarrow> tool_denial option" where
  "workflowToolDenied e name permission =
     (case e of None \<Rightarrow> None
      | Some ex \<Rightarrow>
          let p = ex_permissions ex in
          if (case Option.bind p pol_allowedTools of None \<Rightarrow> False | Some tools \<Rightarrow> name \<notin> set tools) then Some NotAllowlisted
          else if ex_readOnly ex \<and> blocked_when_read_only name permission then Some WorkspaceReadOnly
          else if forbids pol_allowEdits p \<and> (permission = Some PWrite \<or> name \<in> EDIT_TOOLS) then Some EditsDisabled
          else if forbids pol_allowMutatingCommands p \<and> (permission = Some PExecute \<or> name \<in> SHELL_TOOLS) then Some CommandsDisabled
          else if forbids pol_allowExternalSend p \<and> external_tool name then Some SendsDisabled
          else if name \<in> CHILD_TOOLS \<and> no_children (ex_budget ex) then Some ChildBudget
          else None)"

definition workflowToolAsks :: "execution option \<Rightarrow> string \<Rightarrow> tool_permission option \<Rightarrow> bool" where
  "workflowToolAsks e name permission =
     (case Option.bind e ex_permissions of None \<Rightarrow> False
      | Some p \<Rightarrow>
          action_matches name (orelse (pol_approvalRequiredFor p) [])
          \<or> (permission \<noteq> Some PRead \<and> pol_mode p = PolCustom \<and> \<not> action_matches name (orelse (pol_approvedActions p) [])))"

section \<open>Restrictions only narrow\<close>

text \<open>The settings that the plan alone gives: a task that asks for nothing and has no settings of its own.\<close>

definition plain_task :: "slug \<Rightarrow> task_spec" where
  "plain_task i = AgentSpec (plain_agent i [])"

lemma plain_task_budget: "Option.bind (agent_of (plain_task i)) ag_budget = None"
  by (simp add: plain_task_def plain_agent_def)

lemma intersect_narrows: "intersect a b = None \<Longrightarrow> a = None \<and> b = None"
  by (auto simp: intersect_def split: option.splits)

lemma intersect_left: "intersect a b = Some zs \<Longrightarrow> a = Some xs \<Longrightarrow> set zs \<subseteq> set xs"
  by (auto simp: intersect_def split: option.splits)

lemma intersect_right: "intersect a b = Some zs \<Longrightarrow> b = Some ys \<Longrightarrow> set zs \<subseteq> set ys"
  by (auto simp: intersect_def split: option.splits)

definition tools_within :: "string list option \<Rightarrow> string list option \<Rightarrow> bool" where
  "tools_within a b \<longleftrightarrow> (case b of None \<Rightarrow> True | Some ys \<Rightarrow> (case a of None \<Rightarrow> False | Some xs \<Rightarrow> set xs \<subseteq> set ys))"

lemma tools_within_refl [simp]: "tools_within a a" "tools_within a None"
  by (simp_all add: tools_within_def split: option.splits)

lemma tools_within_intersect: "tools_within a c \<Longrightarrow> tools_within (intersect a b) c"
  by (auto simp: tools_within_def intersect_def split: option.splits)

lemma no_children_merged:
  "no_children (Some (merged_budget a None)) \<Longrightarrow> no_children (Some (merged_budget a b))"
  by (auto simp: no_children_def merged_budget_def tighter_def split: option.splits prod.splits)

lemma no_children_empty: "\<not> no_children (Some no_budget)"
  by (simp add: no_children_def no_budget_def)

lemma child_limit_kept:
  assumes "no_children (if merged_budget a None = no_budget then None else Some (merged_budget a None))"
  shows "no_children (if merged_budget a b = no_budget then None else Some (merged_budget a b))"
  using assms no_children_merged[of a b] no_children_empty
  by (cases "merged_budget a None = no_budget"; cases "merged_budget a b = no_budget") (simp_all add: no_children_def)

lemma denial_monotone:
  assumes "workflowToolDenied (Some e) name permission \<noteq> None"
    and "tools_within (Option.bind (ex_permissions e') pol_allowedTools) (Option.bind (ex_permissions e) pol_allowedTools)"
    and "ex_readOnly e \<Longrightarrow> ex_readOnly e'"
    and "forbids pol_allowEdits (ex_permissions e) \<Longrightarrow> forbids pol_allowEdits (ex_permissions e')"
    and "forbids pol_allowMutatingCommands (ex_permissions e) \<Longrightarrow> forbids pol_allowMutatingCommands (ex_permissions e')"
    and "forbids pol_allowExternalSend (ex_permissions e) \<Longrightarrow> forbids pol_allowExternalSend (ex_permissions e')"
    and "no_children (ex_budget e) \<Longrightarrow> no_children (ex_budget e')"
  shows "workflowToolDenied (Some e') name permission \<noteq> None"
  using assms by (auto simp: workflowToolDenied_def Let_def tools_within_def split: if_splits option.splits)

text \<open>C11: A task never gets more than its plan: it runs with at most the permission the user gave the run, and every tool call
  that the plan alone refuses is refused in each of its tasks, whatever the task asks for.\<close>

theorem tasks_stay_within_the_plan:
  "WORKFLOW_PERMISSION_RANK (ex_permission (taskExecution r spec)) \<le> WORKFLOW_PERMISSION_RANK (rn_permission r)
   \<and> (workflowToolDenied (Some (taskExecution r (plain_task i))) name permission \<noteq> None
      \<longrightarrow> workflowToolDenied (Some (taskExecution r spec)) name permission \<noteq> None)"
proof (intro conjI impI)
  show "WORKFLOW_PERMISSION_RANK (ex_permission (taskExecution r spec)) \<le> WORKFLOW_PERMISSION_RANK (rn_permission r)"
    by (simp add: taskExecution_def Let_def)
  assume denied: "workflowToolDenied (Some (taskExecution r (plain_task i))) name permission \<noteq> None"
  have ro: "read_only (rn_plan r) (plain_task i) \<Longrightarrow> read_only (rn_plan r) spec"
    by (auto simp: read_only_def plain_task_def plain_agent_def has_mode_def)
  show "workflowToolDenied (Some (taskExecution r spec)) name permission \<noteq> None"
  proof (rule denial_monotone[OF denied])
    show "tools_within (Option.bind (ex_permissions (taskExecution r spec)) pol_allowedTools)
       (Option.bind (ex_permissions (taskExecution r (plain_task i))) pol_allowedTools)"
      by (auto simp: taskExecution_def Let_def merged_policy_def plain_task_def plain_agent_def tools_within_intersect
          intersect_def[of _ None] split: option.splits)
    show "no_children (ex_budget (taskExecution r (plain_task i))) \<Longrightarrow> no_children (ex_budget (taskExecution r spec))"
      using child_limit_kept[of "pl_budget (rn_plan r)" "Option.bind (agent_of spec) ag_budget"]
      by (simp only: taskExecution_def Let_def execution.simps plain_task_budget)
  qed (use ro in \<open>auto simp: taskExecution_def Let_def merged_policy_def plain_task_def plain_agent_def forbids_def split: if_splits\<close>)
qed

definition no_edits_run :: run where
  "no_edits_run = plain_run (plain_plan []\<lparr>pl_permissions := Some (plain_policy PolNormal\<lparr>pol_allowEdits := Some False\<rparr>)\<rparr>)"

lemma tasks_stay_within_the_plan_witness:
  "workflowToolDenied (Some (taskExecution no_edits_run (AgentSpec (plain_agent ''a'' []\<lparr>ag_permission := Some PFull,
     ag_permissions := Some (plain_policy PolCustom\<lparr>pol_allowEdits := Some True\<rparr>)\<rparr>)))) ''write'' (Some PWrite) \<noteq> None"
proof -
  have "workflowToolDenied (Some (taskExecution no_edits_run (plain_task ''a''))) ''write'' (Some PWrite) \<noteq> None"
    by code_simp
  then show ?thesis
    using tasks_stay_within_the_plan by blast
qed

definition custom_run :: run where
  "custom_run = plain_run (plain_plan []\<lparr>pl_permissions := Some (plain_policy PolCustom)\<rparr>)"

definition self_approving :: task_spec where
  "self_approving = AgentSpec (plain_agent ''a'' []\<lparr>ag_permissions := Some (plain_policy PolNormal\<lparr>pol_approvedActions := Some [''bash'']\<rparr>)\<rparr>)"

text \<open>A task can approve its own actions: under a plan in custom mode that approves nothing, a shell command is asked about,
  and a task of the plan that lists the command among its own approved actions runs it unasked.\<close>

theorem task_approves_itself:
  "workflowToolAsks (Some (taskExecution custom_run (plain_task ''a''))) ''bash'' (Some PExecute)
   \<and> \<not> workflowToolAsks (Some (taskExecution custom_run self_approving)) ''bash'' (Some PExecute)
   \<and> routingProblems (rn_plan custom_run\<lparr>pl_tasks := [self_approving]\<rparr>) = []"
  by (intro conjI; code_simp)

end
