(* ===== verification/WorkflowRun.thy ===== *)
theory WorkflowRun
  imports Composition
begin

text \<open>
  The run reducer of workflows (\<open>packages/workflows/src/run.ts\<close>): every change of a run is one function here, and the
  state of the run is derived from its tasks. A \<open>RangeError\<close> is a value of \<open>run_error\<close>. The two loops that run until
  nothing changes (\<open>cascadeSkips\<close>, \<open>dependents\<close>) are recursive functions with a termination proof.
\<close>

datatype run_error =
  UnknownTask slug
| NotReady slug
| NotHuman slug
| NotWaiting slug task_state
| NotRetryable slug task_state
| CannotRetry run_state
| UnknownPhase slug
| PhaseNotRetryable slug
| NoContract
| NotAScriptRun
| OutputError string

section \<open>Creation\<close>

definition MAX_AUTO_ATTEMPTS :: nat where "MAX_AUTO_ATTEMPTS = 3"
definition DEFAULT_MAX_CONCURRENT :: nat where "DEFAULT_MAX_CONCURRENT = 2"
definition MAX_RESULT :: nat where "MAX_RESULT = 1500"
definition MAX_REASON :: nat where "MAX_REASON = 500"
definition MAX_FEEDBACK :: nat where "MAX_FEEDBACK = 4000"
definition MAX_VERIFICATIONS :: nat where "MAX_VERIFICATIONS = 6"

definition STICKY :: "run_state set" where
  "STICKY = {RPaused, RStopped, RBlocked, RCompleted, RQueued}"

definition new_task :: "slug \<Rightarrow> string \<Rightarrow> task_kind \<Rightarrow> slug list \<Rightarrow> wtask" where
  "new_task i title kind ns =
     \<lparr>tk_id = i, tk_title = title, tk_kind = kind, tk_mode = None, tk_needs = ns, tk_state = TPending, tk_attempt = 0, tk_retryAt = None,
      tk_sessionId = None, tk_startedAt = None, tk_endedAt = None, tk_result = None, tk_reason = None, tk_feedback = None,
      tk_latest = None, tk_execution = None, tk_usage = None, tk_phaseId = None, tk_mapParentId = None, tk_mapIndex = None,
      tk_mapItem = None, tk_mapRetired = False, tk_output = None, tk_expanded = False, tk_label = None, tk_phase = None,
      tk_engine = None, tk_modelId = None, tk_isolated = False\<rparr>"

definition created_task :: "plan \<Rightarrow> task_spec \<Rightarrow> wtask" where
  "created_task p s =
     (new_task (spec_id s) (spec_title s) (spec_kind s) (spec_needs s))
       \<lparr>tk_mode := (case s of AgentSpec a \<Rightarrow> Some (ag_mode a) | _ \<Rightarrow> None),
        tk_phaseId := map_option ph_id (find (\<lambda>ph. spec_id s \<in> set (ph_tasks ph)) (orelse (pl_phases p) []))\<rparr>"

definition new_script_state :: script_state where
  "new_script_state = \<lparr>ss_host = HostIdle, ss_calls = 0, ss_phase = None, ss_logCount = 0, ss_logs = [], ss_result = None,
                       ss_error = None, ss_budget = None, ss_starts = 0\<rparr>"

definition createRun ::
  "string \<Rightarrow> plan \<Rightarrow> string \<Rightarrow> string \<Rightarrow> run_permission \<Rightarrow> string \<Rightarrow> string option \<Rightarrow> int \<Rightarrow> run" where
  "createRun wid p planHash directory permission rootId origin now =
     \<lparr>rn_workflowId = wid, rn_name = pl_name p, rn_directory = directory, rn_objective = pl_objective p, rn_plan = p,
      rn_planHash = planHash, rn_permission = permission, rn_state = RRunning, rn_reason = None, rn_rootSessionId = rootId,
      rn_originSessionId = truthy origin, rn_tasks = map (created_task p) (pl_tasks p), rn_verifications = [], rn_repairs = 0,
      rn_override = None, rn_startedAt = now, rn_endedAt = None, rn_updatedAt = now, rn_queuedBehind = None,
      rn_script = (if pl_script p = None then None else Some new_script_state)\<rparr>"

section \<open>The state of the run\<close>

definition contractOf :: "run \<Rightarrow> contract option" where
  "contractOf r = (case pl_contract (rn_plan r) of Some (Inline ct) \<Rightarrow> Some ct | _ \<Rightarrow> None)"

definition has_state :: "task_state \<Rightarrow> wtask list \<Rightarrow> bool" where
  "has_state st ts \<longleftrightarrow> list_ex (\<lambda>t. tk_state t = st) ts"

definition finished_state :: "run \<Rightarrow> run_state" where
  "finished_state r = (if contractOf r \<noteq> None then RVerifying else RCompleted)"

definition deriveScriptState :: "run \<Rightarrow> run_state" where
  "deriveScriptState r =
     (let host = map_option ss_host (rn_script r) in
      if host = Some HostFailed then RFailed
      else if has_state TNeedsInput (rn_tasks r) then RNeedsInput
      else if host \<noteq> Some HostDone then RRunning
      else if has_state TRunning (rn_tasks r) \<or> has_state TPending (rn_tasks r) then RRunning
      else finished_state r)"

definition task_done :: "wtask list \<Rightarrow> slug \<Rightarrow> bool" where
  "task_done ts i \<longleftrightarrow> map_option tk_state (find_task i ts) = Some TDone"

definition needsDone :: "run \<Rightarrow> wtask \<Rightarrow> bool" where
  "needsDone r t \<longleftrightarrow> list_all (task_done (rn_tasks r)) (tk_needs t)"

definition startable :: "run \<Rightarrow> wtask \<Rightarrow> bool" where
  "startable r t \<longleftrightarrow> tk_state t = TPending \<and> needsDone r t \<and> phaseReady r t"

definition deriveWorkflowState :: "run \<Rightarrow> run_state" where
  "deriveWorkflowState r =
     (let tasks = filter (\<lambda>t. \<not> tk_mapRetired t) (rn_tasks r); phases = pl_phases (rn_plan r) in
      if rn_state r \<in> STICKY then rn_state r
      else if rn_script r \<noteq> None then deriveScriptState r
      else if has_state TNeedsInput tasks then RNeedsInput
      else if has_state TRunning tasks \<or> list_ex (startable r) (rn_tasks r) then RRunning
      else if phases \<noteq> None \<and> list_all taskTerminal (rn_tasks r) then
        (if list_all (barrierSatisfied r) (the phases) then finished_state r else RFailed)
      else if rn_state r = RVerifying \<and> list_all (\<lambda>t. tk_state t = TDone) tasks then RVerifying
      else if has_state TFailed tasks \<or> has_state TSkipped tasks \<or> has_state TStopped tasks then RFailed
      else if list_all (\<lambda>t. tk_state t = TDone) tasks then finished_state r
      else RRunning)"

section \<open>Skips\<close>

definition dead_state :: "task_state \<Rightarrow> bool" where
  "dead_state st \<longleftrightarrow> st \<in> {TFailed, TSkipped, TStopped}"

definition dead_need :: "wtask list \<Rightarrow> slug \<Rightarrow> bool" where
  "dead_need ts i \<longleftrightarrow> (case find_task i ts of None \<Rightarrow> False | Some t \<Rightarrow> dead_state (tk_state t))"

text \<open>A phase whose barrier cannot be met any more.\<close>

definition barrier_lost :: "wtask list \<Rightarrow> phase \<Rightarrow> bool" where
  "barrier_lost ts ph =
     (let members = phase_members ts ph in
      if barrier_met ts ph then False
      else case ph_barrier ph of
        BarrierQuorum n \<Rightarrow> length (filter (\<lambda>t. tk_state t = TDone \<or> \<not> taskTerminal t) members) < n
      | BarrierBestEffort \<Rightarrow> False
      | _ \<Rightarrow> list_all taskTerminal members \<or> list_ex (\<lambda>t. dead_state (tk_state t)) members)"

definition earlier_phases :: "plan \<Rightarrow> wtask \<Rightarrow> phase list" where
  "earlier_phases p t =
     (case pl_phases p of None \<Rightarrow> []
      | Some phs \<Rightarrow> take (orelse (find_index (\<lambda>ph. plan_id t \<in> set (ph_tasks ph)) phs) 0) phs)"

text \<open>Why a pending task is skipped; \<open>None\<close> keeps it.\<close>

definition skip_reason :: "plan \<Rightarrow> wtask list \<Rightarrow> wtask \<Rightarrow> string option" where
  "skip_reason p ts t =
     (if tk_state t \<noteq> TPending then None
      else case find (dead_need ts) (tk_needs t) of
        Some i \<Rightarrow> Some (''needs '' @ i @ '', which did not finish'')
      | None \<Rightarrow> (case find (barrier_lost ts) (earlier_phases p t) of
          Some ph \<Rightarrow> Some (''phase '' @ ph_id ph @ '' barrier was not met'')
        | None \<Rightarrow> None))"

definition skip_task :: "plan \<Rightarrow> wtask list \<Rightarrow> wtask \<Rightarrow> wtask" where
  "skip_task p ts t =
     (case skip_reason p ts t of None \<Rightarrow> t | Some why \<Rightarrow> t\<lparr>tk_state := TSkipped, tk_reason := Some why\<rparr>)"

definition pending_count :: "wtask list \<Rightarrow> nat" where
  "pending_count ts = length (filter (\<lambda>t. tk_state t = TPending) ts)"

lemma skip_reason_pending: "skip_reason p ts t \<noteq> None \<Longrightarrow> tk_state t = TPending"
  by (auto simp: skip_reason_def split: if_splits)

lemma skip_task_pending: "tk_state (skip_task p ts t) = TPending \<longleftrightarrow> tk_state t = TPending \<and> skip_reason p ts t = None"
  by (auto simp: skip_task_def split: option.splits)

lemma pending_count_simps [simp]:
  "pending_count [] = 0" "pending_count (t # ts) = (if tk_state t = TPending then 1 else 0) + pending_count ts"
  by (simp_all add: pending_count_def)

lemma pending_drops:
  assumes "list_ex (\<lambda>t. skip_reason p ts t \<noteq> None) us"
  shows "pending_count (map (skip_task p ts) us) < pending_count us"
proof -
  have le: "pending_count (map (skip_task p ts) vs) \<le> pending_count vs" for vs
    by (induction vs) (auto simp: skip_task_pending)
  show ?thesis
    using assms
  proof (induction us)
    case (Cons u us)
    then show ?case
      using le[of us] skip_reason_pending[of p ts u] by (auto simp: skip_task_pending)
  qed simp
qed

function cascade :: "plan \<Rightarrow> wtask list \<Rightarrow> wtask list" where
  "cascade p ts = (if list_ex (\<lambda>t. skip_reason p ts t \<noteq> None) ts then cascade p (map (skip_task p ts) ts) else ts)"
  by pat_completeness auto
termination
  by (relation "measure (\<lambda>(p, ts). pending_count ts)") (simp_all add: pending_drops)

declare cascade.simps [simp del]

definition cascadeSkips :: "run \<Rightarrow> run" where
  "cascadeSkips r = r\<lparr>rn_tasks := cascade (rn_plan r) (rn_tasks r)\<rparr>"

definition ended_state :: "run_state \<Rightarrow> bool" where
  "ended_state st \<longleftrightarrow> st \<in> {RCompleted, RFailed, RStopped}"

definition settle :: "run \<Rightarrow> int \<Rightarrow> run" where
  "settle r now =
     (let s = cascadeSkips r; st = deriveWorkflowState s in
      s\<lparr>rn_state := st, rn_updatedAt := now, rn_endedAt := (if ended_state st then Some (orelse (rn_endedAt s) now) else None)\<rparr>)"

definition set_task :: "slug \<Rightarrow> (wtask \<Rightarrow> wtask) \<Rightarrow> run \<Rightarrow> run" where
  "set_task i f r = r\<lparr>rn_tasks := map (\<lambda>t. if tk_id t = i then f t else t) (rn_tasks r)\<rparr>"

definition withTask :: "run \<Rightarrow> slug \<Rightarrow> (wtask \<Rightarrow> wtask) \<Rightarrow> run_error + run" where
  "withTask r i f = (if list_ex (\<lambda>t. tk_id t = i) (rn_tasks r) then Inr (set_task i f r) else Inl (UnknownTask i))"

section \<open>What may start\<close>

definition slotless :: "wtask \<Rightarrow> bool" where
  "slotless t \<longleftrightarrow> tk_kind t = KMap \<or> tk_kind t = KHuman"

definition live :: "wtask \<Rightarrow> bool" where
  "live t \<longleftrightarrow> tk_state t = TRunning \<or> tk_state t = TNeedsInput"

text \<open>A task that edits the directory itself: only one does at a time.\<close>

definition writes :: "wtask \<Rightarrow> bool" where
  "writes t \<longleftrightarrow> tk_mode t = Some WorkMode \<and> \<not> tk_isolated t"

definition backing_off :: "int option \<Rightarrow> wtask \<Rightarrow> bool" where
  "backing_off now t = (case (now, tk_retryAt t) of (Some n, Some until) \<Rightarrow> n < until | _ \<Rightarrow> False)"

fun ready_loop :: "run \<Rightarrow> int option \<Rightarrow> int \<Rightarrow> bool \<Rightarrow> wtask list \<Rightarrow> slug list" where
  "ready_loop r now slots workBusy [] = []"
| "ready_loop r now slots workBusy (t # ts) =
     (if slots \<le> 0 \<and> \<not> slotless t then ready_loop r now slots workBusy ts
      else if \<not> startable r t then ready_loop r now slots workBusy ts
      else if backing_off now t then ready_loop r now slots workBusy ts
      else if writes t \<and> workBusy then ready_loop r now slots workBusy ts
      else tk_id t # ready_loop r now (if slotless t then slots else slots - 1) (workBusy \<or> writes t) ts)"

definition max_concurrent :: "run \<Rightarrow> nat" where
  "max_concurrent r = orelse (pl_maxConcurrent (rn_plan r)) DEFAULT_MAX_CONCURRENT"

definition active_tasks :: "run \<Rightarrow> wtask list" where
  "active_tasks r = filter (\<lambda>t. \<not> slotless t \<and> live t) (rn_tasks r)"

definition readyTasks :: "run \<Rightarrow> bool \<Rightarrow> int option \<Rightarrow> slug list" where
  "readyTasks r directoryBusy now =
     (if rn_state r \<noteq> RRunning \<and> rn_state r \<noteq> RNeedsInput then []
      else ready_loop r now (int (max_concurrent r) - int (length (active_tasks r)))
             (directoryBusy \<or> list_ex writes (active_tasks r)) (rn_tasks r))"

definition nextRetryAt :: "run \<Rightarrow> int option" where
  "nextRetryAt r =
     (let times = List.map_filter (\<lambda>t. if tk_state t = TPending then tk_retryAt t else None) (rn_tasks r) in
      if times = [] then None else Some (Min (set times)))"

section \<open>A task starts, waits and ends\<close>

definition started_task :: "int \<Rightarrow> string option \<Rightarrow> wtask \<Rightarrow> wtask" where
  "started_task now sid t =
     t\<lparr>tk_feedback := None, tk_reason := None, tk_result := None, tk_output := None, tk_endedAt := None, tk_latest := None,
       tk_retryAt := None, tk_state := TRunning, tk_attempt := min 6 (tk_attempt t + 1), tk_startedAt := Some now,
       tk_sessionId := (case truthy sid of Some s \<Rightarrow> Some s | None \<Rightarrow> tk_sessionId t)\<rparr>"

definition startTask :: "run \<Rightarrow> slug \<Rightarrow> int \<Rightarrow> string option \<Rightarrow> run_error + run" where
  "startTask r i now sid =
     (if i \<notin> set (readyTasks r False None) then Inl (NotReady i)
      else bindE (withTask r i (started_task now sid)) (\<lambda>s. Inr (settle s now)))"

definition setWaiting :: "run \<Rightarrow> slug \<Rightarrow> bool \<Rightarrow> int \<Rightarrow> run" where
  "setWaiting r i waiting now =
     (case find_task i (rn_tasks r) of
        None \<Rightarrow> r
      | Some t \<Rightarrow>
          let next = (if waiting then TNeedsInput else TRunning) in
          if \<not> live t \<or> tk_state t = next then r
          else settle (set_task i (\<lambda>u. u\<lparr>tk_state := next\<rparr>) r) now)"

definition note_latest :: "string option \<Rightarrow> wtask \<Rightarrow> wtask" where
  "note_latest latest t = t\<lparr>tk_latest := map_option (\<lambda>s. clip s 120) (truthy latest)\<rparr>"

definition setLatest :: "run \<Rightarrow> slug \<Rightarrow> string option \<Rightarrow> run_error + run" where
  "setLatest r i latest = withTask r i (note_latest latest)"

text \<open>\<open>.replace(/\s+/g, " ")\<close>\<close>

fun squeeze :: "bool \<Rightarrow> string \<Rightarrow> string" where
  "squeeze inside [] = []"
| "squeeze inside (c # cs) =
     (if js_space c then (if inside then squeeze True cs else CHR 0x20 # squeeze True cs) else c # squeeze False cs)"

definition startHuman :: "run \<Rightarrow> slug \<Rightarrow> string \<Rightarrow> int \<Rightarrow> run_error + run" where
  "startHuman r i prompt now =
     bindE (startTask r i now None) (\<lambda>s. setLatest (setWaiting s i True now) i (Some (squeeze False prompt)))"

datatype task_end =
  EndDone string "task_output option"
| EndFailed string "failure_class option"
| EndInterrupted string
| EndCancelled

definition retryPolicy :: "wf_env \<Rightarrow> run \<Rightarrow> slug \<Rightarrow> retry_policy option" where
  "retryPolicy env r i =
     (case taskSpec env r i of
        Some (AgentSpec a) \<Rightarrow> ag_retry a
      | Some (CheckSpec k) \<Rightarrow> ck_retry k
      | _ \<Rightarrow> None)"

fun failure_text :: "failure_class \<Rightarrow> string" where
  "failure_text FTransient = ''transient''"
| "failure_text FEnvironment = ''environment''"
| "failure_text FPolicy = ''policy''"
| "failure_text FQuality = ''quality''"
| "failure_text FBudget = ''budget''"
| "failure_text FUserInput = ''user_input''"
| "failure_text FTerminal = ''terminal''"

definition failed_task :: "int \<Rightarrow> string \<Rightarrow> wtask \<Rightarrow> wtask" where
  "failed_task now why t = t\<lparr>tk_state := TFailed, tk_endedAt := Some now, tk_reason := Some (clip why MAX_REASON)\<rparr>"

definition will_retry :: "retry_policy option \<Rightarrow> wtask \<Rightarrow> failure_class \<Rightarrow> bool" where
  "will_retry rp t failure \<longleftrightarrow>
     (case rp of None \<Rightarrow> False
      | Some p \<Rightarrow> failure \<noteq> FBudget \<and> tk_attempt t < rp_maxAttempts p \<and> failure \<in> set (rp_retryOn p))"

definition retried_task :: "int \<Rightarrow> retry_policy \<Rightarrow> failure_class \<Rightarrow> string \<Rightarrow> wtask \<Rightarrow> wtask" where
  "retried_task now p failure why t =
     t\<lparr>tk_state := TPending, tk_reason := Some (clip (''retrying after '' @ failure_text failure @ '' failure: '' @ why) MAX_REASON),
       tk_retryAt := (if 0 < rp_backoffMs p then Some (now + rp_backoffMs p) else tk_retryAt t)\<rparr>"

definition ended_task :: "retry_policy option \<Rightarrow> task_end \<Rightarrow> int \<Rightarrow> wtask \<Rightarrow> wtask" where
  "ended_task rp fin now task =
     (let t = task\<lparr>tk_latest := None\<rparr> in
      case fin of
        EndDone result output \<Rightarrow>
          t\<lparr>tk_state := TDone, tk_endedAt := Some now, tk_result := Some (clip result MAX_RESULT),
            tk_output := (case output of Some ou \<Rightarrow> Some ou | None \<Rightarrow> tk_output t)\<rparr>
      | EndFailed why failure \<Rightarrow>
          (let cls = orelse failure FTerminal in
           if will_retry rp t cls then retried_task now (the rp) cls why t else failed_task now why t)
      | EndInterrupted why \<Rightarrow>
          (if tk_attempt t < MAX_AUTO_ATTEMPTS then t\<lparr>tk_state := TPending, tk_reason := Some (clip why MAX_REASON)\<rparr>
           else failed_task now (''interrupted: '' @ why) t)
      | EndCancelled \<Rightarrow> t\<lparr>tk_state := TStopped, tk_endedAt := Some now, tk_reason := Some ''cancelled by the user''\<rparr>)"

definition fit_storage :: "run \<Rightarrow> int \<Rightarrow> wtask \<Rightarrow> wtask \<Rightarrow> wtask" where
  "fit_storage r now task next =
     (if MAX_COMPOSITION_BYTES < compositionBytes (map (\<lambda>t. if tk_id t = tk_id task then next else t) (rn_tasks r))
      then task\<lparr>tk_latest := None, tk_state := TFailed, tk_endedAt := Some now,
                tk_reason := Some ''workflow output storage exceeds 24 KiB''\<rparr>
      else next)"

definition pause_for :: "slug \<Rightarrow> task_end \<Rightarrow> run \<Rightarrow> run" where
  "pause_for i fin r =
     (if fin = EndCancelled \<and> rn_state r \<notin> STICKY
      then r\<lparr>rn_state := RPaused, rn_reason := Some (''task '' @ i @ '' was cancelled'')\<rparr> else r)"

definition finishTask :: "wf_env \<Rightarrow> run \<Rightarrow> slug \<Rightarrow> task_end \<Rightarrow> int \<Rightarrow> run" where
  "finishTask env r i fin now =
     (case find_task i (rn_tasks r) of
        None \<Rightarrow> r
      | Some t \<Rightarrow>
          if \<not> live t then r
          else settle (pause_for i fin (set_task i (\<lambda>_. fit_storage r now t (ended_task (retryPolicy env r i) fin now t)) r)) now)"

datatype decision = Approve | Reject

definition answerHuman :: "wf_env \<Rightarrow> run \<Rightarrow> slug \<Rightarrow> decision \<Rightarrow> string option \<Rightarrow> int \<Rightarrow> run_error + run" where
  "answerHuman env r i d note_text now =
     (case find_task i (rn_tasks r) of
        None \<Rightarrow> Inl (UnknownTask i)
      | Some t \<Rightarrow>
          if tk_kind t \<noteq> KHuman then Inl (NotHuman i)
          else if tk_state t \<noteq> TNeedsInput then Inl (NotWaiting i (tk_state t))
          else let said = orelse (map_option js_trim note_text) [] in
            case d of
              Reject \<Rightarrow> Inr (finishTask env r i
                 (EndFailed (if said = [] then ''rejected by the user'' else ''rejected: '' @ said) (Some FTerminal)) now)
            | Approve \<Rightarrow> Inr (finishTask env r i
                 (EndDone (if said = [] then ''approved'' else said)
                    (if said = [] then None else Some \<lparr>ou_kind = OkText, ou_value = said, ou_artifactKind = None\<rparr>)) now))"

end
