(* ===== verification/WorkflowControl.thy ===== *)
theory WorkflowControl
  imports WorkflowRun
begin

text \<open>
  The rest of the run reducer (\<open>packages/workflows/src/run.ts\<close>): retries, the user's controls, map tasks, verification of
  the contract, restart, and the changes a script run makes.
\<close>

section \<open>Retries\<close>

definition touches :: "slug list \<Rightarrow> wtask \<Rightarrow> bool" where
  "touches out t \<longleftrightarrow> list_ex (\<lambda>i. i \<in> set out) (tk_needs t) \<or> (case truthy (tk_mapParentId t) of Some i \<Rightarrow> i \<in> set out | None \<Rightarrow> False)"

text \<open>One pass of the loop: the set grows while the tasks are visited.\<close>

fun dependents_pass :: "wtask list \<Rightarrow> slug list \<Rightarrow> slug list" where
  "dependents_pass [] out = out"
| "dependents_pass (t # ts) out = dependents_pass ts (if tk_id t \<notin> set out \<and> touches out t then out @ [tk_id t] else out)"

lemma dependents_pass_grows: "set out \<subseteq> set (dependents_pass ts out)"
  by (induction ts arbitrary: out) force+

lemma dependents_pass_length: "length out \<le> length (dependents_pass ts out)"
proof (induction ts arbitrary: out)
  case (Cons t ts)
  then show ?case
    using Cons.IH[of "out @ [tk_id t]"] by auto
qed simp

definition missing :: "wtask list \<Rightarrow> slug list \<Rightarrow> nat" where
  "missing ts out = length (filter (\<lambda>t. tk_id t \<notin> set out) ts)"

lemma missing_anti: "set out \<subseteq> set out' \<Longrightarrow> missing ts out' \<le> missing ts out"
  by (induction ts) (auto simp: missing_def)

lemma missing_step: "i \<notin> set out \<Longrightarrow> i \<in> tk_id ` set ts \<Longrightarrow> missing ts (out @ [i]) < missing ts out"
proof (induction ts)
  case (Cons t ts)
  then show ?case
    using missing_anti[of out "out @ [i]" ts] by (cases "i = tk_id t") (auto simp: missing_def less_Suc_eq_le)
qed simp

lemma missing_pass:
  "length (dependents_pass us out) \<noteq> length out \<Longrightarrow> set us \<subseteq> set ts \<Longrightarrow> missing ts (dependents_pass us out) < missing ts out"
proof (induction us arbitrary: out)
  case (Cons u us)
  show ?case
  proof (cases "tk_id u \<notin> set out \<and> touches out u")
    case True
    then have "missing ts (out @ [tk_id u]) < missing ts out"
      using Cons.prems by (intro missing_step) auto
    moreover have "missing ts (dependents_pass us (out @ [tk_id u])) \<le> missing ts (out @ [tk_id u])"
      by (rule missing_anti[OF dependents_pass_grows])
    ultimately show ?thesis
      using True by simp
  next
    case False
    then have "dependents_pass (u # us) out = dependents_pass us out"
      by (simp only: dependents_pass.simps if_False)
    then show ?thesis
      using Cons by (metis list.set_intros(2) subset_iff)
  qed
qed simp

function dependents_loop :: "wtask list \<Rightarrow> slug list \<Rightarrow> slug list" where
  "dependents_loop ts out =
     (let out' = dependents_pass ts out in if length out' = length out then out else dependents_loop ts out')"
  by pat_completeness auto
termination
  by (relation "measure (\<lambda>(ts, out). missing ts out)") (simp_all add: missing_pass)

declare dependents_loop.simps [simp del]

definition dependents :: "run \<Rightarrow> slug list \<Rightarrow> slug list" where
  "dependents r ids = dependents_loop (rn_tasks r) (js_set ids)"

text \<open>The tasks of the phases behind the first one that is affected.\<close>

definition later_members :: "run \<Rightarrow> slug list \<Rightarrow> slug list" where
  "later_members r affected =
     (case pl_phases (rn_plan r) of None \<Rightarrow> []
      | Some phs \<Rightarrow>
          (case find_index (\<lambda>ph. list_ex (\<lambda>i. i \<in> set affected) (ph_tasks ph)) phs of
             None \<Rightarrow> []
           | Some e \<Rightarrow> concat (map (\<lambda>ph. map tk_id (filter (\<lambda>t. plan_id t \<in> set (ph_tasks ph)) (rn_tasks r))) (drop (Suc e) phs))))"

definition reopened_task :: "slug list \<Rightarrow> string option \<Rightarrow> wtask \<Rightarrow> wtask" where
  "reopened_task ids feedback t =
     t\<lparr>tk_reason := None, tk_result := None, tk_output := None, tk_expanded := False, tk_endedAt := None, tk_latest := None,
       tk_feedback := (case truthy feedback of Some f \<Rightarrow> if tk_id t \<in> set ids then Some (clip f MAX_FEEDBACK) else None | None \<Rightarrow> None),
       tk_retryAt := None, tk_state := TPending\<rparr>"

definition affected_tasks :: "run \<Rightarrow> slug list \<Rightarrow> slug list" where
  "affected_tasks r ids = (let affected = dependents r ids in affected @ later_members r affected)"

definition reopen :: "run \<Rightarrow> slug list \<Rightarrow> string option \<Rightarrow> run" where
  "reopen r ids feedback =
     r\<lparr>rn_tasks := map (\<lambda>t. if tk_id t \<in> set (affected_tasks r ids) then reopened_task ids feedback t else t) (rn_tasks r)\<rparr>"

definition retryable :: "wtask \<Rightarrow> bool" where
  "retryable t \<longleftrightarrow> tk_state t \<in> {TFailed, TSkipped, TStopped, TNeedsInput}"

definition run_again :: "run \<Rightarrow> int \<Rightarrow> run" where
  "run_again r now = settle (r\<lparr>rn_reason := None, rn_endedAt := None, rn_state := RRunning\<rparr>) now"

definition retryTask :: "run \<Rightarrow> slug \<Rightarrow> int \<Rightarrow> string option \<Rightarrow> run_error + run" where
  "retryTask r i now why =
     (case find_task i (rn_tasks r) of
        None \<Rightarrow> Inl (UnknownTask i)
      | Some t \<Rightarrow>
          if \<not> retryable t then Inl (NotRetryable i (tk_state t))
          else if rn_state r \<in> {RVerifying, RCompleted, RStopped} then Inl (CannotRetry (rn_state r))
          else Inr (run_again (reopen r [orelse (tk_mapParentId t) i] why) now))"

definition retryPhase :: "run \<Rightarrow> slug \<Rightarrow> int \<Rightarrow> string option \<Rightarrow> run_error + run" where
  "retryPhase r pid now why =
     (case find (\<lambda>ph. ph_id ph = pid) (orelse (pl_phases (rn_plan r)) []) of
        None \<Rightarrow> Inl (UnknownPhase pid)
      | Some ph \<Rightarrow>
          if rn_state r \<in> {RVerifying, RCompleted, RStopped} then Inl (CannotRetry (rn_state r))
          else if \<not> list_ex retryable (filter (\<lambda>t. plan_id t \<in> set (ph_tasks ph)) (rn_tasks r)) then Inl (PhaseNotRetryable pid)
          else Inr (run_again (reopen r (ph_tasks ph) why) now))"

section \<open>The user's controls\<close>

datatype control = Pause | Resume | Stop

definition without_end :: "wtask \<Rightarrow> wtask" where
  "without_end t = t\<lparr>tk_reason := None, tk_endedAt := None\<rparr>"

definition stop_task :: "int \<Rightarrow> wtask \<Rightarrow> wtask" where
  "stop_task now t =
     (if live t \<or> tk_state t = TPending
      then t\<lparr>tk_state := TStopped, tk_endedAt := Some now, tk_reason := Some ''workflow stopped''\<rparr> else t)"

definition resume_task :: "wtask \<Rightarrow> wtask" where
  "resume_task t = (if tk_state t = TStopped then (without_end t)\<lparr>tk_state := TPending\<rparr> else t)"

definition controlRun :: "run \<Rightarrow> control \<Rightarrow> int \<Rightarrow> run" where
  "controlRun r action now =
     (if rn_state r = RCompleted \<or> rn_state r = RStopped then r
      else case action of
        Pause \<Rightarrow> r\<lparr>rn_state := RPaused, rn_reason := Some ''paused by the user'', rn_updatedAt := now\<rparr>
      | Stop \<Rightarrow> r\<lparr>rn_tasks := map (stop_task now) (rn_tasks r), rn_state := RStopped, rn_reason := Some ''stopped by the user'',
                 rn_updatedAt := now, rn_endedAt := Some now\<rparr>
      | Resume \<Rightarrow>
          (let rest = r\<lparr>rn_reason := None\<rparr> in
           if truthy (rn_queuedBehind r) \<noteq> None then rest\<lparr>rn_state := RQueued, rn_updatedAt := now\<rparr>
           else settle (rest\<lparr>rn_tasks := map resume_task (rn_tasks r),
                             rn_state := (if rn_state r = RBlocked then RVerifying else RRunning)\<rparr>) now))"

section \<open>Map tasks\<close>

definition retired_child :: "int \<Rightarrow> wtask \<Rightarrow> wtask" where
  "retired_child now t =
     t\<lparr>tk_output := None, tk_result := None, tk_mapItem := None, tk_mapRetired := True, tk_state := TSkipped,
       tk_reason := Some ''map item removed'', tk_endedAt := Some now\<rparr>"

definition place_children :: "run \<Rightarrow> slug \<Rightarrow> wtask list \<Rightarrow> int \<Rightarrow> run" where
  "place_children r pid children now =
     r\<lparr>rn_tasks :=
         map (\<lambda>t. if tk_id t = pid then t\<lparr>tk_expanded := True\<rparr>
                  else case find_task (tk_id t) (rev children) of
                    Some c \<Rightarrow> c
                  | None \<Rightarrow> if is_child_of pid t then retired_child now t else t) (rn_tasks r)
         @ filter (\<lambda>c. find_task (tk_id c) (rn_tasks r) = None) children,
       rn_updatedAt := now\<rparr>"

text \<open>A map task starts by expanding; an expansion that throws fails the task, and the flag says to go on with the next one.\<close>

definition expand_map :: "wf_env \<Rightarrow> run \<Rightarrow> wtask \<Rightarrow> int \<Rightarrow> run_error + (bool \<times> run)" where
  "expand_map env r parent now =
     (if rn_state r \<noteq> RPaused \<and> startable r parent then
        bindE (startTask r (tk_id parent) now None) (\<lambda>s.
          case expandedTasks env s parent of
            Inr children \<Rightarrow> Inr (True, place_children s (tk_id parent) children now)
          | Inl why \<Rightarrow> Inr (False, finishTask env s (tk_id parent) (EndFailed why None) now))
      else Inr (True, r))"

definition child_value :: "wf_env \<Rightarrow> wtask \<Rightarrow> string + json" where
  "child_value env t = (case tk_output t of Some ou \<Rightarrow> outputValue env ou | None \<Rightarrow> Inr (JStr (orelse (tk_result t) [])))"

fun state_text :: "task_state \<Rightarrow> string" where
  "state_text TPending = ''pending''"
| "state_text TRunning = ''running''"
| "state_text TNeedsInput = ''needs_input''"
| "state_text TDone = ''done''"
| "state_text TFailed = ''failed''"
| "state_text TSkipped = ''skipped''"
| "state_text TStopped = ''stopped''"

definition finish_map :: "wf_env \<Rightarrow> run \<Rightarrow> slug \<Rightarrow> wtask list \<Rightarrow> int \<Rightarrow> run_error + run" where
  "finish_map env r pid children now =
     (case find (\<lambda>t. tk_state t \<noteq> TDone) children of
        Some t \<Rightarrow> Inr (finishTask env r pid
          (EndFailed (''map child '' @ tk_id t @ '': '' @ orelse (tk_reason t) (state_text (tk_state t))) None) now)
      | None \<Rightarrow>
          (case mapE (child_value env) children of
             Inl why \<Rightarrow> Inl (OutputError why)
           | Inr vs \<Rightarrow>
               let value = stringify (we_number env) (JArr vs) in
               Inr (finishTask env r pid
                 (if 8000 < length value then EndFailed ''map output exceeds 8000 characters'' None
                  else EndDone (nat_text (length children) @ '' items completed'')
                    (Some \<lparr>ou_kind = OkJson, ou_value = value, ou_artifactKind = None\<rparr>)) now)))"

definition map_children :: "run \<Rightarrow> slug \<Rightarrow> wtask list" where
  "map_children r pid = filter (\<lambda>t. is_child_of pid t \<and> \<not> tk_mapRetired t) (rn_tasks r)"

definition collect_map :: "wf_env \<Rightarrow> run \<Rightarrow> slug \<Rightarrow> int \<Rightarrow> run_error + run" where
  "collect_map env r pid now =
     (case find_task pid (rn_tasks r) of
        Some t \<Rightarrow>
          if tk_state t = TRunning \<and> tk_expanded t \<and> list_all taskTerminal (map_children r pid)
          then finish_map env r pid (map_children r pid) now else Inr r
      | None \<Rightarrow> Inr r)"

definition advance_map :: "wf_env \<Rightarrow> int \<Rightarrow> slug \<Rightarrow> run \<Rightarrow> run_error + run" where
  "advance_map env now pid r =
     (case find_task pid (rn_tasks r) of
        None \<Rightarrow> Inr r
      | Some parent \<Rightarrow> bindE (expand_map env r parent now) (\<lambda>(go, s). if go then collect_map env s pid now else Inr s))"

fun advance_loop :: "wf_env \<Rightarrow> int \<Rightarrow> slug list \<Rightarrow> run \<Rightarrow> run_error + run" where
  "advance_loop env now [] r = Inr r"
| "advance_loop env now (i # is) r = bindE (advance_map env now i r) (advance_loop env now is)"

definition advanceMaps :: "wf_env \<Rightarrow> run \<Rightarrow> int \<Rightarrow> run_error + run" where
  "advanceMaps env r now =
     (if rn_state r \<notin> {RRunning, RNeedsInput, RPaused} then Inr r
      else advance_loop env now (map tk_id (filter (\<lambda>t. tk_kind t = KMap) (rn_tasks r))) r)"

section \<open>The contract\<close>

definition blockRun :: "run \<Rightarrow> string \<Rightarrow> int \<Rightarrow> run" where
  "blockRun r why now = r\<lparr>rn_state := RBlocked, rn_reason := Some (clip why MAX_REASON), rn_updatedAt := now\<rparr>"

definition acceptRun :: "run \<Rightarrow> string \<Rightarrow> int \<Rightarrow> run" where
  "acceptRun r why now =
     (if rn_state r = RCompleted \<or> rn_state r = RStopped then r
      else r\<lparr>rn_reason := None, rn_state := RCompleted, rn_override := Some (clip why MAX_REASON, now), rn_updatedAt := now,
             rn_endedAt := Some now\<rparr>)"

definition covers :: "contract_check \<Rightarrow> slug \<Rightarrow> bool" where
  "covers k i \<longleftrightarrow> i \<in> set (orelse (cc_covers k) [])"

definition auditNeeded :: "contract \<Rightarrow> bool" where
  "auditNeeded ct =
     (case ct_audit ct of
        AuditIndependent \<Rightarrow> True
      | AuditNone \<Rightarrow> False
      | AuditAuto \<Rightarrow> list_ex (\<lambda>cr. cr_required cr \<and> \<not> list_ex (\<lambda>k. covers k (cr_id cr)) (ct_checks ct)) (ct_criteria ct))"

text \<open>\<open>gates[index]\<close>, and the map from the ids of the checks to their gates, in which the last of equal ids counts.\<close>

definition gate_at :: "gate list \<Rightarrow> nat \<Rightarrow> gate option" where
  "gate_at gates n = (if n < length gates then Some (gates ! n) else None)"

definition gate_of :: "contract \<Rightarrow> gate list \<Rightarrow> slug \<Rightarrow> gate option" where
  "gate_of ct gates i =
     Option.bind (map_of (rev (map (\<lambda>(n, k). (cc_id k, gate_at gates n)) (enumerate 0 (ct_checks ct)))) i) (\<lambda>g. g)"

definition audit_valid :: "audit_outcome option \<Rightarrow> bool" where
  "audit_valid audit \<longleftrightarrow> (case audit of None \<Rightarrow> False | Some a \<Rightarrow> 0 < ao_inspections a \<and> \<not> ao_workspaceChanged a)"

fun said_status :: "audit_status \<Rightarrow> criterion_status" where
  "said_status SaidPass = CPass"
| "said_status SaidFail = CFail"
| "said_status SaidUnsure = CUnsure"

definition audited_status :: "audit_outcome \<Rightarrow> slug \<Rightarrow> criterion_status" where
  "audited_status a i =
     (case filter (\<lambda>e. ae_id e = i) (ao_criteria a) of
        [e] \<Rightarrow> if js_trim (ae_evidence e) \<noteq> [] then said_status (ae_status e) else CUnsure
      | _ \<Rightarrow> CUnsure)"

definition judge_criterion :: "contract \<Rightarrow> gate list \<Rightarrow> audit_outcome option \<Rightarrow> criterion \<Rightarrow> slug \<times> criterion_status \<times> judged_by" where
  "judge_criterion ct gates audit cr =
     (let covering = filter (\<lambda>k. covers k (cr_id cr)) (ct_checks ct) in
      if covering \<noteq> [] then
        (cr_id cr, if list_all (\<lambda>k. map_option ga_status (gate_of ct gates (cc_id k)) = Some GPass) covering then CPass else CFail, ByCheck)
      else case audit of
        None \<Rightarrow> (cr_id cr, CUnverified, ByNobody)
      | Some a \<Rightarrow> (cr_id cr, if audit_valid audit then audited_status a (cr_id cr) else CUnsure, ByAudit))"

definition required_ids :: "contract \<Rightarrow> slug list" where
  "required_ids ct = map cr_id (filter cr_required (ct_criteria ct))"

definition judgeVerification :: "contract \<Rightarrow> nat \<Rightarrow> int \<Rightarrow> gate list \<Rightarrow> audit_outcome option \<Rightarrow> verification" where
  "judgeVerification ct number now gates audit =
     (let criteria = map (judge_criterion ct gates audit) (ct_criteria ct) in
      \<lparr>ve_round = number, ve_at = now, ve_gates = gates, ve_audit = audit, ve_criteria = criteria,
       ve_accepted = list_all (\<lambda>g. ga_status g = GPass) gates
         \<and> list_all (\<lambda>(i, st, by). i \<notin> set (required_ids ct) \<or> st = CPass \<or> (st = CUnverified \<and> ct_audit ct = AuditNone)) criteria\<rparr>)"

fun criterion_text :: "criterion_status \<Rightarrow> string" where
  "criterion_text CPass = ''pass''"
| "criterion_text CFail = ''fail''"
| "criterion_text CUnsure = ''unsure''"
| "criterion_text CUnverified = ''unverified''"

definition rejection :: "verification \<Rightarrow> string" where
  "rejection v = clip (js_join [CHR 0x0A, CHR 0x0A]
     (map (\<lambda>g. ''check '' @ ga_id g @ '' failed'' @ (case truthy (ga_detail g) of Some d \<Rightarrow> '':'' @ CHR 0x0A # d | None \<Rightarrow> []))
        (filter (\<lambda>g. ga_status g = GFail) (ve_gates v))
      @ map (\<lambda>(i, st, by). ''criterion '' @ i @ '': '' @ criterion_text st)
          (filter (\<lambda>(i, st, by). st = CFail \<or> st = CUnsure) (ve_criteria v))
      @ (case ve_audit v of Some a \<Rightarrow> if ao_findings a \<noteq> [] then [''auditor: '' @ ao_findings a] else [] | None \<Rightarrow> []))) MAX_FEEDBACK"

definition take_last :: "nat \<Rightarrow> 'a list \<Rightarrow> 'a list" where
  "take_last n xs = drop (length xs - n) xs"

definition failed_criteria :: "verification \<Rightarrow> slug list" where
  "failed_criteria v = map fst (filter (\<lambda>(i, st, by). st \<noteq> CPass \<and> st \<noteq> CUnverified) (ve_criteria v))"

definition failed_checks :: "contract \<Rightarrow> verification \<Rightarrow> contract_check list" where
  "failed_checks ct v =
     map snd (filter (\<lambda>(n, k). map_option ga_status (gate_at (ve_gates v) n) = Some GFail) (enumerate 0 (ct_checks ct)))"

definition declared_owners :: "contract \<Rightarrow> verification \<Rightarrow> slug list" where
  "declared_owners ct v =
     js_set (concat (map (\<lambda>cr. orelse (cr_owners cr) []) (filter (\<lambda>cr. cr_id cr \<in> set (failed_criteria v)) (ct_criteria ct)))
             @ concat (map (\<lambda>k. orelse (cc_owners k) []) (failed_checks ct v)))"

text \<open>Without a declared owner the only task that works is one.\<close>

definition repair_owners :: "run \<Rightarrow> contract \<Rightarrow> verification \<Rightarrow> slug list" where
  "repair_owners r ct v =
     (if declared_owners ct v \<noteq> [] then declared_owners ct v
      else case filter (\<lambda>t. tk_kind t = KAgent \<and> tk_mode t = Some WorkMode) (rn_tasks r) of
        [t] \<Rightarrow> [tk_id t]
      | _ \<Rightarrow> [])"

definition or_text :: "string \<Rightarrow> string \<Rightarrow> string" where
  "or_text s alternative = (if s = [] then alternative else s)"

definition applyVerification :: "run \<Rightarrow> verification \<Rightarrow> int \<Rightarrow> run_error + run" where
  "applyVerification r v now =
     (case contractOf r of
        None \<Rightarrow> Inl NoContract
      | Some ct \<Rightarrow>
          let r1 = r\<lparr>rn_verifications := take_last MAX_VERIFICATIONS (rn_verifications r @ [v])\<rparr>;
              r2 = r1\<lparr>rn_repairs := rn_repairs r + 1\<rparr>;
              owners = repair_owners r ct v
          in Inr (
            if ve_accepted v then r1\<lparr>rn_reason := None, rn_state := RCompleted, rn_updatedAt := now, rn_endedAt := Some now\<rparr>
            else if pl_script (rn_plan r) \<noteq> None then
              blockRun r1 (''contract rejected: '' @ or_text (hd (js_split (CHR 0x0A) (rejection v))) ''see the verification round'') now
            else if ct_maxRepairs ct \<le> rn_repairs r then
              blockRun r1 (''contract still failing after '' @ nat_text (ct_maxRepairs ct) @ '' repairs'') now
            else if owners = [] then
              blockRun r2 (''no repair owner declared for: ''
                @ or_text (js_join '', '' (failed_criteria v @ map cc_id (failed_checks ct v))) ''the failed checks'') now
            else settle ((reopen r2 owners (Some (rejection v)))\<lparr>rn_reason := None, rn_state := RRunning\<rparr>) now))"

section \<open>Restart and scripts\<close>

definition interrupt_all :: "wf_env \<Rightarrow> (wtask \<Rightarrow> bool) \<Rightarrow> string \<Rightarrow> int \<Rightarrow> run \<Rightarrow> run" where
  "interrupt_all env which why now r =
     fold (\<lambda>t s. if which t \<and> live t then finishTask env s (tk_id t) (EndInterrupted why) now else s) (rn_tasks r) r"

definition change_script :: "(script_state \<Rightarrow> script_state) \<Rightarrow> run \<Rightarrow> run" where
  "change_script f r = r\<lparr>rn_script := map_option f (rn_script r)\<rparr>"

definition reconcileAfterRestart :: "wf_env \<Rightarrow> run \<Rightarrow> int \<Rightarrow> run" where
  "reconcileAfterRestart env r now =
     change_script (\<lambda>s. if ss_host s = HostRunning \<or> ss_host s = HostIdle then s\<lparr>ss_host := HostIdle\<rparr> else s)
       (interrupt_all env (\<lambda>t. \<not> slotless t) ''the daemon restarted'' now r)"

definition SCRIPT_RESULT_CLIP :: nat where "SCRIPT_RESULT_CLIP = 120"
definition SCRIPT_LOG_TAIL :: nat where "SCRIPT_LOG_TAIL = 10"

record script_task =
  st_id :: slug
  st_title :: string
  st_kind :: task_kind
  st_mode :: "task_mode option"
  st_label :: "string option"
  st_phase :: "string option"
  st_isolated :: bool
  st_engine :: "string option"
  st_modelId :: "string option"

definition script_row :: "script_task \<Rightarrow> wtask" where
  "script_row t =
     (new_task (st_id t) (clip (st_title t) 80) (st_kind t) [])
       \<lparr>tk_mode := st_mode t, tk_label := map_option (\<lambda>s. clip s 80) (truthy (st_label t)),
        tk_phase := map_option (\<lambda>s. clip s 80) (truthy (st_phase t)), tk_isolated := st_isolated t,
        tk_engine := truthy (st_engine t), tk_modelId := map_option (\<lambda>s. clip s 100) (truthy (st_modelId t))\<rparr>"

definition addScriptTask :: "run \<Rightarrow> script_task \<Rightarrow> int \<Rightarrow> run_error + run" where
  "addScriptTask r t now =
     (if rn_script r = None then Inl NotAScriptRun
      else if find_task (st_id t) (rn_tasks r) \<noteq> None then Inr r
      else Inr (settle (change_script (\<lambda>s. s\<lparr>ss_calls := ss_calls s + (if st_kind t = KAgent then 1 else 0)\<rparr>)
             (r\<lparr>rn_tasks := rn_tasks r @ [script_row t]\<rparr>)) now))"

definition when_script :: "run \<Rightarrow> run \<Rightarrow> run" where
  "when_script r changed = (if rn_script r = None then r else changed)"

text \<open>The tasks the two updates below leave alone: every one but the named one, which has to be done.\<close>

definition left_alone :: "slug \<Rightarrow> wtask \<Rightarrow> bool" where
  "left_alone i t \<longleftrightarrow> tk_id t \<noteq> i \<or> tk_state t \<noteq> TDone"

definition compact_task :: "wtask \<Rightarrow> wtask" where
  "compact_task t = t\<lparr>tk_execution := None,
     tk_result := (case truthy (tk_result t) of Some s \<Rightarrow> Some (clip s SCRIPT_RESULT_CLIP) | None \<Rightarrow> tk_result t)\<rparr>"

definition compactScriptTask :: "run \<Rightarrow> slug \<Rightarrow> run" where
  "compactScriptTask r i =
     when_script r (r\<lparr>rn_tasks := map (\<lambda>t. if left_alone i t then t else compact_task t) (rn_tasks r)\<rparr>)"

definition rerun_task :: "wtask \<Rightarrow> wtask" where
  "rerun_task t = (without_end t)\<lparr>tk_result := None, tk_state := TPending\<rparr>"

definition reopenScriptTask :: "run \<Rightarrow> slug \<Rightarrow> int \<Rightarrow> run" where
  "reopenScriptTask r i now =
     when_script r (settle (r\<lparr>rn_tasks := map (\<lambda>t. if left_alone i t then t else rerun_task t) (rn_tasks r)\<rparr>) now)"

definition setScriptPhase :: "run \<Rightarrow> string \<Rightarrow> int \<Rightarrow> run" where
  "setScriptPhase r ph now = when_script r ((change_script (\<lambda>s. s\<lparr>ss_phase := Some ph\<rparr>) r)\<lparr>rn_updatedAt := now\<rparr>)"

definition log_line :: "nat \<Rightarrow> string \<Rightarrow> script_state \<Rightarrow> script_state" where
  "log_line n message s =
     s\<lparr>ss_logCount := n + 1, ss_logs := take_last SCRIPT_LOG_TAIL (ss_logs s @ [clip message 200])\<rparr>"

definition appendScriptLog :: "run \<Rightarrow> nat \<Rightarrow> string \<Rightarrow> int \<Rightarrow> run" where
  "appendScriptLog r n message now =
     (case rn_script r of
        None \<Rightarrow> r
      | Some s \<Rightarrow> if n < ss_logCount s then r else (change_script (log_line n message) r)\<lparr>rn_updatedAt := now\<rparr>)"

definition scriptHostStarted :: "run \<Rightarrow> int \<Rightarrow> run" where
  "scriptHostStarted r now =
     when_script r ((change_script (\<lambda>s. s\<lparr>ss_host := HostRunning, ss_starts := ss_starts s + 1\<rparr>) r)\<lparr>rn_updatedAt := now\<rparr>)"

definition scriptHostIdle :: "run \<Rightarrow> int \<Rightarrow> run" where
  "scriptHostIdle r now =
     (if map_option ss_host (rn_script r) = Some HostRunning
      then (change_script (\<lambda>s. s\<lparr>ss_host := HostIdle\<rparr>) r)\<lparr>rn_updatedAt := now\<rparr> else r)"

definition finishScript :: "run \<Rightarrow> string option \<Rightarrow> int \<Rightarrow> run" where
  "finishScript r result now = when_script r (settle (change_script (\<lambda>s.
     s\<lparr>ss_error := None, ss_host := HostDone,
       ss_result := (case result of Some x \<Rightarrow> Some (clip x 4000) | None \<Rightarrow> ss_result s)\<rparr>) r) now)"

definition failScript :: "run \<Rightarrow> string \<Rightarrow> int \<Rightarrow> run" where
  "failScript r message now = when_script r (settle
     (change_script (\<lambda>s. s\<lparr>ss_host := HostFailed, ss_error := Some (clip message MAX_REASON)\<rparr>)
        (r\<lparr>rn_reason := Some (clip message MAX_REASON)\<rparr>)) now)"

definition resetScriptHost :: "run \<Rightarrow> run" where
  "resetScriptHost r =
     (if map_option ss_host (rn_script r) = Some HostDone then r
      else change_script (\<lambda>s. s\<lparr>ss_error := None, ss_host := HostIdle\<rparr>) r)"

definition pauseScriptRun :: "wf_env \<Rightarrow> run \<Rightarrow> string \<Rightarrow> int \<Rightarrow> run" where
  "pauseScriptRun env r why now =
     (interrupt_all env (\<lambda>t. tk_kind t \<noteq> KHuman) ''paused: a cap was reached'' now r)
       \<lparr>rn_state := RPaused, rn_reason := Some (clip why MAX_REASON), rn_updatedAt := now\<rparr>"

end
