(* ===== verification/WorkflowSteps.thy ===== *)
theory WorkflowSteps
  imports WorkflowControl
begin

text \<open>
  The runs of the reducer: one call as a step relation, the updates of a task the calls are made of (locales, interpreted on
  the reducer's own updates), and the interface of an invariant, \<open>run_invariant\<close>: what it has to survive on the level of
  single updates, from which its preservation by every call and along every run is proved once.
\<close>

section \<open>The runs of the reducer\<close>

text \<open>One call of the reducer that did not throw.\<close>

inductive wf_step :: "wf_env \<Rightarrow> run \<Rightarrow> run \<Rightarrow> bool" for env where
  start: "startTask r i now sid = Inr s \<Longrightarrow> wf_step env r s"
| human: "startHuman r i prompt now = Inr s \<Longrightarrow> wf_step env r s"
| answer: "answerHuman env r i d said now = Inr s \<Longrightarrow> wf_step env r s"
| waiting: "wf_step env r (setWaiting r i w now)"
| latest: "setLatest r i l = Inr s \<Longrightarrow> wf_step env r s"
| finish: "wf_step env r (finishTask env r i fin now)"
| retry: "retryTask r i now why = Inr s \<Longrightarrow> wf_step env r s"
| phase: "retryPhase r ph now why = Inr s \<Longrightarrow> wf_step env r s"
| control: "wf_step env r (controlRun r action now)"
| maps: "advanceMaps env r now = Inr s \<Longrightarrow> wf_step env r s"
| block: "wf_step env r (blockRun r why now)"
| accept: "wf_step env r (acceptRun r why now)"
| verify: "applyVerification r v now = Inr s \<Longrightarrow> wf_step env r s"
| restart: "wf_step env r (reconcileAfterRestart env r now)"
| script_task: "addScriptTask r t now = Inr s \<Longrightarrow> wf_step env r s"
| script_compact: "wf_step env r (compactScriptTask r i)"
| script_reopen: "wf_step env r (reopenScriptTask r i now)"
| script_phase: "wf_step env r (setScriptPhase r title now)"
| script_log: "wf_step env r (appendScriptLog r n message now)"
| script_started: "wf_step env r (scriptHostStarted r now)"
| script_idle: "wf_step env r (scriptHostIdle r now)"
| script_finish: "wf_step env r (finishScript r result now)"
| script_fail: "wf_step env r (failScript r message now)"
| script_reset: "wf_step env r (resetScriptHost r)"
| script_pause: "wf_step env r (pauseScriptRun env r why now)"

inductive_cases wf_stepE [elim]: "wf_step env r s"

inductive reaches :: "wf_env \<Rightarrow> run \<Rightarrow> run \<Rightarrow> bool" for env where
  arrived: "reaches env r r"
| moved: "reaches env r s \<Longrightarrow> wf_step env s t \<Longrightarrow> reaches env r t"

section \<open>Identity of a task\<close>

definition same_task :: "wtask \<Rightarrow> wtask \<Rightarrow> bool" where
  "same_task t u \<longleftrightarrow> tk_id t = tk_id u \<and> tk_needs t = tk_needs u \<and> tk_mapParentId t = tk_mapParentId u
     \<and> tk_kind t = tk_kind u \<and> tk_mode t = tk_mode u \<and> tk_isolated t = tk_isolated u"

lemma same_task_refl [simp]: "same_task t t"
  by (simp add: same_task_def)

definition working :: "wtask \<Rightarrow> bool" where
  "working t \<longleftrightarrow> live t \<or> tk_state t = TDone"

text \<open>An update that keeps what identifies a task.\<close>

locale identity_update =
  fixes f :: "wtask \<Rightarrow> wtask"
  assumes same: "same_task (f t) t"
begin

lemma keeps [simp]:
  "tk_id (f t) = tk_id t" "tk_needs (f t) = tk_needs t" "tk_mapParentId (f t) = tk_mapParentId t"
  "tk_kind (f t) = tk_kind t" "tk_mode (f t) = tk_mode t" "tk_isolated (f t) = tk_isolated t"
  using same[of t] by (simp_all add: same_task_def)

lemma selected: "same_task (if P t then f t else t) t"
  using same by simp

end

text \<open>An update that starts nothing, and one that moreover takes no result back.\<close>

locale idle_update = identity_update +
  assumes idle: "live (f t) \<Longrightarrow> live t"
begin

lemma slots_kept: "\<not> slotless (f t) \<and> live (f t) \<Longrightarrow> \<not> slotless t \<and> live t"
  by (simp add: slotless_def idle)

end

locale quiet_update = idle_update +
  assumes done_kept: "tk_state (f t) = TDone \<longleftrightarrow> tk_state t = TDone"
begin

lemma working_kept: "working (f t) \<Longrightarrow> working t"
  using idle done_kept by (auto simp: working_def)

end

lemma skip_live: "live (skip_task p ts t) = live t"
  using skip_reason_pending[of p ts t] by (auto simp: live_def skip_task_def split: option.splits)

lemma skip_done: "tk_state (skip_task p ts t) = TDone \<longleftrightarrow> tk_state t = TDone"
  using skip_reason_pending[of p ts t] by (auto simp: skip_task_def split: option.splits)

interpretation skips: quiet_update "skip_task p ts" for p ts
  by unfold_locales
    (simp_all add: same_task_def skip_live skip_done, simp_all add: skip_task_def split: option.splits)

interpretation stops: quiet_update "stop_task now" for now
  by unfold_locales (auto simp: same_task_def live_def stop_task_def split: if_splits)

interpretation resumes: quiet_update resume_task
  by unfold_locales (auto simp: same_task_def live_def resume_task_def without_end_def split: if_splits)

interpretation reopens: idle_update "reopened_task ids feedback" for ids feedback
  by unfold_locales (simp_all add: same_task_def live_def reopened_task_def)

interpretation compacts: quiet_update compact_task
  by unfold_locales (simp_all add: same_task_def live_def compact_task_def)

interpretation starts: identity_update "started_task now sid" for now sid
  by unfold_locales (simp add: same_task_def started_task_def)

interpretation ends: identity_update "\<lambda>t. fit_storage r now t (ended_task rp fin now t)" for r now rp fin
  by unfold_locales
    (simp add: same_task_def fit_storage_def ended_task_def retried_task_def failed_task_def Let_def split: task_end.splits)

lemma ended_not_live: "\<not> live (fit_storage r now t (ended_task rp fin now t))"
  by (simp add: live_def fit_storage_def ended_task_def retried_task_def failed_task_def Let_def split: task_end.splits)

section \<open>Finding tasks\<close>

lemma find_task_Some: "find_task i ts = Some t \<Longrightarrow> t \<in> set ts \<and> tk_id t = i"
  by (auto simp: find_task_def find_Some_iff)

lemma find_task_None: "find_task i ts = None \<longleftrightarrow> i \<notin> tk_id ` set ts"
  by (auto simp: find_task_def find_None_iff)

lemma distinct_ids_eq: "distinct (map tk_id ts) \<Longrightarrow> t \<in> set ts \<Longrightarrow> u \<in> set ts \<Longrightarrow> tk_id t = tk_id u \<Longrightarrow> t = u"
  by (simp add: distinct_map inj_on_def)

lemma find_task_distinct: "distinct (map tk_id ts) \<Longrightarrow> t \<in> set ts \<Longrightarrow> find_task (tk_id t) ts = Some t"
  by (metis distinct_ids_eq find_task_None find_task_Some image_eqI option.exhaust)

lemma ids_map: "(\<And>t. t \<in> set ts \<Longrightarrow> same_task (f t) t) \<Longrightarrow> map tk_id (map f ts) = map tk_id ts"
  by (simp add: same_task_def)

lemma distinct_kept: "(\<And>t. t \<in> set ts \<Longrightarrow> tk_id (f t) = tk_id t) \<Longrightarrow> distinct (map tk_id (map f ts)) = distinct (map tk_id ts)"
  by (simp add: comp_def cong: map_cong)

lemma ready_loop_startable: "i \<in> set (ready_loop r now slots busy ts) \<Longrightarrow> \<exists>t \<in> set ts. tk_id t = i \<and> startable r t"
  by (induction r now slots busy ts rule: ready_loop.induct) (auto split: if_splits)

lemma ready_startable:
  assumes "i \<in> set (readyTasks r busy now)" "distinct (map tk_id (rn_tasks r))" "t \<in> set (rn_tasks r)" "tk_id t = i"
  shows "startable r t"
  using assms ready_loop_startable[of i r now _ _ "rn_tasks r"] distinct_ids_eq[OF assms(2)]
  by (auto simp: readyTasks_def split: if_splits)

lemma set_task_found:
  assumes "distinct (map tk_id (rn_tasks r))" "find_task i (rn_tasks r) = Some t"
  shows "rn_tasks (set_task i (\<lambda>_. g t) r) = map (\<lambda>u. if tk_id u = i then g u else u) (rn_tasks r)"
  using distinct_ids_eq[OF assms(1)] find_task_Some[OF assms(2)] by (auto simp: set_task_def)

lemma pause_for_simps [simp]:
  "rn_tasks (pause_for i fin r) = rn_tasks r" "rn_plan (pause_for i fin r) = rn_plan r" "rn_script (pause_for i fin r) = rn_script r"
  by (simp_all add: pause_for_def)

lemma set_task_simps [simp]: "rn_plan (set_task i f r) = rn_plan r" "rn_script (set_task i f r) = rn_script r"
  by (simp_all add: set_task_def)

lemma found_only:
  "distinct (map tk_id ts) \<Longrightarrow> find_task i ts = Some t \<Longrightarrow> u \<in> set ts \<Longrightarrow> tk_id u = i \<Longrightarrow> u = t"
  by (auto dest: find_task_Some distinct_ids_eq)

lemma if_flip: "(if \<not> P then x else y) = (if P then y else x)"
  by simp

section \<open>The interface of an invariant\<close>

definition set_state :: "task_state \<Rightarrow> wtask \<Rightarrow> wtask" where
  "set_state st t = t\<lparr>tk_state := st\<rparr>"

text \<open>The updates that start nothing and take no result back.\<close>

definition routine :: "plan \<Rightarrow> (wtask \<Rightarrow> wtask) \<Rightarrow> bool" where
  "routine p f \<longleftrightarrow> (\<exists>ts. f = skip_task p ts) \<or> (\<exists>l. f = note_latest l) \<or> (\<exists>now. f = stop_task now) \<or> f = resume_task \<or> f = compact_task"

interpretation latest: quiet_update "note_latest l" for l
  by unfold_locales (simp_all add: same_task_def live_def note_latest_def)

lemma routine_quiet: "routine p f \<Longrightarrow> quiet_update f"
  using skips.quiet_update_axioms latest.quiet_update_axioms stops.quiet_update_axioms resumes.quiet_update_axioms
    compacts.quiet_update_axioms
  by (auto simp: routine_def)

lemma routines [simp, intro]:
  "routine p (skip_task p ts)" "routine p (note_latest l)" "routine p (stop_task now)" "routine p resume_task" "routine p compact_task"
  by (auto simp: routine_def)

locale run_invariant =
  fixes I :: "run \<Rightarrow> bool"
  assumes fields: "I r \<Longrightarrow> rn_tasks r' = rn_tasks r \<Longrightarrow> rn_plan r' = rn_plan r \<Longrightarrow>
      (rn_script r = None \<longleftrightarrow> rn_script r' = None) \<Longrightarrow> I r'"
    and quiet: "routine (rn_plan r) f \<Longrightarrow> I r \<Longrightarrow> I (r\<lparr>rn_tasks := map (\<lambda>t. if P t then f t else t) (rn_tasks r)\<rparr>)"
    and start: "I r \<Longrightarrow> i \<in> set (readyTasks r False None) \<Longrightarrow> I (set_task i (started_task now sid) r)"
    and wait: "I r \<Longrightarrow> find_task i (rn_tasks r) = Some t \<Longrightarrow> live t \<Longrightarrow> st = TNeedsInput \<or> st = TRunning \<Longrightarrow>
      I (set_task i (set_state st) r)"
    and over: "I r \<Longrightarrow> find_task i (rn_tasks r) = Some t \<Longrightarrow> live t \<Longrightarrow>
      I (set_task i (\<lambda>_. fit_storage r now t (ended_task rp fin now t)) r)"
    and reopen: "I r \<Longrightarrow> I (reopen r ids feedback)"
    and children: "I r \<Longrightarrow> expandedTasks env r parent = Inr cs \<Longrightarrow> I (place_children r (tk_id parent) cs now)"
    and added: "I r \<Longrightarrow> rn_script r \<noteq> None \<Longrightarrow> find_task (st_id x) (rn_tasks r) = None \<Longrightarrow>
      I (r\<lparr>rn_tasks := rn_tasks r @ [script_row x]\<rparr>)"
    and rerun: "I r \<Longrightarrow> rn_script r \<noteq> None \<Longrightarrow> I (r\<lparr>rn_tasks := map (\<lambda>t. if P t then rerun_task t else t) (rn_tasks r)\<rparr>)"
begin

lemma plain_fields [simp]:
  "I (r\<lparr>rn_state := st\<rparr>) = I r" "I (r\<lparr>rn_reason := why\<rparr>) = I r" "I (r\<lparr>rn_endedAt := e\<rparr>) = I r"
  "I (r\<lparr>rn_updatedAt := n\<rparr>) = I r" "I (r\<lparr>rn_verifications := vs\<rparr>) = I r" "I (r\<lparr>rn_repairs := k\<rparr>) = I r"
  "I (r\<lparr>rn_override := ov\<rparr>) = I r" "I (change_script f r) = I r"
  by (rule iffI; erule fields; simp add: change_script_def)+

lemma all_quiet: "routine (rn_plan r) f \<Longrightarrow> I r \<Longrightarrow> I (r\<lparr>rn_tasks := map f (rn_tasks r)\<rparr>)"
  using quiet[of r f "\<lambda>_. True"] by simp

lemma cascade_kept: "I (r\<lparr>rn_tasks := ts\<rparr>) \<Longrightarrow> rn_plan r = p \<Longrightarrow> I (r\<lparr>rn_tasks := cascade p ts\<rparr>)"
proof (induction p ts rule: cascade.induct)
  case (1 p ts)
  have "I (r\<lparr>rn_tasks := map (skip_task p ts) ts\<rparr>)"
    using all_quiet[OF _ 1(2), of "skip_task p ts"] 1(3) by simp
  then show ?case
    using 1 by (subst cascade.simps) simp
qed

lemma settle_kept: "I r \<Longrightarrow> I (settle r now)"
  using cascade_kept[where r = r and ts = "rn_tasks r" and p = "rn_plan r"] by (simp add: settle_def Let_def cascadeSkips_def)

lemma startTask_kept: "I r \<Longrightarrow> startTask r i now sid = Inr s \<Longrightarrow> I s"
  by (auto simp: startTask_def withTask_def split: if_splits intro: settle_kept start)

lemma setWaiting_kept: "I r \<Longrightarrow> I (setWaiting r i w now)"
  using wait[of r i _ "if w then TNeedsInput else TRunning"]
  by (auto simp: setWaiting_def Let_def set_state_def[abs_def] intro: settle_kept split: option.splits)

lemma setLatest_kept: "I r \<Longrightarrow> setLatest r i l = Inr s \<Longrightarrow> I s"
  using quiet[of r "note_latest l" "\<lambda>t. tk_id t = i"]
  by (auto simp: setLatest_def withTask_def set_task_def split: if_splits)

lemma finishTask_kept: "I r \<Longrightarrow> I (finishTask env r i fin now)"
  using over[of r i] by (auto simp: finishTask_def pause_for_def intro: settle_kept split: option.splits)

lemma startHuman_kept: "I r \<Longrightarrow> startHuman r i prompt now = Inr s \<Longrightarrow> I s"
  by (auto simp: startHuman_def intro: setLatest_kept[OF setWaiting_kept[OF startTask_kept]] elim!: bindE_InrE)

lemma answerHuman_kept: "I r \<Longrightarrow> answerHuman env r i d said now = Inr s \<Longrightarrow> I s"
  by (auto simp: answerHuman_def Let_def finishTask_kept split: option.splits if_splits decision.splits)

lemma run_again_kept: "I r \<Longrightarrow> I (run_again r now)"
  by (simp add: run_again_def settle_kept)

lemma retryTask_kept: "I r \<Longrightarrow> retryTask r i now why = Inr s \<Longrightarrow> I s"
  by (auto simp: retryTask_def split: option.splits if_splits intro: run_again_kept reopen)

lemma retryPhase_kept: "I r \<Longrightarrow> retryPhase r i now why = Inr s \<Longrightarrow> I s"
  by (auto simp: retryPhase_def split: option.splits if_splits intro: run_again_kept reopen)

lemma controlRun_kept: "I r \<Longrightarrow> I (controlRun r action now)"
  using all_quiet[of r "stop_task now"] all_quiet[of "r\<lparr>rn_reason := None\<rparr>" resume_task]
  by (cases action) (simp_all add: controlRun_def Let_def settle_kept)

lemma applyVerification_kept: "I r \<Longrightarrow> applyVerification r v now = Inr s \<Longrightarrow> I s"
  by (auto simp: applyVerification_def Let_def blockRun_def split: option.splits if_splits intro!: settle_kept reopen)

lemma interrupts_kept: "I r \<Longrightarrow> I (interrupt_all env which why now r)"
proof -
  have "I r0 \<Longrightarrow> I (fold (\<lambda>t s. if which t \<and> live t then finishTask env s (tk_id t) (EndInterrupted why) now else s) ts r0)" for ts r0
    by (induction ts arbitrary: r0) (simp_all add: finishTask_kept)
  then show "I r \<Longrightarrow> I (interrupt_all env which why now r)"
    by (simp add: interrupt_all_def)
qed

lemma expand_map_kept:
  assumes r: "I r" and s: "expand_map env r parent now = Inr (go, s)"
  shows "I s"
proof (cases "rn_state r \<noteq> RPaused \<and> startable r parent")
  case True
  with s obtain u where u: "startTask r (tk_id parent) now None = Inr u"
    by (cases "startTask r (tk_id parent) now None") (simp_all add: expand_map_def)
  then have su: "I u"
    by (rule startTask_kept[OF r])
  show ?thesis
    using s True u finishTask_kept[OF su] children[OF su, of env] by (auto simp: expand_map_def split: sum.splits)
qed (use r s in \<open>auto simp: expand_map_def\<close>)

lemma collect_map_kept: "I r \<Longrightarrow> collect_map env r i now = Inr s \<Longrightarrow> I s"
  by (auto simp: collect_map_def finish_map_def Let_def finishTask_kept split: option.splits if_splits sum.splits)

lemma advance_map_kept:
  assumes r: "I r" and s: "advance_map env now i r = Inr s"
  shows "I s"
proof (cases "find_task i (rn_tasks r)")
  case None
  then show ?thesis using r s by (simp add: advance_map_def)
next
  case (Some parent)
  with s obtain go u where u: "expand_map env r parent now = Inr (go, u)"
    and go: "(if go then collect_map env u i now else Inr u) = Inr s"
    by (cases "expand_map env r parent now") (auto simp: advance_map_def)
  then show ?thesis
    using expand_map_kept[OF r u] collect_map_kept by (auto split: if_splits)
qed

lemma advance_loop_kept: "I r \<Longrightarrow> advance_loop env now is r = Inr s \<Longrightarrow> I s"
  by (induction "is" arbitrary: r) (auto dest: advance_map_kept elim!: bindE_InrE)

lemma advanceMaps_kept: "I r \<Longrightarrow> advanceMaps env r now = Inr s \<Longrightarrow> I s"
  by (auto simp: advanceMaps_def split: if_splits intro: advance_loop_kept)

lemma addScriptTask_kept: "I r \<Longrightarrow> addScriptTask r x now = Inr s \<Longrightarrow> I s"
  using added[of r x] by (auto simp: addScriptTask_def split: if_splits intro: settle_kept)

lemma compactScriptTask_kept: "I r \<Longrightarrow> I (compactScriptTask r i)"
  using quiet[of r compact_task "\<lambda>t. \<not> left_alone i t"]
  by (simp add: compactScriptTask_def when_script_def if_flip)

lemma reopenScriptTask_kept: "I r \<Longrightarrow> I (reopenScriptTask r i now)"
  using rerun[of r "\<lambda>t. \<not> left_alone i t"]
  by (simp add: reopenScriptTask_def when_script_def settle_kept if_flip)

text \<open>Every call of the reducer keeps the invariant, and so does every run.\<close>

lemma step_kept: "wf_step env r s \<Longrightarrow> I r \<Longrightarrow> I s"
proof (induction rule: wf_step.induct)
  case (script_log r n message now)
  then show ?case by (simp add: appendScriptLog_def split: option.splits)
qed (auto simp: acceptRun_def blockRun_def setScriptPhase_def scriptHostStarted_def scriptHostIdle_def finishScript_def failScript_def
    resetScriptHost_def pauseScriptRun_def reconcileAfterRestart_def when_script_def
    intro: startTask_kept startHuman_kept answerHuman_kept setWaiting_kept setLatest_kept finishTask_kept retryTask_kept retryPhase_kept
      controlRun_kept advanceMaps_kept applyVerification_kept addScriptTask_kept compactScriptTask_kept reopenScriptTask_kept
      interrupts_kept settle_kept)

lemma reach_kept: "reaches env r s \<Longrightarrow> I r \<Longrightarrow> I s"
  by (induction rule: reaches.induct) (auto intro: step_kept)

end

end
