(* ===== verification/WorkflowOrder.thy ===== *)
theory WorkflowOrder
  imports WorkflowSteps
begin

text \<open>
  The order of a run: no task works, and none counts as done, before everything it needs is done. The predicate, what makes
  a plan well formed for it, and its interpretation as an invariant of the reducer.
\<close>

section \<open>The order\<close>

definition ordered :: "wtask list \<Rightarrow> bool" where
  "ordered ts \<longleftrightarrow> (\<forall>t \<in> set ts. working t \<longrightarrow> list_all (task_done ts) (tk_needs t))"

definition planned :: "plan \<Rightarrow> wtask \<Rightarrow> bool" where
  "planned p t \<longleftrightarrow>
     (case tk_mapParentId t of
        None \<Rightarrow> \<exists>s \<in> set (pl_tasks p). spec_id s = tk_id t \<and> spec_needs s = tk_needs t
      | Some pid \<Rightarrow> \<exists>m n. MapSpec m \<in> set (pl_tasks p) \<and> mp_id m = pid \<and> n < mp_maxItems m
                        \<and> tk_id t = child_id pid n \<and> tk_needs t = mp_needs m)"

lemma task_done_iff:
  "distinct (map tk_id ts) \<Longrightarrow> task_done ts i \<longleftrightarrow> (\<exists>t \<in> set ts. tk_id t = i \<and> tk_state t = TDone)"
  by (auto simp: task_done_def find_task_distinct dest: find_task_Some)

lemma ordered_map:
  assumes d: "distinct (map tk_id ts)" and o: "ordered ts"
    and ids: "\<And>t. t \<in> set ts \<Longrightarrow> tk_id (f t) = tk_id t"
    and needs: "\<And>t. t \<in> set ts \<Longrightarrow> working (f t) \<Longrightarrow> tk_needs (f t) = tk_needs t"
    and start: "\<And>t. t \<in> set ts \<Longrightarrow> working (f t) \<Longrightarrow> working t \<or> list_all (task_done ts) (tk_needs t)"
    and undone: "\<And>t u. t \<in> set ts \<Longrightarrow> u \<in> set ts \<Longrightarrow> tk_state t = TDone \<Longrightarrow> tk_state (f t) \<noteq> TDone \<Longrightarrow>
      tk_id t \<in> set (tk_needs u) \<Longrightarrow> \<not> working (f u)"
  shows "ordered (map f ts)"
  unfolding ordered_def list_all_iff
proof (intro ballI impI)
  fix v i assume v: "v \<in> set (map f ts)" "working v" and i: "i \<in> set (tk_needs v)"
  then obtain u where u: "u \<in> set ts" "v = f u" by auto
  with i v(2) needs[of u] have i': "i \<in> set (tk_needs u)" by simp
  have "list_all (task_done ts) (tk_needs u)"
    using start[of u] u v(2) o by (auto simp: ordered_def)
  with i' obtain t where t: "t \<in> set ts" "tk_id t = i" "tk_state t = TDone"
    by (auto simp: list_all_iff task_done_iff[OF d])
  then have "tk_state (f t) = TDone"
    using undone[OF t(1) u(1)] u v(2) i' by auto
  moreover have "distinct (map tk_id (map f ts))"
    using d distinct_kept[OF ids] by blast
  ultimately show "task_done (map f ts) i"
    using t ids[of t] by (subst task_done_iff) auto
qed

section \<open>Well-formed plans and sound runs\<close>

definition phase_order :: "plan \<Rightarrow> bool" where
  "phase_order p \<longleftrightarrow>
     (case pl_phases p of None \<Rightarrow> True
      | Some phs \<Rightarrow> \<forall>s \<in> set (pl_tasks p). \<forall>i \<in> set (spec_needs s). \<forall>k < length phs. i \<in> set (ph_tasks (phs ! k)) \<longrightarrow>
          (\<exists>k' \<ge> k. k' < length phs \<and> spec_id s \<in> set (ph_tasks (phs ! k'))))"

definition wf_plan :: "plan \<Rightarrow> bool" where
  "wf_plan p \<longleftrightarrow>
     pl_script p = None \<and> distinct (map spec_id (pl_tasks p))
     \<and> (\<forall>s \<in> set (pl_tasks p). set (spec_needs s) \<subseteq> spec_id ` set (pl_tasks p))
     \<and> (\<forall>m n. MapSpec m \<in> set (pl_tasks p) \<longrightarrow> n < mp_maxItems m \<longrightarrow> child_id (mp_id m) n \<notin> spec_id ` set (pl_tasks p))
     \<and> phase_order p"

definition sound :: "plan \<Rightarrow> run \<Rightarrow> bool" where
  "sound p r \<longleftrightarrow> rn_plan r = p \<and> rn_script r = None \<and> distinct (map tk_id (rn_tasks r))
     \<and> (\<forall>t \<in> set (rn_tasks r). planned p t) \<and> ordered (rn_tasks r)"

lemma planned_same: "same_task t u \<Longrightarrow> planned p t = planned p u"
  by (simp add: planned_def same_task_def split: option.splits)

text \<open>The spec a task comes from.\<close>

lemma planned_spec:
  assumes "planned p t"
  obtains s where "s \<in> set (pl_tasks p)" "spec_id s = plan_id t" "spec_needs s = tk_needs t"
  using assms by (force simp: planned_def plan_id_def split: option.splits)

lemma planned_child: "wf_plan p \<Longrightarrow> planned p t \<Longrightarrow> tk_mapParentId t \<noteq> None \<Longrightarrow> tk_id t \<notin> spec_id ` set (pl_tasks p)"
  by (clarsimp simp: wf_plan_def planned_def) (metis image_eqI)

lemma needed_in_plan: "wf_plan p \<Longrightarrow> planned p u \<Longrightarrow> i \<in> set (tk_needs u) \<Longrightarrow> i \<in> spec_id ` set (pl_tasks p)"
  by (elim planned_spec) (force simp: wf_plan_def)

lemma sound_replace:
  assumes "sound p r" "rn_plan r' = rn_plan r" "rn_script r' = rn_script r" "rn_tasks r' = map f (rn_tasks r)"
    and ids: "\<And>t. t \<in> set (rn_tasks r) \<Longrightarrow> tk_id (f t) = tk_id t"
    and rows: "\<And>t. t \<in> set (rn_tasks r) \<Longrightarrow> planned p (f t)"
    and needs: "\<And>t. t \<in> set (rn_tasks r) \<Longrightarrow> working (f t) \<Longrightarrow> tk_needs (f t) = tk_needs t"
    and start: "\<And>t. t \<in> set (rn_tasks r) \<Longrightarrow> working (f t) \<Longrightarrow> working t \<or> needsDone r t"
    and undone: "\<And>t u. t \<in> set (rn_tasks r) \<Longrightarrow> u \<in> set (rn_tasks r) \<Longrightarrow> tk_state t = TDone \<Longrightarrow>
      tk_state (f t) \<noteq> TDone \<Longrightarrow> tk_id t \<in> set (tk_needs u) \<Longrightarrow> \<not> working (f u)"
  shows "sound p r'"
proof -
  have r: "distinct (map tk_id (rn_tasks r))" "ordered (rn_tasks r)"
    using assms(1) by (simp_all add: sound_def)
  have "ordered (map f (rn_tasks r))"
    using start by (intro ordered_map[OF r ids needs _ undone]) (auto simp: needsDone_def)
  moreover have "distinct (map tk_id (map f (rn_tasks r)))"
    using r(1) distinct_kept[OF ids] by blast
  ultimately show ?thesis
    using assms(1-4) rows by (simp add: sound_def)
qed

lemma sound_map:
  assumes "sound p r" "rn_plan r' = rn_plan r" "rn_script r' = rn_script r" "rn_tasks r' = map f (rn_tasks r)"
    and same: "\<And>t. t \<in> set (rn_tasks r) \<Longrightarrow> same_task (f t) t"
    and "\<And>t. t \<in> set (rn_tasks r) \<Longrightarrow> working (f t) \<Longrightarrow> working t \<or> needsDone r t"
    and "\<And>t u. t \<in> set (rn_tasks r) \<Longrightarrow> u \<in> set (rn_tasks r) \<Longrightarrow> tk_state t = TDone \<Longrightarrow> tk_state (f t) \<noteq> TDone \<Longrightarrow>
      tk_id t \<in> set (tk_needs u) \<Longrightarrow> \<not> working (f u)"
  shows "sound p r'"
proof (rule sound_replace[OF assms(1-4)])
  fix t assume t: "t \<in> set (rn_tasks r)"
  show "planned p (f t)"
    using planned_same[OF same[OF t]] t assms(1) by (simp add: sound_def)
  show "tk_id (f t) = tk_id t" "tk_needs (f t) = tk_needs t"
    using same[OF t] by (simp_all add: same_task_def)
qed (use assms(6,7) in blast)+

text \<open>Updates that start nothing and take no result back, on the tasks a predicate selects.\<close>

lemma sound_quiet:
  assumes "quiet_update f" "sound p r" "rn_plan r' = rn_plan r" "rn_script r' = rn_script r"
    and "rn_tasks r' = map (\<lambda>t. if P t then f t else t) (rn_tasks r)"
  shows "sound p r'"
  using assms(2-5)
  by (rule sound_map) (auto simp: quiet_update.working_kept[OF assms(1)] quiet_update.done_kept[OF assms(1)]
      identity_update.same[OF idle_update.axioms(1)[OF quiet_update.axioms(1)[OF assms(1)]]] split: if_splits)

lemma sound_fields:
  "sound p r \<Longrightarrow> rn_plan r' = rn_plan r \<Longrightarrow> rn_script r' = rn_script r \<Longrightarrow> rn_tasks r' = rn_tasks r \<Longrightarrow> sound p r'"
  by (simp add: sound_def)

text \<open>The fields the order does not look at.\<close>

lemma sound_simps [simp]:
  "sound p (r\<lparr>rn_state := st\<rparr>) = sound p r" "sound p (r\<lparr>rn_reason := why\<rparr>) = sound p r"
  "sound p (r\<lparr>rn_endedAt := e\<rparr>) = sound p r" "sound p (r\<lparr>rn_updatedAt := n\<rparr>) = sound p r"
  "sound p (r\<lparr>rn_verifications := vs\<rparr>) = sound p r" "sound p (r\<lparr>rn_repairs := k\<rparr>) = sound p r"
  "sound p (r\<lparr>rn_override := ov\<rparr>) = sound p r"
  by (simp_all add: sound_def)

section \<open>The updates keep it\<close>

lemma sound_start:
  assumes r: "sound p r" and i: "i \<in> set (readyTasks r False None)"
  shows "sound p (set_task i (started_task now sid) r)"
proof -
  have st: "startable r t" if "t \<in> set (rn_tasks r)" "tk_id t = i" for t
    using ready_startable[OF i _ that] r by (simp add: sound_def)
  show ?thesis
    by (rule sound_map[OF r, where f = "\<lambda>t. if tk_id t = i then started_task now sid t else t"])
      (auto simp: set_task_def starts.same startable_def dest: st split: if_splits)
qed

text \<open>A live task changes: it was no result, and what it becomes need not be idle when its needs are done.\<close>

lemma sound_live:
  assumes r: "sound p r" and t: "find_task i (rn_tasks r) = Some t" "live t" and same: "\<And>u. same_task (g u) u"
    and r': "rn_plan r' = rn_plan r" "rn_script r' = rn_script r" "rn_tasks r' = map (\<lambda>u. if tk_id u = i then g u else u) (rn_tasks r)"
  shows "sound p r'"
proof (rule sound_map[OF r r'])
  have d: "distinct (map tk_id (rn_tasks r))"
    using r by (simp add: sound_def)
  show "\<And>u. u \<in> set (rn_tasks r) \<Longrightarrow> working (if tk_id u = i then g u else u) \<Longrightarrow> working u \<or> needsDone r u"
    using found_only[OF d t(1)] t(2) by (auto simp: working_def split: if_splits)
  fix u v
  assume "u \<in> set (rn_tasks r)" "tk_state u = TDone" "tk_state (if tk_id u = i then g u else u) \<noteq> TDone"
  then show "\<not> working (if tk_id v = i then g v else v)"
    using found_only[OF d t(1), of u] t(2) by (auto simp: live_def split: if_splits)
qed (simp add: same)

lemma sound_wait:
  assumes "sound p r" "find_task i (rn_tasks r) = Some t" "live t"
  shows "sound p (set_task i (set_state st) r)"
  by (rule sound_live[OF assms, where g = "set_state st"]) (simp_all add: set_task_def set_state_def same_task_def)

lemma sound_over:
  assumes r: "sound p r" and t: "find_task i (rn_tasks r) = Some t" "live t"
  shows "sound p (set_task i (\<lambda>_. fit_storage r now t (ended_task rp fin now t)) r)"
proof (rule sound_live[OF r t ends.same])
  have "distinct (map tk_id (rn_tasks r))"
    using r by (simp add: sound_def)
  then show "rn_tasks (set_task i (\<lambda>_. fit_storage r now t (ended_task rp fin now t)) r)
      = map (\<lambda>u. if tk_id u = i then fit_storage r now u (ended_task rp fin now u) else u) (rn_tasks r)"
    by (rule set_task_found[OF _ t(1)])
qed simp_all

section \<open>Reopening takes the dependents along\<close>

lemma pass_fixed:
  "length (dependents_pass ts out) = length out \<Longrightarrow> t \<in> set ts \<Longrightarrow> tk_id t \<in> set out \<or> \<not> touches out t"
proof (induction ts arbitrary: out)
  case (Cons u us)
  show ?case
  proof (cases "tk_id u \<notin> set out \<and> touches out u")
    case True
    then show ?thesis
      using Cons.prems(1) dependents_pass_length[of "out @ [tk_id u]" us] by simp
  next
    case False
    then show ?thesis
      using Cons by (auto split: if_splits)
  qed
qed simp

lemma dependents_closed:
  "t \<in> set ts \<Longrightarrow> tk_id t \<notin> set (dependents_loop ts out) \<Longrightarrow> \<not> touches (dependents_loop ts out) t"
proof (induction ts out rule: dependents_loop.induct)
  case (1 ts out)
  show ?case
  proof (cases "length (dependents_pass ts out) = length out")
    case True
    then show ?thesis
      using 1(2,3) pass_fixed[OF True 1(2)] by (simp add: dependents_loop.simps[of ts out])
  next
    case False
    then show ?thesis
      using 1 by (simp add: dependents_loop.simps[of ts out])
  qed
qed

lemma find_index_le: "k < length xs \<Longrightarrow> P (xs ! k) \<Longrightarrow> \<exists>i \<le> k. find_index P xs = Some i"
proof (induction xs arbitrary: k)
  case (Cons x xs)
  then show ?case by (cases k) fastforce+
qed simp

lemma later_memberE:
  assumes "i \<in> set (later_members r ids)"
  obtains phs e k v where "pl_phases (rn_plan r) = Some phs"
    "find_index (\<lambda>ph. list_ex (\<lambda>i. i \<in> set ids) (ph_tasks ph)) phs = Some e" "e < k" "k < length phs"
    "v \<in> set (rn_tasks r)" "tk_id v = i" "plan_id v \<in> set (ph_tasks (phs ! k))"
proof -
  let ?hit = "\<lambda>ph. list_ex (\<lambda>i. i \<in> set ids) (ph_tasks ph)"
  from assms obtain phs where phs: "pl_phases (rn_plan r) = Some phs"
    by (cases "pl_phases (rn_plan r)") (simp_all add: later_members_def)
  with assms obtain e where "find_index ?hit phs = Some e"
    by (cases "find_index ?hit phs") (simp_all add: later_members_def)
  note pe = phs this
  with assms obtain ph v where "ph \<in> set (drop (Suc e) phs)" and v: "v \<in> set (rn_tasks r)" "tk_id v = i" "plan_id v \<in> set (ph_tasks ph)"
    by (auto simp: later_members_def)
  then obtain n where "n < length (drop (Suc e) phs)" "ph = drop (Suc e) phs ! n"
    by (metis in_set_conv_nth)
  then show thesis
    using v by (intro that[OF pe, of "Suc e + n" v]) auto
qed

lemma phase_orderD:
  assumes "wf_plan p" "pl_phases p = Some phs" "s \<in> set (pl_tasks p)" "i \<in> set (spec_needs s)" "k < length phs"
    "i \<in> set (ph_tasks (phs ! k))"
  shows "\<exists>k' \<ge> k. k' < length phs \<and> spec_id s \<in> set (ph_tasks (phs ! k'))"
  using assms by (simp add: wf_plan_def phase_order_def)

lemma affected_closed:
  assumes p: "wf_plan p" and r: "sound p r" and t: "t \<in> set (rn_tasks r)" "tk_id t \<in> set (affected_tasks r ids)"
    and u: "u \<in> set (rn_tasks r)" "tk_id t \<in> set (tk_needs u)"
  shows "tk_id u \<in> set (affected_tasks r ids)"
proof (cases "tk_id t \<in> set (dependents r ids)")
  case True
  then have "touches (dependents r ids) u"
    using u(2) by (auto simp: touches_def list_ex_iff)
  then show ?thesis
    using dependents_closed[OF u(1), of "js_set ids"] by (auto simp: affected_tasks_def Let_def dependents_def)
next
  case False
  then have "tk_id t \<in> set (later_members r (dependents r ids))"
    using t(2) by (simp add: affected_tasks_def Let_def)
  then obtain phs e k v where phs: "pl_phases (rn_plan r) = Some phs"
    and e: "find_index (\<lambda>ph. list_ex (\<lambda>i. i \<in> set (dependents r ids)) (ph_tasks ph)) phs = Some e"
    and k: "e < k" "k < length phs" and v: "v \<in> set (rn_tasks r)" "tk_id v = tk_id t" "plan_id v \<in> set (ph_tasks (phs ! k))"
    by (rule later_memberE)
  have rows: "planned p u" "planned p t" "rn_plan r = p" and same: "v = t"
    using r u(1) t(1) v distinct_ids_eq[of "rn_tasks r" v t] by (auto simp: sound_def)
  have "tk_mapParentId t = None"
    using planned_child[OF p rows(2)] needed_in_plan[OF p rows(1) u(2)] by blast
  then have at: "tk_id t \<in> set (ph_tasks (phs ! k))"
    using v(3) same by (simp add: plan_id_def)
  from rows(1) obtain s where s: "s \<in> set (pl_tasks p)" "spec_id s = plan_id u" "spec_needs s = tk_needs u"
    by (rule planned_spec)
  obtain k' where k': "k \<le> k'" "k' < length phs" "plan_id u \<in> set (ph_tasks (phs ! k'))"
    using phase_orderD[OF p _ s(1) _ k(2) at] phs rows(3) u(2) s(2,3) by auto
  then have "phs ! k' \<in> set (drop (Suc e) phs)"
    using k nth_mem[of "k' - Suc e" "drop (Suc e) phs"] by simp
  then have "tk_id u \<in> set (later_members r (dependents r ids))"
    using u(1) k'(3) by (auto simp: later_members_def phs e)
  then show ?thesis
    by (simp add: affected_tasks_def Let_def)
qed

lemma reopened_idle: "\<not> working (reopened_task ids feedback t)"
  by (simp add: working_def live_def reopened_task_def)

lemma sound_reopen: "wf_plan p \<Longrightarrow> sound p r \<Longrightarrow> sound p (reopen r ids feedback)"
proof -
  assume p: "wf_plan p" and r: "sound p r"
  let ?f = "\<lambda>t. if tk_id t \<in> set (affected_tasks r ids) then reopened_task ids feedback t else t"
  show "sound p (reopen r ids feedback)"
  proof (rule sound_map[OF r, where f = ?f])
    fix t u
    assume "t \<in> set (rn_tasks r)" "u \<in> set (rn_tasks r)" "tk_state t = TDone" "tk_state (?f t) \<noteq> TDone" "tk_id t \<in> set (tk_needs u)"
    then show "\<not> working (?f u)"
      using affected_closed[OF p r, of t ids u] by (auto simp: reopened_idle split: if_splits)
  qed (auto simp: reopen_def reopens.same reopened_idle split: if_splits)
qed

section \<open>Map tasks\<close>

text \<open>Decimal texts tell numbers apart.\<close>

lemma digit_value: "k < 10 \<Longrightarrow> of_char (char_of (48 + k :: nat) :: char) - 48 = k"
  by (simp add: of_char_of)

lemma nat_text_value: "foldl (\<lambda>a c. 10 * a + (of_char c - 48)) 0 (nat_text n) = n"
proof (induction n rule: nat_text.induct)
  case (1 n)
  show ?case
  proof (cases "n < 10")
    case True
    then have "nat_text n = [char_of (48 + n)]"
      unfolding nat_text.simps[of n] by simp
    then show ?thesis
      using digit_value[OF True] by simp
  next
    case False
    then have "nat_text n = nat_text (n div 10) @ [char_of (48 + n mod 10)]"
      unfolding nat_text.simps[of n] by simp
    then show ?thesis
      using 1[OF False] digit_value[of "n mod 10"] by simp
  qed
qed

lemma child_id_inj: "child_id i m = child_id i n \<longleftrightarrow> m = n"
proof
  assume "child_id i m = child_id i n"
  then have "nat_text (m + 1) = nat_text (n + 1)"
    unfolding child_id_def by (simp only: same_append_eq)
  then have "m + 1 = n + 1"
    using nat_text_value by metis
  then show "m = n" by simp
qed simp

lemma find_spec_Some: "find_spec i specs = Some s \<Longrightarrow> s \<in> set specs \<and> spec_id s = i"
  by (auto simp: find_spec_def find_Some_iff)

lemma map_spec_found:
  assumes "pl_script (rn_plan r) = None" "taskSpec env r i = Some (MapSpec m)"
  shows "MapSpec m \<in> set (pl_tasks (rn_plan r)) \<and> mp_id m = i"
proof -
  have "child_spec r i \<noteq> Some (MapSpec m)"
    by (auto simp: child_spec_def split: option.splits task_spec.splits if_splits)
  then have "find_spec i (pl_tasks (rn_plan r)) = Some (MapSpec m)"
    using assms by (auto simp: taskSpec_def split: option.splits)
  from find_spec_Some[OF this] show ?thesis by simp
qed

lemma sound_append:
  assumes r: "sound p r" and d: "distinct (map tk_id cs)" "\<And>c. c \<in> set cs \<Longrightarrow> find_task (tk_id c) (rn_tasks r) = None"
    and cs: "\<And>c. c \<in> set cs \<Longrightarrow> planned p c \<and> tk_state c = TPending"
  shows "sound p (r\<lparr>rn_tasks := rn_tasks r @ cs\<rparr>)"
proof -
  have di: "distinct (map tk_id (rn_tasks r @ cs))"
    using r d by (auto simp: sound_def find_task_None) (metis image_eqI)
  moreover have "ordered (rn_tasks r @ cs)"
    unfolding ordered_def list_all_iff
  proof (intro ballI impI)
    fix t i assume t: "t \<in> set (rn_tasks r @ cs)" "working t" "i \<in> set (tk_needs t)"
    then have "t \<in> set (rn_tasks r)"
      using cs by (auto simp: working_def live_def)
    then have "task_done (rn_tasks r) i"
      using t r by (auto simp: sound_def ordered_def list_all_iff)
    then show "task_done (rn_tasks r @ cs) i"
      using r di by (auto simp: sound_def task_done_iff)
  qed
  ultimately show ?thesis
    using r cs by (auto simp: sound_def)
qed

lemma sound_children:
  assumes p: "wf_plan p" and r: "sound p r" and x: "expandedTasks env r0 parent = Inr cs" "rn_plan r0 = p"
  shows "sound p (place_children r (tk_id parent) cs now)"
proof -
  obtain m where m': "taskSpec env r0 (tk_id parent) = Some (MapSpec m)" and n: "length cs \<le> mp_maxItems m"
    and cs: "\<forall>c \<in> set cs. tk_state c = TPending \<and> tk_needs c = mp_needs m \<and> tk_mapParentId c = Some (tk_id parent) \<and> tk_kind c = KAgent"
    and ids: "map tk_id cs = map (child_id (tk_id parent)) [0..<length cs]"
    by (rule expandedTasks_shape[OF x(1)])
  have m: "MapSpec m \<in> set (pl_tasks p)" "mp_id m = tk_id parent"
    using map_spec_found[OF _ m'] p x(2) by (simp_all add: wf_plan_def)
  have rows: "planned p c" if "c \<in> set cs" for c
  proof -
    from that obtain k where k: "k < length cs" "c = cs ! k"
      by (metis in_set_conv_nth)
    then have "tk_id c = child_id (tk_id parent) k"
      using arg_cong[OF ids, of "\<lambda>xs. xs ! k"] by simp
    then show ?thesis
      using bspec[OF cs that] m n k(1) by (auto simp: planned_def intro!: exI[of _ m] exI[of _ k])
  qed
  let ?f = "\<lambda>t. if tk_id t = tk_id parent then t\<lparr>tk_expanded := True\<rparr>
                else case find_task (tk_id t) (rev cs) of Some c \<Rightarrow> c
                     | None \<Rightarrow> if is_child_of (tk_id parent) t then retired_child now t else t"
  have child: "tk_id c \<notin> set (tk_needs u)" if "planned p c" "tk_mapParentId c \<noteq> None" "planned p u" for c u
    using planned_child[OF p that(1,2)] needed_in_plan[OF p that(3)] by blast
  have replaced: "\<not> working (?f t) \<and> (\<forall>u. planned p u \<longrightarrow> tk_id t \<notin> set (tk_needs u)) \<and> planned p (?f t) \<and> tk_id (?f t) = tk_id t
      \<or> same_task (?f t) t \<and> tk_state (?f t) = tk_state t" if "planned p t" for t
  proof (cases "find_task (tk_id t) (rev cs)")
    case None
    then show ?thesis
      using child[OF that] that by (auto simp: is_child_of_def retired_child_def working_def live_def same_task_def planned_def)
  next
    case (Some c)
    then have "c \<in> set cs" "tk_id c = tk_id t"
      using find_task_Some by fastforce+
    then show ?thesis
      using Some bspec[OF cs, of c] rows[of c] child[OF rows[of c]] by (auto simp: working_def live_def same_task_def)
  qed
  have ts: "planned p t" if "t \<in> set (rn_tasks r)" for t
    using that r by (simp add: sound_def)
  have mapped: "sound p (r\<lparr>rn_tasks := map ?f (rn_tasks r)\<rparr>)"
  proof (rule sound_replace[OF r, where f = ?f])
    fix t assume t: "t \<in> set (rn_tasks r)"
    note c = replaced[OF ts[OF t]]
    show "tk_id (?f t) = tk_id t" using c unfolding same_task_def by blast
    show "planned p (?f t)" using c planned_same[of "?f t" t p] ts[OF t] by blast
    show "working (?f t) \<Longrightarrow> tk_needs (?f t) = tk_needs t" using c unfolding same_task_def by blast
    show "working (?f t) \<Longrightarrow> working t \<or> needsDone r t" using c unfolding working_def live_def by metis
    fix u assume "u \<in> set (rn_tasks r)" "tk_state t = TDone" "tk_state (?f t) \<noteq> TDone" "tk_id t \<in> set (tk_needs u)"
    then show "\<not> working (?f u)" using c ts by metis
  qed simp_all
  let ?new = "filter (\<lambda>c. find_task (tk_id c) (rn_tasks r) = None) cs"
  have "distinct (map tk_id cs)"
    unfolding ids by (simp add: distinct_map inj_on_def child_id_inj)
  then have "distinct (map tk_id ?new)"
    by (rule distinct_map_filter)
  moreover have "tk_id ` set (map ?f (rn_tasks r)) = tk_id ` set (rn_tasks r)"
    unfolding set_map image_image
  proof (rule image_cong[OF refl])
    fix t assume "t \<in> set (rn_tasks r)"
    then show "tk_id (?f t) = tk_id t"
      using replaced[OF ts] unfolding same_task_def by blast
  qed
  moreover have "find_task (tk_id c) (map ?f (rn_tasks r)) = None" if "c \<in> set ?new" for c
    using that calculation(2) by (simp only: find_task_None set_filter mem_Collect_eq not_False_eq_True)
  ultimately have "sound p (r\<lparr>rn_tasks := map ?f (rn_tasks r)\<rparr>\<lparr>rn_tasks := rn_tasks (r\<lparr>rn_tasks := map ?f (rn_tasks r)\<rparr>) @ ?new\<rparr>)"
    using rows cs by (intro sound_append[OF mapped]) auto
  then show ?thesis
    by (rule sound_fields) (simp_all add: place_children_def)
qed

section \<open>An invariant of the reducer\<close>

definition in_order :: "run \<Rightarrow> bool" where
  "in_order r \<longleftrightarrow> wf_plan (rn_plan r) \<and> sound (rn_plan r) r"

interpretation order: run_invariant in_order
proof
  fix r :: run
  assume r: "in_order r"
  then have p: "wf_plan (rn_plan r)" and s: "sound (rn_plan r) r"
    by (simp_all add: in_order_def)
  have none: "rn_script r = None"
    using s by (simp add: sound_def)
  show "rn_tasks r' = rn_tasks r \<Longrightarrow> rn_plan r' = rn_plan r \<Longrightarrow> (rn_script r = None) = (rn_script r' = None) \<Longrightarrow> in_order r'" for r'
    using p s by (simp add: in_order_def sound_def)
  show "routine (rn_plan r) f \<Longrightarrow> in_order (r\<lparr>rn_tasks := map (\<lambda>t. if P t then f t else t) (rn_tasks r)\<rparr>)" for f P
    using p sound_quiet[OF routine_quiet s, of "rn_plan r" f "r\<lparr>rn_tasks := map (\<lambda>t. if P t then f t else t) (rn_tasks r)\<rparr>" P]
    by (simp add: in_order_def)
  show "i \<in> set (readyTasks r False None) \<Longrightarrow> in_order (set_task i (started_task now sid) r)" for i now sid
    using p sound_start[OF s] by (simp add: in_order_def)
  show "find_task i (rn_tasks r) = Some t \<Longrightarrow> live t \<Longrightarrow> st = TNeedsInput \<or> st = TRunning \<Longrightarrow> in_order (set_task i (set_state st) r)" for i t st
    using p sound_wait[OF s] by (simp add: in_order_def)
  show "find_task i (rn_tasks r) = Some t \<Longrightarrow> live t \<Longrightarrow> in_order (set_task i (\<lambda>_. fit_storage r now t (ended_task rp fin now t)) r)"
    for i t now rp fin
    using p sound_over[OF s] by (simp add: in_order_def)
  show "in_order (reopen r ids feedback)" for ids feedback
    using p sound_reopen[OF p s] by (simp add: in_order_def reopen_def)
  show "expandedTasks env r parent = Inr cs \<Longrightarrow> in_order (place_children r (tk_id parent) cs now)" for env parent cs now
    using p sound_children[OF p s] by (simp add: in_order_def place_children_def)
  show "rn_script r \<noteq> None \<Longrightarrow> find_task (st_id x) (rn_tasks r) = None \<Longrightarrow> in_order (r\<lparr>rn_tasks := rn_tasks r @ [script_row x]\<rparr>)" for x
    using none by simp
  show "rn_script r \<noteq> None \<Longrightarrow> in_order (r\<lparr>rn_tasks := map (\<lambda>t. if P t then rerun_task t else t) (rn_tasks r)\<rparr>)" for P
    using none by simp
qed

lemma created_sound:
  assumes "wf_plan p"
  shows "sound p (createRun wid p h dir perm ses from now)"
proof -
  have "map tk_id (map (created_task p) (pl_tasks p)) = map spec_id (pl_tasks p)"
    by (simp add: created_task_def new_task_def)
  then have "distinct (map tk_id (map (created_task p) (pl_tasks p)))"
    using assms unfolding wf_plan_def by (simp only:)
  moreover have "planned p (created_task p s)" if "s \<in> set (pl_tasks p)" for s
    using that by (auto simp: planned_def created_task_def new_task_def)
  moreover have "\<not> working (created_task p s)" for s
    by (simp add: working_def live_def created_task_def new_task_def)
  ultimately show ?thesis
    using assms by (auto simp: sound_def createRun_def wf_plan_def ordered_def)
qed


end
