(* ===== verification/PlanShape.thy ===== *)
theory PlanShape
  imports PlanChecks Routing WorkflowOrder
begin

text \<open>
  Phases, selectors and maps of a plan (\<open>compositionProblems\<close> in \<open>packages/workflows/src/composition.ts\<close>). A plan without
  problems is well formed in the sense the run reducer needs (\<open>accepted_plan_wf\<close>). The size of the plan as JSON text is a
  parameter.
\<close>

datatype composition_problem =
  DuplicatePhase slug
| QuorumTooBig slug
| UnsupportedCondition slug
| PhaseUnknownTask slug slug
| TaskInTwoPhases slug
| Unassigned slug
| LaterPhaseNeed slug slug
| UnknownProducer slug slug
| ProducerNotNeeded slug slug
| UnsafeSelector slug
| LongMapId slug
| ChildIdCollision slug nat
| TooManyExpanded nat
| OverlapKeyAlone
| ReadOnlyReplace
| PlanTooLarge

section \<open>Phases\<close>

fun phase_task_problems :: "plan \<Rightarrow> slug \<Rightarrow> nat \<Rightarrow> slug list \<Rightarrow> (slug \<times> nat) list \<Rightarrow> composition_problem list \<times> (slug \<times> nat) list" where
  "phase_task_problems p pid index [] phaseOf = ([], phaseOf)"
| "phase_task_problems p pid index (i # is) phaseOf =
     (let (problems, later) = phase_task_problems p pid index is (AList.update i index phaseOf) in
      ((if known p i then [] else [PhaseUnknownTask pid i])
       @ (if map_of phaseOf i \<noteq> None then [TaskInTwoPhases i] else []) @ problems, later))"

definition barrier_problems :: "phase \<Rightarrow> composition_problem list" where
  "barrier_problems ph =
     (case ph_barrier ph of
        BarrierQuorum n \<Rightarrow> if length (ph_tasks ph) < n then [QuorumTooBig (ph_id ph)] else []
      | BarrierCondition e \<Rightarrow>
          if lower e \<in> {''true'', ''all'', ''completed'', ''false''} then [] else [UnsupportedCondition (ph_id ph)]
      | _ \<Rightarrow> [])"

fun phase_problems :: "plan \<Rightarrow> nat \<Rightarrow> phase list \<Rightarrow> slug list \<Rightarrow> (slug \<times> nat) list \<Rightarrow> composition_problem list \<times> (slug \<times> nat) list" where
  "phase_problems p index [] phaseIds phaseOf = ([], phaseOf)"
| "phase_problems p index (ph # phs) phaseIds phaseOf =
     (let (own, after) = phase_task_problems p (ph_id ph) index (ph_tasks ph) phaseOf;
          (problems, later) = phase_problems p (Suc index) phs (set_add (ph_id ph) phaseIds) after
      in ((if ph_id ph \<in> set phaseIds then [DuplicatePhase (ph_id ph)] else []) @ barrier_problems ph @ own @ problems, later))"

section \<open>Tasks\<close>

definition phase_index :: "(slug \<times> nat) list \<Rightarrow> slug \<Rightarrow> nat" where
  "phase_index phaseOf i = orelse (map_of phaseOf i) 0"

text \<open>\<open>path.split(/[./]/)\<close>\<close>

definition path_words :: "string \<Rightarrow> string list" where
  "path_words s = js_split (CHR 0x2E) (map (\<lambda>c. if c = CHR 0x2F then CHR 0x2E else c) s)"

definition unsafe_path :: "string option \<Rightarrow> bool" where
  "unsafe_path path \<longleftrightarrow> (case path of None \<Rightarrow> False | Some s \<Rightarrow> list_ex (\<lambda>w. w \<in> UNSAFE_PARTS) (path_words s))"

definition selector_problems :: "plan \<Rightarrow> slug \<Rightarrow> selector \<Rightarrow> composition_problem list" where
  "selector_problems p i sel =
     (if \<not> known p (sel_taskId sel) then [UnknownProducer i (sel_taskId sel)]
      else if \<not> dependsOn p i (sel_taskId sel) then [ProducerNotNeeded i (sel_taskId sel)] else [])
     @ (if unsafe_path (sel_path sel) \<or> unsafe_path (sel_projection sel) then [UnsafeSelector i] else [])"

definition task_selectors :: "task_spec \<Rightarrow> selector list" where
  "task_selectors s =
     (case s of
        AgentSpec a \<Rightarrow> orelse (ag_inputs a) []
      | MapSpec m \<Rightarrow> orelse (ag_inputs (mp_taskTemplate m)) [] @ [mp_source m]
      | _ \<Rightarrow> [])"

definition map_problems :: "plan \<Rightarrow> task_spec \<Rightarrow> composition_problem list" where
  "map_problems p s =
     (case s of
        MapSpec m \<Rightarrow>
          (if 35 < length (mp_id m) then [LongMapId (mp_id m)] else [])
          @ map (ChildIdCollision (mp_id m)) (filter (\<lambda>n. known p (child_id (mp_id m) n)) [0..<mp_maxItems m])
      | _ \<Rightarrow> [])"

definition composed_task_problems :: "plan \<Rightarrow> (slug \<times> nat) list \<Rightarrow> task_spec \<Rightarrow> composition_problem list" where
  "composed_task_problems p phaseOf s =
     (if pl_phases p \<noteq> None \<and> map_of phaseOf (spec_id s) = None then [Unassigned (spec_id s)] else [])
     @ map (LaterPhaseNeed (spec_id s)) (filter (\<lambda>x. phase_index phaseOf (spec_id s) < phase_index phaseOf x) (spec_needs s))
     @ concat (map (selector_problems p (spec_id s)) (task_selectors s))
     @ map_problems p s"

section \<open>The plan\<close>

definition expanded_count :: "plan \<Rightarrow> nat" where
  "expanded_count p = length (pl_tasks p) + sum_list (map (\<lambda>s. case s of MapSpec m \<Rightarrow> mp_maxItems m | _ \<Rightarrow> 0) (pl_tasks p))"

definition reads_only :: "plan \<Rightarrow> bool" where
  "reads_only p \<longleftrightarrow>
     has_mode PolReportOnly (pl_permissions p) \<or> pl_workspace p = Some ReadOnlyWorkspace
     \<or> (\<not> list_ex (\<lambda>s. spec_kind s = KCheck) (pl_tasks p) \<and> list_all (\<lambda>a. ag_mode a = ReadMode) (agentSpecs p))"

definition composed :: "plan \<Rightarrow> bool" where
  "composed p \<longleftrightarrow> pl_phases p \<noteq> None
     \<or> list_ex (\<lambda>s. case s of MapSpec m \<Rightarrow> True | AgentSpec a \<Rightarrow> ag_output a \<noteq> None | _ \<Rightarrow> False) (pl_tasks p)"

definition whole_plan_problems :: "nat \<Rightarrow> plan \<Rightarrow> composition_problem list" where
  "whole_plan_problems planBytes p =
     (if 32 < expanded_count p then [TooManyExpanded (expanded_count p)] else [])
     @ (if truthy (pl_overlapKey p) \<noteq> None \<and> pl_overlapPolicy p = None then [OverlapKeyAlone] else [])
     @ (if pl_overlapPolicy p = Some OverlapReplace \<and> reads_only p then [ReadOnlyReplace] else [])
     @ (if composed p \<and> 48 * 1024 < planBytes then [PlanTooLarge] else [])"

definition compositionProblems :: "nat \<Rightarrow> plan \<Rightarrow> composition_problem list" where
  "compositionProblems planBytes p =
     (let (problems, phaseOf) = phase_problems p 0 (orelse (pl_phases p) []) [] [] in
      problems @ concat (map (composed_task_problems p phaseOf) (pl_tasks p)) @ whole_plan_problems planBytes p)"

section \<open>A plan without problems is well formed\<close>

lemma task_phases:
  assumes "phase_task_problems p pid index is phaseOf = ([], later)"
  shows "(\<forall>i k. map_of phaseOf i = Some k \<longrightarrow> map_of later i = Some k)
     \<and> (\<forall>i \<in> set is. map_of later i = Some index)
     \<and> (\<forall>i k. map_of later i = Some k \<longrightarrow> map_of phaseOf i = Some k \<or> k = index \<and> i \<in> set is)"
  using assms
proof (induction "is" arbitrary: phaseOf)
  case (Cons j js)
  then have new: "map_of phaseOf j = None" and rest: "phase_task_problems p pid index js (AList.update j index phaseOf) = ([], later)"
    by (auto simp: Let_def split: prod.splits if_splits)
  show ?case
    using Cons.IH[OF rest] new unfolding update_conv' by (simp add: fun_upd_apply) (metis option.distinct(1) option.inject)
qed simp

lemma phases_found:
  assumes "phase_problems p index phs phaseIds phaseOf = ([], later)"
  shows "(\<forall>i k. map_of phaseOf i = Some k \<longrightarrow> map_of later i = Some k)
     \<and> (\<forall>k < length phs. \<forall>i \<in> set (ph_tasks (phs ! k)). map_of later i = Some (index + k))
     \<and> (\<forall>i m. map_of later i = Some m \<longrightarrow> map_of phaseOf i = Some m \<or> (\<exists>k < length phs. m = index + k \<and> i \<in> set (ph_tasks (phs ! k))))"
  using assms
proof (induction phs arbitrary: index phaseIds phaseOf)
  case (Cons ph phs)
  then obtain after where own: "phase_task_problems p (ph_id ph) index (ph_tasks ph) phaseOf = ([], after)"
    and rest: "phase_problems p (Suc index) phs (set_add (ph_id ph) phaseIds) after = ([], later)"
    by (auto simp: Let_def split: prod.splits if_splits)
  note a = task_phases[OF own] and b = Cons.IH[OF rest]
  show ?case
  proof (intro conjI)
    show "\<forall>i k. map_of phaseOf i = Some k \<longrightarrow> map_of later i = Some k"
      using a b by blast
    show "\<forall>k < length (ph # phs). \<forall>i \<in> set (ph_tasks ((ph # phs) ! k)). map_of later i = Some (index + k)"
      using a b by (auto simp: nth_Cons split: nat.splits)
    show "\<forall>i m. map_of later i = Some m \<longrightarrow> map_of phaseOf i = Some m
        \<or> (\<exists>k < length (ph # phs). m = index + k \<and> i \<in> set (ph_tasks ((ph # phs) ! k)))"
    proof (intro allI impI)
      fix i m assume "map_of later i = Some m"
      then consider "map_of after i = Some m" | k where "k < length phs" "m = Suc index + k" "i \<in> set (ph_tasks (phs ! k))"
        using b by blast
      then show "map_of phaseOf i = Some m \<or> (\<exists>k < length (ph # phs). m = index + k \<and> i \<in> set (ph_tasks ((ph # phs) ! k)))"
      proof cases
        case 1
        then show ?thesis using a by fastforce
      next
        case (2 k)
        then show ?thesis by (intro disjI2 exI[of _ "Suc k"]) simp
      qed
    qed
  qed
qed simp

lemma accepted_phase_order:
  assumes c: "compositionProblems planBytes p = []"
  shows "phase_order p"
proof (cases "pl_phases p")
  case (Some phs)
  from c obtain phaseOf where f: "phase_problems p 0 phs [] [] = ([], phaseOf)"
    and t: "\<And>s. s \<in> set (pl_tasks p) \<Longrightarrow> composed_task_problems p phaseOf s = []"
    by (auto simp: compositionProblems_def Some split: prod.splits)
  note found = phases_found[OF f]
  have "\<exists>k' \<ge> k. k' < length phs \<and> spec_id s \<in> set (ph_tasks (phs ! k'))"
    if s: "s \<in> set (pl_tasks p)" "i \<in> set (spec_needs s)" and k: "k < length phs" "i \<in> set (ph_tasks (phs ! k))" for s i k
  proof -
    obtain m where m: "map_of phaseOf (spec_id s) = Some m"
      using t[OF s(1)] Some by (cases "map_of phaseOf (spec_id s)") (simp_all add: composed_task_problems_def)
    then have k': "m < length phs" "spec_id s \<in> set (ph_tasks (phs ! m))"
      using conjunct2[OF conjunct2[OF found], rule_format, of "spec_id s" m] by auto
    have "map_of phaseOf i = Some k"
      using conjunct1[OF conjunct2[OF found], rule_format, OF k] by simp
    moreover have "\<not> phase_index phaseOf (spec_id s) < phase_index phaseOf i"
      using t[OF s(1)] s(2) by (simp add: composed_task_problems_def filter_empty_conv)
    ultimately show ?thesis
      using m k' by (intro exI[of _ m]) (simp add: phase_index_def)
  qed
  then show ?thesis
    by (simp add: phase_order_def Some)
qed (simp add: phase_order_def)

definition accepted_plan :: "nat \<Rightarrow> plan \<Rightarrow> bool" where
  "accepted_plan planBytes p \<longleftrightarrow> pl_script p = None \<and> taskProblems p = [] \<and> compositionProblems planBytes p = []"

lemma accepted_plan_wf:
  assumes "accepted_plan planBytes p"
  shows "wf_plan p"
proof -
  have d: "distinct (map spec_id (pl_tasks p))"
    using assms by (simp add: accepted_plan_def taskProblems_def repeated_none)
  have n: "set (spec_needs s) \<subseteq> spec_id ` set (pl_tasks p)" if "s \<in> set (pl_tasks p)" for s
    using assms that need_problems_none[of p "spec_id s" "[]" "spec_needs s"]
    by (auto simp: accepted_plan_def taskProblems_def list_all_iff known_def)
  have "map_problems p s = []" if "s \<in> set (pl_tasks p)" for s
    using assms that by (auto simp: accepted_plan_def compositionProblems_def composed_task_problems_def split: prod.splits)
  from this[of "MapSpec _"] have m: "child_id (mp_id m) k \<notin> spec_id ` set (pl_tasks p)"
    if "MapSpec m \<in> set (pl_tasks p)" "k < mp_maxItems m" for m k
    using that by (auto simp: map_problems_def filter_empty_conv known_def)
  show ?thesis
    using assms d n m accepted_phase_order by (auto simp: wf_plan_def accepted_plan_def)
qed

end
