(* ===== verification/WorkflowLimits.thy ===== *)
theory WorkflowLimits
  imports WorkflowOrder
begin

text \<open>
  The limits on what runs at a time: never more tasks than the plan's concurrency hold a session or a process, and at most one
  task at a time edits the directory itself. They hold in every run, of static plans and of scripts.
\<close>

definition occupies :: "wtask \<Rightarrow> bool" where
  "occupies t \<longleftrightarrow> \<not> slotless t \<and> live t"

definition edits :: "wtask \<Rightarrow> bool" where
  "edits t \<longleftrightarrow> occupies t \<and> writes t"

definition occupied :: "(wtask \<Rightarrow> bool) \<Rightarrow> wtask list \<Rightarrow> nat" where
  "occupied P ts = length (filter P ts)"

definition limited :: "run \<Rightarrow> bool" where
  "limited r \<longleftrightarrow> distinct (map tk_id (rn_tasks r))
     \<and> occupied occupies (rn_tasks r) \<le> max_concurrent r \<and> occupied edits (rn_tasks r) \<le> 1"

lemma active_occupies: "active_tasks r = filter occupies (rn_tasks r)"
  by (simp add: active_tasks_def occupies_def cong: filter_cong)

lemma occupied_simps [simp]:
  "occupied P [] = 0" "occupied P (t # ts) = (if P t then 1 else 0) + occupied P ts"
  by (simp_all add: occupied_def)

lemma occupied_mono: "(\<And>t. t \<in> set ts \<Longrightarrow> P (f t) \<Longrightarrow> P t) \<Longrightarrow> occupied P (map f ts) \<le> occupied P ts"
proof (induction ts)
  case (Cons t ts)
  have "occupied P (map f ts) \<le> occupied P ts" and "P (f t) \<Longrightarrow> P t"
    using Cons by simp_all
  then show ?case by simp
qed simp

lemma occupied_one:
  assumes "distinct (map tk_id ts)" "\<And>t. t \<in> set ts \<Longrightarrow> tk_id t \<noteq> i \<Longrightarrow> P (f t) \<Longrightarrow> P t"
  shows "occupied P (map f ts) \<le> Suc (occupied P ts)"
  using assms
proof (induction ts)
  case (Cons t ts)
  show ?case
  proof (cases "tk_id t = i")
    case True
    have "occupied P (map f ts) \<le> occupied P ts"
      using Cons.prems True by (intro occupied_mono) (metis distinct.simps(2) image_eqI list.set_intros(2) list.set_map list.simps(9))
    then show ?thesis by simp
  next
    case False
    have "occupied P (map f ts) \<le> Suc (occupied P ts)"
      using Cons by simp
    moreover have "P (f t) \<Longrightarrow> P t"
      using Cons.prems(2)[of t] False by simp
    ultimately show ?thesis by simp
  qed
qed simp

text \<open>Updates that occupy nothing anew.\<close>

lemma limited_map:
  assumes "limited r" "rn_plan r' = rn_plan r" "rn_tasks r' = map f (rn_tasks r)"
    and ids: "\<And>t. t \<in> set (rn_tasks r) \<Longrightarrow> tk_id (f t) = tk_id t"
    and idle: "\<And>t. t \<in> set (rn_tasks r) \<Longrightarrow> occupies (f t) \<Longrightarrow> occupies t \<and> (writes (f t) \<longrightarrow> writes t)"
  shows "limited r'"
proof -
  have "distinct (map tk_id (map f (rn_tasks r)))"
    using assms(1) distinct_kept[OF ids] by (simp only: limited_def)
  moreover have "occupied occupies (map f (rn_tasks r)) \<le> occupied occupies (rn_tasks r)"
    using idle by (intro occupied_mono) blast
  moreover have "occupied edits (map f (rn_tasks r)) \<le> occupied edits (rn_tasks r)"
    using idle by (intro occupied_mono) (auto simp: edits_def)
  ultimately show ?thesis
    using assms(1-3) by (simp add: limited_def max_concurrent_def)
qed

lemma same_writes: "same_task t u \<Longrightarrow> writes t = writes u \<and> slotless t = slotless u"
  by (simp add: same_task_def writes_def slotless_def)

lemma limited_append:
  assumes "limited r" "distinct (map tk_id cs)" "\<And>c. c \<in> set cs \<Longrightarrow> find_task (tk_id c) (rn_tasks r) = None \<and> tk_state c = TPending"
  shows "limited (r\<lparr>rn_tasks := rn_tasks r @ cs\<rparr>)"
proof -
  have "filter occupies cs = []" "filter edits cs = []"
    using assms(3) by (auto simp: filter_empty_conv occupies_def edits_def live_def)
  moreover have "distinct (map tk_id (rn_tasks r @ cs))"
    using assms by (auto simp: limited_def find_task_None) (metis image_eqI)
  ultimately show ?thesis
    using assms(1) by (simp add: limited_def occupied_def max_concurrent_def)
qed

section \<open>A start takes a free place\<close>

lemma ready_loop_free:
  "i \<in> set (ready_loop r now slots busy ts) \<Longrightarrow>
     \<exists>t \<in> set ts. tk_id t = i \<and> (slotless t \<or> 0 < slots) \<and> (writes t \<longrightarrow> \<not> busy)"
proof (induction r now slots busy ts rule: ready_loop.induct)
  case (2 r now slots busy t ts)
  then show ?case by (auto split: if_splits)
qed simp

lemma limited_start:
  assumes r: "limited r" and i: "i \<in> set (readyTasks r False None)"
  shows "limited (set_task i (started_task now sid) r)"
proof -
  have d: "distinct (map tk_id (rn_tasks r))"
    using r by (simp add: limited_def)
  obtain t where t: "t \<in> set (rn_tasks r)" "tk_id t = i" "slotless t \<or> length (active_tasks r) < max_concurrent r"
    "writes t \<longrightarrow> \<not> list_ex writes (active_tasks r)"
    using i ready_loop_free[of i r None _ _ "rn_tasks r"] by (fastforce simp: readyTasks_def split: if_splits)
  let ?f = "\<lambda>u. if tk_id u = i then started_task now sid u else u"
  have only: "u = t" if "u \<in> set (rn_tasks r)" "tk_id u = i" for u
    using distinct_ids_eq[OF d that(1) t(1)] that(2) t(2) by simp
  have same: "same_task (?f u) u" for u
    by (simp add: starts.same)
  have "distinct (map tk_id (map ?f (rn_tasks r)))"
    using d distinct_kept[of "rn_tasks r" ?f] by simp
  moreover have "occupied occupies (map ?f (rn_tasks r)) \<le> max_concurrent r"
  proof (cases "slotless t")
    case True
    have "occupied occupies (map ?f (rn_tasks r)) \<le> occupied occupies (rn_tasks r)"
      using only True same_writes[OF same] by (intro occupied_mono) (auto simp: occupies_def split: if_splits)
    then show ?thesis using r by (simp add: limited_def)
  next
    case False
    have "occupied occupies (map ?f (rn_tasks r)) \<le> Suc (occupied occupies (rn_tasks r))"
      using d by (rule occupied_one[where i = i]) simp
    then show ?thesis
      using t(3) False by (simp add: active_occupies occupied_def)
  qed
  moreover have "occupied edits (map ?f (rn_tasks r)) \<le> 1"
  proof (cases "writes t")
    case True
    then have "occupied edits (rn_tasks r) = 0"
      using t(4) by (auto simp: occupied_def active_occupies list_ex_iff edits_def filter_empty_conv)
    then show ?thesis
      using occupied_one[OF d, of i edits ?f] by simp
  next
    case False
    have "occupied edits (map ?f (rn_tasks r)) \<le> occupied edits (rn_tasks r)"
      using only False same_writes[OF same] by (intro occupied_mono) (auto simp: edits_def split: if_splits)
    then show ?thesis using r by (simp add: limited_def)
  qed
  ultimately show ?thesis
    by (simp add: limited_def set_task_def max_concurrent_def)
qed

section \<open>An invariant of the reducer\<close>

lemma limited_live:
  assumes r: "limited r" and t: "find_task i (rn_tasks r) = Some t" "live t" and same: "\<And>u. same_task (g u) u"
    and r': "rn_plan r' = rn_plan r" "rn_tasks r' = map (\<lambda>u. if tk_id u = i then g u else u) (rn_tasks r)"
  shows "limited r'"
proof (rule limited_map[OF r r'])
  fix u assume u: "u \<in> set (rn_tasks r)"
  show "tk_id (if tk_id u = i then g u else u) = tk_id u"
    using same[of u] by (simp add: same_task_def)
  have "distinct (map tk_id (rn_tasks r))"
    using r by (simp add: limited_def)
  then show "occupies (if tk_id u = i then g u else u) \<Longrightarrow>
      occupies u \<and> (writes (if tk_id u = i then g u else u) \<longrightarrow> writes u)"
    using found_only[OF _ t(1) u] t(2) same_writes[OF same[of u]] by (auto simp: occupies_def split: if_splits)
qed

definition place_child :: "slug \<Rightarrow> wtask list \<Rightarrow> int \<Rightarrow> wtask \<Rightarrow> wtask" where
  "place_child pid cs now t =
     (if tk_id t = pid then t\<lparr>tk_expanded := True\<rparr>
      else case find_task (tk_id t) (rev cs) of Some c \<Rightarrow> c
           | None \<Rightarrow> if is_child_of pid t then retired_child now t else t)"

lemma place_children_tasks:
  "rn_tasks (place_children r pid cs now)
     = map (place_child pid cs now) (rn_tasks r) @ filter (\<lambda>c. find_task (tk_id c) (rn_tasks r) = None) cs"
  by (simp add: place_children_def place_child_def[abs_def])

lemma place_child_idle:
  assumes "\<forall>c \<in> set cs. tk_state c = TPending"
  shows "tk_id (place_child pid cs now t) = tk_id t
     \<and> (occupies (place_child pid cs now t) \<longrightarrow> occupies t \<and> (writes (place_child pid cs now t) \<longrightarrow> writes t))"
proof (cases "find_task (tk_id t) (rev cs)")
  case None
  then show ?thesis
    by (simp add: place_child_def occupies_def slotless_def live_def retired_child_def writes_def)
next
  case (Some c)
  then have "c \<in> set cs" "tk_id c = tk_id t"
    using find_task_Some by fastforce+
  then show ?thesis
    using Some assms by (simp add: place_child_def occupies_def slotless_def live_def writes_def)
qed

lemma limited_children:
  assumes r: "limited r" and x: "expandedTasks env r0 parent = Inr cs"
  shows "limited (place_children r (tk_id parent) cs now)"
proof -
  obtain m :: map_spec where "\<forall>c \<in> set cs. tk_state c = TPending \<and> tk_needs c = mp_needs m \<and> tk_mapParentId c = Some (tk_id parent) \<and> tk_kind c = KAgent"
    and ids: "map tk_id cs = map (child_id (tk_id parent)) [0..<length cs]"
    by (rule expandedTasks_shape[OF x]) blast
  then have cs: "\<forall>c \<in> set cs. tk_state c = TPending"
    by simp
  let ?f = "place_child (tk_id parent) cs now"
  let ?new = "filter (\<lambda>c. find_task (tk_id c) (rn_tasks r) = None) cs"
  note f = place_child_idle[OF cs, of "tk_id parent" now]
  have mapped: "limited (r\<lparr>rn_tasks := map ?f (rn_tasks r)\<rparr>)"
    by (rule limited_map[OF r, where f = ?f]) (use f in simp_all)
  have "tk_id ` set (map ?f (rn_tasks r)) = tk_id ` set (rn_tasks r)"
    unfolding set_map image_image by (rule image_cong[OF refl]) (use f in blast)
  then have "find_task (tk_id c) (map ?f (rn_tasks r)) = None" if "c \<in> set ?new" for c
    using that by (simp only: find_task_None set_filter mem_Collect_eq not_False_eq_True)
  moreover have "distinct (map tk_id cs)"
    unfolding ids by (simp add: distinct_map inj_on_def child_id_inj)
  ultimately have "limited (r\<lparr>rn_tasks := map ?f (rn_tasks r)\<rparr>\<lparr>rn_tasks := rn_tasks (r\<lparr>rn_tasks := map ?f (rn_tasks r)\<rparr>) @ ?new\<rparr>)"
    using cs by (intro limited_append[OF mapped]) (auto simp: distinct_map_filter)
  then show ?thesis
    by (simp add: limited_def max_concurrent_def place_children_tasks) (simp add: place_children_def)
qed

interpretation limits: run_invariant limited
proof
  fix r :: run
  assume r: "limited r"
  show "rn_tasks r' = rn_tasks r \<Longrightarrow> rn_plan r' = rn_plan r \<Longrightarrow> (rn_script r = None) = (rn_script r' = None) \<Longrightarrow> limited r'" for r'
    using r by (simp add: limited_def max_concurrent_def)
  show "limited (r\<lparr>rn_tasks := map (\<lambda>t. if P t then f t else t) (rn_tasks r)\<rparr>)" if "routine (rn_plan r) f" for f P
    using routine_quiet[OF that] unfolding quiet_update_def idle_update_def
    by (intro limited_map[OF r, where f = "\<lambda>t. if P t then f t else t"])
      (auto simp: identity_update_def same_task_def idle_update_axioms_def occupies_def writes_def slotless_def split: if_splits)
  show "i \<in> set (readyTasks r False None) \<Longrightarrow> limited (set_task i (started_task now sid) r)" for i now sid
    by (rule limited_start[OF r])
  show "find_task i (rn_tasks r) = Some t \<Longrightarrow> live t \<Longrightarrow> st = TNeedsInput \<or> st = TRunning \<Longrightarrow> limited (set_task i (set_state st) r)" for i t st
    by (rule limited_live[OF r, where g = "set_state st"]) (auto simp: set_task_def set_state_def same_task_def)
  show "limited (set_task i (\<lambda>_. fit_storage r now t (ended_task rp fin now t)) r)"
    if "find_task i (rn_tasks r) = Some t" "live t" for i t now rp fin
    using set_task_found[OF _ that(1), of "\<lambda>t. fit_storage r now t (ended_task rp fin now t)"] r
    by (intro limited_live[OF r that ends.same[where r = r and now = now and rp = rp and fin = fin]]) (simp_all add: limited_def)
  show "limited (reopen r ids feedback)" for ids feedback
    by (rule limited_map[OF r, where f = "\<lambda>t. if tk_id t \<in> set (affected_tasks r ids) then reopened_task ids feedback t else t"])
      (auto simp: reopen_def occupies_def reopened_task_def live_def split: if_splits)
  show "expandedTasks env r parent = Inr cs \<Longrightarrow> limited (place_children r (tk_id parent) cs now)" for env parent cs now
    by (rule limited_children[OF r])
  show "rn_script r \<noteq> None \<Longrightarrow> find_task (st_id x) (rn_tasks r) = None \<Longrightarrow> limited (r\<lparr>rn_tasks := rn_tasks r @ [script_row x]\<rparr>)" for x
    by (rule limited_append[OF r]) (simp_all add: script_row_def new_task_def)
  show "rn_script r \<noteq> None \<Longrightarrow> limited (r\<lparr>rn_tasks := map (\<lambda>t. if P t then rerun_task t else t) (rn_tasks r)\<rparr>)" for P
    by (rule limited_map[OF r, where f = "\<lambda>t. if P t then rerun_task t else t"])
      (auto simp: rerun_task_def without_end_def occupies_def live_def split: if_splits)
qed

lemma created_limited: "distinct (map spec_id (pl_tasks p)) \<Longrightarrow> limited (createRun wid p h dir perm ses origin now)"
proof -
  assume d: "distinct (map spec_id (pl_tasks p))"
  have "map tk_id (map (created_task p) (pl_tasks p)) = map spec_id (pl_tasks p)"
    by (simp add: created_task_def new_task_def)
  then have "distinct (map tk_id (map (created_task p) (pl_tasks p)))"
    using d by (simp only:)
  moreover have "\<not> live (created_task p s)" for s
    by (simp add: created_task_def new_task_def live_def)
  ultimately show ?thesis
    by (simp add: limited_def createRun_def occupied_def filter_map comp_def occupies_def edits_def)
qed

end
