(* ===== verification/WorkflowProps.thy ===== *)
theory WorkflowProps
  imports PlanShape WorkflowLimits
begin

text \<open>
  What the run reducer guarantees, over every run it reaches from an accepted plan, and how it ends: the order of the tasks, the
  limits on what runs at a time, what the verdict on a contract rests on, and the final states. Two runs show where the code
  does not do what its comments say.
\<close>

section \<open>Order and limits\<close>

definition plain_env :: wf_env where
  "plain_env = \<lparr>we_registry = [], we_loaders = [], we_parse = (\<lambda>_. None), we_number = (\<lambda>_. [])\<rparr>"

text \<open>A plan of two tasks, the second of which needs the first, and its run up to the start of the second.\<close>

definition two_tasks :: plan where
  "two_tasks = plain_plan [AgentSpec (plain_agent ''a'' []), AgentSpec (plain_agent ''b'' [''a''])]"

definition fresh_run :: "plan \<Rightarrow> run" where
  "fresh_run p = createRun ''wf'' p ''hash'' ''/work'' PEdits ''ses'' None 0"

fun started :: "run_error + run \<Rightarrow> run" where
  "started (Inr r) = r"
| "started (Inl e) = plain_run (plain_plan [])"

definition first_done :: run where
  "first_done = finishTask plain_env (started (startTask (fresh_run two_tasks) ''a'' 1 (Some ''s1''))) ''a'' (EndDone ''ok'' None) 2"

definition second_runs :: run where
  "second_runs = started (startTask first_done ''b'' 3 (Some ''s2''))"

lemma second_runs_reached: "reaches plain_env (fresh_run two_tasks) second_runs"
proof -
  have a: "startTask (fresh_run two_tasks) ''a'' 1 (Some ''s1'') = Inr (started (startTask (fresh_run two_tasks) ''a'' 1 (Some ''s1'')))"
    by code_simp
  have b: "startTask first_done ''b'' 3 (Some ''s2'') = Inr second_runs"
    unfolding second_runs_def by code_simp
  show ?thesis
    by (rule reaches.moved[OF reaches.moved[OF reaches.moved[OF reaches.arrived wf_step.start[OF a]] wf_step.finish] wf_step.start[OF b[unfolded first_done_def]]])
qed

text \<open>C3: Needs come first: in whatever order the calls of the reducer come (starts, answers, failures, retries, reopenings after a
  rejected contract, map expansions, restarts), a task of an accepted plan works or counts as done only while everything it needs
  is done.\<close>

theorem needs_come_first:
  assumes "accepted_plan planBytes p" "reaches env (createRun wid p h dir perm ses origin now) r"
    and "t \<in> set (rn_tasks r)" "live t \<or> tk_state t = TDone" "i \<in> set (tk_needs t)"
  shows "\<exists>u \<in> set (rn_tasks r). tk_id u = i \<and> tk_state u = TDone"
proof -
  have "in_order (createRun wid p h dir perm ses origin now)"
    using accepted_plan_wf[OF assms(1)] created_sound[OF accepted_plan_wf[OF assms(1)]] by (simp add: in_order_def createRun_def)
  with assms(2) have "in_order r"
    by (rule order.reach_kept)
  then have "distinct (map tk_id (rn_tasks r))" "ordered (rn_tasks r)"
    by (simp_all add: in_order_def sound_def)
  with assms(3-5) show ?thesis
    by (auto simp: ordered_def working_def list_all_iff task_done_iff)
qed

lemma needs_come_first_witness: "\<exists>u \<in> set (rn_tasks second_runs). tk_id u = ''a'' \<and> tk_state u = TDone"
proof (rule needs_come_first[where planBytes = 100 and p = two_tasks and t = "rn_tasks second_runs ! 1"])
  show "accepted_plan 100 two_tasks" by code_simp
  show "reaches plain_env (createRun ''wf'' two_tasks ''hash'' ''/work'' PEdits ''ses'' None 0) second_runs"
    using second_runs_reached by (simp add: fresh_run_def)
  show "rn_tasks second_runs ! 1 \<in> set (rn_tasks second_runs)" by code_simp
  show "live (rn_tasks second_runs ! 1) \<or> tk_state (rn_tasks second_runs ! 1) = TDone" by code_simp
  show "''a'' \<in> set (tk_needs (rn_tasks second_runs ! 1))" by code_simp
qed

text \<open>C5: The limits hold in every run, static or scripted: the tasks that hold a session or a process are never more than the plan's
  concurrency, and of those that edit the directory itself there is never more than one.\<close>

theorem runs_stay_limited:
  assumes "distinct (map spec_id (pl_tasks p))" "reaches env (createRun wid p h dir perm ses origin now) r"
  shows "length (active_tasks r) \<le> max_concurrent r \<and> length (filter writes (active_tasks r)) \<le> 1"
proof -
  have "limited r"
    using created_limited[OF assms(1)] by (rule limits.reach_kept[OF assms(2)])
  moreover have "filter writes (filter occupies (rn_tasks r)) = filter edits (rn_tasks r)"
    by (simp add: edits_def conj_commute cong: filter_cong)
  ultimately show ?thesis
    by (simp add: limited_def active_occupies occupied_def)
qed

lemma runs_stay_limited_witness: "length (active_tasks second_runs) \<le> 2 \<and> length (filter writes (active_tasks second_runs)) \<le> 1"
proof -
  have "distinct (map spec_id (pl_tasks two_tasks))"
    by code_simp
  from runs_stay_limited[OF this second_runs_reached[unfolded fresh_run_def]]
  have "length (active_tasks second_runs) \<le> max_concurrent second_runs \<and> length (filter writes (active_tasks second_runs)) \<le> 1" .
  moreover have "max_concurrent second_runs = 2"
    by code_simp
  ultimately show ?thesis by simp
qed

section \<open>A cancelled task\<close>

definition cancelled_run :: run where
  "cancelled_run = finishTask plain_env (started (startTask (fresh_run two_tasks) ''a'' 1 (Some ''s1''))) ''a'' EndCancelled 2"

definition resumed_run :: run where
  "resumed_run = controlRun cancelled_run Resume 3"

definition finished_run :: run where
  "finished_run = finishTask plain_env (started (startTask resumed_run ''a'' 4 (Some ''s1''))) ''a'' (EndDone ''ok'' None) 5"

text \<open>A run of two tasks, one of which needs the other: the first is cancelled by the user and resumed. Cancelling skips the task that needs it,
  resuming brings back the cancelled task alone, and once that is done the run has failed, although the comment of \<open>controlRun\<close> says that it
  can finish.\<close>

theorem cancelled_need_fails_the_run:
  "map tk_state (rn_tasks cancelled_run) = [TStopped, TSkipped] \<and> rn_state cancelled_run = RPaused
   \<and> map tk_state (rn_tasks resumed_run) = [TPending, TSkipped]
   \<and> map tk_state (rn_tasks finished_run) = [TDone, TSkipped] \<and> rn_state finished_run = RFailed"
  by (intro conjI; code_simp)

section \<open>The verdict on a contract\<close>

lemma said_status_iff [simp]: "said_status s = CPass \<longleftrightarrow> s = SaidPass" "said_status s \<noteq> CUnverified"
  by (cases s; simp)+

text \<open>What proves a criterion: the checks that cover it all passed, or an auditor who looked and changed nothing passed it with
  evidence.\<close>

definition proved_by_checks :: "contract \<Rightarrow> gate list \<Rightarrow> criterion \<Rightarrow> bool" where
  "proved_by_checks ct gates cr \<longleftrightarrow>
     (\<exists>k \<in> set (ct_checks ct). covers k (cr_id cr))
     \<and> (\<forall>k \<in> set (ct_checks ct). covers k (cr_id cr) \<longrightarrow>
          (\<exists>n < length gates. n < length (ct_checks ct) \<and> cc_id (ct_checks ct ! n) = cc_id k \<and> ga_status (gates ! n) = GPass))"

definition proved_by_audit :: "audit_outcome option \<Rightarrow> criterion \<Rightarrow> bool" where
  "proved_by_audit audit cr \<longleftrightarrow>
     (\<exists>a e. audit = Some a \<and> 0 < ao_inspections a \<and> \<not> ao_workspaceChanged a
        \<and> filter (\<lambda>x. ae_id x = cr_id cr) (ao_criteria a) = [e] \<and> ae_status e = SaidPass \<and> js_trim (ae_evidence e) \<noteq> [])"

lemma gate_of_pass:
  assumes "map_option ga_status (gate_of ct gates i) = Some GPass"
  shows "\<exists>n < length gates. n < length (ct_checks ct) \<and> cc_id (ct_checks ct ! n) = i \<and> ga_status (gates ! n) = GPass"
proof -
  from assms obtain g where g: "gate_of ct gates i = Some g" "ga_status g = GPass"
    by auto
  then have "map_of (rev (map (\<lambda>(n, k). (cc_id k, gate_at gates n)) (enumerate 0 (ct_checks ct)))) i = Some (Some g)"
    by (simp add: gate_of_def bind_eq_Some_conv)
  then have "(i, Some g) \<in> set (map (\<lambda>(n, k). (cc_id k, gate_at gates n)) (enumerate 0 (ct_checks ct)))"
    using map_of_SomeD by fastforce
  then obtain n where "n < length (ct_checks ct)" "i = cc_id (ct_checks ct ! n)" "gate_at gates n = Some g"
    by (auto simp: in_set_enumerate_eq)
  then show ?thesis
    using g(2) by (auto simp: gate_at_def split: if_splits)
qed

lemma criterion_passes:
  assumes "judge_criterion ct gates audit cr = (i, CPass, b)"
  shows "proved_by_checks ct gates cr \<or> proved_by_audit audit cr"
proof (cases "filter (\<lambda>k. covers k (cr_id cr)) (ct_checks ct) = []")
  case True
  then have "proved_by_audit audit cr"
    using assms by (auto simp: judge_criterion_def proved_by_audit_def audit_valid_def audited_status_def
        split: option.splits if_splits list.splits)
  then show ?thesis ..
next
  case False
  then have "\<forall>k \<in> set (ct_checks ct). covers k (cr_id cr) \<longrightarrow> map_option ga_status (gate_of ct gates (cc_id k)) = Some GPass"
    using assms by (auto simp: judge_criterion_def list_all_iff split: if_splits)
  then have "proved_by_checks ct gates cr"
    using False gate_of_pass by (fastforce simp: proved_by_checks_def filter_empty_conv)
  then show ?thesis ..
qed

text \<open>C6: A contract is accepted only on evidence: no check that ran failed, and every required criterion was proved, by the checks
  that cover it or by an auditor who inspected something and left the workspace unchanged, unless the contract asks for no audit.\<close>

theorem acceptance_needs_evidence:
  assumes "ve_accepted (judgeVerification ct number now gates audit)"
  shows "(\<forall>g \<in> set gates. ga_status g = GPass)
    \<and> (\<forall>cr \<in> set (ct_criteria ct). cr_required cr \<longrightarrow>
         proved_by_checks ct gates cr \<or> proved_by_audit audit cr \<or> (ct_audit ct = AuditNone \<and> audit = None))"
proof (intro conjI ballI impI)
  show "\<And>g. g \<in> set gates \<Longrightarrow> ga_status g = GPass"
    using assms by (simp add: judgeVerification_def Let_def list_all_iff)
next
  fix cr assume cr: "cr \<in> set (ct_criteria ct)" "cr_required cr"
  obtain i st b where j: "judge_criterion ct gates audit cr = (i, st, b)"
    by (cases "judge_criterion ct gates audit cr") auto
  have i: "i = cr_id cr" and none: "st = CUnverified \<Longrightarrow> b = ByNobody \<Longrightarrow> audit = None"
    using j by (auto simp: judge_criterion_def Let_def split: if_splits option.splits)
  have "st = CPass \<or> st = CUnverified \<and> ct_audit ct = AuditNone"
    using assms cr j i by (force simp: judgeVerification_def Let_def list_all_iff required_ids_def)
  then show "proved_by_checks ct gates cr \<or> proved_by_audit audit cr \<or> (ct_audit ct = AuditNone \<and> audit = None)"
    using criterion_passes[of ct gates audit cr i b] j none by (auto simp: judge_criterion_def Let_def audited_status_def split: if_splits option.splits list.splits)
qed

definition small_contract :: contract where
  "small_contract = \<lparr>ct_criteria = [\<lparr>cr_id = ''c'', cr_text = ''text'', cr_required = True, cr_owners = None\<rparr>],
     ct_checks = [\<lparr>cc_id = ''k'', cc_command = ''bun test'', cc_timeoutSeconds = None, cc_covers = Some [''c''], cc_owners = None\<rparr>],
     ct_audit = AuditAuto, ct_maxRepairs = 2, ct_maxAudits = 2\<rparr>"

definition green_gate :: gate where
  "green_gate = \<lparr>ga_id = ''k'', ga_status = GPass, ga_detail = None\<rparr>"

lemma acceptance_needs_evidence_witness: "proved_by_checks small_contract [green_gate] (hd (ct_criteria small_contract))"
proof -
  have "ve_accepted (judgeVerification small_contract 1 0 [green_gate] None)"
    by code_simp
  from acceptance_needs_evidence[OF this]
  have "proved_by_checks small_contract [green_gate] (hd (ct_criteria small_contract))
      \<or> proved_by_audit None (hd (ct_criteria small_contract)) \<or> ct_audit small_contract = AuditNone"
    by (simp add: small_contract_def)
  then show ?thesis
    by (simp add: proved_by_audit_def) (simp add: small_contract_def)
qed

section \<open>Skips settle\<close>

lemma cascade_done: "t \<in> set (cascade p ts) \<Longrightarrow> skip_reason p (cascade p ts) t = None"
proof (induction p ts rule: cascade.induct)
  case (1 p ts)
  show ?case
  proof (cases "list_ex (\<lambda>t. skip_reason p ts t \<noteq> None) ts")
    case True
    then show ?thesis
      using 1 by (simp add: cascade.simps[of p ts])
  next
    case False
    then show ?thesis
      using 1(2) by (simp add: cascade.simps[of p ts] list_ex_iff)
  qed
qed

text \<open>C31: Skipping comes to an end, and nothing is left waiting for what cannot come: the loop of `cascadeSkips` returns on every
  run, and once a run is settled no pending task needs one that failed, was skipped or stopped, and none stands behind a phase
  whose barrier is lost.\<close>

theorem settled_runs_wait_for_nothing_dead:
  "\<forall>t \<in> set (rn_tasks (settle r now)). tk_state t = TPending \<longrightarrow>
     (\<forall>i \<in> set (tk_needs t). \<not> dead_need (rn_tasks (settle r now)) i)
     \<and> (\<forall>ph \<in> set (earlier_phases (rn_plan r) t). \<not> barrier_lost (rn_tasks (settle r now)) ph)"
proof (intro ballI impI)
  fix t assume t: "t \<in> set (rn_tasks (settle r now))" "tk_state t = TPending"
  have tasks: "rn_tasks (settle r now) = cascade (rn_plan r) (rn_tasks r)"
    by (simp add: settle_def Let_def cascadeSkips_def)
  have "skip_reason (rn_plan r) (rn_tasks (settle r now)) t = None"
    using t(1) unfolding tasks by (rule cascade_done)
  then show "(\<forall>i \<in> set (tk_needs t). \<not> dead_need (rn_tasks (settle r now)) i)
     \<and> (\<forall>ph \<in> set (earlier_phases (rn_plan r) t). \<not> barrier_lost (rn_tasks (settle r now)) ph)"
    using t(2) by (auto simp: skip_reason_def find_None_iff split: option.splits)
qed

lemma settled_runs_wait_for_nothing_dead_witness: "\<not> dead_need (rn_tasks (settle (fresh_run two_tasks) 1)) ''a''"
proof -
  have "\<exists>t \<in> set (rn_tasks (settle (fresh_run two_tasks) 1)). tk_state t = TPending \<and> ''a'' \<in> set (tk_needs t)"
    by code_simp
  then show ?thesis
    using settled_runs_wait_for_nothing_dead[of "fresh_run two_tasks" 1] by blast
qed

section \<open>A capped script\<close>

text \<open>The comment says the running tasks of a script that reached a cap go back to pending; the third time they fail.\<close>

definition script_run :: "nat \<Rightarrow> run" where
  "script_run attempts = (plain_run (plain_plan []))\<lparr>rn_script := Some new_script_state,
     rn_tasks := [(new_task ''s-1'' ''agent'' KAgent [])\<lparr>tk_state := TRunning, tk_attempt := attempts\<rparr>]\<rparr>"

lemma third_cap_fails_the_task:
  "map tk_state (rn_tasks (pauseScriptRun plain_env (script_run 2) ''cap'' 1)) = [TPending]
   \<and> map tk_state (rn_tasks (pauseScriptRun plain_env (script_run 3) ''cap'' 1)) = [TFailed]"
  by (intro conjI; code_simp)

end
