(* ===== verification/LoopTypes.thy ===== *)
theory LoopTypes
  imports WfTypes
begin

text \<open>
  The data of loops, from \<open>packages/protocol/src/loops.ts\<close> and \<open>loop-wire.ts\<close>: when a loop wakes up, how it finishes, what a run
  reported and how its claim was checked, and the record of a loop. Times are milliseconds. A price and a weight are
  rational numbers.
\<close>

section \<open>Triggers and budgets\<close>

record adaptive =
  ad_everyMs :: int
  ad_minMs :: "int option"
  ad_maxMs :: "int option"

datatype loop_trigger = Manual | External | Interval int | Daily string "string option" | Adaptive adaptive

definition MAX_INTERVAL_MS :: int where
  "MAX_INTERVAL_MS = 30 * 86400000"

text \<open>The shortest and the longest interval of an adaptive trigger.\<close>

definition min_ms :: "adaptive \<Rightarrow> int" where
  "min_ms a = orelse (ad_minMs a) (max 60000 (ad_everyMs a div 4))"

definition max_ms :: "adaptive \<Rightarrow> int" where
  "max_ms a = orelse (ad_maxMs a) (min MAX_INTERVAL_MS (ad_everyMs a * 8))"

datatype loop_budget = Goal "nat option" | Monitor | Fixed nat

datatype unknown_cost = CostBlock | CostAllow

record cost_budget =
  cb_maxTokens :: "nat option"
  cb_maxCost :: "rat option"
  cb_unknownCost :: "unknown_cost option"

record loop_usage =
  lu_tokens :: nat
  lu_costMicros :: nat
  lu_unknownCostCalls :: nat
  lu_unreportedTurns :: "nat option"

section \<open>Rubrics, approvals and gates\<close>

record rubric_criterion =
  rc_id :: string
  rc_description :: string
  rc_weight :: "rat option"
  rc_minScore :: "rat option"
  rc_evidenceRequired :: "string list option"

record rubric =
  ru_name :: "string option"
  ru_passThreshold :: "rat option"
  ru_criteria :: "rubric_criterion list"
  ru_mandatoryBlockers :: "string list option"

datatype rubric_status = RubricPass | RubricFail | RubricBlocked

record scored =
  so_id :: string
  so_score :: rat
  so_passed :: bool
  so_reason :: string
  so_evidence :: "string list"

record blocker =
  bl_id :: string
  bl_present :: bool
  bl_reason :: string

record rubric_result =
  rr_status :: rubric_status
  rr_score :: rat
  rr_threshold :: rat
  rr_criteria :: "scored list"
  rr_blockers :: "blocker list"

datatype approval_action = ActPush | ActMerge | ActDeploy | ActPublish | ActDelete

datatype review_action = Waive | AcceptClaim | ApproveAction

record waiver =
  wv_action :: review_action
  wv_actor :: string
  wv_reason :: string
  wv_time :: int
  wv_checkpointHash :: string

datatype gate_failure = FailQuality | FailBudget | FailPolicy | FailIntegrity

text \<open>A gate of a host check, with what loops add to it: why it failed and who waived it.\<close>

record loop_gate = gate +
  lg_failureClass :: "gate_failure option"
  lg_waiver :: "waiver option"

definition plain_gate :: "gate \<Rightarrow> loop_gate" where
  "plain_gate g = gate.extend g (loop_gate.fields None None)"

record loop_audit =
  la_verdict :: gate_status
  la_findings :: string
  la_sessionId :: "string option"
  la_workspaceChanged :: bool

section \<open>Runs\<close>

datatype checkpoint_status = Complete | Continue | Blocked

datatype activity = Idle | Acted

record checkpoint =
  ch_status :: checkpoint_status
  ch_summary :: string
  ch_next :: "string option"
  ch_activity :: "activity option"
  ch_evidence :: "string list option"

datatype lease_state = LeaseActive | LeaseRemoved | LeaseRetained

record worktree =
  wt_path :: string
  wt_branch :: string
  wt_base :: "string option"
  wt_state :: lease_state
  wt_detail :: "string option"

datatype run_trigger = BySchedule | ByHand | ByFire

datatype run_outcome = OutCompleted | OutFailed | OutCancelled | OutInterrupted

record loop_run =
  lr_run :: nat
  lr_startedAt :: int
  lr_trigger :: "run_trigger option"
  lr_sessionId :: "string option"
  lr_worktree :: "worktree option"
  lr_endedAt :: "int option"
  lr_outcome :: "run_outcome option"
  lr_checkpoint :: "checkpoint option"
  lr_gates :: "loop_gate list option"
  lr_audit :: "loop_audit option"
  lr_usage :: "loop_usage option"
  lr_checkpointHash :: "string option"
  lr_rubricResult :: "rubric_result option"
  lr_approvals :: "(approval_action \<times> waiver) list option"

section \<open>The loop\<close>

datatype loop_state = LActive | LRunning | LNeedsInput | LVerifying | LPaused | LCompleted | LBlocked | LStopped

datatype audit_choice = Independent | NoAudit

datatype loop_workspace = InPlaceRuns | WorktreeRuns

datatype notify_choice = NotifyCreator | NotifyNobody

datatype request_kind = ApprovalRequest | QuestionRequest

record waiting =
  wa_sessionId :: string
  wa_requestId :: string
  wa_kind :: request_kind
  wa_title :: string
  wa_detail :: string
  wa_tool :: "string option"
  wa_time :: int

datatype journal_type = JCreated | JUpdated | JState | JRun | JCheckpoint | JVerification

record journal_event =
  je_seq :: nat
  je_time :: int
  je_type :: journal_type
  je_title :: string
  je_run :: "nat option"

record loop =
  lp_loopId :: string
  lp_name :: string
  lp_directory :: string
  lp_objective :: string
  lp_criteria :: "string option"
  lp_checks :: "string list option"
  lp_audit :: "audit_choice option"
  lp_feedback :: "string option"
  lp_override :: "(string \<times> int) option"
  lp_trigger :: loop_trigger
  lp_budget :: loop_budget
  lp_costBudget :: "cost_budget option"
  lp_usage :: "loop_usage option"
  lp_rubric :: "rubric option"
  lp_approvalPolicy :: "approval_action list option"
  lp_template :: "string option"
  lp_reportOnly :: "bool option"
  lp_workspace :: "loop_workspace option"
  lp_creatorSessionId :: "string option"
  lp_notify :: "notify_choice option"
  lp_permission :: "run_permission option"
  lp_reads :: "string list option"
  lp_waiting :: "waiting option"
  lp_adaptiveMs :: "int option"
  lp_pendingFire :: "(int \<times> string option) option"
  lp_state :: loop_state
  lp_sessionId :: string
  lp_runs :: nat
  lp_nextWakeAt :: "int option"
  lp_history :: "loop_run list"
  lp_reviewInvalidatedAt :: "int option"
  lp_reason :: "string option"
  lp_createdAt :: int
  lp_updatedAt :: int
  lp_draft :: bool
  lp_journal :: "journal_event list option"

text \<open>\<open>history.at(-1)\<close>, and the history with its last entry replaced.\<close>

definition last_run :: "loop \<Rightarrow> loop_run option" where
  "last_run l = (if lp_history l = [] then None else Some (last (lp_history l)))"

definition map_last :: "('a \<Rightarrow> 'a) \<Rightarrow> 'a list \<Rightarrow> 'a list" where
  "map_last f xs = (if xs = [] then [] else butlast xs @ [f (last xs)])"

lemma map_last_simps [simp]: "map_last f [] = []" "map_last f (xs @ [x]) = xs @ [f x]" "length (map_last f xs) = length xs"
  by (simp_all add: map_last_def)

section \<open>A plain loop\<close>

text \<open>A loop without any option, for the examples the theorems are applied to.\<close>

definition plain_loop :: "loop_trigger \<Rightarrow> loop_budget \<Rightarrow> loop" where
  "plain_loop t b = \<lparr>lp_loopId = ''l'', lp_name = ''loop'', lp_directory = ''/work'', lp_objective = ''objective'', lp_criteria = None,
     lp_checks = None, lp_audit = None, lp_feedback = None, lp_override = None, lp_trigger = t, lp_budget = b, lp_costBudget = None,
     lp_usage = None, lp_rubric = None, lp_approvalPolicy = None, lp_template = None, lp_reportOnly = None, lp_workspace = None,
     lp_creatorSessionId = None, lp_notify = None, lp_permission = None, lp_reads = None, lp_waiting = None, lp_adaptiveMs = None,
     lp_pendingFire = None, lp_state = LActive, lp_sessionId = ''s'', lp_runs = 0, lp_nextWakeAt = None, lp_history = [],
     lp_reviewInvalidatedAt = None, lp_reason = None, lp_createdAt = 0, lp_updatedAt = 0, lp_draft = False, lp_journal = None\<rparr>"

end
