(* ===== verification/LoopSchedule.thy ===== *)
theory LoopSchedule
  imports LoopTypes
begin

text \<open>
  When a loop wakes up (\<open>packages/loops/src/schedule.ts\<close>): the pace of an adaptive loop, the next wakeup, and triggers as text.
  The calendar of the platform is the record \<open>zones\<close>: how far a zone is ahead of UTC at an instant (what
  \<open>Intl.DateTimeFormat\<close> shows, as \<open>offsetAt\<close> reads it), a time of the local day an instant falls on
  (\<open>setHours(hours, minutes, 0, 0)\<close>), the same time one local day later, and which time zones the platform knows.
\<close>

record zones =
  zn_offset :: "string \<Rightarrow> int \<Rightarrow> int"
  zn_local :: "int \<Rightarrow> nat \<Rightarrow> nat \<Rightarrow> int"
  zn_tomorrow :: "int \<Rightarrow> int"
  zn_known :: "string \<Rightarrow> bool"

definition DAY_MS :: int where "DAY_MS = 86400000"

section \<open>Adaptive loops\<close>

definition adaptiveInterval :: "adaptive \<Rightarrow> int option \<Rightarrow> int" where
  "adaptiveInterval a current = min (max_ms a) (max (min_ms a) (orelse current (ad_everyMs a)))"

text \<open>\<open>Math.round(now / 2)\<close> rounds a half up.\<close>

definition paceAfter :: "adaptive \<Rightarrow> int option \<Rightarrow> activity option \<Rightarrow> int" where
  "paceAfter a current act =
     (let now = adaptiveInterval a current in
      case act of
        Some Idle \<Rightarrow> adaptiveInterval a (Some (now * 2))
      | Some Acted \<Rightarrow> adaptiveInterval a (Some ((now + 1) div 2))
      | None \<Rightarrow> now)"

section \<open>Wall-clock times\<close>

definition naive :: "int \<Rightarrow> nat \<Rightarrow> nat \<Rightarrow> int" where
  "naive day hours minutes = day * DAY_MS + int hours * 3600000 + int minutes * 60000"

text \<open>
  \<open>instantOf\<close>: the offsets a day before and after, of which those count that hold at the instant they give.
\<close>

definition instantOf :: "(int \<Rightarrow> int) \<Rightarrow> int \<Rightarrow> int" where
  "instantOf offset n =
     (let before = offset (n - DAY_MS); after = offset (n + DAY_MS);
          valid = filter (\<lambda>t. offset t = n - t) (map (\<lambda>d. n - d) (js_set [before, after]))
      in case valid of [] \<Rightarrow> n - before | t # ts \<Rightarrow> foldl min t ts)"

text \<open>The number of the day an instant falls on in a zone, and the tries for today, tomorrow and the day after.\<close>

definition zone_day :: "(int \<Rightarrow> int) \<Rightarrow> int \<Rightarrow> int" where
  "zone_day offset t = (t div 1000 * 1000 + offset t) div DAY_MS"

definition nextDailyInZone :: "(int \<Rightarrow> int) \<Rightarrow> nat \<Rightarrow> nat \<Rightarrow> int \<Rightarrow> int" where
  "nextDailyInZone offset hours minutes start =
     (case List.find (\<lambda>t. start < t) (map (\<lambda>ahead. instantOf offset (naive (zone_day offset start + ahead) hours minutes)) [0, 1, 2]) of
        Some t \<Rightarrow> t
      | None \<Rightarrow> start + DAY_MS)"

text \<open>\<open>Number(text)\<close> of a text of digits, and the two numbers of \<open>"HH:MM"\<close>.\<close>

definition digit :: "char \<Rightarrow> nat" where
  "digit c = of_char c - 48"

definition is_digit :: "char \<Rightarrow> bool" where
  "is_digit c \<longleftrightarrow> 48 \<le> (of_char c :: nat) \<and> of_char c \<le> (57 :: nat)"

definition number_of :: "string \<Rightarrow> nat" where
  "number_of s = foldl (\<lambda>n c. 10 * n + digit c) 0 s"

definition clock_time :: "string \<Rightarrow> nat \<times> nat" where
  "clock_time s = (case js_split (CHR 0x3A) s of h # m # rest \<Rightarrow> (number_of h, number_of m) | _ \<Rightarrow> (0, 0))"

definition nextWake :: "zones \<Rightarrow> loop_trigger \<Rightarrow> int \<Rightarrow> int option \<Rightarrow> int option" where
  "nextWake z t start pace =
     (case t of
        Manual \<Rightarrow> None
      | External \<Rightarrow> None
      | Interval everyMs \<Rightarrow> Some (start + everyMs)
      | Adaptive a \<Rightarrow> Some (start + adaptiveInterval a pace)
      | Daily s zone \<Rightarrow>
          (let (hours, minutes) = clock_time s in
           case truthy zone of
             Some name \<Rightarrow> Some (nextDailyInZone (zn_offset z name) hours minutes start)
           | None \<Rightarrow>
               let candidate = zn_local z start hours minutes in
               Some (if candidate \<le> start then zn_tomorrow z candidate else candidate)))"

section \<open>Triggers as text\<close>

text \<open>A span is digits and a unit: \<open>(\d+)\s*(m|min|h|d)\<close>, on a lower-case text.\<close>

definition skip_space :: "string \<Rightarrow> string" where
  "skip_space s = dropWhile js_space s"

definition prefix_rest :: "string \<Rightarrow> string \<Rightarrow> string option" where
  "prefix_rest w s = (if take (length w) s = w then Some (drop (length w) s) else None)"

definition unitMs :: "string \<Rightarrow> int" where
  "unitMs u = (if u = ''h'' then 3600000 else if u = ''d'' then DAY_MS else 60000)"

text \<open>The unit at the front: \<open>min\<close> is tried where \<open>m\<close> leaves a rest that does not match; the rest decides.\<close>

definition unit_at :: "string \<Rightarrow> (string \<times> string) list" where
  "unit_at s = List.map_filter (\<lambda>u. map_option (Pair u) (prefix_rest u s)) [''m'', ''min'', ''h'', ''d'']"

definition spans_at :: "string \<Rightarrow> (int \<times> string) list" where
  "spans_at s =
     (let ds = takeWhile is_digit s in
      if ds = [] then []
      else map (\<lambda>(u, rest). (int (number_of ds) * unitMs u, rest)) (unit_at (skip_space (dropWhile is_digit s))))"

definition word_and_space :: "string \<Rightarrow> string \<Rightarrow> string option" where
  "word_and_space w s =
     (case prefix_rest w s of
        Some (c # rest) \<Rightarrow> if js_space c then Some (skip_space rest) else None
      | _ \<Rightarrow> None)"

definition parse_every :: "string \<Rightarrow> int option" where
  "parse_every s =
     (case word_and_space ''every'' s of None \<Rightarrow> None
      | Some rest \<Rightarrow> map_option fst (List.find (\<lambda>(ms, r). r = []) (spans_at rest)))"

definition two_digits :: "string \<Rightarrow> bool" where
  "two_digits s \<longleftrightarrow> length s = 2 \<and> list_all is_digit s"

text \<open>\<open>/^daily\s+([01]\d|2[0-3]):([0-5]\d)(?:\s+(\S+))?$/i\<close>: the time and the zone.\<close>

definition parse_daily :: "string \<Rightarrow> (string \<times> string option) option" where
  "parse_daily s =
     (case word_and_space ''daily'' (lower (take 5 s) @ drop 5 s) of None \<Rightarrow> None
      | Some rest \<Rightarrow>
          let h = take 2 rest; m = take 2 (drop 3 rest); behind = drop 5 rest; zone = skip_space behind in
          if \<not> (two_digits h \<and> number_of h < 24 \<and> take 1 (drop 2 rest) = '':'' \<and> two_digits m \<and> number_of m < 60) then None
          else if behind = [] then Some (h @ '':'' @ m, None)
          else if zone \<noteq> behind \<and> zone \<noteq> [] \<and> list_all (\<lambda>c. \<not> js_space c) zone then Some (h @ '':'' @ m, Some zone)
          else None)"

text \<open>\<open>(?:\s+(\d+)\s*(unit)\s*\.\.\s*(\d+)\s*(unit))?$\<close>: the bounds behind the interval of an adaptive trigger.\<close>

definition parse_bounds :: "string \<Rightarrow> (int \<times> int) option" where
  "parse_bounds s =
     (if skip_space s = s then None
      else List.find (\<lambda>_. True) (concat (map (\<lambda>(lo, r).
        (case prefix_rest ''..'' (skip_space r) of None \<Rightarrow> []
         | Some r2 \<Rightarrow> List.map_filter (\<lambda>(hi, r3). if r3 = [] then Some (lo, hi) else None) (spans_at (skip_space r2))))
        (spans_at (skip_space s)))))"

definition bounds_behind :: "int \<times> string \<Rightarrow> (int \<times> (int \<times> int) option) option" where
  "bounds_behind x =
     (if snd x = [] then Some (fst x, None) else map_option (\<lambda>b. (fst x, Some b)) (parse_bounds (snd x)))"

definition parse_adaptive :: "string \<Rightarrow> (int \<times> (int \<times> int) option) option" where
  "parse_adaptive s =
     (case word_and_space ''adaptive'' s of None \<Rightarrow> None
      | Some rest \<Rightarrow> List.find (\<lambda>_. True) (List.map_filter bounds_behind (spans_at rest)))"

definition adaptive_of :: "int \<times> (int \<times> int) option \<Rightarrow> adaptive" where
  "adaptive_of x = \<lparr>ad_everyMs = fst x, ad_minMs = map_option fst (snd x), ad_maxMs = map_option snd (snd x)\<rparr>"

definition good_bounds :: "adaptive \<Rightarrow> bool" where
  "good_bounds a \<longleftrightarrow> 60000 \<le> ad_everyMs a \<and> 60000 \<le> min_ms a \<and> min_ms a \<le> ad_everyMs a \<and> ad_everyMs a \<le> max_ms a
     \<and> max_ms a \<le> 30 * DAY_MS"

definition parseTrigger :: "zones \<Rightarrow> string \<Rightarrow> loop_trigger option" where
  "parseTrigger z s =
     (let v = js_trim s; l = lower v in
      if l = ''manual'' then Some Manual
      else if l = ''external'' then Some External
      else case parse_every l of
        Some everyMs \<Rightarrow> if 60000 \<le> everyMs then Some (Interval everyMs) else None
      | None \<Rightarrow>
          (case parse_daily v of
             Some (at_time, zone) \<Rightarrow>
               if (case zone of Some name \<Rightarrow> \<not> zn_known z name | None \<Rightarrow> False) then None else Some (Daily at_time zone)
           | None \<Rightarrow>
               (case parse_adaptive l of
                  Some x \<Rightarrow> if good_bounds (adaptive_of x) then Some (Adaptive (adaptive_of x)) else None
                | None \<Rightarrow> None)))"

text \<open>\<open>describeSpan\<close> of a whole number of minutes, as every parsed trigger has.\<close>

definition describeSpan :: "int \<Rightarrow> string" where
  "describeSpan ms =
     (let minutes = nat ms div 60000 in
      if minutes mod 1440 = 0 then nat_text (minutes div 1440) @ ''d''
      else if minutes mod 60 = 0 then nat_text (minutes div 60) @ ''h''
      else nat_text minutes @ ''m'')"

definition describeTrigger :: "loop_trigger \<Rightarrow> string" where
  "describeTrigger t =
     (case t of
        Manual \<Rightarrow> ''manual''
      | External \<Rightarrow> ''external''
      | Daily s zone \<Rightarrow> ''daily '' @ s @ (case truthy zone of Some name \<Rightarrow> '' '' @ name | None \<Rightarrow> [])
      | Adaptive a \<Rightarrow> ''adaptive '' @ describeSpan (ad_everyMs a) @ '' ('' @ describeSpan (min_ms a) @ ''..'' @ describeSpan (max_ms a) @ '')''
      | Interval everyMs \<Rightarrow> ''every '' @ describeSpan everyMs)"

section \<open>Bounds\<close>

lemma interval_bounds: "min_ms a \<le> max_ms a \<Longrightarrow> min_ms a \<le> adaptiveInterval a current \<and> adaptiveInterval a current \<le> max_ms a"
  by (simp add: adaptiveInterval_def)

lemma parsed_bounds:
  assumes "parseTrigger z s = Some (Adaptive a)"
  shows "good_bounds a"
  using assms by (auto simp: parseTrigger_def Let_def split: option.splits if_splits prod.splits)

text \<open>The pace of an adaptive loop stays inside its bounds, whatever its runs report, and moves one way at a time: a run that found
  nothing never shortens the interval and one that acted never lengthens it, by a factor of at most two.\<close>

theorem pace_stays_bounded:
  assumes "min_ms a \<le> max_ms a" "0 \<le> min_ms a"
  shows "min_ms a \<le> paceAfter a current act \<and> paceAfter a current act \<le> max_ms a
    \<and> (act = Some Idle \<longrightarrow> adaptiveInterval a current \<le> paceAfter a current act)
    \<and> (act = Some Acted \<longrightarrow> paceAfter a current act \<le> adaptiveInterval a current)
    \<and> paceAfter a current act \<le> 2 * adaptiveInterval a current \<and> adaptiveInterval a current \<le> 2 * paceAfter a current act"
proof -
  define c where "c = adaptiveInterval a current"
  have c: "min_ms a \<le> c" "c \<le> max_ms a"
    using interval_bounds[OF assms(1)] by (simp_all add: c_def)
  have half: "(c + 1) div 2 \<le> c" "c \<le> 2 * ((c + 1) div 2)" if "0 \<le> c"
    using that by presburger+
  consider "act = None" | "act = Some Idle" | "act = Some Acted"
    by (metis activity.exhaust option.exhaust)
  then show ?thesis
  proof cases
    case 1
    then show ?thesis
      using c assms(2) by (simp add: paceAfter_def c_def[symmetric])
  next
    case 2
    then have "paceAfter a current act = min (max_ms a) (max (min_ms a) (c * 2))"
      by (simp add: paceAfter_def Let_def c_def[symmetric]) (simp add: adaptiveInterval_def)
    then show ?thesis
      using c assms 2 unfolding c_def[symmetric] by (simp add: min_def)
  next
    case 3
    then have "paceAfter a current act = min (max_ms a) (max (min_ms a) ((c + 1) div 2))"
      by (simp add: paceAfter_def Let_def c_def[symmetric]) (simp add: adaptiveInterval_def)
    then show ?thesis
      using c assms half 3 unfolding c_def[symmetric] by simp
  qed
qed

lemma pace_stays_bounded_witness:
  "min_ms \<lparr>ad_everyMs = 1800000, ad_minMs = None, ad_maxMs = Some 2700000\<rparr>
     \<le> paceAfter \<lparr>ad_everyMs = 1800000, ad_minMs = None, ad_maxMs = Some 2700000\<rparr> None (Some Idle)"
  using pace_stays_bounded[of "\<lparr>ad_everyMs = 1800000, ad_minMs = None, ad_maxMs = Some 2700000\<rparr>" None "Some Idle"]
  by (simp add: min_ms_def max_ms_def)

section \<open>Daily wakeups\<close>

lemma instant_steady:
  assumes "offset (n - DAY_MS) = d" "offset (n + DAY_MS) = d" "offset (n - d) = d"
  shows "instantOf offset n = n - d"
  using assms by (simp add: instantOf_def js_set_def)

lemma find_first: "List.find P [a, b, c] = (if P a then Some a else if P b then Some b else if P c then Some c else None)"
  by simp

lemma daily_in_future: "start < nextDailyInZone offset hours minutes start"
  by (auto simp: nextDailyInZone_def DAY_MS_def find_first simp del: List.find.simps)

text \<open>A daily loop in a time zone wakes strictly later, whatever the zone does to its clocks; and as long as the zone keeps its
  offset over the days around, it wakes within a day, exactly when the clocks of the zone show the time it asks for.\<close>

theorem daily_wakes_at_the_time:
  assumes time: "hours < 24" "minutes < 60"
    and steady: "\<And>t. start - 5 * DAY_MS \<le> t \<Longrightarrow> t \<le> start + 5 * DAY_MS \<Longrightarrow> offset t = d"
    and near: "- DAY_MS \<le> d" "d \<le> DAY_MS"
    and wake: "nextDailyInZone offset' hours minutes start = u"
  shows "start < u
    \<and> (offset' = offset \<longrightarrow> u \<le> start + DAY_MS \<and> (u + d) mod DAY_MS = int hours * 3600000 + int minutes * 60000)"
proof (intro conjI impI)
  show "start < u"
    using daily_in_future[of start offset' hours minutes] wake by simp
next
  assume same: "offset' = offset"
  let ?tod = "int hours * 3600000 + int minutes * 60000"
  let ?day = "zone_day offset start"
  let ?c = "\<lambda>k. (?day + k) * DAY_MS + ?tod - d"
  have tod: "0 \<le> ?tod" "?tod < DAY_MS"
    using time by (simp_all add: DAY_MS_def)
  have day: "?day * DAY_MS \<le> start + d" "start + d < ?day * DAY_MS + DAY_MS + 1000"
  proof -
    have "offset start = d"
      by (rule steady) (simp_all add: DAY_MS_def)
    then show "?day * DAY_MS \<le> start + d" "start + d < ?day * DAY_MS + DAY_MS + 1000"
      by (simp_all add: zone_day_def DAY_MS_def)
  qed
  have inst: "instantOf offset (naive (?day + k) hours minutes) = ?c k" if k: "0 \<le> k" "k \<le> 2" for k
  proof -
    define K where "K = k * DAY_MS"
    have K: "0 \<le> K" "K \<le> 2 * DAY_MS" "1000 < DAY_MS"
      using k by (simp_all add: K_def DAY_MS_def)
    have n: "naive (?day + k) hours minutes = ?day * DAY_MS + K + ?tod"
      by (simp add: naive_def K_def algebra_simps)
    have "instantOf offset (?day * DAY_MS + K + ?tod) = ?day * DAY_MS + K + ?tod - d"
      by (intro instant_steady steady) (use K day tod near in linarith)+
    then show ?thesis
      unfolding n by (simp add: K_def algebra_simps)
  qed
  have first: "?c (- 1) \<le> start" and third: "start < ?c 2"
    using day tod by (simp_all add: algebra_simps DAY_MS_def)
  have u: "u = (if start < ?c 0 then ?c 0 else if start < ?c 1 then ?c 1 else ?c 2)"
    using wake third inst[of 0] inst[of 1] inst[of 2] unfolding same nextDailyInZone_def
    by (simp add: find_first del: List.find.simps split: if_splits)
  then obtain k where k: "u = ?c k" "?c (k - 1) \<le> start"
    using first by (cases "start < ?c 0"; cases "start < ?c 1") (auto intro: that[of 0] that[of 1] that[of 2])
  then show "u \<le> start + DAY_MS"
    by (simp add: algebra_simps)
  have "u + d = ?tod + (?day + k) * DAY_MS"
    by (simp add: k(1))
  then show "(u + d) mod DAY_MS = ?tod"
    using tod by simp
qed

definition madrid :: "int \<Rightarrow> int" where
  "madrid t = 3600000"

lemma daily_wakes_at_the_time_witness: "(nextDailyInZone madrid 9 30 1000000 + 3600000) mod DAY_MS = 9 * 3600000 + 30 * 60000"
  using daily_wakes_at_the_time[of 9 30 1000000 madrid 3600000 madrid "nextDailyInZone madrid 9 30 1000000"]
  by (simp add: madrid_def DAY_MS_def)

section \<open>Round trip\<close>

lemma number_of_append: "number_of (s @ [c]) = 10 * number_of s + digit c"
  by (simp add: number_of_def)

lemma digit_char: "k < 10 \<Longrightarrow> is_digit (char_of (48 + k :: nat)) \<and> digit (char_of (48 + k :: nat)) = k"
  by (simp add: is_digit_def digit_def)

lemma nat_text_digits: "list_all is_digit (nat_text n) \<and> number_of (nat_text n) = n \<and> nat_text n \<noteq> []"
proof (induction n rule: nat_text.induct)
  case (1 n)
  show ?case
  proof (cases "n < 10")
    case True
    then show ?thesis
      using digit_char[of n] number_of_append[of "[]"] by (simp add: nat_text.simps[of n] number_of_def)
  next
    case False
    then show ?thesis
      using 1 digit_char[of "n mod 10"] by (simp add: nat_text.simps[of n] number_of_append)
  qed
qed

lemma digit_plain: "is_digit c \<Longrightarrow> \<not> js_space c"
  by (auto simp: is_digit_def js_space_def)

lemma lower_append: "lower (s @ t) = lower s @ lower t"
  by (simp add: lower_def)

lemma lower_digits: "list_all is_digit s \<Longrightarrow> lower s = s"
  by (induction s) (auto simp: lower_def is_digit_def)

definition span_unit :: "char \<Rightarrow> bool" where
  "span_unit u \<longleftrightarrow> u \<in> {CHR ''m'', CHR ''h'', CHR ''d''}"

lemma span_unit_plain: "span_unit u \<Longrightarrow> \<not> js_space u \<and> \<not> is_digit u \<and> lower [u] = [u]"
  by (auto simp: span_unit_def js_space_def is_digit_def lower_def)

lemma described_span:
  assumes "60000 dvd ms" "0 < ms"
  obtains k u where "describeSpan ms = nat_text k @ [u]" "span_unit u" "int k * unitMs [u] = ms"
proof -
  define m where "m = nat ms div 60000"
  have ms: "ms = 60000 * int m"
    using assms by (auto simp: m_def dvd_def zdiv_int nat_mult_distrib)
  have span: "describeSpan ms = (if m mod 1440 = 0 then nat_text (m div 1440) @ ''d''
      else if m mod 60 = 0 then nat_text (m div 60) @ ''h'' else nat_text m @ ''m'')"
    by (simp add: describeSpan_def m_def Let_def)
  consider "m mod 1440 = 0" | "m mod 1440 \<noteq> 0" "m mod 60 = 0" | "m mod 60 \<noteq> 0" "m mod 1440 \<noteq> 0"
    by blast
  then show thesis
  proof cases
    case 1
    then obtain q where q: "m = 1440 * q"
      by (auto simp: mod_eq_0_iff_dvd elim: dvdE)
    then have "describeSpan ms = nat_text q @ ''d''"
      using 1 span by simp
    then show ?thesis
      using q ms by (intro that[of q "CHR ''d''"]) (simp_all add: span_unit_def unitMs_def DAY_MS_def)
  next
    case 2
    then obtain q where q: "m = 60 * q"
      by (auto simp: mod_eq_0_iff_dvd elim: dvdE)
    then have "describeSpan ms = nat_text q @ ''h''"
      using 2 span by simp
    then show ?thesis
      using q ms by (intro that[of q "CHR ''h''"]) (simp_all add: span_unit_def unitMs_def)
  next
    case 3
    then have "describeSpan ms = nat_text m @ ''m''"
      using span by simp
    then show ?thesis
      using ms by (intro that[of m "CHR ''m''"]) (simp_all add: span_unit_def unitMs_def)
  qed
qed

lemma spans_of_text: "span_unit u \<Longrightarrow> spans_at (nat_text k @ [u]) = [(int k * unitMs [u], [])]"
proof -
  assume u: "span_unit u"
  have w: "takeWhile is_digit (nat_text k @ [u]) = nat_text k" "dropWhile is_digit (nat_text k @ [u]) = [u]"
    using nat_text_digits[of k] span_unit_plain[OF u] by (simp_all add: list_all_iff takeWhile_append2 dropWhile_append2)
  then show ?thesis
    using u nat_text_digits[of k] span_unit_plain[OF u]
    by (auto simp: spans_at_def skip_space_def unit_at_def prefix_rest_def span_unit_def map_filter_simps)
qed

lemma trim_solid: "s \<noteq> [] \<Longrightarrow> \<not> js_space (hd s) \<Longrightarrow> \<not> js_space (last s) \<Longrightarrow> js_trim s = s"
proof -
  have keep: "xs \<noteq> [] \<Longrightarrow> \<not> js_space (hd xs) \<Longrightarrow> dropWhile js_space xs = xs" for xs
    by (cases xs) simp_all
  show "s \<noteq> [] \<Longrightarrow> \<not> js_space (hd s) \<Longrightarrow> \<not> js_space (last s) \<Longrightarrow> js_trim s = s"
    by (simp add: js_trim_def keep hd_rev)
qed

lemma parse_interval:
  assumes "js_trim v = v" "lower v = v" "v \<noteq> ''manual''" "v \<noteq> ''external''" "parse_every v = Some ms" "60000 \<le> ms"
  shows "parseTrigger z v = Some (Interval ms)"
  by (simp only: parseTrigger_def Let_def assms if_True if_False option.case)

lemma interval_reads_back:
  assumes "60000 \<le> ms" "60000 dvd ms"
  shows "parseTrigger z (describeTrigger (Interval ms)) = Some (Interval ms)"
proof -
  have "0 < ms"
    using assms(1) by simp
  from described_span[OF assms(2) this]
  obtain k u where d: "describeSpan ms = nat_text k @ [u]" "span_unit u" "int k * unitMs [u] = ms" .
  let ?s = "''every '' @ nat_text k @ [u]"
  have u: "\<not> js_space u" "lower [u] = [u]" and k: "list_all is_digit (nat_text k)" "nat_text k \<noteq> []"
    using span_unit_plain[OF d(2)] nat_text_digits[of k] by auto
  have t: "js_trim ?s = ?s"
    using u by (intro trim_solid) (simp_all add: js_space_def)
  have l: "lower ?s = ?s"
    using lower_digits[OF k(1)] u(2) by (simp only: lower_append) (simp add: lower_def)
  obtain c cs where c: "nat_text k = c # cs" "\<not> js_space c"
    using k digit_plain by (cases "nat_text k") auto
  have "word_and_space ''every'' ?s = Some (nat_text k @ [u])"
    unfolding c(1) using c(2) by (simp add: word_and_space_def prefix_rest_def skip_space_def) (simp add: js_space_def)
  then have "parse_every ?s = Some ms"
    using spans_of_text[OF d(2), of k] d(3) by (simp add: parse_every_def)
  then have "parseTrigger z ?s = Some (Interval ms)"
    using assms(1) t l by (intro parse_interval) simp_all
  then show ?thesis
    by (simp add: describeTrigger_def d(1))
qed

lemma daily_parsed:
  assumes "two_digits h" "number_of h < 24" "two_digits m" "number_of m < 60"
    and "zone = [] \<or> (\<exists>n. zone = CHR 0x20 # n \<and> n \<noteq> [] \<and> list_all (\<lambda>c. \<not> js_space c) n)"
  shows "parse_daily (''daily '' @ (h @ '':'' @ m) @ zone) = Some (h @ '':'' @ m, if zone = [] then None else Some (tl zone))"
proof -
  obtain a b where h: "h = [a, b]" "\<not> js_space a"
    using assms(1) digit_plain by (cases h; cases "tl h") (auto simp: two_digits_def)
  obtain c d where m: "m = [c, d]"
    using assms(3) by (cases m; cases "tl m") (auto simp: two_digits_def)
  have "lower ''daily'' = ''daily''"
    by code_simp
  then have w: "word_and_space ''daily'' (lower (take 5 (''daily '' @ (h @ '':'' @ m) @ zone)) @ drop 5 (''daily '' @ (h @ '':'' @ m) @ zone))
      = Some ((h @ '':'' @ m) @ zone)"
    using h by (simp add: word_and_space_def prefix_rest_def skip_space_def) (simp add: js_space_def)
  show ?thesis
  proof (cases "zone = []")
    case True
    then show ?thesis
      using assms unfolding parse_daily_def w by (simp add: h(1) m Let_def)
  next
    case False
    then obtain n where n: "zone = CHR 0x20 # n" "n \<noteq> []" "list_all (\<lambda>c. \<not> js_space c) n"
      using assms(5) by blast
    then have "skip_space zone = n"
      by (cases n) (simp_all add: skip_space_def, simp add: js_space_def)
    then show ?thesis
      using assms n unfolding parse_daily_def w by (simp add: h(1) m Let_def)
  qed
qed

lemma not_every: "parse_every (CHR ''d'' # s) = None"
  by (simp add: parse_every_def word_and_space_def prefix_rest_def)

lemma daily_reads_back:
  assumes t: "two_digits h" "number_of h < 24" "two_digits m" "number_of m < 60"
    and zone: "case zone of None \<Rightarrow> True | Some n \<Rightarrow> n \<noteq> [] \<and> list_all (\<lambda>c. \<not> js_space c) n \<and> zn_known z n"
  shows "parseTrigger z (describeTrigger (Daily (h @ '':'' @ m) zone)) = Some (Daily (h @ '':'' @ m) zone)"
proof -
  define behind where "behind = (case zone of None \<Rightarrow> [] | Some n \<Rightarrow> CHR 0x20 # n)"
  let ?v = "''daily '' @ (h @ '':'' @ m) @ behind"
  have d: "describeTrigger (Daily (h @ '':'' @ m) zone) = ?v"
    using zone by (cases zone rule: option.exhaust) (auto simp: describeTrigger_def behind_def truthy_def split: option.splits)
  have b: "behind = [] \<or> (\<exists>n. behind = CHR 0x20 # n \<and> n \<noteq> [] \<and> list_all (\<lambda>c. \<not> js_space c) n)"
    using zone by (auto simp: behind_def split: option.splits)
  have "m \<noteq> []" "\<not> js_space (last m)"
    using t(3) digit_plain by (cases m; cases "tl m"; auto simp: two_digits_def)+
  then have "\<not> js_space (last ?v)"
    using b by (auto simp: list_all_iff)
  then have trim: "js_trim ?v = ?v"
    by (intro trim_solid) (simp_all add: js_space_def)
  have low: "\<exists>s. lower ?v = CHR ''d'' # s"
    by (simp add: lower_def)
  then have l: "lower ?v \<noteq> ''manual''" "lower ?v \<noteq> ''external''" "parse_every (lower ?v) = None"
    using not_every by auto
  have p: "parse_daily ?v = Some (h @ '':'' @ m, zone)"
    using daily_parsed[OF t b] zone by (auto simp: behind_def split: option.splits)
  show ?thesis
    unfolding d parseTrigger_def Let_def trim
    using zone by (simp only: l p if_False option.case prod.case) (auto split: option.splits)
qed

definition plain_trigger :: "zones \<Rightarrow> loop_trigger \<Rightarrow> bool" where
  "plain_trigger z t \<longleftrightarrow>
     (case t of
        Interval ms \<Rightarrow> 60000 \<le> ms \<and> 60000 dvd ms
      | Daily s zone \<Rightarrow>
          (\<exists>h m. s = h @ '':'' @ m \<and> two_digits h \<and> number_of h < 24 \<and> two_digits m \<and> number_of m < 60)
          \<and> (case zone of None \<Rightarrow> True | Some n \<Rightarrow> n \<noteq> [] \<and> list_all (\<lambda>c. \<not> js_space c) n \<and> zn_known z n)
      | Adaptive a \<Rightarrow> False
      | _ \<Rightarrow> True)"

text \<open>What a trigger is described as is what is typed to get it: the text of a manual or an external trigger, of an interval of whole
  minutes and of a daily time parses back to the trigger.\<close>

theorem triggers_read_back:
  assumes "plain_trigger z t"
  shows "parseTrigger z (describeTrigger t) = Some t"
proof (cases t)
  case (Interval ms)
  then show ?thesis
    using assms interval_reads_back by (simp add: plain_trigger_def)
next
  case (Daily s zone)
  then show ?thesis
    using assms daily_reads_back by (auto simp: plain_trigger_def)
qed (use assms in \<open>simp_all add: plain_trigger_def, simp_all add: describeTrigger_def parseTrigger_def js_trim_def js_space_def lower_def\<close>)

lemma triggers_read_back_witness:
  "parseTrigger \<lparr>zn_offset = \<lambda>_ _. 0, zn_local = \<lambda>t _ _. t, zn_tomorrow = \<lambda>t. t, zn_known = \<lambda>n. n = ''Europe/Madrid''\<rparr>
     (describeTrigger (Interval 5400000)) = Some (Interval 5400000)"
  by (rule triggers_read_back) (simp add: plain_trigger_def)

end
