(* ===== verification/LoopRuns.thy ===== *)
theory LoopRuns
  imports LoopSchedule
begin

text \<open>
  One run of a loop (\<open>packages/loops/src/runs.ts\<close> and \<open>marked-block.ts\<close>): the checkpoint block a run ends its answer with, and
  what beginning a run, finishing it and verifying its claim make of the loop. \<open>JSON.parse\<close> is a parameter. The regular
  expressions are functions on the text; each note says why no backtracking of theirs changes the answer.
\<close>

section \<open>Texts\<close>

definition line_end :: "char \<Rightarrow> bool" where
  "line_end c \<longleftrightarrow> c = CHR 0x0A \<or> c = CHR 0x0D"

definition word_char :: "char \<Rightarrow> bool" where
  "word_char c \<longleftrightarrow> is_digit c \<or> c = CHR ''_'' \<or> (65 \<le> (of_char c :: nat) \<and> of_char c \<le> (90 :: nat))
     \<or> (97 \<le> (of_char c :: nat) \<and> of_char c \<le> (122 :: nat))"

text \<open>A word boundary behind a word: what follows does not go on with it.\<close>

definition word_ends :: "string \<Rightarrow> bool" where
  "word_ends s \<longleftrightarrow> (case s of [] \<Rightarrow> True | c # cs \<Rightarrow> \<not> word_char c)"

text \<open>What is left of the text at every place where \<open>^\<close> matches with the flag \<open>m\<close>.\<close>

fun line_starts_in :: "string \<Rightarrow> string list" where
  "line_starts_in [] = []"
| "line_starts_in (c # cs) = (if line_end c then [cs] else []) @ line_starts_in cs"

definition line_starts :: "string \<Rightarrow> string list" where
  "line_starts s = s # line_starts_in s"

section \<open>Marked blocks\<close>

text \<open>
  The pattern is a run of \<open>[ \t>#*_`~]\<close>, the marker, a word boundary, a run of \<open>[*_`:\s]\<close> and the end of a line. The marker starts with
  none of the first characters, and the last run gives back to the last end of a line in it. Two matches never share a
  line, so the last match is the last line that matches.
\<close>

definition before_marker :: "char \<Rightarrow> bool" where
  "before_marker c \<longleftrightarrow> c \<in> set '' >#*_~'' \<union> {CHR 0x09, CHR 0x60}"

definition behind_marker :: "char \<Rightarrow> bool" where
  "behind_marker c \<longleftrightarrow> js_space c \<or> c \<in> set ''*_:'' \<union> {CHR 0x60}"

definition last_line_end :: "string \<Rightarrow> string option" where
  "last_line_end run =
     (if list_ex line_end run
      then Some (rev (takeWhile (\<lambda>c. \<not> line_end c) (rev run) @ take 1 (dropWhile (\<lambda>c. \<not> line_end c) (rev run)))) else None)"

definition match_marker :: "string \<Rightarrow> string \<Rightarrow> string option" where
  "match_marker marker s =
     (case prefix_rest marker (dropWhile before_marker s) of None \<Rightarrow> None
      | Some s2 \<Rightarrow>
          if \<not> word_ends s2 then None
          else let run = takeWhile behind_marker s2; rest = dropWhile behind_marker s2 in
            if rest = [] then Some [] else map_option (\<lambda>tail. tail @ rest) (last_line_end run))"

definition drop_newline :: "string \<Rightarrow> string" where
  "drop_newline s =
     (case s of
        c # d # rest \<Rightarrow> if c = CHR 0x0D \<and> d = CHR 0x0A then rest else if c = CHR 0x0A then d # rest else s
      | [c] \<Rightarrow> if c = CHR 0x0A then [] else s
      | [] \<Rightarrow> s)"

definition fence_at :: "string \<Rightarrow> bool" where
  "fence_at s \<longleftrightarrow> take 3 (skip_space s) = replicate 3 (CHR 0x60)"

fun until_fence :: "bool \<Rightarrow> string \<Rightarrow> string" where
  "until_fence start [] = []"
| "until_fence start (c # cs) = (if start \<and> fence_at (c # cs) then [] else c # until_fence (line_end c) cs)"

definition lastMarkedBlock :: "string \<Rightarrow> string \<Rightarrow> string option" where
  "lastMarkedBlock s marker =
     (case rev (List.map_filter (match_marker marker) (line_starts s)) of
        [] \<Rightarrow> None
      | after # _ \<Rightarrow> Some (until_fence True (drop_newline after)))"

section \<open>Checkpoints\<close>

text \<open>
  \<open>^\s*name\s*:\s*(.+)$\<close> with the flags \<open>im\<close>, trimmed: the rest of the line behind the colon, or of the first line after it that has
  text. Where nothing follows, the pattern gives white space or fails; trimmed or absent, the callers take it as empty.
\<close>

definition field_at :: "string \<Rightarrow> string \<Rightarrow> string option" where
  "field_at name s =
     (let s1 = skip_space s in
      if lower (take (length name) s1) \<noteq> name then None
      else case skip_space (drop (length name) s1) of
        [] \<Rightarrow> None
      | c # rest \<Rightarrow> if c = CHR '':'' then Some (js_trim (takeWhile (\<lambda>d. \<not> line_end d) (skip_space rest))) else None)"

definition field :: "string \<Rightarrow> string \<Rightarrow> string" where
  "field body name = (case List.map_filter (field_at name) (line_starts body) of [] \<Rightarrow> [] | v # _ \<Rightarrow> v)"

definition status_of :: "string \<Rightarrow> checkpoint_status option" where
  "status_of s = map_of [(''complete'', Complete), (''continue'', Continue), (''blocked'', Blocked)] (lower s)"

definition activity_of :: "string \<Rightarrow> activity option" where
  "activity_of s =
     (let l = lower s in
      if take 4 l = ''idle'' \<and> word_ends (drop 4 l) then Some Idle
      else if take 5 l = ''acted'' \<and> word_ends (drop 5 l) then Some Acted else None)"

definition evidence_of :: "(string \<Rightarrow> json option) \<Rightarrow> string \<Rightarrow> string list option" where
  "evidence_of parse s =
     (case (if s = [] then None else parse s) of
        Some (JArr vs) \<Rightarrow>
          if list_all (\<lambda>v. case v of JStr x \<Rightarrow> js_trim x \<noteq> [] | _ \<Rightarrow> False) vs
          then Some (map (take 1000) (strings_of (map Some (take 10 vs)))) else None
      | _ \<Rightarrow> None)"

definition parseCheckpoint :: "(string \<Rightarrow> json option) \<Rightarrow> string \<Rightarrow> checkpoint option" where
  "parseCheckpoint parse s =
     (case truthy (lastMarkedBlock s ''LOOP_CHECKPOINT'') of None \<Rightarrow> None
      | Some body \<Rightarrow>
          (case status_of (field body ''status'') of None \<Rightarrow> None
           | Some st \<Rightarrow> Some \<lparr>ch_status = st, ch_summary = take 2000 (field body ''summary''),
               ch_next = map_option (take 1000) (truthy (Some (field body ''next''))),
               ch_activity = activity_of (field body ''activity''),
               ch_evidence = evidence_of parse (field body ''evidence'')\<rparr>))"

section \<open>A run begins and ends\<close>

definition HISTORY :: nat where "HISTORY = 20"

definition last_n :: "nat \<Rightarrow> 'a list \<Rightarrow> 'a list" where
  "last_n n xs = drop (length xs - n) xs"

definition needsVerification :: "loop \<Rightarrow> bool" where
  "needsVerification l \<longleftrightarrow> orelse (lp_checks l) [] \<noteq> [] \<or> lp_audit l = Some Independent \<or> lp_rubric l \<noteq> None"

definition new_run :: "nat \<Rightarrow> int \<Rightarrow> run_trigger option \<Rightarrow> string option \<Rightarrow> worktree option \<Rightarrow> loop_run" where
  "new_run n now how sid wt = \<lparr>lr_run = n, lr_startedAt = now, lr_trigger = how, lr_sessionId = sid, lr_worktree = wt, lr_endedAt = None,
     lr_outcome = None, lr_checkpoint = None, lr_gates = None, lr_audit = None, lr_usage = None, lr_checkpointHash = None,
     lr_rubricResult = None, lr_approvals = None\<rparr>"

definition beginRun :: "loop \<Rightarrow> int \<Rightarrow> run_trigger option \<Rightarrow> string option \<Rightarrow> worktree option \<Rightarrow> loop" where
  "beginRun l now how sid wt =
     l\<lparr>lp_nextWakeAt := None, lp_reason := None, lp_pendingFire := None, lp_state := LRunning, lp_runs := lp_runs l + 1,
       lp_history := last_n HISTORY (lp_history l @ [new_run (lp_runs l + 1) now how sid wt]), lp_updatedAt := now\<rparr>"

record run_end =
  en_outcome :: run_outcome
  en_finalText :: string
  en_time :: int

definition end_entry :: "run_end \<Rightarrow> checkpoint option \<Rightarrow> loop_run \<Rightarrow> loop_run" where
  "end_entry e cp r =
     (if lr_endedAt r = None
      then r\<lparr>lr_endedAt := Some (en_time e), lr_outcome := Some (en_outcome e),
             lr_checkpoint := (case cp of Some c \<Rightarrow> Some c | None \<Rightarrow> lr_checkpoint r)\<rparr>
      else r)"

definition ended_base :: "loop \<Rightarrow> run_end \<Rightarrow> checkpoint option \<Rightarrow> loop" where
  "ended_base l e cp =
     l\<lparr>lp_feedback := None, lp_waiting := None, lp_history := last_n HISTORY (map_last (end_entry e cp) (lp_history l)),
       lp_updatedAt := en_time e\<rparr>"

definition stop_loop :: "loop_state \<Rightarrow> string \<Rightarrow> loop \<Rightarrow> loop" where
  "stop_loop st why l = l\<lparr>lp_nextWakeAt := None, lp_pendingFire := None, lp_state := st, lp_reason := Some why\<rparr>"

definition run_cap :: "loop_budget \<Rightarrow> nat option" where
  "run_cap b = (case b of Goal n \<Rightarrow> n | Monitor \<Rightarrow> None | Fixed n \<Rightarrow> Some n)"

definition go_on :: "zones \<Rightarrow> loop \<Rightarrow> run_end \<Rightarrow> checkpoint option \<Rightarrow> loop" where
  "go_on z l e cp =
     (let base = ended_base l e cp;
          pace = (case lp_trigger l of Adaptive a \<Rightarrow> Some (paceAfter a (lp_adaptiveMs l) (Option.bind cp ch_activity)) | _ \<Rightarrow> None);
          next = (if lp_pendingFire l \<noteq> None then Some (en_time e) else nextWake z (lp_trigger l) (en_time e) pace)
      in base\<lparr>lp_adaptiveMs := (case pace of Some ms \<Rightarrow> Some ms | None \<Rightarrow> lp_adaptiveMs l), lp_state := LActive,
              lp_nextWakeAt := (case next of Some t \<Rightarrow> Some t | None \<Rightarrow> lp_nextWakeAt l),
              lp_reason := (if en_outcome e = OutFailed then Some ''last run failed'' else lp_reason l)\<rparr>)"

definition or_else_text :: "string \<Rightarrow> string \<Rightarrow> string" where
  "or_else_text s alternative = (if s = [] then alternative else s)"

definition end_checkpoint :: "(string \<Rightarrow> json option) \<Rightarrow> run_end \<Rightarrow> checkpoint option" where
  "end_checkpoint parse e = (if en_outcome e = OutCompleted then parseCheckpoint parse (en_finalText e) else None)"

definition reports :: "checkpoint_status \<Rightarrow> checkpoint option \<Rightarrow> bool" where
  "reports st cp \<longleftrightarrow> map_option ch_status cp = Some st"

definition finishRun :: "(string \<Rightarrow> json option) \<Rightarrow> zones \<Rightarrow> loop \<Rightarrow> run_end \<Rightarrow> loop" where
  "finishRun parse z l e =
     (let cp = end_checkpoint parse e; base = ended_base l e cp; said = (case cp of Some c \<Rightarrow> ch_summary c | None \<Rightarrow> []) in
      if lp_state l = LStopped \<or> lp_state l = LPaused then base
      else if en_outcome e = OutCancelled then stop_loop LPaused ''run cancelled by the user'' base
      else if reports Blocked cp then stop_loop LBlocked (or_else_text said ''the run reported it is blocked'') base
      else if (case lp_budget l of Goal _ \<Rightarrow> True | _ \<Rightarrow> False) \<and> reports Complete cp then
        (if needsVerification l then stop_loop LVerifying ''checking the completion claim'' base
         else stop_loop LCompleted (or_else_text said ''goal verified'') base)
      else case run_cap (lp_budget l) of
        Some cap \<Rightarrow>
          if cap \<le> lp_runs l then
            (case lp_budget l of
               Fixed _ \<Rightarrow> stop_loop LCompleted (nat_text cap @ '' runs done'') base
             | _ \<Rightarrow> stop_loop LBlocked (''safety cap of '' @ nat_text cap @ '' runs reached without a verified goal'') base)
          else go_on z l e cp
      | None \<Rightarrow> go_on z l e cp)"

section \<open>The claim was checked\<close>

record verify_result =
  vr_gates :: "loop_gate list"
  vr_audit :: "loop_audit option"
  vr_accepted :: bool
  vr_feedback :: "string option"
  vr_time :: int

definition claim_entry :: "verify_result \<Rightarrow> loop_run \<Rightarrow> loop_run" where
  "claim_entry v r =
     r\<lparr>lr_gates := (if vr_gates v \<noteq> [] then Some (vr_gates v) else lr_gates r),
       lr_audit := (case vr_audit v of Some a \<Rightarrow> Some a | None \<Rightarrow> lr_audit r)\<rparr>"

definition claimed_summary :: "loop \<Rightarrow> string" where
  "claimed_summary l = (case Option.bind (last_run l) lr_checkpoint of Some c \<Rightarrow> ch_summary c | None \<Rightarrow> [])"

definition add_feedback :: "string \<Rightarrow> loop \<Rightarrow> loop" where
  "add_feedback s l = (if s = [] then l else l\<lparr>lp_feedback := Some s\<rparr>)"

definition finishVerification :: "zones \<Rightarrow> loop \<Rightarrow> verify_result \<Rightarrow> loop" where
  "finishVerification z l v =
     (let base = l\<lparr>lp_nextWakeAt := None, lp_reason := None, lp_history := map_last (claim_entry v) (lp_history l), lp_updatedAt := vr_time v\<rparr>;
          feedback = take 4000 (orelse (vr_feedback v) []);
          cap = (case lp_budget l of Goal n \<Rightarrow> n | _ \<Rightarrow> None)
      in if lp_state l \<noteq> LVerifying then base
         else if vr_accepted v then
           base\<lparr>lp_state := LCompleted, lp_reason := Some (or_else_text (claimed_summary l) ''goal verified'')\<rparr>
         else case cap of
           Some n \<Rightarrow>
             if n \<le> lp_runs l
             then add_feedback feedback (base\<lparr>lp_state := LBlocked,
                    lp_reason := Some (''safety cap of '' @ nat_text n @ '' runs reached; last claim rejected'')\<rparr>)
             else add_feedback feedback (base\<lparr>lp_state := LActive, lp_reason := Some ''completion claim rejected'',
                    lp_nextWakeAt := (if lp_pendingFire l \<noteq> None then Some (vr_time v)
                                      else nextWake z (lp_trigger l) (vr_time v) (lp_adaptiveMs l))\<rparr>)
         | None \<Rightarrow> add_feedback feedback (base\<lparr>lp_state := LActive, lp_reason := Some ''completion claim rejected'',
                    lp_nextWakeAt := (if lp_pendingFire l \<noteq> None then Some (vr_time v)
                                      else nextWake z (lp_trigger l) (vr_time v) (lp_adaptiveMs l))\<rparr>))"

text \<open>The notices of several runs in one line.\<close>

definition foldRunNotices :: "(string \<times> nat) list \<Rightarrow> string" where
  "foldRunNotices entries =
     ''[loops since your last message] '' @ js_join '' | '' (map (\<lambda>(s, n). if 1 < n then s @ '' (+'' @ nat_text (n - 1) @ '' earlier runs)'' else s) entries)"

end
