(* ===== verification/LoopReview.thy ===== *)
theory LoopReview
  imports LoopRuns Routing
begin

text \<open>
  What a loop may spend (\<open>packages/loops/src/budget.ts\<close>) and how a user reviews its claims
  (\<open>packages/loops/src/review.ts\<close>). The text of a number is the parameter \<open>show\<close>. A time is an argument.
\<close>

section \<open>Usage and the cost budget\<close>

record usage_event =
  ue_sessionId :: string
  ue_turnId :: string
  ue_seq :: nat
  ue_input :: nat
  ue_output :: nat
  ue_reasoning :: nat
  ue_cacheRead :: nat
  ue_cacheWrite :: nat
  ue_costMicros :: "nat option"

definition EMPTY_USAGE :: loop_usage where
  "EMPTY_USAGE = \<lparr>lu_tokens = 0, lu_costMicros = 0, lu_unknownCostCalls = 0, lu_unreportedTurns = None\<rparr>"

definition addUsage :: "loop_usage option \<Rightarrow> usage_event \<Rightarrow> loop_usage" where
  "addUsage usage e =
     (let p = orelse usage EMPTY_USAGE in
      \<lparr>lu_tokens = lu_tokens p + ue_input e + ue_output e + ue_reasoning e + ue_cacheRead e + ue_cacheWrite e,
       lu_costMicros = lu_costMicros p + orelse (ue_costMicros e) 0,
       lu_unknownCostCalls = lu_unknownCostCalls p + (if ue_costMicros e = None then 1 else 0),
       lu_unreportedTurns = lu_unreportedTurns p\<rparr>)"

text \<open>\<open>(costMicros / 1_000_000).toFixed(6)\<close>\<close>

definition dollars :: "nat \<Rightarrow> string" where
  "dollars n =
     (let rest = nat_text (n mod 1000000) in
      nat_text (n div 1000000) @ ''.'' @ replicate (6 - length rest) (CHR ''0'') @ rest)"

definition new_gate :: "string \<Rightarrow> gate_status \<Rightarrow> gate_failure option \<Rightarrow> string option \<Rightarrow> loop_gate" where
  "new_gate i st why detail = \<lparr>ga_id = i, ga_status = st, ga_detail = detail, lg_failureClass = why, lg_waiver = None\<rparr>"

definition token_failure :: "cost_budget \<Rightarrow> loop_usage \<Rightarrow> string option" where
  "token_failure b u =
     (case cb_maxTokens b of None \<Rightarrow> None
      | Some cap \<Rightarrow>
          let unreported = orelse (lu_unreportedTurns u) 0 in
          if 0 < unreported then Some (''Token usage unavailable for '' @ nat_text unreported @ '' turn(s); budget cannot be verified.'')
          else if cap \<le> lu_tokens u then Some (''Token cap reached ('' @ nat_text (lu_tokens u) @ ''/'' @ nat_text cap @ '').'')
          else None)"

definition price_failure :: "(rat \<Rightarrow> string) \<Rightarrow> cost_budget \<Rightarrow> loop_usage \<Rightarrow> string option" where
  "price_failure show b u =
     (case cb_maxCost b of None \<Rightarrow> None
      | Some cap \<Rightarrow>
          if micros cap \<le> int (lu_costMicros u) then Some (''USD cap reached ($'' @ dollars (lu_costMicros u) @ ''/$'' @ show cap @ '').'')
          else if 0 < lu_unknownCostCalls u \<and> cb_unknownCost b \<noteq> Some CostAllow
          then Some (''USD cost unknown for '' @ nat_text (lu_unknownCostCalls u) @ '' call(s); budget cannot be verified.'')
          else None)"

definition costBudgetGate :: "(rat \<Rightarrow> string) \<Rightarrow> cost_budget option \<Rightarrow> loop_usage \<Rightarrow> loop_gate option" where
  "costBudgetGate show budget u =
     (case budget of None \<Rightarrow> None
      | Some b \<Rightarrow>
          if cb_maxTokens b = None \<and> cb_maxCost b = None then None
          else case (case token_failure b u of Some why \<Rightarrow> Some why | None \<Rightarrow> price_failure show b u) of
            Some why \<Rightarrow> Some (new_gate ''cost-budget'' GFail (Some FailBudget) (Some why))
          | None \<Rightarrow> Some (new_gate ''cost-budget'' GPass None None))"

definition loopBudgetGate :: "(rat \<Rightarrow> string) \<Rightarrow> loop \<Rightarrow> loop_gate option" where
  "loopBudgetGate show l =
     costBudgetGate show (lp_costBudget l)
       (case lp_usage l of
          Some u \<Rightarrow> u
        | None \<Rightarrow> if 0 < lp_runs l then EMPTY_USAGE\<lparr>lu_unknownCostCalls := lp_runs l, lu_unreportedTurns := Some (lp_runs l)\<rparr> else EMPTY_USAGE)"

definition carriedUsage :: "loop \<Rightarrow> loop_usage" where
  "carriedUsage l =
     (case lp_usage l of
        Some u \<Rightarrow> u
      | None \<Rightarrow>
          let unreported = lp_runs l - 1 in
          EMPTY_USAGE\<lparr>lu_unknownCostCalls := unreported, lu_unreportedTurns := (if 0 < unreported then Some unreported else None)\<rparr>)"

section \<open>Settings of a review\<close>

definition action_name :: "approval_action \<Rightarrow> string" where
  "action_name a = (case a of ActPush \<Rightarrow> ''push'' | ActMerge \<Rightarrow> ''merge'' | ActDeploy \<Rightarrow> ''deploy'' | ActPublish \<Rightarrow> ''publish'' | ActDelete \<Rightarrow> ''delete'')"

text \<open>The texts \<open>JSON.stringify(settings(loop))\<close> are equal exactly when these values are: an absent value is written \<open>null\<close>.\<close>

definition criterion_settings :: "rubric_criterion \<Rightarrow> string \<times> string \<times> rat \<times> rat \<times> string list" where
  "criterion_settings c = (rc_id c, rc_description c, orelse (rc_weight c) 1, orelse (rc_minScore c) 0, orelse (rc_evidenceRequired c) [])"

definition work_settings :: "loop \<Rightarrow> string \<times> string \<times> loop_budget \<times> string list \<times> audit_choice \<times> bool \<times> loop_workspace" where
  "work_settings l =
     (lp_objective l, orelse (lp_criteria l) [], lp_budget l, orelse (lp_checks l) [], orelse (lp_audit l) NoAudit,
      orelse (lp_reportOnly l) False, orelse (lp_workspace l) InPlaceRuns)"

definition cost_settings :: "loop \<Rightarrow> nat option \<times> rat option \<times> unknown_cost" where
  "cost_settings l =
     (Option.bind (lp_costBudget l) cb_maxTokens, Option.bind (lp_costBudget l) cb_maxCost,
      orelse (Option.bind (lp_costBudget l) cb_unknownCost) CostBlock)"

definition rubric_settings :: "loop \<Rightarrow> rat \<times> (string \<times> string \<times> rat \<times> rat \<times> string list) list \<times> string list" where
  "rubric_settings l =
     (orelse (Option.bind (lp_rubric l) ru_passThreshold) (85 / 100),
      (case lp_rubric l of None \<Rightarrow> [] | Some r \<Rightarrow> map criterion_settings (ru_criteria r)),
      orelse (Option.bind (lp_rubric l) ru_mandatoryBlockers) [])"

definition reviewSettingsChanged :: "loop \<Rightarrow> loop \<Rightarrow> bool" where
  "reviewSettingsChanged a b \<longleftrightarrow>
     \<not> (lp_costBudget a = None \<and> lp_rubric a = None \<and> lp_approvalPolicy a = None
        \<and> lp_costBudget b = None \<and> lp_rubric b = None \<and> lp_approvalPolicy b = None)
     \<and> (work_settings a, cost_settings a, rubric_settings a, sort (map action_name (orelse (lp_approvalPolicy a) [])))
         \<noteq> (work_settings b, cost_settings b, rubric_settings b, sort (map action_name (orelse (lp_approvalPolicy b) [])))"

section \<open>Actions that need an approval\<close>

definition action_words :: "approval_action \<Rightarrow> string list" where
  "action_words a =
     (case a of
        ActPush \<Rightarrow> [''push'', ''pushe'', ''pushed'']
      | ActMerge \<Rightarrow> [''merge'', ''merged'']
      | ActDeploy \<Rightarrow> [''deploy'', ''deployed'', ''deployment'', ''production'']
      | ActPublish \<Rightarrow> [''publish'', ''published'', ''release'']
      | ActDelete \<Rightarrow> [''delete'', ''deleted'', ''deletion'', ''remove'', ''removed''])"

definition rm_rf_at :: "string \<Rightarrow> bool" where
  "rm_rf_at s \<longleftrightarrow>
     (case prefix_rest ''rm'' s of None \<Rightarrow> False
      | Some rest \<Rightarrow> skip_space rest \<noteq> rest
          \<and> (case prefix_rest ''-rf'' (skip_space rest) of None \<Rightarrow> False | Some r2 \<Rightarrow> word_ends r2))"

text \<open>\<open>\b(?:...)\b\<close> somewhere in a text of lower case; \<open>inside\<close> says whether a word character stands before.\<close>

fun named :: "approval_action \<Rightarrow> bool \<Rightarrow> string \<Rightarrow> bool" where
  "named a inside [] = False"
| "named a inside (c # cs) =
     (\<not> inside \<and> (list_ex (\<lambda>w. case prefix_rest w (c # cs) of None \<Rightarrow> False | Some rest \<Rightarrow> word_ends rest) (action_words a)
        \<or> a = ActDelete \<and> rm_rf_at (c # cs))
      \<or> named a (word_char c) cs)"

definition corpus :: "loop_run option \<Rightarrow> string" where
  "corpus run =
     (case Option.bind run lr_checkpoint of
        None \<Rightarrow> [CHR 0x0A]
      | Some c \<Rightarrow> js_join [CHR 0x0A] (ch_summary c # orelse (ch_next c) [] # orelse (ch_evidence c) []))"

definition attempted :: "loop \<Rightarrow> approval_action list" where
  "attempted l = filter (\<lambda>a. named a False (lower (corpus (last_run l)))) (orelse (lp_approvalPolicy l) [])"

definition approved_now :: "loop_run option \<Rightarrow> approval_action \<Rightarrow> bool" where
  "approved_now run a \<longleftrightarrow>
     (case run of None \<Rightarrow> False
      | Some r \<Rightarrow> list_ex (\<lambda>(b, w). b = a \<and> Some (wv_checkpointHash w) = lr_checkpointHash r) (orelse (lr_approvals r) []))"

definition missing_approvals :: "loop \<Rightarrow> approval_action list" where
  "missing_approvals l = filter (\<lambda>a. \<not> approved_now (last_run l) a) (attempted l)"

definition approvalGate :: "loop \<Rightarrow> loop_gate option" where
  "approvalGate l =
     (if orelse (lp_approvalPolicy l) [] = [] then None
      else Some (if missing_approvals l \<noteq> []
        then new_gate ''approval-policy'' GFail (Some FailPolicy)
               (Some (''Approval required: '' @ js_join '', '' (map action_name (missing_approvals l)) @ ''.''))
        else new_gate ''approval-policy'' GPass None
               (Some (if attempted l \<noteq> [] then ''Approved: '' @ js_join '', '' (map action_name (attempted l)) @ ''.''
                      else ''No approval-required action reported.''))))"

definition protectedGate :: "loop_gate \<Rightarrow> bool" where
  "protectedGate g \<longleftrightarrow> lg_failureClass g \<in> {Some FailBudget, Some FailPolicy, Some FailIntegrity}
     \<or> ga_id g = ''cost-budget'' \<or> ga_id g = ''approval-policy''"

definition reviewSettingsGate :: "loop \<Rightarrow> loop_gate option" where
  "reviewSettingsGate l =
     (if lp_reviewInvalidatedAt l = None then None
      else Some (new_gate ''review-settings'' GFail (Some FailIntegrity)
             (Some ''Review settings changed; run again before reviewing the claim.'')))"

section \<open>Reviews\<close>

record review_input =
  ri_action :: review_action
  ri_run :: nat
  ri_checkpointHash :: string
  ri_gateId :: "string option"
  ri_approvalAction :: "approval_action option"
  ri_reviewer :: string
  ri_reason :: string

definition state_name :: "loop_state \<Rightarrow> string" where
  "state_name st =
     (case st of LActive \<Rightarrow> ''active'' | LRunning \<Rightarrow> ''running'' | LNeedsInput \<Rightarrow> ''needs_input'' | LVerifying \<Rightarrow> ''verifying''
      | LPaused \<Rightarrow> ''paused'' | LCompleted \<Rightarrow> ''completed'' | LBlocked \<Rightarrow> ''blocked'' | LStopped \<Rightarrow> ''stopped'')"

definition review_refusal :: "loop \<Rightarrow> review_input \<Rightarrow> string option" where
  "review_refusal l i =
     (if js_trim (ri_reviewer i) = [] \<or> js_trim (ri_reason i) = [] then Some ''review needs a reviewer and reason''
      else if lp_reviewInvalidatedAt l \<noteq> None then Some ''review settings changed; run again before reviewing the claim''
      else if (case last_run l of None \<Rightarrow> True
               | Some r \<Rightarrow> lr_endedAt r = None \<or> lr_run r \<noteq> ri_run i \<or> lr_checkpointHash r \<noteq> Some (ri_checkpointHash i))
      then Some ''stale run or checkpoint; reload before reviewing''
      else if lp_state l \<in> {LRunning, LVerifying, LNeedsInput, LStopped, LCompleted}
      then Some (''the loop is '' @ state_name (lp_state l) @ ''; review its finished claim after verification'')
      else if ri_action i \<noteq> ApproveAction \<and> \<not> reports Complete (Option.bind (last_run l) lr_checkpoint)
      then Some ''review requires a completion proposal''
      else if ri_action i = ApproveAction
              \<and> (case ri_approvalAction i of None \<Rightarrow> True | Some a \<Rightarrow> a \<notin> set (orelse (lp_approvalPolicy l) []))
      then Some ''unknown approval action''
      else None)"

definition evidence_for :: "review_input \<Rightarrow> int \<Rightarrow> waiver" where
  "evidence_for i now = \<lparr>wv_action = ri_action i, wv_actor = js_trim (ri_reviewer i), wv_reason = js_trim (ri_reason i), wv_time = now,
     wv_checkpointHash = ri_checkpointHash i\<rparr>"

text \<open>The failed gates a review is about; \<open>targets\<close> in the code.\<close>

definition targeted :: "review_input \<Rightarrow> loop_gate \<Rightarrow> bool" where
  "targeted i g \<longleftrightarrow> ga_status g = GFail
     \<and> (case ri_action i of Waive \<Rightarrow> Some (ga_id g) = ri_gateId i | AcceptClaim \<Rightarrow> True | ApproveAction \<Rightarrow> False)"

definition gates_refusal :: "review_input \<Rightarrow> loop_gate list \<Rightarrow> string option" where
  "gates_refusal i gates =
     (let targets = filter (targeted i) gates in
      if ri_action i = Waive \<and> length targets \<noteq> 1 then Some ''select one failed gate''
      else case List.find protectedGate targets of
        Some g \<Rightarrow> Some (''gate '' @ ga_id g @ '' is protected and cannot be waived'')
      | None \<Rightarrow>
          if ri_action i = AcceptClaim \<and> targets = [] \<and> list_all (\<lambda>g. lg_waiver g = None) gates
          then Some ''accept requires a failed quality gate or a prior waiver'' else None)"

definition waive_gate :: "review_input \<Rightarrow> waiver \<Rightarrow> loop_gate \<Rightarrow> loop_gate" where
  "waive_gate i w g = (if targeted i g then g\<lparr>ga_status := GPass, lg_waiver := Some w\<rparr> else g)"

definition new_approvals :: "review_input \<Rightarrow> waiver \<Rightarrow> (approval_action \<times> waiver) list option \<Rightarrow> (approval_action \<times> waiver) list option" where
  "new_approvals i w old =
     (case (ri_action i, ri_approvalAction i) of
        (ApproveAction, Some a) \<Rightarrow> Some (filter (\<lambda>(b, _). b \<noteq> a) (orelse old []) @ [(a, w)])
      | _ \<Rightarrow> old)"

definition set_last_run :: "(loop_run \<Rightarrow> loop_run) \<Rightarrow> loop \<Rightarrow> loop" where
  "set_last_run f l = l\<lparr>lp_history := map_last f (lp_history l)\<rparr>"

definition review_verb :: "review_input \<Rightarrow> string" where
  "review_verb i =
     (case ri_action i of
        AcceptClaim \<Rightarrow> ''Completion accepted''
      | ApproveAction \<Rightarrow> ''Action '' @ (case ri_approvalAction i of None \<Rightarrow> [] | Some a \<Rightarrow> action_name a) @ '' approved''
      | Waive \<Rightarrow> ''Gate '' @ orelse (ri_gateId i) [] @ '' waived'')"

definition reviewed :: "loop \<Rightarrow> review_input \<Rightarrow> int \<Rightarrow> loop" where
  "reviewed l i now =
     (let w = evidence_for i now;
          l1 = set_last_run (\<lambda>r. r\<lparr>lr_gates := Some (map (waive_gate i w) (orelse (lr_gates r) [])),
                 lr_approvals := new_approvals i w (lr_approvals r)\<rparr>) (l\<lparr>lp_updatedAt := now\<rparr>);
          l2 = (case (ri_action i, approvalGate l1) of
                  (ApproveAction, Some policy) \<Rightarrow>
                    set_last_run (\<lambda>r. r\<lparr>lr_gates := map_option (map (\<lambda>g. if ga_id g = ''approval-policy'' then policy\<lparr>lg_waiver := Some w\<rparr> else g))
                      (lr_gates r)\<rparr>) l1
                | _ \<Rightarrow> l1)
      in l2\<lparr>lp_nextWakeAt := None, lp_state := (if ri_action i = AcceptClaim then LCompleted else LBlocked),
            lp_reason := Some (take 500 (review_verb i @ '' by '' @ wv_actor w @ '': '' @ wv_reason w)),
            lp_override := (if ri_action i = AcceptClaim then Some (wv_reason w, now) else lp_override l)\<rparr>)"

definition reviewLoop :: "loop \<Rightarrow> review_input \<Rightarrow> int \<Rightarrow> string + loop" where
  "reviewLoop l i now =
     (case review_refusal l i of Some why \<Rightarrow> Inl why
      | None \<Rightarrow>
          (case gates_refusal i (orelse (Option.bind (last_run l) lr_gates) []) of Some why \<Rightarrow> Inl why
           | None \<Rightarrow> Inr (reviewed l i now)))"

section \<open>What a review can change\<close>

definition gates_now :: "loop \<Rightarrow> loop_gate list" where
  "gates_now l = orelse (Option.bind (last_run l) lr_gates) []"

lemma last_of_map_last [simp]: "xs \<noteq> [] \<Longrightarrow> last (map_last f xs) = f (last xs)" "map_last f xs = [] \<longleftrightarrow> xs = []"
  by (cases xs rule: rev_cases; simp)+

lemma last_run_set [simp]: "last_run (set_last_run f l) = map_option f (last_run l)"
  by (simp add: last_run_def set_last_run_def)

lemma last_run_fields [simp]:
  "last_run (l\<lparr>lp_updatedAt := t\<rparr>) = last_run l" "last_run (l\<lparr>lp_nextWakeAt := w\<rparr>) = last_run l"
  "last_run (l\<lparr>lp_state := st\<rparr>) = last_run l" "last_run (l\<lparr>lp_reason := why\<rparr>) = last_run l"
  "last_run (l\<lparr>lp_override := v\<rparr>) = last_run l"
  by (simp_all add: last_run_def)

lemma not_failed: "st \<noteq> GFail \<longleftrightarrow> st = GPass" "st \<noteq> GPass \<longleftrightarrow> st = GFail"
  by (cases st; simp)+

lemma not_approving:
  assumes "ri_action i \<noteq> ApproveAction" "last_run l \<noteq> None"
  shows "gates_now (reviewed l i now) = map (waive_gate i (evidence_for i now)) (gates_now l)"
  using assms by (cases "ri_action i") (auto simp: reviewed_def Let_def gates_now_def)

lemma approving:
  assumes "ri_action i = ApproveAction" "last_run l \<noteq> None"
  shows "filter (\<lambda>g. ga_id g \<noteq> ''approval-policy'') (gates_now (reviewed l i now)) = filter (\<lambda>g. ga_id g \<noteq> ''approval-policy'') (gates_now l)"
proof -
  have same: "waive_gate i w = id" for w
    using assms(1) by (simp add: waive_gate_def targeted_def fun_eq_iff)
  have policy: "ga_id p = ''approval-policy''" if "approvalGate l' = Some p" for l' p
    using that by (auto simp: approvalGate_def new_gate_def split: if_splits)
  have "filter (\<lambda>g. ga_id g \<noteq> ''approval-policy'') (map (\<lambda>g. if ga_id g = ''approval-policy'' then p\<lparr>lg_waiver := w\<rparr> else g) gs) =
      filter (\<lambda>g. ga_id g \<noteq> ''approval-policy'') gs" if "ga_id p = ''approval-policy''" for p w gs
    using that by (induction gs) auto
  then show ?thesis
    using assms by (auto simp: reviewed_def Let_def gates_now_def same dest!: policy split: option.split)
qed


definition sample_claim :: checkpoint where
  "sample_claim = \<lparr>ch_status = Complete, ch_summary = ''done'', ch_next = None, ch_activity = None, ch_evidence = None\<rparr>"

definition sample_reviewable :: loop where
  "sample_reviewable = (plain_loop External (Goal None))\<lparr>lp_state := LActive, lp_runs := 1,
     lp_history := [(new_run 1 5 None None None)\<lparr>lr_endedAt := Some 6, lr_checkpoint := Some sample_claim, lr_checkpointHash := Some ''h'',
       lr_gates := Some [new_gate ''bun test'' GFail (Some FailQuality) None, new_gate ''cost-budget'' GPass None None]\<rparr>]\<rparr>"

definition sample_accept :: review_input where
  "sample_accept = \<lparr>ri_action = AcceptClaim, ri_run = 1, ri_checkpointHash = ''h'', ri_gateId = None, ri_approvalAction = None,
     ri_reviewer = ''ana'', ri_reason = ''flaky''\<rparr>"


end
