(* ===== verification/LoopSchema.thy ===== *)
theory LoopSchema
  imports LoopRuns
begin

text \<open>
  The zod schemas of a stored loop (\<open>packages/protocol/src/loops.ts\<close>) as predicates: what \<open>Loop.safeParse\<close> asks of a row. The store
  skips a row that fails it (\<open>store.loops.all\<close>), so these are the type of a loop that survives a restart. Which time zones
  exist is the parameter \<open>zones\<close>. The patterns of an id and of a hash are not part of the predicates.
\<close>

section \<open>The schemas\<close>

definition text_within :: "nat \<Rightarrow> nat \<Rightarrow> string \<Rightarrow> bool" where
  "text_within lo hi s \<longleftrightarrow> lo \<le> length s \<and> length s \<le> hi"

definition opt :: "('a \<Rightarrow> bool) \<Rightarrow> 'a option \<Rightarrow> bool" where
  "opt P x \<longleftrightarrow> (case x of None \<Rightarrow> True | Some v \<Rightarrow> P v)"

lemma opt_simps [simp]: "opt P None" "opt P (Some v) = P v"
  by (simp_all add: opt_def)

definition interval_fits :: "int \<Rightarrow> bool" where
  "interval_fits ms \<longleftrightarrow> 60000 \<le> ms \<and> ms \<le> MAX_INTERVAL_MS"

definition trigger_fits :: "zones \<Rightarrow> loop_trigger \<Rightarrow> bool" where
  "trigger_fits z t \<longleftrightarrow>
     (case t of
        Interval ms \<Rightarrow> interval_fits ms
      | Daily s zone \<Rightarrow>
          (let h = take 2 s; m = drop 3 s in
             two_digits h \<and> number_of h < 24 \<and> take 1 (drop 2 s) = '':'' \<and> two_digits m \<and> number_of m < 60)
          \<and> opt (\<lambda>n. text_within 1 64 n \<and> zn_known z n) zone
      | Adaptive a \<Rightarrow>
          interval_fits (ad_everyMs a) \<and> opt interval_fits (ad_minMs a) \<and> opt interval_fits (ad_maxMs a)
          \<and> min_ms a \<le> ad_everyMs a \<and> ad_everyMs a \<le> max_ms a
      | _ \<Rightarrow> True)"

definition budget_fits :: "loop_budget \<Rightarrow> bool" where
  "budget_fits b \<longleftrightarrow> opt (\<lambda>n. 1 \<le> n \<and> n \<le> 1000) (run_cap b)"

definition checkpoint_fits :: "checkpoint \<Rightarrow> bool" where
  "checkpoint_fits c \<longleftrightarrow> text_within 0 2000 (ch_summary c) \<and> opt (text_within 0 1000) (ch_next c)
     \<and> opt (\<lambda>es. length es \<le> 10 \<and> list_all (text_within 1 1000) es) (ch_evidence c)"

definition waiver_fits :: "waiver \<Rightarrow> bool" where
  "waiver_fits w \<longleftrightarrow> text_within 1 120 (js_trim (wv_actor w)) \<and> text_within 1 500 (js_trim (wv_reason w)) \<and> 0 \<le> wv_time w"

definition gate_fits :: "loop_gate \<Rightarrow> bool" where
  "gate_fits g \<longleftrightarrow> text_within 1 300 (ga_id g) \<and> opt (text_within 0 2000) (ga_detail g) \<and> opt waiver_fits (lg_waiver g)"

definition audit_fits :: "loop_audit \<Rightarrow> bool" where
  "audit_fits a \<longleftrightarrow> text_within 0 4000 (la_findings a)"

definition worktree_fits :: "worktree \<Rightarrow> bool" where
  "worktree_fits w \<longleftrightarrow> text_within 1 4096 (wt_path w) \<and> text_within 1 200 (wt_branch w) \<and> opt (text_within 0 64) (wt_base w)
     \<and> opt (text_within 0 500) (wt_detail w)"

definition rubric_result_fits :: "rubric_result \<Rightarrow> bool" where
  "rubric_result_fits r \<longleftrightarrow> 0 \<le> rr_score r \<and> rr_score r \<le> 1 \<and> 0 \<le> rr_threshold r \<and> rr_threshold r \<le> 1
     \<and> length (rr_criteria r) \<le> 20 \<and> list_all (\<lambda>c. text_within 0 80 (so_id c) \<and> 0 \<le> so_score c \<and> so_score c \<le> 5
          \<and> text_within 0 1000 (so_reason c) \<and> length (so_evidence c) \<le> 10 \<and> list_all (text_within 0 1000) (so_evidence c)) (rr_criteria r)
     \<and> length (rr_blockers r) \<le> 10 \<and> list_all (\<lambda>b. text_within 0 300 (bl_id b) \<and> text_within 0 500 (bl_reason b)) (rr_blockers r)"

definition run_fits :: "loop_run \<Rightarrow> bool" where
  "run_fits r \<longleftrightarrow> 0 < lr_run r \<and> 0 \<le> lr_startedAt r \<and> opt worktree_fits (lr_worktree r) \<and> opt (\<lambda>t. 0 \<le> t) (lr_endedAt r)
     \<and> opt checkpoint_fits (lr_checkpoint r) \<and> opt (\<lambda>gs. length gs \<le> 10 \<and> list_all gate_fits gs) (lr_gates r)
     \<and> opt audit_fits (lr_audit r) \<and> opt rubric_result_fits (lr_rubricResult r)
     \<and> opt (\<lambda>as. length as \<le> 5 \<and> list_all (\<lambda>(_, w). waiver_fits w) as) (lr_approvals r)"

definition journal_fits :: "journal_event \<Rightarrow> bool" where
  "journal_fits j \<longleftrightarrow> 0 < je_seq j \<and> 0 \<le> je_time j \<and> text_within 0 500 (je_title j) \<and> opt (\<lambda>n. 0 < n) (je_run j)"

definition waiting_fits :: "waiting \<Rightarrow> bool" where
  "waiting_fits w \<longleftrightarrow> text_within 1 100 (wa_requestId w) \<and> text_within 0 500 (wa_title w) \<and> text_within 0 2000 (wa_detail w)
     \<and> opt (text_within 0 200) (wa_tool w) \<and> 0 \<le> wa_time w"

definition rubric_fits :: "rubric \<Rightarrow> bool" where
  "rubric_fits r \<longleftrightarrow> opt (text_within 1 120) (ru_name r) \<and> opt (\<lambda>t. 0 \<le> t \<and> t \<le> 1) (ru_passThreshold r)
     \<and> length (ru_criteria r) \<le> 20 \<and> distinct (map rc_id (ru_criteria r))
     \<and> list_all (\<lambda>c. text_within 1 80 (rc_id c) \<and> text_within 1 1000 (rc_description c) \<and> opt (\<lambda>w. 0 \<le> w \<and> w \<le> 1000) (rc_weight c)
          \<and> opt (\<lambda>m. 0 \<le> m \<and> m \<le> 5) (rc_minScore c)
          \<and> opt (\<lambda>es. length es \<le> 10 \<and> list_all (text_within 1 300) es) (rc_evidenceRequired c)) (ru_criteria r)
     \<and> opt (\<lambda>bs. length bs \<le> 10 \<and> list_all (text_within 1 300) bs) (ru_mandatoryBlockers r)"

definition cost_budget_fits :: "cost_budget \<Rightarrow> bool" where
  "cost_budget_fits b \<longleftrightarrow> opt (\<lambda>n. 0 < n \<and> int n \<le> max_safe) (cb_maxTokens b) \<and> opt (\<lambda>c. 1 / 1000000 \<le> c) (cb_maxCost b)"

text \<open>What the user chose about a loop, and the whole row.\<close>

definition settings_fit :: "zones \<Rightarrow> loop \<Rightarrow> bool" where
  "settings_fit z l \<longleftrightarrow> text_within 1 120 (lp_name l) \<and> text_within 1 4096 (lp_directory l) \<and> text_within 1 8000 (lp_objective l)
     \<and> opt (text_within 0 4000) (lp_criteria l) \<and> opt (\<lambda>cs. length cs \<le> 5 \<and> list_all (text_within 1 300) cs) (lp_checks l)
     \<and> opt (\<lambda>(why, t). text_within 1 500 why \<and> 0 \<le> t) (lp_override l) \<and> trigger_fits z (lp_trigger l) \<and> budget_fits (lp_budget l)
     \<and> opt cost_budget_fits (lp_costBudget l) \<and> opt rubric_fits (lp_rubric l) \<and> opt (\<lambda>as. length as \<le> 5) (lp_approvalPolicy l)
     \<and> opt (text_within 0 40) (lp_template l) \<and> opt (\<lambda>rs. length rs \<le> 10 \<and> list_all (text_within 1 4096) rs) (lp_reads l)"

definition progress_fits :: "loop \<Rightarrow> bool" where
  "progress_fits l \<longleftrightarrow> opt (text_within 0 4000) (lp_feedback l) \<and> opt waiting_fits (lp_waiting l) \<and> opt interval_fits (lp_adaptiveMs l)
     \<and> opt (\<lambda>(t, note). 0 \<le> t \<and> opt (text_within 0 500) note) (lp_pendingFire l) \<and> opt (\<lambda>t. 0 \<le> t) (lp_nextWakeAt l)
     \<and> length (lp_history l) \<le> 20 \<and> list_all run_fits (lp_history l) \<and> opt (\<lambda>t. 0 \<le> t) (lp_reviewInvalidatedAt l)
     \<and> 0 \<le> lp_createdAt l \<and> 0 \<le> lp_updatedAt l \<and> opt (\<lambda>js. length js \<le> 200 \<and> list_all journal_fits js) (lp_journal l)"

definition reason_fits :: "loop \<Rightarrow> bool" where
  "reason_fits l \<longleftrightarrow> opt (text_within 0 500) (lp_reason l)"

definition row_fits :: "zones \<Rightarrow> loop \<Rightarrow> bool" where
  "row_fits z l \<longleftrightarrow> settings_fit z l \<and> progress_fits l \<and> reason_fits l"

section \<open>What the steps make of a valid row\<close>

named_theorems fits \<open>what keeps a row valid\<close>

lemma text_within_take [fits]: "text_within 0 n (take n s)"
  by (simp add: text_within_def)

lemma length_last_n [fits]: "length (last_n n xs) \<le> n"
  by (simp add: last_n_def)

lemma last_n_all [fits]: "list_all P xs \<Longrightarrow> list_all P (last_n n xs)"
  by (auto simp: last_n_def list_all_iff dest: in_set_dropD)

lemma map_last_all [fits]: "list_all P xs \<Longrightarrow> (\<And>x. P x \<Longrightarrow> P (f x)) \<Longrightarrow> list_all P (map_last f xs)"
  by (cases xs rule: rev_cases) simp_all

lemma evidence_texts:
  assumes "list_all (\<lambda>v. case v of JStr x \<Rightarrow> js_trim x \<noteq> [] | _ \<Rightarrow> False) vs"
  shows "list_all (\<lambda>x. x \<noteq> []) (strings_of (map Some vs))"
  using assms by (induction vs) (auto simp: strings_of_def js_trim_def map_filter_simps split: json.splits)

lemma evidence_fits:
  assumes "evidence_of parse s = Some es"
  shows "length es \<le> 10 \<and> list_all (text_within 1 1000) es"
proof -
  from assms obtain vs where vs: "list_all (\<lambda>v. case v of JStr x \<Rightarrow> js_trim x \<noteq> [] | _ \<Rightarrow> False) vs"
      "es = map (take 1000) (strings_of (map Some (take 10 vs)))"
    by (auto simp: evidence_of_def split: if_splits option.splits json.splits)
  have "list_all (\<lambda>v. case v of JStr x \<Rightarrow> js_trim x \<noteq> [] | _ \<Rightarrow> False) (take 10 vs)"
    using vs(1) by (auto simp: list_all_iff dest: in_set_takeD)
  from evidence_texts[OF this] have "list_all (\<lambda>x. x \<noteq> []) (strings_of (map Some (take 10 vs)))" .
  moreover have "length (strings_of (map Some (take 10 vs))) \<le> 10"
  proof -
    have "length (strings_of us) \<le> length us" for us
      by (induction us) (auto simp: strings_of_def map_filter_simps split: option.splits)
    from this[of "map Some (take 10 vs)"] show ?thesis by simp
  qed
  ultimately show ?thesis
    by (auto simp: vs(2) list_all_iff text_within_def Suc_le_eq)
qed

lemma parsed_checkpoint_fits: "parseCheckpoint parse s = Some c \<Longrightarrow> checkpoint_fits c"
  using evidence_fits
  by (auto simp: parseCheckpoint_def checkpoint_fits_def text_within_take opt_def split: option.splits)

lemma adaptive_fits:
  assumes "trigger_fits z (Adaptive a)"
  shows "interval_fits (adaptiveInterval a p)"
proof -
  have "60000 \<le> min_ms a"
    using assms by (cases "ad_minMs a") (simp_all add: trigger_fits_def interval_fits_def min_ms_def)
  moreover have "max_ms a \<le> MAX_INTERVAL_MS"
    using assms by (cases "ad_maxMs a") (simp_all add: trigger_fits_def interval_fits_def max_ms_def)
  moreover have "min_ms a \<le> max_ms a"
    using assms by (simp add: trigger_fits_def)
  ultimately show ?thesis
    unfolding interval_fits_def adaptiveInterval_def by linarith
qed

lemma pace_fits:
  assumes "trigger_fits z (Adaptive a)"
  shows "interval_fits (paceAfter a p act)"
  using adaptive_fits[OF assms] by (auto simp: paceAfter_def Let_def split: option.splits activity.splits)

text \<open>What the calendar of the platform promises: a local time of today that is over comes back later.\<close>

definition clock_goes_on :: "zones \<Rightarrow> bool" where
  "clock_goes_on z \<longleftrightarrow> (\<forall>t h m. zn_local z t h m \<le> t \<longrightarrow> t < zn_tomorrow z (zn_local z t h m))"

lemma next_wake_later:
  assumes "clock_goes_on z" "trigger_fits z t" "nextWake z t now p = Some u"
  shows "now < u"
proof (cases t)
  case (Interval ms)
  then show ?thesis
    using assms by (simp add: nextWake_def trigger_fits_def interval_fits_def)
next
  case (Daily s zone)
  then show ?thesis
    using assms daily_in_future
    by (cases "clock_time s") (auto simp: nextWake_def Let_def clock_goes_on_def split: option.splits if_splits)
next
  case (Adaptive a)
  then show ?thesis
    using assms adaptive_fits[of z a p] by (simp add: nextWake_def interval_fits_def)
qed (use assms in \<open>simp_all add: nextWake_def\<close>)

lemma end_entry_fits: "run_fits r \<Longrightarrow> 0 \<le> en_time e \<Longrightarrow> opt checkpoint_fits cp \<Longrightarrow> run_fits (end_entry e cp r)"
  by (auto simp: end_entry_def run_fits_def split: option.splits)

lemma base_fits:
  assumes "progress_fits l" "0 \<le> en_time e" "opt checkpoint_fits cp"
  shows "progress_fits (ended_base l e cp)"
  using assms end_entry_fits[of _ e cp] length_last_n[of 20]
  by (simp add: progress_fits_def ended_base_def HISTORY_def last_n_all map_last_all)

lemma stop_fits: "progress_fits l \<Longrightarrow> progress_fits (stop_loop st why l)"
  by (simp add: progress_fits_def stop_loop_def)

lemma go_on_fits:
  assumes l: "progress_fits l" "trigger_fits z (lp_trigger l)" and z: "clock_goes_on z" and e: "0 \<le> en_time e" "opt checkpoint_fits cp"
  shows "progress_fits (go_on z l e cp)"
proof -
  have next_later: "0 \<le> u" if "nextWake z (lp_trigger l) (en_time e) p = Some u" for p u
    using next_wake_later[OF z l(2) that] e(1) by simp
  have pace: "interval_fits (paceAfter a (lp_adaptiveMs l) act)" if "lp_trigger l = Adaptive a" for a act
    using pace_fits[of z a] l(2) that by simp
  have base: "progress_fits (ended_base l e cp)"
    by (rule base_fits) (use l e in simp_all)
  have same: "lp_nextWakeAt (ended_base l e cp) = lp_nextWakeAt l" "lp_adaptiveMs (ended_base l e cp) = lp_adaptiveMs l"
    by (simp_all add: ended_base_def)
  have wake: "opt (\<lambda>t. 0 \<le> t) (lp_nextWakeAt l)" "opt interval_fits (lp_adaptiveMs l)"
    using l(1) by (simp_all add: progress_fits_def)
  show ?thesis
    using base same wake e(1) next_later pace
    by (auto simp: go_on_def Let_def progress_fits_def split: option.splits loop_trigger.splits)
qed

lemma end_checkpoint_fits: "opt checkpoint_fits (end_checkpoint parse e)"
  using parsed_checkpoint_fits by (auto simp: end_checkpoint_def opt_def split: option.splits)

lemma finish_run_fits:
  assumes "progress_fits l" "trigger_fits z (lp_trigger l)" "clock_goes_on z" "0 \<le> en_time e"
  shows "progress_fits (finishRun parse z l e)"
proof -
  define cp where "cp = end_checkpoint parse e"
  have base: "progress_fits (ended_base l e cp)"
    unfolding cp_def by (rule base_fits) (use assms end_checkpoint_fits in auto)
  have go: "progress_fits (go_on z l e cp)"
    unfolding cp_def by (rule go_on_fits) (use assms end_checkpoint_fits in auto)
  show ?thesis
    unfolding finishRun_def Let_def cp_def[symmetric]
    using base go stop_fits[OF base] by (auto split: option.splits loop_budget.splits)
qed

lemma settings_kept: "settings_fit z (finishRun parse z l e) = settings_fit z l"
  by (simp add: finishRun_def go_on_def stop_loop_def ended_base_def Let_def settings_fit_def split: option.splits loop_budget.splits)

lemma nat_text_short: "n < 10000 \<Longrightarrow> length (nat_text n) \<le> 4"
proof -
  have one: "length (nat_text k) \<le> 1" if "k < 10" for k
    using that by (simp add: nat_text.simps)
  have step: "length (nat_text k) \<le> Suc m" if "length (nat_text (k div 10)) \<le> m" "1 \<le> m" for k m
    using that by (simp add: nat_text.simps[of k])
  assume "n < 10000"
  then have "n div 10 div 10 div 10 < 10"
    by (simp add: div_mult2_eq[symmetric] less_mult_imp_div_less)
  from step[OF step[OF step[OF one[OF this]]]] show ?thesis
    by (simp add: eval_nat_numeral)
qed

text \<open>Where \<open>finishRun\<close> takes the summary of the run as the reason of the loop.\<close>

definition summary_is_reason :: "loop \<Rightarrow> checkpoint \<Rightarrow> bool" where
  "summary_is_reason l c \<longleftrightarrow>
     ch_status c = Blocked \<or> ch_status c = Complete \<and> (\<exists>n. lp_budget l = Goal n) \<and> \<not> needsVerification l"

lemma finish_reason_fits:
  assumes l: "reason_fits l" "budget_fits (lp_budget l)"
    and short: "\<And>c. end_checkpoint parse e = Some c \<Longrightarrow> summary_is_reason l c \<Longrightarrow> length (ch_summary c) \<le> 500"
  shows "reason_fits (finishRun parse z l e)"
proof -
  have cap: "length (nat_text n) \<le> 4" if "run_cap (lp_budget l) = Some n" for n
    using l(2) that nat_text_short[of n] by (simp add: budget_fits_def)
  show ?thesis
    using l short cap
    by (auto simp: finishRun_def Let_def reason_fits_def stop_loop_def go_on_def ended_base_def text_within_def or_else_text_def
        reports_def summary_is_reason_def split: option.splits loop_budget.splits)
qed

lemma run_starts_valid:
  assumes "row_fits z l" "0 \<le> now" "opt worktree_fits wt"
  shows "row_fits z (beginRun l now how sid wt)"
proof -
  have entry: "run_fits (new_run (lp_runs l + 1) now how sid wt)"
    using assms by (simp add: run_fits_def new_run_def)
  have "settings_fit z (beginRun l now how sid wt)"
    using assms(1) by (simp add: row_fits_def settings_fit_def beginRun_def)
  moreover have "progress_fits (beginRun l now how sid wt)"
    using assms entry by (simp add: row_fits_def progress_fits_def beginRun_def HISTORY_def length_last_n last_n_all)
  ultimately show ?thesis
    by (simp add: row_fits_def reason_fits_def beginRun_def)
qed

definition result_fits :: "verify_result \<Rightarrow> bool" where
  "result_fits v \<longleftrightarrow> length (vr_gates v) \<le> 10 \<and> list_all gate_fits (vr_gates v) \<and> opt audit_fits (vr_audit v) \<and> 0 \<le> vr_time v"

lemma claim_entry_fits: "run_fits r \<Longrightarrow> result_fits v \<Longrightarrow> run_fits (claim_entry v r)"
  by (auto simp: claim_entry_def run_fits_def result_fits_def split: option.splits)

lemma feedback_reason [simp]: "lp_reason (add_feedback s l) = lp_reason l"
  by (simp add: add_feedback_def)

lemma feedback_fits: "progress_fits l \<Longrightarrow> progress_fits (add_feedback (take 4000 s) l)"
  by (simp add: progress_fits_def add_feedback_def text_within_take)

lemma verified_fits:
  assumes l: "row_fits z l" and z: "clock_goes_on z" and v: "result_fits v" 
    and short: "lp_state l = LVerifying \<Longrightarrow> vr_accepted v \<Longrightarrow> length (claimed_summary l) \<le> 500"
  shows "row_fits z (finishVerification z l v)"
proof -
  have entries: "list_all run_fits (map_last (claim_entry v) (lp_history l))"
    using l v claim_entry_fits by (auto simp: row_fits_def progress_fits_def intro: map_last_all)
  have next_later: "0 \<le> u" if "nextWake z (lp_trigger l) (vr_time v) p = Some u" for p u
    using next_wake_later[OF z _ that] l v by (simp add: row_fits_def settings_fit_def result_fits_def)
  have cap: "length (nat_text n) \<le> 4" if "lp_budget l = Goal (Some n)" for n
    using l that nat_text_short[of n] by (simp add: row_fits_def settings_fit_def budget_fits_def run_cap_def)
  have "settings_fit z (finishVerification z l v)"
    using l by (simp add: row_fits_def finishVerification_def add_feedback_def Let_def settings_fit_def split: option.splits loop_budget.splits)
  moreover have "progress_fits (finishVerification z l v)"
  proof -
    have "0 \<le> vr_time v"
      using v by (simp add: result_fits_def)
    then show ?thesis
      using l entries next_later
      by (auto simp: finishVerification_def Let_def row_fits_def opt_def progress_fits_def text_within_def add_feedback_def
          split: option.splits loop_budget.splits)
  qed
  moreover have "reason_fits (finishVerification z l v)"
    using short cap
    by (auto simp: finishVerification_def Let_def reason_fits_def text_within_def or_else_text_def split: option.splits loop_budget.splits)
  ultimately show ?thesis
    by (simp add: row_fits_def)
qed

section \<open>Rows that survive a restart\<close>

text \<open>C15: A run keeps the row of its loop valid: what \<open>beginRun\<close>, \<open>finishRun\<close> and \<open>finishVerification\<close> make of a row the schema accepts is
  accepted again (history, checkpoint, evidence, feedback, pace and wakeup stay in their bounds, whatever text the model ended
  with). It is assumed that the summary of a run has at most 500 characters where the code makes it the reason of the loop: of a
  run that reports itself blocked, of a claim of a goal that nothing verifies, and of a claim that the verification accepts; and that
  the result of a verification is in the bounds of the schema.\<close>

theorem runs_keep_the_row_valid:
  assumes "row_fits z l" "clock_goes_on z" "0 \<le> now" "0 \<le> en_time e" "result_fits v"
    and "\<And>c. end_checkpoint parse e = Some c \<Longrightarrow> summary_is_reason l c \<Longrightarrow> length (ch_summary c) \<le> 500"
    and "lp_state l = LVerifying \<Longrightarrow> vr_accepted v \<Longrightarrow> length (claimed_summary l) \<le> 500"
  shows "row_fits z (beginRun l now how sid None) \<and> row_fits z (finishRun parse z l e) \<and> row_fits z (finishVerification z l v)"
  using assms run_starts_valid[of z l now None how sid] verified_fits[of z l v] finish_run_fits[of l z e parse]
    finish_reason_fits[of l parse e z] settings_kept[of z parse l e]
  by (simp add: row_fits_def settings_fit_def)

definition utc :: zones where
  "utc = \<lparr>zn_offset = \<lambda>_ _. 0, zn_local = \<lambda>t h m. naive (t div DAY_MS) h m, zn_tomorrow = \<lambda>t. t + DAY_MS, zn_known = \<lambda>n. n = ''UTC''\<rparr>"

lemma utc_goes_on: "clock_goes_on utc"
proof -
  have "t < naive (t div DAY_MS) h m + DAY_MS" for t h m
    using div_mult_mod_eq[of t DAY_MS] pos_mod_bound[of DAY_MS t] by (simp add: naive_def DAY_MS_def)
  then show ?thesis
    by (simp add: clock_goes_on_def utc_def)
qed

lemma plain_row: "row_fits utc (plain_loop (Interval 60000) (Goal (Some 3)))"
  by code_simp

definition runs_ended :: run_end where
  "runs_ended = \<lparr>en_outcome = OutCompleted, en_finalText = ''LOOP_CHECKPOINT'' @ [CHR 0x0A] @ ''status: complete'' @ [CHR 0x0A] @ ''summary: all green'', en_time = 7\<rparr>"

lemma runs_keep_the_row_valid_witness: "row_fits utc (finishRun (\<lambda>_. None) utc (plain_loop (Interval 60000) (Goal (Some 3))) runs_ended)"
proof -
  have short: "length (ch_summary c) \<le> 500" if "end_checkpoint (\<lambda>_. None) runs_ended = Some c" for c
  proof -
    have "end_checkpoint (\<lambda>_. None) runs_ended = Some \<lparr>ch_status = Complete, ch_summary = ''all green'', ch_next = None, ch_activity = None, ch_evidence = None\<rparr>"
      by code_simp
    then show ?thesis using that by auto
  qed
  show ?thesis
    using runs_keep_the_row_valid[OF plain_row utc_goes_on, of 0 runs_ended "\<lparr>vr_gates = [], vr_audit = None, vr_accepted = True, vr_feedback = None, vr_time = 0\<rparr>" "\<lambda>_. None"]
      short by (simp add: runs_ended_def result_fits_def claimed_summary_def last_run_def plain_loop_def)
qed

text \<open>The bound on the summary is not checked where the summary becomes the reason: a run that reports itself blocked, or claims a
  goal nothing verifies, with a summary of more than 500 characters (a valid checkpoint has up to 2000) leaves a row that the
  store no longer reads.\<close>

theorem long_summary_loses_the_loop:
  assumes "lp_state l \<notin> {LStopped, LPaused}" "en_outcome e = OutCompleted" "parseCheckpoint parse (en_finalText e) = Some c"
    and "ch_status c = Blocked \<or> ch_status c = Complete \<and> lp_budget l = Goal n \<and> \<not> needsVerification l"
    and "500 < length (ch_summary c)"
  shows "checkpoint_fits c \<and> \<not> row_fits z (finishRun parse z l e)"
proof -
  have "lp_reason (finishRun parse z l e) = Some (ch_summary c)"
    using assms by (auto simp: finishRun_def Let_def end_checkpoint_def reports_def stop_loop_def or_else_text_def)
  then show ?thesis
    using assms(5) parsed_checkpoint_fits[OF assms(3)] by (simp add: row_fits_def reason_fits_def text_within_def)
qed

definition long_report :: string where
  "long_report = ''LOOP_CHECKPOINT'' @ [CHR 0x0A] @ ''status: blocked'' @ [CHR 0x0A] @ ''summary: '' @ replicate 501 (CHR ''a'')"

lemma long_summary_loses_the_loop_witness:
  "\<not> row_fits utc (finishRun (\<lambda>_. None) utc (plain_loop External Monitor) \<lparr>en_outcome = OutCompleted, en_finalText = long_report, en_time = 7\<rparr>)"
proof -
  have "map_option (\<lambda>c. (ch_status c, length (ch_summary c))) (parseCheckpoint (\<lambda>_. None) long_report) = Some (Blocked, 501)"
    by code_simp
  then obtain c where "parseCheckpoint (\<lambda>_. None) long_report = Some c" "ch_status c = Blocked" "length (ch_summary c) = 501"
    by auto
  then show ?thesis
    using long_summary_loses_the_loop[of "plain_loop External Monitor" "\<lparr>en_outcome = OutCompleted, en_finalText = long_report, en_time = 7\<rparr>"]
    by (simp add: plain_loop_def)
qed

end
