(* ===== verification/LoopRubric.thy ===== *)
theory LoopRubric
  imports LoopReview LoopSchema
begin

text \<open>
  The rubric of a goal loop (\<open>packages/loops/src/rubric.ts\<close>) and the acceptance of an experiment
  (\<open>packages/loops/src/experiments.ts\<close>). Scores are exact rationals. Each regular expression is a search for a few fixed texts;
  \<open>some_suffix\<close> looks for them at every place of the text.
\<close>

section \<open>Searches in a text\<close>

fun some_suffix :: "(string \<Rightarrow> bool) \<Rightarrow> string \<Rightarrow> bool" where
  "some_suffix p [] = p []"
| "some_suffix p (c # cs) = (p (c # cs) \<or> some_suffix p cs)"

definition starts :: "string \<Rightarrow> string \<Rightarrow> bool" where
  "starts w s \<longleftrightarrow> prefix_rest w s \<noteq> None"

text \<open>\<open>text.includes(word)\<close>\<close>

definition has_text :: "string \<Rightarrow> string \<Rightarrow> bool" where
  "has_text s w \<longleftrightarrow> some_suffix (starts w) s"

definition has_some_text :: "string \<Rightarrow> string list \<Rightarrow> bool" where
  "has_some_text s ws \<longleftrightarrow> list_ex (has_text s) ws"

text \<open>The three kinds of credentials, at the front of a text of lower case.\<close>

definition token_char :: "char \<Rightarrow> bool" where
  "token_char c \<longleftrightarrow> is_digit c \<or> (97 \<le> (of_char c :: nat) \<and> of_char c \<le> (122 :: nat))"

definition bearer_at :: "string \<Rightarrow> bool" where
  "bearer_at s \<longleftrightarrow>
     (case prefix_rest ''bearer'' s of None \<Rightarrow> False
      | Some rest \<Rightarrow> skip_space rest \<noteq> rest
          \<and> length (takeWhile (\<lambda>c. token_char c \<or> c \<in> set ''._~+/=-'') (skip_space rest)) \<ge> 8)"

definition api_key_at :: "string \<Rightarrow> bool" where
  "api_key_at s \<longleftrightarrow>
     (case prefix_rest ''sk-'' s of None \<Rightarrow> False
      | Some rest \<Rightarrow> length (takeWhile (\<lambda>c. token_char c \<or> c \<in> set ''_-'') rest) \<ge> 8)"

definition password_at :: "string \<Rightarrow> bool" where
  "password_at s \<longleftrightarrow>
     (case prefix_rest ''password'' s of None \<Rightarrow> False
      | Some rest \<Rightarrow>
          (case skip_space rest of
             c # after \<Rightarrow> c \<in> set '':='' \<and> skip_space after \<noteq> []
           | [] \<Rightarrow> False))"

definition shows_credentials :: "string \<Rightarrow> bool" where
  "shows_credentials s \<longleftrightarrow> some_suffix (\<lambda>x. bearer_at x \<or> api_key_at x \<or> password_at x) s"

section \<open>Evidence\<close>

text \<open>An audit that confirmed the claim and changed nothing.\<close>

definition clean_audit :: "loop_audit option \<Rightarrow> bool" where
  "clean_audit a \<longleftrightarrow> (case a of None \<Rightarrow> False | Some x \<Rightarrow> la_verdict x = GPass \<and> \<not> la_workspaceChanged x)"

definition rubric_evidence :: "checkpoint \<Rightarrow> loop_audit option \<Rightarrow> string list" where
  "rubric_evidence c a =
     orelse (ch_evidence c) []
     @ (case a of Some x \<Rightarrow> if clean_audit a \<and> la_findings x \<noteq> [] then [la_findings x] else [] | None \<Rightarrow> [])"

definition check_gates :: "loop \<Rightarrow> loop_gate list \<Rightarrow> loop_gate list" where
  "check_gates l gates = filter (\<lambda>g. ga_id g \<in> set (orelse (lp_checks l) [])) gates"

definition checks_pass :: "loop \<Rightarrow> loop_gate list \<Rightarrow> bool" where
  "checks_pass l gates \<longleftrightarrow> length (check_gates l gates) = length (orelse (lp_checks l) [])
     \<and> list_all (\<lambda>g. ga_status g = GPass) (check_gates l gates)"

definition status_name :: "gate_status \<Rightarrow> string" where
  "status_name st = (case st of GPass \<Rightarrow> ''pass'' | GFail \<Rightarrow> ''fail'')"

definition rubric_corpus :: "checkpoint \<Rightarrow> loop_gate list \<Rightarrow> loop_audit option \<Rightarrow> string" where
  "rubric_corpus c gates a =
     lower (js_join [CHR 0x0A] (rubric_evidence c a
       @ map (\<lambda>g. ga_id g @ '' '' @ status_name (ga_status g) @ '' '' @ orelse (ga_detail g) []) gates))"

definition met :: "loop \<Rightarrow> checkpoint \<Rightarrow> loop_gate list \<Rightarrow> loop_audit option \<Rightarrow> string \<Rightarrow> bool" where
  "met l c gates a requirement =
     (let key = lower (js_trim requirement) in
      if key = ''checkpoint evidence'' then orelse (ch_evidence c) [] \<noteq> []
      else if key = ''success checks'' then checks_pass l gates
      else if key = ''validation output'' \<or> key = ''success check output''
      then checks_pass l gates \<and> list_all (\<lambda>g. truthy (ga_detail g) \<noteq> None) (check_gates l gates)
      else if key = ''policy gate status''
      then list_all (\<lambda>g. ga_id g = ''approval-policy'' \<longrightarrow> ga_status g = GPass) gates
      else if key = ''independent audit'' then clean_audit a
      else case prefix_rest ''gate:'' key of
        Some i \<Rightarrow> (case List.find (\<lambda>g. lower (ga_id g) = i) gates of None \<Rightarrow> False | Some g \<Rightarrow> ga_status g = GPass)
      | None \<Rightarrow> key \<noteq> [] \<and> has_text (rubric_corpus c gates a) key)"

section \<open>The verdict\<close>

definition requirements :: "rubric_criterion \<Rightarrow> string list" where
  "requirements c = filter (\<lambda>s. s \<noteq> []) (map js_trim (orelse (rc_evidenceRequired c) []))"

definition criterion_present :: "loop \<Rightarrow> checkpoint \<Rightarrow> loop_gate list \<Rightarrow> loop_audit option \<Rightarrow> rubric_criterion \<Rightarrow> bool" where
  "criterion_present l c gates a crit \<longleftrightarrow>
     (if requirements crit \<noteq> [] then list_all (met l c gates a) (requirements crit) else rubric_evidence c a \<noteq> [])"

definition score_criterion :: "loop \<Rightarrow> checkpoint \<Rightarrow> loop_gate list \<Rightarrow> loop_audit option \<Rightarrow> rubric_criterion \<Rightarrow> scored" where
  "score_criterion l c gates a crit =
     (let present = criterion_present l c gates a crit; score = (if present then 5 else 0); reqs = requirements crit;
          missing = filter (\<lambda>s. \<not> met l c gates a s) reqs
      in \<lparr>so_id = rc_id crit, so_score = score, so_passed = (present \<and> orelse (rc_minScore crit) 0 \<le> score),
          so_reason = (if present then ''Required runtime evidence is present.''
            else take 1000 (''Missing required evidence: '' @ or_else_text (js_join '', '' missing) ''concrete completion evidence'' @ ''.'')),
          so_evidence = map (take 1000) (take 10 (if reqs \<noteq> [] then filter (met l c gates a) reqs else rubric_evidence c a))\<rparr>)"

definition blocker_present :: "loop \<Rightarrow> checkpoint \<Rightarrow> loop_gate list \<Rightarrow> loop_audit option \<Rightarrow> string \<Rightarrow> bool" where
  "blocker_present l c gates a i =
     (let key = lower i; text = rubric_corpus c gates a in
      if has_text key ''configured validation failed'' then list_ex (\<lambda>g. ga_status g \<noteq> GPass) (check_gates l gates)
      else if has_some_text key [''self-assertion'', ''self assertion'']
      then rubric_evidence c a = [] \<or> has_some_text text [''self-assert'', ''self assert'']
      else if has_text key ''approval-required action''
      then list_ex (\<lambda>g. ga_id g = ''approval-policy'' \<and> ga_status g \<noteq> GPass) gates
      else if has_some_text key [''secret or credential exposed'', ''secrets or credential exposed'',
                                 ''secret or credentials exposed'', ''secrets or credentials exposed'']
      then shows_credentials text
      else has_text text key)"

definition judge_blocker :: "loop \<Rightarrow> checkpoint \<Rightarrow> loop_gate list \<Rightarrow> loop_audit option \<Rightarrow> string \<Rightarrow> blocker" where
  "judge_blocker l c gates a i =
     (let present = blocker_present l c gates a i in
      \<lparr>bl_id = i, bl_present = present,
       bl_reason = take 500 (''Mandatory blocker '' @ (if present then ''detected'' else ''not detected'') @ '': '' @ i @ ''.'')\<rparr>)"

definition weight :: "rubric_criterion \<Rightarrow> rat" where
  "weight c = orelse (rc_weight c) 1"

definition weighted :: "(rat \<times> rat) list \<Rightarrow> rat" where
  "weighted entries = sum_list (map (\<lambda>(s, w). s / 5 * w) entries)"

definition rubric_score :: "(rat \<times> rat) list \<Rightarrow> bool \<Rightarrow> rat" where
  "rubric_score entries blocked =
     (let total = sum_list (map snd entries) in
      if 0 < total then weighted entries / total else if blocked then 0 else 1)"

definition evaluateRubric :: "loop \<Rightarrow> checkpoint \<Rightarrow> loop_gate list \<Rightarrow> loop_audit option \<Rightarrow> rubric_result option" where
  "evaluateRubric l c gates a =
     (case lp_rubric l of None \<Rightarrow> None
      | Some r \<Rightarrow>
          if ru_criteria r = [] \<and> orelse (ru_mandatoryBlockers r) [] = [] \<or> ch_status c \<noteq> Complete then None
          else let scored = map (score_criterion l c gates a) (ru_criteria r);
                   blockers = map (judge_blocker l c gates a) (orelse (ru_mandatoryBlockers r) []);
                   blocked = list_ex bl_present blockers;
                   score = rubric_score (zip (map so_score scored) (map weight (ru_criteria r))) blocked;
                   threshold = orelse (ru_passThreshold r) (85 / 100)
          in Some \<lparr>rr_status = (if blocked then RubricBlocked else if threshold \<le> score \<and> list_all so_passed scored then RubricPass else RubricFail),
                   rr_score = score, rr_threshold = threshold, rr_criteria = scored, rr_blockers = blockers\<rparr>)"

text \<open>\<open>Math.round(x * 100)\<close> of a score, and the middle dot U+00B7.\<close>

definition percent :: "rat \<Rightarrow> string" where
  "percent x = nat_text (nat (floor (x * 100 + 1/2))) @ ''%''"

definition rubricGate :: "rubric_result option \<Rightarrow> loop_gate option" where
  "rubricGate result =
     (case result of None \<Rightarrow> None
      | Some r \<Rightarrow>
          Some (new_gate ''rubric'' (if rr_status r = RubricPass then GPass else GFail)
            (case rr_status r of RubricPass \<Rightarrow> None | RubricBlocked \<Rightarrow> Some FailIntegrity | RubricFail \<Rightarrow> Some FailQuality)
            (Some (take 2000 (percent (rr_score r) @ '' / '' @ percent (rr_threshold r)
              @ (if rr_status r = RubricBlocked
                 then '' '' @ [CHR 0xB7] @ '' '' @ js_join '', '' (map bl_id (filter bl_present (rr_blockers r))) else []))))))"

section \<open>Experiments\<close>

text \<open>The numbers are finite; what is not a finite number is refused before (\<open>Number.isFinite\<close>) and is not a value here.\<close>

record experiment_input =
  ex_baseline :: rat
  ex_candidate :: rat
  ex_smallerIsBetter :: bool
  ex_gates :: "loop_gate list"
  ex_iteration :: int
  ex_maxIterations :: int
  ex_costMicros :: "int option"
  ex_maxCostMicros :: int
  ex_tokens :: int
  ex_maxTokens :: int

definition improved :: "experiment_input \<Rightarrow> bool" where
  "improved x \<longleftrightarrow> (if ex_smallerIsBetter x then ex_candidate x < ex_baseline x else ex_baseline x < ex_candidate x)"

definition acceptExperiment :: "experiment_input \<Rightarrow> bool \<times> string" where
  "acceptExperiment x =
     (if ex_iteration x < 1 \<or> ex_maxIterations x < ex_iteration x then (False, ''Iteration limit reached'')
      else if ex_maxCostMicros x < 0 \<or> ex_tokens x < 0 \<or> ex_maxTokens x < 0 \<or> ex_maxTokens x < ex_tokens x
      then (False, ''Token budget exceeded'')
      else if (case ex_costMicros x of None \<Rightarrow> True | Some c \<Rightarrow> c < 0 \<or> ex_maxCostMicros x < c)
      then (False, ''Cost unknown or budget exceeded'')
      else if ex_gates x = [] \<or> list_ex (\<lambda>g. ga_status g \<noteq> GPass \<or> lg_waiver g \<noteq> None) (ex_gates x)
      then (False, ''Correctness not verified'')
      else (improved x, if improved x then ''Metric improved and correctness passed'' else ''Metric did not improve''))"

section \<open>What a rubric decides\<close>

lemma weighted_sum_bounds:
  assumes "\<forall>(s, w) \<in> set xs. 0 \<le> s \<and> s \<le> (5 :: rat) \<and> 0 \<le> w"
  shows "0 \<le> weighted xs \<and> weighted xs \<le> sum_list (map snd xs)"
  using assms
proof (induction xs)
  case Nil
  then show ?case by (simp add: weighted_def)
next
  case (Cons x xs)
  obtain s w where x: "x = (s, w)" "0 \<le> s" "s \<le> 5" "0 \<le> w"
    using Cons.prems by (cases x) auto
  have "0 \<le> s / 5 * w" "s / 5 * w \<le> w"
    using x mult_right_mono[of "s / 5" 1 w] by simp_all
  then show ?case
    using Cons by (simp add: x(1) weighted_def)
qed

lemma rubric_score_bounds:
  assumes "\<forall>(s, w) \<in> set xs. 0 \<le> s \<and> s \<le> (5 :: rat) \<and> 0 \<le> w"
  shows "0 \<le> rubric_score xs blocked \<and> rubric_score xs blocked \<le> 1"
  using weighted_sum_bounds[OF assms] by (simp add: rubric_score_def Let_def divide_simps)

lemma full_score: "\<forall>(s, w) \<in> set xs. s = (5 :: rat) \<Longrightarrow> \<not> blocked \<Longrightarrow> rubric_score xs blocked = 1"
proof -
  have "weighted ys = sum_list (map snd ys)" if "\<forall>(s, w) \<in> set ys. s = (5 :: rat)" for ys
    using that by (induction ys) (auto simp: weighted_def)
  then show "\<forall>(s, w) \<in> set xs. s = (5 :: rat) \<Longrightarrow> \<not> blocked \<Longrightarrow> rubric_score xs blocked = 1"
    by (simp add: rubric_score_def Let_def)
qed

lemma scored_entry:
  assumes "e \<in> set (zip (map so_score (map (score_criterion l c gates a) cs)) (map weight cs))"
  shows "\<exists>crit \<in> set cs. e = (if criterion_present l c gates a crit then 5 else 0, weight crit)"
proof -
  have "zip (map so_score (map (score_criterion l c gates a) cs)) (map weight cs)
      = map (\<lambda>crit. (if criterion_present l c gates a crit then 5 else 0, weight crit)) cs"
    by (induction cs) (simp_all add: score_criterion_def Let_def)
  then show ?thesis
    using assms by auto
qed

lemma passed_iff:
  assumes "rubric_fits r" "crit \<in> set (ru_criteria r)"
  shows "so_passed (score_criterion l c gates a crit) \<longleftrightarrow> criterion_present l c gates a crit"
  using assms by (cases "rc_minScore crit") (auto simp: rubric_fits_def list_all_iff score_criterion_def Let_def)

lemma weight_nonneg: "rubric_fits r \<Longrightarrow> crit \<in> set (ru_criteria r) \<Longrightarrow> 0 \<le> weight crit"
  by (cases "rc_weight crit") (auto simp: rubric_fits_def list_all_iff weight_def)

lemma scored_fits:
  assumes "rubric_fits r"
  shows "list_all (\<lambda>c. text_within 0 80 (so_id c) \<and> 0 \<le> so_score c \<and> so_score c \<le> 5 \<and> text_within 0 1000 (so_reason c)
    \<and> length (so_evidence c) \<le> 10 \<and> list_all (text_within 0 1000) (so_evidence c)) (map (score_criterion l c gates a) (ru_criteria r))"
  using assms by (auto simp: rubric_fits_def list_all_iff score_criterion_def Let_def text_within_def)

lemma blockers_fit:
  assumes "rubric_fits r"
  shows "length (orelse (ru_mandatoryBlockers r) []) \<le> 10
    \<and> list_all (\<lambda>b. text_within 0 300 (bl_id b) \<and> text_within 0 500 (bl_reason b))
        (map (judge_blocker l c gates a) (orelse (ru_mandatoryBlockers r) []))"
  using assms by (cases "ru_mandatoryBlockers r") (auto simp: rubric_fits_def list_all_iff judge_blocker_def Let_def text_within_def)

definition rubric_spec :: "loop \<Rightarrow> checkpoint \<Rightarrow> loop_gate list \<Rightarrow> loop_audit option \<Rightarrow> rubric \<Rightarrow> rubric_status" where
  "rubric_spec l c gates a r =
     (if list_ex (blocker_present l c gates a) (orelse (ru_mandatoryBlockers r) []) then RubricBlocked
      else if list_all (criterion_present l c gates a) (ru_criteria r) then RubricPass else RubricFail)"

text \<open>C19: A rubric is decided by evidence alone: the verdict is blocked when a mandatory blocker is present, otherwise pass when the
  runtime evidence of every criterion is present, otherwise fail. The weights, the minimal scores and the threshold only enter
  the score that is shown (every criterion has to pass, so they cannot change the verdict), which stays between 0 and 1, and the
  result is a valid part of the row.\<close>

theorem rubric_is_decided_by_evidence:
  assumes fits: "rubric_fits r" and rubric: "lp_rubric l = Some r" and result: "evaluateRubric l c gates a = Some res"
  shows "rr_status res = rubric_spec l c gates a r \<and> rubric_result_fits res"
proof -
  let ?scored = "map (score_criterion l c gates a) (ru_criteria r)"
  let ?entries = "zip (map so_score ?scored) (map weight (ru_criteria r))"
  let ?blocked = "list_ex (blocker_present l c gates a) (orelse (ru_mandatoryBlockers r) [])"
  have blocked: "list_ex bl_present (map (judge_blocker l c gates a) (orelse (ru_mandatoryBlockers r) [])) = ?blocked"
    by (simp add: list_ex_iff judge_blocker_def Let_def)
  have passed: "list_all so_passed ?scored \<longleftrightarrow> list_all (criterion_present l c gates a) (ru_criteria r)"
    using passed_iff[OF fits] by (auto simp: list_all_iff)
  have entries: "\<forall>(s, w) \<in> set ?entries. 0 \<le> s \<and> s \<le> 5 \<and> 0 \<le> w"
    using scored_entry weight_nonneg[OF fits] by (fastforce split: if_splits)
  have score: "0 \<le> rubric_score ?entries b \<and> rubric_score ?entries b \<le> 1" for b
    by (rule rubric_score_bounds[OF entries])
  have full: "rubric_score ?entries ?blocked = 1" if "\<not> ?blocked" "list_all (criterion_present l c gates a) (ru_criteria r)"
    using that scored_entry by (intro full_score) (fastforce simp: list_all_iff split: if_splits)+
  have threshold: "0 \<le> orelse (ru_passThreshold r) (85 / 100) \<and> orelse (ru_passThreshold r) (85 / 100) \<le> 1"
    using fits by (cases "ru_passThreshold r") (auto simp: rubric_fits_def)
  have res: "rr_status res = (if ?blocked then RubricBlocked
        else if orelse (ru_passThreshold r) (85 / 100) \<le> rubric_score ?entries ?blocked \<and> list_all so_passed ?scored then RubricPass else RubricFail)"
      "rr_score res = rubric_score ?entries ?blocked" "rr_threshold res = orelse (ru_passThreshold r) (85 / 100)"
      "rr_criteria res = ?scored" "rr_blockers res = map (judge_blocker l c gates a) (orelse (ru_mandatoryBlockers r) [])"
    using result rubric by (auto simp: evaluateRubric_def Let_def blocked split: if_splits)
  have "rr_status res = rubric_spec l c gates a r"
    using res(1) full threshold passed by (auto simp: rubric_spec_def)
  moreover have "rubric_result_fits res"
    using score threshold scored_fits[OF fits] blockers_fit[OF fits] fits
    by (simp add: rubric_result_fits_def res rubric_fits_def)
  ultimately show ?thesis ..
qed

definition sample_rubric :: rubric where
  "sample_rubric = \<lparr>ru_name = None, ru_passThreshold = Some (9 / 10), ru_criteria = [\<lparr>rc_id = ''tests'', rc_description = ''tests pass'',
     rc_weight = Some 3, rc_minScore = Some 5, rc_evidenceRequired = Some [''success checks'']\<rparr>], ru_mandatoryBlockers = None\<rparr>"

definition sample_rubric_loop :: loop where
  "sample_rubric_loop = (plain_loop External (Goal None))\<lparr>lp_rubric := Some sample_rubric, lp_checks := Some [''bun test'']\<rparr>"

lemma rubric_is_decided_by_evidence_witness:
  "\<exists>res. evaluateRubric sample_rubric_loop sample_claim [new_gate ''bun test'' GPass None None] None = Some res \<and> rr_status res = RubricPass"
proof -
  let ?g = "[new_gate ''bun test'' GPass None None]"
  have spec: "rubric_spec sample_rubric_loop sample_claim ?g None sample_rubric = RubricPass"
    by code_simp
  have fits: "rubric_fits sample_rubric"
    by code_simp
  obtain res where res: "evaluateRubric sample_rubric_loop sample_claim ?g None = Some res"
    by (simp add: evaluateRubric_def sample_rubric_loop_def sample_rubric_def sample_claim_def Let_def)
  from rubric_is_decided_by_evidence[OF fits _ res] have "rr_status res = RubricPass"
    by (simp add: sample_rubric_loop_def spec[unfolded sample_rubric_loop_def])
  then show ?thesis
    using res by blast
qed

end
