(* ===== verification/LoopAudit.thy ===== *)
theory LoopAudit
  imports LoopReview
begin

text \<open>
  The independent audit of a claim (\<open>packages/loops/src/audit.ts\<close>): the verdict of the last \<open>AUDIT_VERDICT\<close> block without a list of
  expected criteria (as loops ask for it), the audit record, and what the next run is told about a rejected claim. The list of
  criteria in a verdict, which only workflows ask for, is not modelled.
\<close>

text \<open>\<open>/^\s*verdict\s*:\s*(pass|fail)\b/im\<close> and \<open>/^\s*findings\s*:\s*([\s\S]*)$/im\<close> at a start of a line.\<close>

definition behind_key :: "string \<Rightarrow> string \<Rightarrow> string option" where
  "behind_key name s =
     (let s1 = skip_space s in
      if lower (take (length name) s1) \<noteq> name then None
      else case skip_space (drop (length name) s1) of
        [] \<Rightarrow> None
      | c # rest \<Rightarrow> if c = CHR '':'' then Some (skip_space rest) else None)"

definition verdict_at :: "string \<Rightarrow> gate_status option" where
  "verdict_at s =
     (case behind_key ''verdict'' s of None \<Rightarrow> None
      | Some rest \<Rightarrow>
          if lower (take 4 rest) = ''pass'' \<and> word_ends (drop 4 rest) then Some GPass
          else if lower (take 4 rest) = ''fail'' \<and> word_ends (drop 4 rest) then Some GFail else None)"

definition parseVerdict :: "string \<Rightarrow> (gate_status \<times> string) option" where
  "parseVerdict s =
     (case truthy (lastMarkedBlock s ''AUDIT_VERDICT'') of None \<Rightarrow> None
      | Some body \<Rightarrow>
          (case List.map_filter verdict_at (line_starts body) of [] \<Rightarrow> None
           | stated # _ \<Rightarrow>
               let findings = (case List.map_filter (behind_key ''findings'') (line_starts body) of [] \<Rightarrow> [] | f # _ \<Rightarrow> js_trim f)
               in Some (stated, take 4000 findings)))"

definition failed_gates :: "loop_gate list \<Rightarrow> loop_gate list" where
  "failed_gates gates = filter (\<lambda>g. ga_status g = GFail) gates"

definition failed_line :: "loop_gate \<Rightarrow> string" where
  "failed_line g = ''- '' @ ga_id g @ (case truthy (ga_detail g) of None \<Rightarrow> [] | Some d \<Rightarrow> [CHR 0x0A] @ d)"

definition rejectionFeedback :: "loop_gate list \<Rightarrow> loop_audit option \<Rightarrow> string" where
  "rejectionFeedback gates a =
     take 4000 (js_join [CHR 0x0A]
       ((if failed_gates gates \<noteq> [] then ''Checks failed:'' # map failed_line (failed_gates gates) else [])
        @ (case a of None \<Rightarrow> []
           | Some x \<Rightarrow>
               [if la_workspaceChanged x then ''The audit was void: the workspace changed while it ran.''
                else ''The independent audit did not confirm the goal:'' @ [CHR 0x0A] @ or_else_text (la_findings x) ''(no findings)''])))"

text \<open>What an audit reported, and the record of it; the end of \<open>verify\<close> in \<open>service.ts\<close>.\<close>

record audit_report =
  ap_answer :: string
  ap_inspections :: nat
  ap_workspaceChanged :: bool
  ap_sessionId :: string

definition audit_of :: "audit_report \<Rightarrow> loop_audit" where
  "audit_of a =
     (let verdict = parseVerdict (ap_answer a); blind = ap_inspections a = 0 in
      \<lparr>la_verdict = (if blind then GFail else case verdict of Some (v, _) \<Rightarrow> v | None \<Rightarrow> GFail),
       la_findings = (if blind then ''the auditor inspected nothing (no successful read or search), so its verdict cannot be trusted''
         else case verdict of Some (_, f) \<Rightarrow> f | None \<Rightarrow> ''the auditor gave no AUDIT_VERDICT block''),
       la_sessionId = Some (ap_sessionId a), la_workspaceChanged = ap_workspaceChanged a\<rparr>)"

definition audit_accepts :: "loop_audit \<Rightarrow> bool" where
  "audit_accepts a \<longleftrightarrow> la_verdict a = GPass \<and> \<not> la_workspaceChanged a"

definition audit_gate :: "loop_audit \<Rightarrow> loop_gate" where
  "audit_gate a =
     new_gate ''independent-audit'' (if audit_accepts a then GPass else GFail)
       (if la_workspaceChanged a \<or> prefix_rest ''the auditor inspected nothing'' (la_findings a) \<noteq> None then Some FailIntegrity else None)
       (Some (take 2000 (la_findings a)))"

lemma blind_audit_fails: "ap_inspections a = 0 \<Longrightarrow> \<not> audit_accepts (audit_of a)"
  by (simp add: audit_accepts_def audit_of_def Let_def)

end
