(* ===== verification/LoopInputs.thy ===== *)
theory LoopInputs
  imports LoopSchema
begin

text \<open>
  What a loop is created and changed from: the built-in templates (\<open>packages/loops/src/templates.ts\<close>), how an input and its
  template become a loop (\<open>inputs.ts\<close>), and how a patch inherits the saved fields (\<open>loopUpdateInput\<close> in \<open>service.ts\<close>).
\<close>

section \<open>Templates\<close>

record loop_template =
  tp_id :: string
  tp_name :: string
  tp_description :: string
  tp_objective :: string
  tp_rules :: "string list"
  tp_stopWhen :: "string list"
  tp_trigger :: loop_trigger
  tp_budget :: loop_budget
  tp_reportOnly :: "bool option"

definition MINUTE :: int where "MINUTE = 60000"

definition LOOP_TEMPLATES :: "loop_template list" where
  "LOOP_TEMPLATES =
    [\<lparr>tp_id = ''pr-watch'', tp_name = ''PR Watch'',
      tp_description = ''Poll a PR/checks/review cycle and surface only actionable next steps.'',
      tp_objective = ''Monitor the active PR or requested PR until checks and review feedback are resolved. Make safe local fixes when possible and ask before push/merge/release.'',
      tp_rules = [''checks green'', ''review feedback addressed'', ''user approval before push or merge''],
      tp_stopWhen = [''PR merged'', ''user stops the loop'', ''blocked by credentials or external approval''],
      tp_trigger = Adaptive \<lparr>ad_everyMs = 15 * MINUTE, ad_minMs = Some (5 * MINUTE), ad_maxMs = Some (2 * 60 * MINUTE)\<rparr>,
      tp_budget = Goal (Some 100), tp_reportOnly = None\<rparr>,
     \<lparr>tp_id = ''ci-repair'', tp_name = ''CI Repair'',
      tp_description = ''Keep inspecting failing checks, patch locally, and wait between attempts.'',
      tp_objective = ''Investigate failing CI or test output, implement focused fixes, run the narrow validation locally, and checkpoint progress after every iteration.'',
      tp_rules = [''local focused tests pass'', ''no unrelated files staged'', ''user approval before push''],
      tp_stopWhen = [''all targeted checks pass'', ''failure is external or needs credentials''],
      tp_trigger = Interval (10 * MINUTE), tp_budget = Goal (Some 50), tp_reportOnly = None\<rparr>,
     \<lparr>tp_id = ''research-digest'', tp_name = ''Research Digest'',
      tp_description = ''Periodically research a topic and keep a durable journal of findings.'',
      tp_objective = ''Research the requested topic from primary sources, summarize changes since the previous iteration, and keep a concise journal with links and open questions.'',
      tp_rules = [''cite primary/current sources'', ''separate verified facts from inference''],
      tp_stopWhen = [''user confirms enough research'', ''no material changes after repeated iterations''],
      tp_trigger = Adaptive \<lparr>ad_everyMs = 60 * MINUTE, ad_minMs = Some (30 * MINUTE), ad_maxMs = Some (24 * 60 * MINUTE)\<rparr>,
      tp_budget = Monitor, tp_reportOnly = Some True\<rparr>,
     \<lparr>tp_id = ''repo-maintenance'', tp_name = ''Repo Maintenance'',
      tp_description = ''Run periodic repo hygiene without broad refactors.'',
      tp_objective = ''Check the repository for focused maintenance opportunities, run narrow validation, fix small safe issues, and report any risky work instead of doing it silently.'',
      tp_rules = [''no broad refactors without approval'', ''preserve dirty user changes'', ''focused tests before completion''],
      tp_stopWhen = [''no safe maintenance remains'', ''blocked by user decision''],
      tp_trigger = Interval (30 * MINUTE), tp_budget = Monitor, tp_reportOnly = None\<rparr>]"

definition getLoopTemplate :: "string option \<Rightarrow> loop_template option" where
  "getLoopTemplate i = Option.bind (truthy i) (\<lambda>n. List.find (\<lambda>t. tp_id t = n) LOOP_TEMPLATES)"

abbreviation newline :: string where "newline \<equiv> [CHR 0x0A]"

definition bullets :: "string list \<Rightarrow> string" where
  "bullets xs = js_join newline (map (\<lambda>x. ''- '' @ x) xs)"

definition templateObjective :: "loop_template \<Rightarrow> string option \<Rightarrow> string" where
  "templateObjective t extra =
     js_join newline ([tp_objective t]
       @ (case truthy (map_option js_trim extra) of Some x \<Rightarrow> [[], ''Specifically: '' @ x] | None \<Rightarrow> [])
       @ [[], ''Rules:'' @ newline @ bullets (tp_rules t), [], ''Stop and report when:'' @ newline @ bullets (tp_stopWhen t)])"

definition templateCriteria :: "loop_template \<Rightarrow> string option" where
  "templateCriteria t =
     (case (tp_budget t, tp_stopWhen t) of (Goal _, first # _) \<Rightarrow> Some first | _ \<Rightarrow> None)"

definition template_summary :: "loop_template \<Rightarrow> string" where
  "template_summary t =
     describeTrigger (tp_trigger t) @ '', ''
     @ (case tp_budget t of Goal _ \<Rightarrow> ''until the goal is met'' | Monitor \<Rightarrow> ''until stopped'' | Fixed n \<Rightarrow> nat_text n @ '' runs'')
     @ (if tp_reportOnly t = Some True then '', report-only'' else [])"

section \<open>Inputs\<close>

record loop_options =
  op_objective :: "string option"
  op_criteria :: "string option"
  op_trigger :: "loop_trigger option"
  op_budget :: "loop_budget option"
  op_runNow :: bool
  op_checks :: "string list option"
  op_audit :: "audit_choice option"
  op_template :: "string option"
  op_reportOnly :: "bool option"
  op_workspace :: "loop_workspace option"
  op_draft :: bool
  op_costBudget :: "cost_budget option"
  op_rubric :: "rubric option"
  op_approvalPolicy :: "approval_action list option"
  op_creatorSessionId :: "string option"
  op_notify :: "notify_choice option"
  op_permission :: "run_permission option"
  op_reads :: "string list option"

record create_input = loop_options +
  ci_name :: string
  ci_directory :: string

text \<open>A patch: the new name, if any, and the options.\<close>

record loop_patch = loop_options +
  pt_name :: "string option"

definition first_of :: "'a option \<Rightarrow> 'a option \<Rightarrow> 'a option" where
  "first_of a b = (case a of Some v \<Rightarrow> Some v | None \<Rightarrow> b)"

definition loopUpdateInput :: "loop \<Rightarrow> loop_patch \<Rightarrow> create_input" where
  "loopUpdateInput l p =
     \<lparr>op_objective = first_of (op_objective p) (if truthy (op_template p) \<noteq> None then None else Some (lp_objective l)),
       op_criteria = first_of (op_criteria p) (if truthy (op_template p) \<noteq> None then None else lp_criteria l),
       op_trigger = first_of (op_trigger p) (if truthy (op_template p) \<noteq> None then None else Some (lp_trigger l)),
       op_budget = first_of (op_budget p) (if truthy (op_template p) \<noteq> None then None else Some (lp_budget l)),
       op_runNow = op_runNow p,
       op_checks = first_of (op_checks p) (lp_checks l),
       op_audit = first_of (op_audit p) (lp_audit l),
       op_template = op_template p,
       op_reportOnly = first_of (op_reportOnly p) (if truthy (op_template p) \<noteq> None then None else lp_reportOnly l),
       op_workspace = first_of (op_workspace p) (lp_workspace l),
       op_draft = op_draft p,
       op_costBudget = first_of (op_costBudget p) (lp_costBudget l),
       op_rubric = first_of (op_rubric p) (lp_rubric l),
       op_approvalPolicy = first_of (op_approvalPolicy p) (lp_approvalPolicy l),
       op_creatorSessionId = op_creatorSessionId p,
       op_notify = first_of (op_notify p) (lp_notify l),
       op_permission = first_of (op_permission p) (lp_permission l),
       op_reads = first_of (op_reads p) (lp_reads l),
       ci_name = orelse (pt_name p) (lp_name l),
       ci_directory = lp_directory l\<rparr>"

text \<open>
  An input with its template. The code takes the objective, the trigger and the budget without a check
  (\<open>input.objective!\<close>, \<open>template!.trigger\<close>); where one of them is missing there is no result here.
\<close>

record resolved =
  rs_template :: "loop_template option"
  rs_objective :: string
  rs_trigger :: loop_trigger
  rs_budget :: loop_budget
  rs_criteria :: "string option"
  rs_reportOnly :: "bool option"

definition resolveCreateInput :: "('a) loop_options_scheme \<Rightarrow> resolved option" where
  "resolveCreateInput i =
     (let t = getLoopTemplate (op_template i) in
      case (case t of Some x \<Rightarrow> Some (templateObjective x (op_objective i)) | None \<Rightarrow> op_objective i,
            first_of (op_trigger i) (map_option tp_trigger t), first_of (op_budget i) (map_option tp_budget t)) of
        (Some objective, Some trigger, Some budget) \<Rightarrow>
          Some \<lparr>rs_template = t, rs_objective = objective, rs_trigger = trigger, rs_budget = budget,
            rs_criteria = first_of (op_criteria i) (if op_budget i = None then Option.bind t templateCriteria else None),
            rs_reportOnly = first_of (op_reportOnly i) (Option.bind t tp_reportOnly)\<rparr>
      | _ \<Rightarrow> None)"

definition createProblems :: "('a) loop_options_scheme \<Rightarrow> string option" where
  "createProblems i =
     (let t = getLoopTemplate (op_template i) in
      if truthy (op_template i) \<noteq> None \<and> t = None then Some (''unknown loop template '' @ [CHR 0x22] @ orelse (op_template i) [] @ [CHR 0x22])
      else if t = None \<and> \<not> (truthy (op_objective i) \<noteq> None \<and> op_trigger i \<noteq> None \<and> op_budget i \<noteq> None)
      then Some ''a loop needs an objective, a trigger and a budget (or a template that supplies them)''
      else if first_of (op_reportOnly i) (Option.bind t tp_reportOnly) = Some True \<and> op_workspace i = Some WorktreeRuns
      then Some ''a report-only loop never edits, so it needs no worktree''
      else if (case op_rubric i of None \<Rightarrow> False | Some r \<Rightarrow> ru_criteria r \<noteq> [] \<or> orelse (ru_mandatoryBlockers r) [] \<noteq> [])
        \<and> (case first_of (op_budget i) (map_option tp_budget t) of Some (Goal _) \<Rightarrow> False | _ \<Rightarrow> True)
      then Some ''a rubric needs a goal loop''
      else None)"

lemma accepted_input_resolves: "createProblems i = None \<Longrightarrow> \<exists>r. resolveCreateInput i = Some r"
  by (auto simp: createProblems_def resolveCreateInput_def Let_def first_of_def truthy_def split: option.splits if_splits)

lemma templates_found: "t \<in> set LOOP_TEMPLATES \<Longrightarrow> getLoopTemplate (Some (tp_id t)) = Some t"
  by (auto simp: LOOP_TEMPLATES_def getLoopTemplate_def)

end
