(* ===== verification/LoopService.thy ===== *)
theory LoopService
  imports LoopRubric LoopAudit LoopInputs
begin

text \<open>
  The loop service (\<open>packages/loops/src/service.ts\<close>) as a state machine: the loops in memory, the runs in progress, the
  verifications, and the work that is awaited. A handler runs without interruption, so it is a function on the state; each
  \<open>await\<close> ends a function, and what comes after it is the function of the task that was left. A clock reading and the id of a
  session that is created are arguments. The map of sessions refers to run objects that others hold as well, so the objects
  are kept in a store and are named by their place in it. Parameters: \<open>JSON.parse\<close>, the calendar, the text of a number, the hash of
  a checkpoint and \<open>redactSecrets\<close>. Not modelled: the observers of \<open>tick\<close>, which only answer its caller, and exceptions of
  the callbacks.
\<close>

section \<open>The state\<close>

record loop_env =
  le_parse :: "string \<Rightarrow> json option"
  le_zones :: zones
  le_show :: "rat \<Rightarrow> string"
  le_hash :: "nat \<times> int \<times> checkpoint \<Rightarrow> string"
  le_redact :: "string \<Rightarrow> string"
  le_worktrees :: bool
  le_approvalTimeoutMs :: nat

record live =
  lv_loopId :: string
  lv_run :: nat
  lv_queueId :: "string option"
  lv_turnId :: "string option"
  lv_lastAnswer :: string
  lv_answerItems :: "string list"
  lv_started :: "(string \<times> string) list"
  lv_reportOnly :: bool
  lv_usageRecorded :: bool
  lv_timedOut :: "string option"

record wait_timer =
  wt_live :: nat
  wt_sessionId :: string
  wt_requestId :: string
  wt_title :: string

datatype verify_outcome =
    OAborted
  | OInterrupted
  | OChecksFailed "loop_gate list"
  | OChecked "loop_gate list"
  | OUnavailable "loop_gate list" string
  | OAudited "loop_gate list" audit_report

text \<open>What follows the release of a lease.\<close>

datatype after_release = AfterNothing | AfterEnd string loop | AfterVerify loop verify_outcome

text \<open>Work that is awaited, with what the code behind the \<open>await\<close> still refers to.\<close>

datatype task =
    TCreating loop loop "(int \<times> string option) option"
  | TDropping string nat worktree
  | TSubmitting string nat loop
  | TReleasing string nat worktree after_release
  | TReleased string after_release
  | TVerifying loop nat

datatype effect =
    ESave loop
  | ERemove string
  | ESubmit string nat
  | ECancelTurn string string
  | ENotify string nat
  | ECreateWorktree string nat "string option"
  | EReleaseWorktree string

record service =
  sv_loops :: "(string \<times> loop) list"
  sv_bySession :: "(string \<times> nat) list"
  sv_lives :: "live list"
  sv_usageSeq :: "(string \<times> nat) list"
  sv_waits :: "(string \<times> wait_timer) list"
  sv_verifications :: "(string \<times> nat) list"
  sv_aborted :: "nat list"
  sv_controllers :: nat
  sv_releasing :: "string list"
  sv_tasks :: "task list"
  sv_timer :: "int option"
  sv_log :: "effect list"

definition get_loop :: "service \<Rightarrow> string \<Rightarrow> loop option" where
  "get_loop s i = map_of (sv_loops s) i"

definition emit :: "effect \<Rightarrow> service \<Rightarrow> service" where
  "emit e s = s\<lparr>sv_log := sv_log s @ [e]\<rparr>"

definition add_task :: "task \<Rightarrow> service \<Rightarrow> service" where
  "add_task t s = s\<lparr>sv_tasks := sv_tasks s @ [t]\<rparr>"

definition get_live :: "service \<Rightarrow> nat \<Rightarrow> live option" where
  "get_live s a = (if a < length (sv_lives s) then Some (sv_lives s ! a) else None)"

definition set_live :: "nat \<Rightarrow> (live \<Rightarrow> live) \<Rightarrow> service \<Rightarrow> service" where
  "set_live a f s = (case get_live s a of None \<Rightarrow> s | Some v \<Rightarrow> s\<lparr>sv_lives := (sv_lives s)[a := f v]\<rparr>)"

section \<open>Saving a loop, and the timer\<close>

definition outcome_name :: "run_outcome \<Rightarrow> string" where
  "outcome_name x = (case x of OutCompleted \<Rightarrow> ''completed'' | OutFailed \<Rightarrow> ''failed'' | OutCancelled \<Rightarrow> ''cancelled''
     | OutInterrupted \<Rightarrow> ''interrupted'')"

definition journal_kind :: "loop option \<Rightarrow> loop \<Rightarrow> journal_type" where
  "journal_kind before l =
     (case before of None \<Rightarrow> JCreated
      | Some b \<Rightarrow>
          if lp_runs l \<noteq> lp_runs b then JRun
          else if Option.bind (last_run l) lr_endedAt \<noteq> Option.bind (last_run b) lr_endedAt then JCheckpoint
          else if Option.bind (last_run l) lr_gates \<noteq> Option.bind (last_run b) lr_gates
                  \<or> Option.bind (last_run l) lr_audit \<noteq> Option.bind (last_run b) lr_audit then JVerification
          else if lp_state l \<noteq> lp_state b then JState else JUpdated)"

definition journal_title :: "journal_type \<Rightarrow> loop \<Rightarrow> string" where
  "journal_title k l =
     (case k of
        JCreated \<Rightarrow> (if lp_draft l then ''Draft'' else ''Loop'') @ '' created: '' @ lp_name l
      | JRun \<Rightarrow> ''Run '' @ nat_text (lp_runs l) @ '' started''
      | JCheckpoint \<Rightarrow>
          or_else_text (case Option.bind (last_run l) lr_checkpoint of Some c \<Rightarrow> ch_summary c | None \<Rightarrow> [])
            (''Run '' @ nat_text (lp_runs l) @ '' '' @ (case Option.bind (last_run l) lr_outcome of Some x \<Rightarrow> outcome_name x | None \<Rightarrow> ''ended''))
      | _ \<Rightarrow> or_else_text (orelse (lp_reason l) []) (lp_name l @ '': '' @ state_name (lp_state l)))"

definition journal_entry :: "int \<Rightarrow> journal_event list \<Rightarrow> journal_type \<Rightarrow> loop \<Rightarrow> journal_event" where
  "journal_entry now js k l =
     \<lparr>je_seq = (if js = [] then 0 else je_seq (last js)) + 1, je_time = now, je_type = k, je_title = take 500 (journal_title k l),
      je_run = (if 0 < lp_runs l then Some (lp_runs l) else None)\<rparr>"

definition with_journal :: "int \<Rightarrow> bool \<Rightarrow> loop option \<Rightarrow> loop \<Rightarrow> loop" where
  "with_journal now journalled before l =
     (let js = orelse (first_of (Option.bind before lp_journal) (lp_journal l)) [] in
      l\<lparr>lp_journal := Some (if journalled then last_n 200 (js @ [journal_entry now js (journal_kind before l) l]) else js)\<rparr>)"

definition put_loop :: "int \<Rightarrow> bool \<Rightarrow> loop \<Rightarrow> service \<Rightarrow> service" where
  "put_loop now journalled l s =
     (let saved = with_journal now journalled (get_loop s (lp_loopId l)) l in
      emit (ESave saved) (s\<lparr>sv_loops := AList.update (lp_loopId l) saved (sv_loops s)\<rparr>))"

definition wakes :: "service \<Rightarrow> int list" where
  "wakes s = List.map_filter (\<lambda>(_, l). if lp_state l = LActive then lp_nextWakeAt l else None) (sv_loops s)"

definition arm :: "service \<Rightarrow> service" where
  "arm s = s\<lparr>sv_timer := (case wakes s of [] \<Rightarrow> None | t # ts \<Rightarrow> Some (foldl min t ts))\<rparr>"

definition patchRun :: "int \<Rightarrow> string \<Rightarrow> nat \<Rightarrow> (loop_run \<Rightarrow> loop_run) \<Rightarrow> service \<Rightarrow> service" where
  "patchRun now i n f s =
     (case get_loop s i of None \<Rightarrow> s
      | Some l \<Rightarrow>
          if list_all (\<lambda>r. lr_run r \<noteq> n) (lp_history l) then s
          else put_loop now True (l\<lparr>lp_history := map (\<lambda>r. if lr_run r = n then f r else r) (lp_history l)\<rparr>) s)"

section \<open>Leases\<close>

definition active_lease :: "loop \<Rightarrow> (nat \<times> worktree) option" where
  "active_lease l =
     (case filter (\<lambda>(_, w). wt_state w = LeaseActive) (List.map_filter (\<lambda>r. map_option (Pair (lr_run r)) (lr_worktree r)) (lp_history l)) of
        [] \<Rightarrow> None | x # xs \<Rightarrow> Some (last (x # xs)))"

definition holds_lease :: "loop \<Rightarrow> bool" where
  "holds_lease l \<longleftrightarrow> active_lease l \<noteq> None"

text \<open>\<open>releaseLease\<close> up to its \<open>await\<close>; a promise that is already kept leaves a task as well, for its callback runs later.\<close>

definition releaseLease :: "loop_env \<Rightarrow> string \<Rightarrow> after_release \<Rightarrow> service \<Rightarrow> service" where
  "releaseLease env i after s =
     (case Option.bind (get_loop s i) active_lease of
        None \<Rightarrow> add_task (TReleased i after) s
      | Some (n, w) \<Rightarrow>
          if wt_path w \<in> set (sv_releasing s) then add_task (TReleased i after) s
          else add_task (TReleasing i n w after)
                 ((if le_worktrees env then emit (EReleaseWorktree (wt_path w)) else id)
                   (s\<lparr>sv_releasing := wt_path w # sv_releasing s\<rparr>)))"

definition released_lease :: "worktree \<Rightarrow> lease_state \<Rightarrow> string option \<Rightarrow> worktree" where
  "released_lease w st detail =
     w\<lparr>wt_state := st, wt_detail := (case truthy detail of Some d \<Rightarrow> Some (take 500 d) | None \<Rightarrow> wt_detail w)\<rparr>"

section \<open>Usage\<close>

definition unknown_usage :: "loop_usage option \<Rightarrow> loop_usage" where
  "unknown_usage u =
     (let p = orelse u EMPTY_USAGE in
      \<lparr>lu_tokens = lu_tokens p, lu_costMicros = lu_costMicros p, lu_unknownCostCalls = lu_unknownCostCalls p + 1,
       lu_unreportedTurns = Some (orelse (lu_unreportedTurns p) 0 + 1)\<rparr>)"

definition on_run :: "nat \<Rightarrow> (loop_run \<Rightarrow> loop_run) \<Rightarrow> loop \<Rightarrow> loop" where
  "on_run n f l = l\<lparr>lp_history := map (\<lambda>r. if lr_run r = n then f r else r) (lp_history l)\<rparr>"

definition recordUnreported :: "int \<Rightarrow> string \<Rightarrow> nat \<Rightarrow> service \<Rightarrow> service" where
  "recordUnreported now i n s =
     (case get_loop s i of None \<Rightarrow> s
      | Some l \<Rightarrow>
          put_loop now False
            ((on_run n (\<lambda>r. r\<lparr>lr_usage := Some (unknown_usage (lr_usage r))\<rparr>) l)
               \<lparr>lp_usage := Some (unknown_usage (Some (carriedUsage l))), lp_updatedAt := now\<rparr>) s)"

definition budget_blocks :: "loop_env \<Rightarrow> loop \<Rightarrow> bool" where
  "budget_blocks env l \<longleftrightarrow> map_option ga_status (loopBudgetGate (le_show env) l) = Some GFail"

definition recordUsage :: "loop_env \<Rightarrow> int \<Rightarrow> string \<Rightarrow> usage_event \<Rightarrow> nat \<Rightarrow> service \<Rightarrow> service" where
  "recordUsage env now i e n s =
     (if ue_seq e \<le> orelse (map_of (sv_usageSeq s) (ue_sessionId e)) 0 then s
      else let s1 = s\<lparr>sv_usageSeq := AList.update (ue_sessionId e) (ue_seq e) (sv_usageSeq s)\<rparr> in
        case get_loop s1 i of None \<Rightarrow> s1
        | Some l \<Rightarrow>
            let next = (on_run n (\<lambda>r. r\<lparr>lr_usage := Some (addUsage (lr_usage r) e)\<rparr>) l)
                         \<lparr>lp_usage := Some (addUsage (Some (carriedUsage l)) e), lp_updatedAt := now\<rparr>;
                s2 = put_loop now False next s1
            in if budget_blocks env next then emit (ECancelTurn (ue_sessionId e) (ue_turnId e)) s2 else s2)"

section \<open>A wakeup\<close>

definition new_live :: "string \<Rightarrow> nat \<Rightarrow> bool \<Rightarrow> live" where
  "new_live i n report = \<lparr>lv_loopId = i, lv_run = n, lv_queueId = None, lv_turnId = None, lv_lastAnswer = [], lv_answerItems = [],
     lv_started = [], lv_reportOnly = report, lv_usageRecorded = False, lv_timedOut = None\<rparr>"

text \<open>The end of \<open>startRun\<close> up to \<open>submit\<close>: the run object of the session and the message. The text of the message is left out.\<close>

definition submit_run :: "string \<Rightarrow> loop \<Rightarrow> bool \<Rightarrow> service \<Rightarrow> service" where
  "submit_run sid running report s =
     (let a = length (sv_lives s);
          s1 = s\<lparr>sv_lives := sv_lives s @ [new_live (lp_loopId running) (lp_runs running) report],
                 sv_bySession := AList.update sid a (sv_bySession s)\<rparr>
      in add_task (TSubmitting sid a running) (emit (ESubmit sid (lp_runs running)) s1))"

text \<open>The branch a run goes on from, when the run before it kept one.\<close>

definition chained :: "loop \<Rightarrow> string option" where
  "chained l =
     (case (lp_budget l, Option.bind (last_run l) lr_worktree) of
        (Monitor, _) \<Rightarrow> None
      | (_, Some w) \<Rightarrow> if wt_state w = LeaseRetained then Some (wt_branch w) else None
      | _ \<Rightarrow> None)"

definition begin_run :: "loop_env \<Rightarrow> int \<Rightarrow> string \<Rightarrow> run_trigger \<Rightarrow> bool \<Rightarrow> loop \<Rightarrow> service \<Rightarrow> service" where
  "begin_run env now sid how report l s =
     (let fired = lp_pendingFire l;
          running = beginRun (l\<lparr>lp_reviewInvalidatedAt := None\<rparr>) now (Some (if fired \<noteq> None then ByFire else how)) None None;
          s1 = put_loop now True running s
      in if report then
           submit_run sid running True (patchRun now (lp_loopId l) (lp_runs running) (\<lambda>r. r\<lparr>lr_sessionId := Some sid\<rparr>) s1)
         else if lp_workspace l = Some WorktreeRuns then
           add_task (TCreating l running fired)
             ((if le_worktrees env then emit (ECreateWorktree (lp_loopId l) (lp_runs running) (chained l)) else id) s1)
         else submit_run (lp_sessionId l) running False s1)"

definition startRun :: "loop_env \<Rightarrow> int \<Rightarrow> string \<Rightarrow> run_trigger \<Rightarrow> bool \<Rightarrow> loop \<Rightarrow> service \<Rightarrow> service" where
  "startRun env now sid how report l s =
     (if budget_blocks env l
      then arm (put_loop now True
             (l\<lparr>lp_nextWakeAt := None, lp_state := LBlocked, lp_reason := Option.bind (loopBudgetGate (le_show env) l) ga_detail,
                lp_updatedAt := now\<rparr>) s)
      else begin_run env now sid how report l s)"

text \<open>Behind the \<open>await\<close> of \<open>worktree.create\<close>: a path, a branch and the commit it was cut from, or why there is none.\<close>

type_synonym made = "string + (string \<times> string \<times> string)"

definition no_answer :: "run_outcome \<Rightarrow> int \<Rightarrow> run_end" where
  "no_answer x now = \<lparr>en_outcome = x, en_finalText = [], en_time = now\<rparr>"

definition end_loop :: "loop_env \<Rightarrow> run_outcome \<Rightarrow> int \<Rightarrow> loop \<Rightarrow> loop" where
  "end_loop env x now l = finishRun (le_parse env) (le_zones env) l (no_answer x now)"

definition new_lease :: "string \<times> string \<times> string \<Rightarrow> worktree" where
  "new_lease m = (case m of (path, branch, base) \<Rightarrow>
     \<lparr>wt_path = path, wt_branch = branch, wt_base = Some base, wt_state = LeaseActive, wt_detail = None\<rparr>)"

definition still_current :: "loop \<Rightarrow> loop option \<Rightarrow> bool" where
  "still_current running current \<longleftrightarrow>
     (case current of None \<Rightarrow> False
      | Some c \<Rightarrow> lp_runs c = lp_runs running \<and> lp_state c = LRunning \<and> lp_updatedAt c = lp_updatedAt running)"

definition drop_worktree :: "string \<Rightarrow> nat \<Rightarrow> made \<Rightarrow> service \<Rightarrow> service" where
  "drop_worktree i n m s =
     (case m of
        Inr x \<Rightarrow> add_task (TDropping i n (new_lease x)) (emit (EReleaseWorktree (fst x)) s)
      | Inl _ \<Rightarrow> arm s)"

definition worktree_made :: "loop_env \<Rightarrow> int \<Rightarrow> string \<Rightarrow> made \<Rightarrow> loop \<Rightarrow> loop \<Rightarrow> service \<Rightarrow> service" where
  "worktree_made env now sid result l running s =
     (let m = (if le_worktrees env then result else Inl ''worktrees are not available in this daemon'');
          current = get_loop s (lp_loopId l)
      in if \<not> still_current running current then
           drop_worktree (lp_loopId l) (lp_runs running) m
             (case current of
                Some c \<Rightarrow> if lp_runs c = lp_runs running then put_loop now True (end_loop env OutInterrupted now c) s else s
              | None \<Rightarrow> s)
         else case m of
           Inl why \<Rightarrow>
             arm (put_loop now True
               ((end_loop env OutFailed now (orelse current running))\<lparr>lp_reason := Some (take 500 (''worktree unavailable: '' @ why))\<rparr>) s)
         | Inr x \<Rightarrow>
             submit_run sid running False
               (patchRun now (lp_loopId l) (lp_runs running) (\<lambda>r. r\<lparr>lr_sessionId := Some sid, lr_worktree := Some (new_lease x)\<rparr>) s))"

text \<open>The worktree of a run that is no longer wanted was released.\<close>

definition worktree_dropped :: "int \<Rightarrow> string \<Rightarrow> nat \<Rightarrow> worktree \<Rightarrow> lease_state \<times> string option \<Rightarrow> service \<Rightarrow> service" where
  "worktree_dropped now i n w result s =
     arm (patchRun now i n (\<lambda>r. r\<lparr>lr_worktree := Some (released_lease w (fst result) (snd result))\<rparr>) s)"

text \<open>Behind the \<open>await\<close> of \<open>submit\<close>: the place in the queue, or nothing when the session refused the message.\<close>

definition submitted :: "loop_env \<Rightarrow> int \<Rightarrow> string \<Rightarrow> nat \<Rightarrow> loop \<Rightarrow> string option \<Rightarrow> service \<Rightarrow> service" where
  "submitted env now sid a running result s =
     (case result of
        None \<Rightarrow>
          let s1 = s\<lparr>sv_bySession := AList.delete sid (sv_bySession s)\<rparr>;
              s2 = put_loop now True (end_loop env OutFailed now (orelse (get_loop s1 (lp_loopId running)) running)) s1
          in arm (releaseLease env (lp_loopId running) AfterNothing s2)
      | Some q \<Rightarrow>
          set_live a (\<lambda>v. v\<lparr>lv_queueId := Some q,
            lv_turnId := (case map_of (lv_started v) q of Some t \<Rightarrow> Some t | None \<Rightarrow> lv_turnId v)\<rparr>) s)"

section \<open>A run ends\<close>

text \<open>\<open>replace(/(status\s*:\s*)complete\b/gi, "$1continue")\<close>: a report cannot claim that its loop is complete.\<close>

definition claim_at :: "string \<Rightarrow> (string \<times> string) option" where
  "claim_at s =
     (if lower (take 6 s) \<noteq> ''status'' then None
      else let r1 = skip_space (drop 6 s) in
        case r1 of
          [] \<Rightarrow> None
        | c # r2 \<Rightarrow>
            let r3 = skip_space r2 in
            if c = CHR '':'' \<and> lower (take 8 r3) = ''complete'' \<and> word_ends (drop 8 r3)
            then Some (take (length s - length r3) s, drop 8 r3) else None)"

function without_claims :: "string \<Rightarrow> string" where
  "without_claims s =
     (case s of [] \<Rightarrow> []
      | c # cs \<Rightarrow>
          (case claim_at s of
             None \<Rightarrow> c # without_claims cs
           | Some (kept, rest) \<Rightarrow> if length rest < length s then kept @ ''continue'' @ without_claims rest else s))"
  by pat_completeness auto
termination by (relation "measure length") auto

declare without_claims.simps [simp del]

definition checkpoint_key :: "loop_run \<Rightarrow> checkpoint \<Rightarrow> nat \<times> int \<times> checkpoint" where
  "checkpoint_key r c = (lr_run r, lr_startedAt r, c)"

definition with_hash :: "loop_env \<Rightarrow> loop_run \<Rightarrow> loop_run" where
  "with_hash env r =
     (case lr_checkpoint r of None \<Rightarrow> r
      | Some c \<Rightarrow> r\<lparr>lr_checkpointHash := Some (le_hash env (checkpoint_key r c))\<rparr>)"

text \<open>The gates that do not depend on a verification.\<close>

definition standing_gates :: "loop_env \<Rightarrow> loop \<Rightarrow> loop_gate list" where
  "standing_gates env l = List.map_filter id [loopBudgetGate (le_show env) l, approvalGate l, reviewSettingsGate l]"

definition first_failed :: "loop_gate list \<Rightarrow> loop_gate option" where
  "first_failed gates = List.find (\<lambda>g. ga_status g = GFail) gates"

definition report_end :: "live \<Rightarrow> run_outcome \<Rightarrow> int \<Rightarrow> run_end" where
  "report_end v x now =
     \<lparr>en_outcome = (if lv_timedOut v \<noteq> None \<and> x = OutCancelled then OutFailed else x),
      en_finalText = (if lv_reportOnly v then without_claims (lv_lastAnswer v) else lv_lastAnswer v), en_time = now\<rparr>"

text \<open>What becomes of the loop: \<open>next\<close> in \<open>endRun\<close>.\<close>

definition ended_loop :: "loop_env \<Rightarrow> live \<Rightarrow> run_outcome \<Rightarrow> int \<Rightarrow> loop \<Rightarrow> loop" where
  "ended_loop env v x now l =
     (let n1 = finishRun (le_parse env) (le_zones env) l (report_end v x now);
          n2 = (if lv_timedOut v \<noteq> None \<and> lp_state n1 = LActive then n1\<lparr>lp_reason := lv_timedOut v\<rparr> else n1);
          n3 = set_last_run (with_hash env) n2;
          gates = standing_gates env n3;
          n4 = (if gates \<noteq> [] then set_last_run (\<lambda>r. r\<lparr>lr_gates := Some gates\<rparr>) n3 else n3)
      in case first_failed gates of
           Some g \<Rightarrow>
             if lp_state l \<noteq> LStopped \<and> lp_state l \<noteq> LPaused
             then n4\<lparr>lp_nextWakeAt := None, lp_state := LBlocked, lp_reason := ga_detail g\<rparr> else n4
         | None \<Rightarrow> n4)"

definition announce :: "string \<Rightarrow> nat \<Rightarrow> service \<Rightarrow> service" where
  "announce i n s =
     (case get_loop s i of None \<Rightarrow> s
      | Some l \<Rightarrow>
          (case List.find (\<lambda>r. lr_run r = n) (lp_history l) of None \<Rightarrow> s
           | Some r \<Rightarrow>
               if lr_endedAt r = None \<or> truthy (lp_creatorSessionId l) = None \<or> lp_notify l = Some NotifyNobody then s
               else emit (ENotify i n) s))"

text \<open>\<open>verify\<close> up to the \<open>await\<close> of the verifier; a verification is named by the number of its abort controller.\<close>

definition abort_verification :: "string \<Rightarrow> service \<Rightarrow> service" where
  "abort_verification i s =
     (case map_of (sv_verifications s) i of None \<Rightarrow> s | Some c \<Rightarrow> s\<lparr>sv_aborted := c # sv_aborted s\<rparr>)"

definition verify :: "loop \<Rightarrow> service \<Rightarrow> service" where
  "verify l s =
     (let s1 = abort_verification (lp_loopId l) s; c = sv_controllers s1 in
      add_task (TVerifying l c)
        (s1\<lparr>sv_controllers := c + 1, sv_verifications := AList.update (lp_loopId l) c (sv_verifications s1)\<rparr>))"

definition drop_sessions :: "nat \<Rightarrow> service \<Rightarrow> service" where
  "drop_sessions a s =
     (let gone = map fst (filter (\<lambda>(_, b). b = a) (sv_bySession s)) in
      s\<lparr>sv_bySession := filter (\<lambda>(_, b). b \<noteq> a) (sv_bySession s),
        sv_usageSeq := filter (\<lambda>(sid, _). sid \<notin> set gone) (sv_usageSeq s)\<rparr>)"

definition endRun :: "loop_env \<Rightarrow> int \<Rightarrow> nat \<Rightarrow> run_outcome \<Rightarrow> service \<Rightarrow> service" where
  "endRun env now a x s =
     (case get_live s a of None \<Rightarrow> s
      | Some v \<Rightarrow>
          let i = lv_loopId v;
              s1 = (if lv_turnId v \<noteq> None \<and> \<not> lv_usageRecorded v then recordUnreported now i (lv_run v) s else s)
          in case get_loop s1 i of None \<Rightarrow> s1
             | Some l \<Rightarrow>
                 let s2 = drop_sessions a s1; s3 = s2\<lparr>sv_waits := AList.delete i (sv_waits s2)\<rparr>;
                     next = ended_loop env v x now l
                 in if lp_state next \<noteq> LVerifying \<and> holds_lease l then releaseLease env i (AfterEnd i next) s3
                    else let s4 = arm (announce i (lp_runs next) (put_loop now True next s3))
                      in if lp_state next = LVerifying then verify next s4 else s4)"

text \<open>The lease of the run was released: the loop as the run left it, with what happened to it meanwhile.\<close>

definition end_released :: "int \<Rightarrow> string \<Rightarrow> loop \<Rightarrow> service \<Rightarrow> service" where
  "end_released now i next s =
     (case get_loop s i of None \<Rightarrow> s
      | Some fresh \<Rightarrow>
          let ended = (\<lambda>r. if lr_run r = lp_runs next
                 then (case (last_run next, lr_worktree r) of
                         (Some e, Some w) \<Rightarrow> e\<lparr>lr_worktree := Some w\<rparr> | (Some e, None) \<Rightarrow> e | (None, _) \<Rightarrow> r)
                 else r);
              base = (if lp_state fresh = LStopped \<or> lp_state fresh = LPaused
                      then next\<lparr>lp_state := lp_state fresh, lp_reason := lp_reason fresh\<rparr> else next)
          in arm (announce i (lp_runs next) (put_loop now True (base\<lparr>lp_history := map ended (lp_history fresh)\<rparr>) s)))"

end
