(* ===== verification/LoopEvents.thy ===== *)
theory LoopEvents
  imports LoopService
begin

text \<open>
  What happens to the loop service from outside its commands (\<open>packages/loops/src/service.ts\<close>): a verification comes to its end,
  a lease is released, an event of a session arrives, an approval is waited for too long, the timer fires.
\<close>

section \<open>A claim was checked\<close>

definition settled_gates :: "loop_env \<Rightarrow> loop_gate list \<Rightarrow> loop_audit option \<Rightarrow> loop \<Rightarrow> loop_gate list" where
  "settled_gates env checked audit l =
     checked @ standing_gates env l @ (case audit of Some a \<Rightarrow> [audit_gate a] | None \<Rightarrow> [])"

text \<open>The loop that a verification leaves: every gate has to pass, and a failed safety gate blocks the loop.\<close>

definition settled_loop :: "loop_env \<Rightarrow> int \<Rightarrow> loop_gate list \<Rightarrow> loop_audit option \<Rightarrow> bool \<Rightarrow> loop \<Rightarrow> loop" where
  "settled_loop env now checked audit accepts l =
     (let gates1 = settled_gates env checked audit l;
          score = (case Option.bind (last_run l) lr_checkpoint of Some c \<Rightarrow> evaluateRubric l c gates1 audit | None \<Rightarrow> None);
          gates = gates1 @ (case rubricGate score of Some g \<Rightarrow> [g] | None \<Rightarrow> []);
          accepted = (accepts \<and> list_all (\<lambda>g. ga_status g = GPass) gates);
          n1 = finishVerification (le_zones env) l \<lparr>vr_gates = gates, vr_audit = audit, vr_accepted = accepted,
                 vr_feedback = (if accepted then None else Some (rejectionFeedback gates audit)), vr_time = now\<rparr>;
          n2 = (case score of Some r \<Rightarrow> set_last_run (\<lambda>x. x\<lparr>lr_rubricResult := Some r\<rparr>) n1 | None \<Rightarrow> n1)
      in case List.find (\<lambda>g. ga_status g = GFail \<and> protectedGate g) gates of
           Some g \<Rightarrow> n2\<lparr>lp_nextWakeAt := None, lp_state := LBlocked,
             lp_reason := Some (orelse (ga_detail g) (''gate '' @ ga_id g @ '' blocked completion''))\<rparr>
         | None \<Rightarrow> n2)"

definition settle :: "loop_env \<Rightarrow> int \<Rightarrow> string \<Rightarrow> loop_gate list \<Rightarrow> loop_audit option \<Rightarrow> bool \<Rightarrow> service \<Rightarrow> service" where
  "settle env now i checked audit accepts s0 =
     (let s = s0\<lparr>sv_verifications := AList.delete i (sv_verifications s0)\<rparr> in
      case get_loop s i of None \<Rightarrow> s
      | Some l \<Rightarrow>
          if lp_state l \<noteq> LVerifying then s
          else arm (put_loop now True (settled_loop env now checked audit accepts l) s))"

definition block :: "int \<Rightarrow> string \<Rightarrow> string \<Rightarrow> service \<Rightarrow> service" where
  "block now i why s0 =
     (let s = s0\<lparr>sv_verifications := AList.delete i (sv_verifications s0)\<rparr> in
      case get_loop s i of None \<Rightarrow> s
      | Some l \<Rightarrow>
          if lp_state l \<noteq> LVerifying then s
          else put_loop now True (l\<lparr>lp_state := LBlocked, lp_reason := Some why, lp_updatedAt := now\<rparr>) s)"

text \<open>The end of \<open>verify\<close>, behind the release of the lease. The feedback \<open>verify\<close> passes on is replaced by \<open>settle\<close>.\<close>

definition unavailable_gates :: "loop_env \<Rightarrow> loop \<Rightarrow> loop_gate list \<Rightarrow> string \<Rightarrow> loop_gate list" where
  "unavailable_gates env l gates why =
     gates @ [new_gate ''independent-audit'' GFail (Some FailIntegrity) (Some (take 2000 why))]
     @ List.map_filter id [loopBudgetGate (le_show env) l]"

definition verify_settled :: "loop_env \<Rightarrow> int \<Rightarrow> loop \<Rightarrow> verify_outcome \<Rightarrow> service \<Rightarrow> service" where
  "verify_settled env now l outcome s =
     (let i = lp_loopId l in
      case outcome of
        OAborted \<Rightarrow> s
      | OInterrupted \<Rightarrow> s
      | OChecksFailed gates \<Rightarrow> settle env now i gates None False s
      | OChecked gates \<Rightarrow> settle env now i gates None True s
      | OUnavailable gates why \<Rightarrow>
          block now i why
            (patchRun now i (lp_runs l)
              (\<lambda>r. r\<lparr>lr_gates := Some (unavailable_gates env (orelse (get_loop s i) l) gates why)\<rparr>) s)
      | OAudited gates a \<Rightarrow> settle env now i gates (Some (audit_of a)) (audit_accepts (audit_of a)) s)"

text \<open>The verifier answered: whether it submitted an audit, and the session that reported usage of it.\<close>

definition verified :: "loop_env \<Rightarrow> int \<Rightarrow> loop \<Rightarrow> bool \<Rightarrow> string option \<Rightarrow> verify_outcome \<Rightarrow> service \<Rightarrow> service" where
  "verified env now l auditSubmitted usageSession outcome s =
     (let s1 = (if auditSubmitted \<and> usageSession = None then recordUnreported now (lp_loopId l) (lp_runs l) s else s);
          s2 = (case usageSession of Some sid \<Rightarrow> s1\<lparr>sv_usageSeq := AList.delete sid (sv_usageSeq s1)\<rparr> | None \<Rightarrow> s1)
      in if outcome = OInterrupted then s2 else releaseLease env (lp_loopId l) (AfterVerify l outcome) s2)"

section \<open>A lease was released\<close>

definition after_released :: "loop_env \<Rightarrow> int \<Rightarrow> string \<Rightarrow> after_release \<Rightarrow> service \<Rightarrow> service" where
  "after_released env now i after s =
     (case after of
        AfterNothing \<Rightarrow> s
      | AfterEnd _ next \<Rightarrow> end_released now i next s
      | AfterVerify l outcome \<Rightarrow> verify_settled env now l outcome s)"

definition lease_released :: "loop_env \<Rightarrow> int \<Rightarrow> string \<Rightarrow> nat \<Rightarrow> worktree \<Rightarrow> after_release \<Rightarrow> lease_state \<times> string option \<Rightarrow> service \<Rightarrow> service" where
  "lease_released env now i n w after result s =
     (let answer = (if le_worktrees env then result else (LeaseRetained, Some ''no worktree support to clean up''));
          s1 = s\<lparr>sv_releasing := filter (\<lambda>p. p \<noteq> wt_path w) (sv_releasing s)\<rparr>
      in add_task (TReleased i after)
           (patchRun now i n (\<lambda>r. r\<lparr>lr_worktree := Some (released_lease w (fst answer) (snd answer))\<rparr>) s1))"

section \<open>Events of a session\<close>

datatype loop_event =
    VTurnStarted string "string list"
  | VUsage usage_event
  | VItemStarted string string bool
  | VItemCompleted string "string option"
  | VRequest string string request_kind string string "string option"
  | VResolved
  | VTerminal string run_outcome

text \<open>
  The event with its fields: \<open>VTurnStarted turn queueIds\<close>, \<open>VItemStarted turn item isAgentMessage\<close>, \<open>VItemCompleted item text\<close>,
  \<open>VRequest turn request kind title detail tool\<close>, \<open>VTerminal turn outcome\<close>. Events of an audit go to the verifier.
\<close>

definition turn_started :: "string \<Rightarrow> string list \<Rightarrow> live \<Rightarrow> live" where
  "turn_started turn queueIds v =
     (case lv_queueId v of
        None \<Rightarrow> v\<lparr>lv_started := foldl (\<lambda>m q. AList.update q turn m) (lv_started v) queueIds\<rparr>
      | Some q \<Rightarrow> if q \<in> set queueIds then v\<lparr>lv_turnId := Some turn\<rparr> else v)"

definition asks :: "loop_env \<Rightarrow> int \<Rightarrow> string \<Rightarrow> string \<Rightarrow> request_kind \<Rightarrow> string \<Rightarrow> string \<Rightarrow> string option \<Rightarrow> loop \<Rightarrow> loop" where
  "asks env now sid request kind title detail tool l =
     l\<lparr>lp_state := LNeedsInput, lp_reason := Some title,
       lp_waiting := Some \<lparr>wa_sessionId = sid, wa_requestId = request, wa_kind = kind, wa_title = take 500 (le_redact env title),
         wa_detail = take 2000 (le_redact env detail), wa_tool = truthy tool, wa_time = now\<rparr>,
       lp_updatedAt := now\<rparr>"

definition observe_live :: "loop_env \<Rightarrow> int \<Rightarrow> string \<Rightarrow> nat \<Rightarrow> live \<Rightarrow> loop_event \<Rightarrow> service \<Rightarrow> service" where
  "observe_live env now sid a v e s =
     (case e of
        VTurnStarted turn queueIds \<Rightarrow> set_live a (turn_started turn queueIds) s
      | VUsage u \<Rightarrow>
          if lv_turnId v = Some (ue_turnId u)
          then recordUsage env now (lv_loopId v) u (lv_run v) (set_live a (\<lambda>x. x\<lparr>lv_usageRecorded := True\<rparr>) s) else s
      | VItemStarted turn item message \<Rightarrow>
          if lv_turnId v = Some turn \<and> message then set_live a (\<lambda>x. x\<lparr>lv_answerItems := set_add item (lv_answerItems x)\<rparr>) s else s
      | VItemCompleted item t \<Rightarrow>
          (case truthy t of
             Some answer \<Rightarrow> if lv_turnId v \<noteq> None \<and> item \<in> set (lv_answerItems v) then set_live a (\<lambda>x. x\<lparr>lv_lastAnswer := answer\<rparr>) s else s
           | None \<Rightarrow> s)
      | VRequest turn request kind title detail tool \<Rightarrow>
          (case get_loop s (lv_loopId v) of None \<Rightarrow> s
           | Some l \<Rightarrow>
               if lv_turnId v = Some turn \<and> lp_state l = LRunning
               then let s1 = put_loop now True (asks env now sid request kind title detail tool l) s in
                 s1\<lparr>sv_waits := AList.update (lv_loopId v) \<lparr>wt_live = a, wt_sessionId = sid, wt_requestId = request, wt_title = title\<rparr>
                      (sv_waits s1)\<rparr>
               else s)
      | VResolved \<Rightarrow>
          (case get_loop s (lv_loopId v) of None \<Rightarrow> s
           | Some l \<Rightarrow>
               if lv_turnId v \<noteq> None \<and> lp_state l = LNeedsInput
               then put_loop now True (l\<lparr>lp_state := LRunning, lp_reason := None, lp_waiting := None, lp_updatedAt := now\<rparr>)
                      (s\<lparr>sv_waits := AList.delete (lv_loopId v) (sv_waits s)\<rparr>)
               else s)
      | VTerminal turn x \<Rightarrow> if lv_turnId v = Some turn then endRun env now a x s else s)"

definition observe :: "loop_env \<Rightarrow> int \<Rightarrow> string \<Rightarrow> loop_event \<Rightarrow> service \<Rightarrow> service" where
  "observe env now sid e s =
     (case map_of (sv_bySession s) sid of None \<Rightarrow> s
      | Some a \<Rightarrow> (case get_live s a of None \<Rightarrow> s | Some v \<Rightarrow> observe_live env now sid a v e s))"

text \<open>Nobody answered an approval in time.\<close>

definition minutes_of :: "nat \<Rightarrow> nat" where
  "minutes_of ms = (ms + 30000) div 60000"

definition wait_over :: "loop_env \<Rightarrow> string \<Rightarrow> service \<Rightarrow> service" where
  "wait_over env i s =
     (case map_of (sv_waits s) i of None \<Rightarrow> s
      | Some w \<Rightarrow>
          let s1 = s\<lparr>sv_waits := AList.delete i (sv_waits s)\<rparr> in
          (case (Option.bind (get_loop s1 i) lp_waiting, Option.bind (get_live s1 (wt_live w)) lv_turnId) of
             (Some asked, Some turn) \<Rightarrow>
               if map_option lp_state (get_loop s1 i) = Some LNeedsInput \<and> wa_requestId asked = wt_requestId w
               then emit (ECancelTurn (wt_sessionId w) turn)
                 (set_live (wt_live w) (\<lambda>v. v\<lparr>lv_timedOut := Some (''no answer to '' @ [CHR 0x22] @ wt_title w @ [CHR 0x22] @ '' in ''
                    @ nat_text (minutes_of (le_approvalTimeoutMs env))
                    @ ''m; the run was ended (approve it in /loops to let the next run through)'')\<rparr>) s1)
               else s1
           | _ \<Rightarrow> s1))"

section \<open>The timer\<close>

definition due :: "int \<Rightarrow> loop \<Rightarrow> bool" where
  "due now l \<longleftrightarrow> lp_state l = LActive \<and> (case lp_nextWakeAt l of None \<Rightarrow> False | Some t \<Rightarrow> t \<le> now)"

text \<open>The code goes over a copy of the loops taken before the first of them starts.\<close>

definition start_due :: "loop_env \<Rightarrow> int \<Rightarrow> service \<Rightarrow> loop \<Rightarrow> service" where
  "start_due env now s l = startRun env now [] BySchedule False l s"

definition wakeDue :: "loop_env \<Rightarrow> int \<Rightarrow> service \<Rightarrow> service" where
  "wakeDue env now s = arm (foldl (start_due env now) (s\<lparr>sv_timer := None\<rparr>) (filter (due now) (map snd (sv_loops s))))"

end
