(* ===== verification/LoopCommands.thy ===== *)
theory LoopCommands
  imports LoopEvents
begin

text \<open>
  The commands of the loop service (\<open>packages/loops/src/service.ts\<close>): create, change, pause, accept, review, resume, activate, fire,
  stop, run, tick, remove and the start after a restart.
\<close>

section \<open>Changes\<close>

text \<open>\<open>change\<close>: nothing is saved when the change gives the loop back as it was.\<close>

definition change :: "int \<Rightarrow> string \<Rightarrow> (loop \<Rightarrow> loop option) \<Rightarrow> service \<Rightarrow> service" where
  "change now i f s =
     (case Option.bind (get_loop s i) f of None \<Rightarrow> s | Some next \<Rightarrow> arm (put_loop now True next s))"

definition if_changed :: "string \<Rightarrow> (loop \<Rightarrow> loop option) \<Rightarrow> (service \<Rightarrow> service) \<Rightarrow> service \<Rightarrow> service" where
  "if_changed i f g s = (if Option.bind (get_loop s i) f = None then s else g s)"

section \<open>Creating a loop\<close>

definition nonempty :: "'a list option \<Rightarrow> 'a list option" where
  "nonempty x = (case x of Some (v # vs) \<Rightarrow> Some (v # vs) | _ \<Rightarrow> None)"

definition new_loop :: "loop_env \<Rightarrow> int \<Rightarrow> string \<Rightarrow> string \<Rightarrow> create_input \<Rightarrow> resolved \<Rightarrow> loop" where
  "new_loop env now i sid inp r =
     \<lparr>lp_loopId = i, lp_name = ci_name inp, lp_directory = ci_directory inp, lp_objective = rs_objective r,
      lp_criteria = truthy (rs_criteria r), lp_checks = nonempty (op_checks inp),
      lp_audit = (case rs_budget r of Goal _ \<Rightarrow> Some (orelse (op_audit inp) Independent) | _ \<Rightarrow> None),
      lp_feedback = None, lp_override = None, lp_trigger = rs_trigger r, lp_budget = rs_budget r,
      lp_costBudget = op_costBudget inp, lp_usage = None, lp_rubric = op_rubric inp, lp_approvalPolicy = op_approvalPolicy inp,
      lp_template = map_option tp_id (rs_template r),
      lp_reportOnly = (if rs_reportOnly r = Some True then Some True else None),
      lp_workspace = (if op_workspace inp = Some WorktreeRuns then Some WorktreeRuns else None),
      lp_creatorSessionId = truthy (op_creatorSessionId inp),
      lp_notify = (if truthy (op_creatorSessionId inp) \<noteq> None then Some (orelse (op_notify inp) NotifyCreator) else op_notify inp),
      lp_permission = op_permission inp, lp_reads = nonempty (op_reads inp), lp_waiting = None, lp_adaptiveMs = None,
      lp_pendingFire = None, lp_state = (if op_draft inp then LPaused else LActive), lp_sessionId = sid, lp_runs = 0,
      lp_nextWakeAt = (if op_draft inp then None else if op_runNow inp then Some now else nextWake (le_zones env) (rs_trigger r) now None),
      lp_history = [], lp_reviewInvalidatedAt = None,
      lp_reason = (if op_draft inp then Some ''Draft; activate to schedule runs'' else None),
      lp_createdAt = now, lp_updatedAt = now, lp_draft = op_draft inp, lp_journal = None\<rparr>"

definition create_loop :: "loop_env \<Rightarrow> int \<Rightarrow> string \<Rightarrow> string \<Rightarrow> create_input \<Rightarrow> service \<Rightarrow> service" where
  "create_loop env now i sid inp s =
     (case (createProblems inp, resolveCreateInput inp) of
        (None, Some r) \<Rightarrow> arm (put_loop now True (new_loop env now i sid inp r) s)
      | _ \<Rightarrow> s)"

section \<open>Editing a loop\<close>

definition edited_wake :: "loop_env \<Rightarrow> int \<Rightarrow> bool \<Rightarrow> resolved \<Rightarrow> loop \<Rightarrow> int option" where
  "edited_wake env now runNow r l =
     (if lp_state l \<noteq> LActive then None
      else if runNow then Some now
      else if rs_trigger r = lp_trigger l \<and> lp_nextWakeAt l \<noteq> None then lp_nextWakeAt l
      else nextWake (le_zones env) (rs_trigger r) now (if rs_trigger r = lp_trigger l then lp_adaptiveMs l else None))"

definition is_adaptive :: "loop_trigger \<Rightarrow> bool" where
  "is_adaptive t = (case t of Adaptive _ \<Rightarrow> True | _ \<Rightarrow> False)"

definition edited :: "loop_env \<Rightarrow> int \<Rightarrow> loop_patch \<Rightarrow> create_input \<Rightarrow> resolved \<Rightarrow> loop \<Rightarrow> loop" where
  "edited env now p inp r l =
     (let pace = (if rs_trigger r = lp_trigger l then lp_adaptiveMs l else None) in
      l\<lparr>lp_name := ci_name inp, lp_objective := rs_objective r, lp_criteria := rs_criteria r, lp_trigger := rs_trigger r,
        lp_budget := rs_budget r, lp_costBudget := first_of (op_costBudget inp) (lp_costBudget l),
        lp_rubric := first_of (op_rubric inp) (lp_rubric l), lp_approvalPolicy := first_of (op_approvalPolicy inp) (lp_approvalPolicy l),
        lp_checks := op_checks inp,
        lp_audit := (case rs_budget r of
            Goal _ \<Rightarrow> first_of (op_audit inp) (if op_budget p \<noteq> None \<or> truthy (op_template p) \<noteq> None then Some Independent else None)
          | _ \<Rightarrow> None),
        lp_template := first_of (map_option tp_id (rs_template r)) (lp_template l), lp_reportOnly := rs_reportOnly r,
        lp_workspace := op_workspace inp, lp_notify := op_notify inp, lp_permission := op_permission inp,
        lp_reads := nonempty (op_reads inp),
        lp_adaptiveMs := (if is_adaptive (rs_trigger r) then pace else None),
        lp_pendingFire := (if rs_trigger r = External then lp_pendingFire l else None),
        lp_nextWakeAt := edited_wake env now (op_runNow inp) r l, lp_updatedAt := max now (lp_updatedAt l + 1)\<rparr>)"

definition update_loop :: "loop_env \<Rightarrow> int \<Rightarrow> loop_patch \<Rightarrow> loop \<Rightarrow> loop option" where
  "update_loop env now p l =
     (let inp = loopUpdateInput l p in
      case (createProblems inp, resolveCreateInput inp) of
        (None, Some r) \<Rightarrow>
          let next = edited env now p inp r l in
          Some (if lp_history l \<noteq> [] \<and> lp_state l \<noteq> LCompleted \<and> lp_state l \<noteq> LStopped \<and> reviewSettingsChanged l next
                then next\<lparr>lp_reviewInvalidatedAt := Some now\<rparr> else next)
      | _ \<Rightarrow> None)"

section \<open>Pausing, accepting, resuming, stopping\<close>

definition pause_loop :: "int \<Rightarrow> loop \<Rightarrow> loop option" where
  "pause_loop now l =
     (if lp_state l \<notin> {LActive, LBlocked, LVerifying} then None
      else Some (l\<lparr>lp_nextWakeAt := None, lp_state := LPaused, lp_updatedAt := now\<rparr>))"

text \<open>A loop with caps, a rubric, an approval policy or a failed safety gate is not accepted by hand.\<close>

definition guarded_claim :: "loop \<Rightarrow> bool" where
  "guarded_claim l \<longleftrightarrow>
     orelse (Option.bind (lp_costBudget l) cb_maxTokens) 0 \<noteq> 0
     \<or> orelse (Option.bind (lp_costBudget l) cb_maxCost) 0 \<noteq> 0
     \<or> (case lp_rubric l of None \<Rightarrow> False | Some r \<Rightarrow> ru_criteria r \<noteq> [] \<or> orelse (ru_mandatoryBlockers r) [] \<noteq> [])
     \<or> orelse (lp_approvalPolicy l) [] \<noteq> []
     \<or> list_ex (\<lambda>g. ga_status g = GFail \<and> protectedGate g) (gates_now l)"

definition accept_loop :: "int \<Rightarrow> string \<Rightarrow> loop \<Rightarrow> loop option" where
  "accept_loop now why l =
     (if lp_state l \<in> {LRunning, LNeedsInput, LCompleted} \<or> lp_reviewInvalidatedAt l \<noteq> None \<or> guarded_claim l then None
      else Some (l\<lparr>lp_nextWakeAt := None, lp_feedback := None, lp_state := LCompleted,
             lp_reason := Some (''accepted by the user: '' @ why), lp_override := Some (why, now), lp_updatedAt := now\<rparr>))"

definition resume_loop :: "loop_env \<Rightarrow> int \<Rightarrow> loop \<Rightarrow> loop option" where
  "resume_loop env now l =
     (if lp_state l \<notin> {LPaused, LBlocked} \<or> budget_blocks env l then None
      else Some (l\<lparr>lp_reason := None, lp_draft := False, lp_state := LActive,
             lp_nextWakeAt := first_of (nextWake (le_zones env) (lp_trigger l) now (lp_adaptiveMs l)) (lp_nextWakeAt l),
             lp_updatedAt := now\<rparr>))"

definition activate_loop :: "loop_env \<Rightarrow> int \<Rightarrow> string option \<Rightarrow> loop \<Rightarrow> loop option" where
  "activate_loop env now why l =
     (if \<not> lp_draft l then None
      else Some (l\<lparr>lp_reason := map_option (\<lambda>w. ''Activated: '' @ w) (truthy why), lp_draft := False, lp_state := LActive,
             lp_nextWakeAt := first_of
               (case lp_trigger l of
                  Interval _ \<Rightarrow> Some now
                | Adaptive _ \<Rightarrow> Some now
                | t \<Rightarrow> nextWake (le_zones env) t now (lp_adaptiveMs l)) (lp_nextWakeAt l),
             lp_updatedAt := now\<rparr>))"

definition stop_by_user :: "int \<Rightarrow> loop \<Rightarrow> loop option" where
  "stop_by_user now l =
     Some (l\<lparr>lp_nextWakeAt := None, lp_state := LStopped, lp_reason := Some ''stopped by the user'', lp_updatedAt := now\<rparr>)"

definition pause_cmd :: "int \<Rightarrow> string \<Rightarrow> service \<Rightarrow> service" where
  "pause_cmd now i s = change now i (pause_loop now) (if_changed i (pause_loop now) (abort_verification i) s)"

definition accept_cmd :: "int \<Rightarrow> string \<Rightarrow> string \<Rightarrow> service \<Rightarrow> service" where
  "accept_cmd now i why s = change now i (accept_loop now why) (if_changed i (accept_loop now why) (abort_verification i) s)"

definition stop_cmd :: "int \<Rightarrow> string \<Rightarrow> service \<Rightarrow> service" where
  "stop_cmd now i s = change now i (stop_by_user now) (if_changed i (stop_by_user now) (abort_verification i) s)"

section \<open>Reviewing a claim\<close>

definition review_cmd :: "loop_env \<Rightarrow> int \<Rightarrow> string \<Rightarrow> review_input \<Rightarrow> service \<Rightarrow> service" where
  "review_cmd env now i inp s =
     (case get_loop s i of None \<Rightarrow> s
      | Some l \<Rightarrow>
          if budget_blocks env l then s
          else case reviewLoop l inp now of
            Inl _ \<Rightarrow> s
          | Inr l2 \<Rightarrow>
              let s1 = put_loop now True l2 s in
              arm (if ri_action inp = ApproveAction \<and> reports Complete (Option.bind (last_run l2) lr_checkpoint)
                      \<and> map_option ga_status (approvalGate l2) = Some GPass
                   then verify (l2\<lparr>lp_state := LVerifying\<rparr>) (put_loop now True (l2\<lparr>lp_state := LVerifying\<rparr>) s1)
                   else s1))"

section \<open>Starting runs\<close>

definition fire_cmd :: "loop_env \<Rightarrow> int \<Rightarrow> string \<Rightarrow> string option \<Rightarrow> service \<Rightarrow> service" where
  "fire_cmd env now i note s =
     (case get_loop s i of None \<Rightarrow> s
      | Some l \<Rightarrow>
          let fired = l\<lparr>lp_pendingFire := Some (now, truthy note), lp_updatedAt := now\<rparr> in
          if lp_trigger l \<noteq> External \<or> budget_blocks env l then s
          else if lp_state l \<in> {LRunning, LNeedsInput, LVerifying} then put_loop now True fired s
          else if lp_state l \<noteq> LActive then s
          else startRun env now [] ByFire False fired (put_loop now True fired s))"

definition can_run :: "loop_env \<Rightarrow> loop \<Rightarrow> bool" where
  "can_run env l \<longleftrightarrow> \<not> (lp_draft l \<or> lp_state l \<in> {LRunning, LNeedsInput, LVerifying, LCompleted, LStopped} \<or> budget_blocks env l)"

definition runNow_cmd :: "loop_env \<Rightarrow> int \<Rightarrow> string \<Rightarrow> service \<Rightarrow> service" where
  "runNow_cmd env now i s =
     (case get_loop s i of None \<Rightarrow> s | Some l \<Rightarrow> if can_run env l then startRun env now [] ByHand False l s else s)"

text \<open>\<open>tick\<close> as far as it changes loops. \<open>sids\<close> gives the sessions that runs of reports are created with.\<close>

definition wake_key :: "loop \<Rightarrow> int" where
  "wake_key l = orelse (lp_nextWakeAt l) 0"

definition tick_selected :: "int \<Rightarrow> string \<Rightarrow> string option \<Rightarrow> nat \<Rightarrow> service \<Rightarrow> loop list" where
  "tick_selected now directory i limit s =
     (case truthy i of
        Some n \<Rightarrow> (case get_loop s n of Some l \<Rightarrow> if lp_directory l = directory then [l] else [] | None \<Rightarrow> [])
      | None \<Rightarrow> take limit (sort_key wake_key (filter (\<lambda>l. lp_directory l = directory \<and> due now l) (map snd (sv_loops s)))))"

definition tick_one :: "loop_env \<Rightarrow> int \<Rightarrow> (string \<Rightarrow> string) \<Rightarrow> bool \<Rightarrow> run_trigger \<Rightarrow> service \<Rightarrow> loop \<Rightarrow> service" where
  "tick_one env now sids reportOnly how s l =
     (if lp_state l \<noteq> LActive \<or> lp_draft l \<or> budget_blocks env l then s
      else startRun env now (sids (lp_loopId l)) how reportOnly l s)"

definition tick_cmd :: "loop_env \<Rightarrow> int \<Rightarrow> (string \<Rightarrow> string) \<Rightarrow> string \<Rightarrow> string option \<Rightarrow> nat \<Rightarrow> bool \<Rightarrow> bool \<Rightarrow> service \<Rightarrow> service" where
  "tick_cmd env now sids directory i limit execute reportOnly s =
     (if \<not> execute then s
      else foldl (tick_one env now sids reportOnly (if truthy i \<noteq> None then ByHand else BySchedule)) s
             (tick_selected now directory i limit s))"

definition remove_cmd :: "string \<Rightarrow> service \<Rightarrow> service" where
  "remove_cmd i s =
     (case get_loop s i of None \<Rightarrow> s
      | Some l \<Rightarrow>
          if lp_state l = LRunning \<or> lp_state l = LNeedsInput then s
          else arm (emit (ERemove i) (s\<lparr>sv_loops := AList.delete i (sv_loops s)\<rparr>)))"

section \<open>After a restart\<close>

definition init_service :: "loop list \<Rightarrow> service" where
  "init_service rows = \<lparr>sv_loops = foldl (\<lambda>m l. AList.update (lp_loopId l) l m) [] rows, sv_bySession = [], sv_lives = [],
     sv_usageSeq = [], sv_waits = [], sv_verifications = [], sv_aborted = [], sv_controllers = 0, sv_releasing = [], sv_tasks = [],
     sv_timer = None, sv_log = []\<rparr>"

definition interrupt_run :: "loop_env \<Rightarrow> int \<Rightarrow> service \<Rightarrow> loop \<Rightarrow> service" where
  "interrupt_run env now s l =
     (if lp_state l = LRunning \<or> lp_state l = LNeedsInput
      then put_loop now True (end_loop env OutInterrupted now (l\<lparr>lp_state := LRunning\<rparr>)) s else s)"

definition verify_again :: "service \<Rightarrow> loop \<Rightarrow> service" where
  "verify_again s l = (if lp_state l = LVerifying then verify l s else s)"

definition release_again :: "loop_env \<Rightarrow> service \<Rightarrow> loop \<Rightarrow> service" where
  "release_again env s l = (if lp_state l \<noteq> LVerifying \<and> holds_lease l then releaseLease env (lp_loopId l) AfterNothing s else s)"

definition start_service :: "loop_env \<Rightarrow> int \<Rightarrow> service \<Rightarrow> service" where
  "start_service env now s =
     (let s1 = foldl (interrupt_run env now) s (map snd (sv_loops s));
          s2 = foldl verify_again s1 (map snd (sv_loops s1));
          s3 = foldl (release_again env) s2 (map snd (sv_loops s2))
      in arm s3)"

end
