(* ===== verification/LoopSteps.thy ===== *)
theory LoopSteps
  imports LoopCommands
begin

text \<open>
  The steps of the loop service: every command, event, timer and awaited answer, in any order. The first invariant is about the
  timer: every wakeup that is written on an active loop has a timer at or before it.
\<close>

section \<open>Steps\<close>

definition drop_task :: "nat \<Rightarrow> service \<Rightarrow> service" where
  "drop_task k s = s\<lparr>sv_tasks := splice_out k (sv_tasks s)\<rparr>"

definition pending :: "service \<Rightarrow> nat \<Rightarrow> task \<Rightarrow> bool" where
  "pending s k t \<longleftrightarrow> k < length (sv_tasks s) \<and> sv_tasks s ! k = t"

text \<open>An id nobody has used: no loop, no run and no awaited work mentions it.\<close>

definition after_loops :: "after_release \<Rightarrow> loop list" where
  "after_loops a = (case a of AfterNothing \<Rightarrow> [] | AfterEnd _ l \<Rightarrow> [l] | AfterVerify l _ \<Rightarrow> [l])"

fun task_ids :: "task \<Rightarrow> string list" where
  "task_ids (TCreating l r _) = [lp_loopId l, lp_loopId r]"
| "task_ids (TDropping i _ _) = [i]"
| "task_ids (TSubmitting _ _ r) = [lp_loopId r]"
| "task_ids (TReleasing i _ _ a) = i # map lp_loopId (after_loops a)"
| "task_ids (TReleased i a) = i # map lp_loopId (after_loops a)"
| "task_ids (TVerifying l _) = [lp_loopId l]"

definition unused_id :: "service \<Rightarrow> string \<Rightarrow> bool" where
  "unused_id s i \<longleftrightarrow> get_loop s i = None \<and> i \<notin> lv_loopId ` set (sv_lives s) \<and> i \<notin> \<Union> (set ` task_ids ` set (sv_tasks s))"

definition unused_session :: "service \<Rightarrow> string \<Rightarrow> bool" where
  "unused_session s sid \<longleftrightarrow> sid \<notin> fst ` set (sv_bySession s)"

inductive lstep :: "loop_env \<Rightarrow> service \<Rightarrow> service \<Rightarrow> bool" for env where
  Create: "unused_id s i \<Longrightarrow> lstep env s (create_loop env now i sid inp s)"
| Update: "lstep env s (change now i (update_loop env now p) s)"
| Pause: "lstep env s (pause_cmd now i s)"
| Accept: "lstep env s (accept_cmd now i why s)"
| Stop: "lstep env s (stop_cmd now i s)"
| Resume: "lstep env s (change now i (resume_loop env now) s)"
| Activate: "lstep env s (change now i (activate_loop env now reason) s)"
| Review: "lstep env s (review_cmd env now i inp2 s)"
| Fire: "lstep env s (fire_cmd env now i note_text s)"
| RunNow: "lstep env s (runNow_cmd env now i s)"
| Tick: "(\<And>i. unused_session s (sids i)) \<Longrightarrow> inj sids \<Longrightarrow> lstep env s (tick_cmd env now sids directory i limit execute report s)"
| Remove: "lstep env s (remove_cmd i s)"
| Event: "lstep env s (observe env now sid e s)"
| AuditUsage: "lstep env s (recordUsage env now i u n s)"
| WaitOver: "lstep env s (wait_over env i s)"
| Wake: "sv_timer s = Some t \<Longrightarrow> t \<le> now \<Longrightarrow> lstep env s (wakeDue env now s)"
| Made: "pending s k (TCreating l running fired) \<Longrightarrow> unused_session s sid
    \<Longrightarrow> lstep env s (worktree_made env now sid result l running (drop_task k s))"
| Dropped: "pending s k (TDropping i n w) \<Longrightarrow> lstep env s (worktree_dropped now i n w answer (drop_task k s))"
| Submitted: "pending s k (TSubmitting sid a running) \<Longrightarrow> lstep env s (submitted env now sid a running place (drop_task k s))"
| Released: "pending s k (TReleasing i n w after) \<Longrightarrow> lstep env s (lease_released env now i n w after answer (drop_task k s))"
| GoesOn: "pending s k (TReleased i after) \<Longrightarrow> lstep env s (after_released env now i after (drop_task k s))"
| Verified: "pending s k (TVerifying l c) \<Longrightarrow> lstep env s (verified env now l auditSubmitted usageSession outcome (drop_task k s))"

text \<open>A daemon starts on the rows of its store; then any steps follow.\<close>

inductive service_run :: "loop_env \<Rightarrow> loop list \<Rightarrow> service \<Rightarrow> bool" for env rows where
  Boot: "service_run env rows (start_service env now (init_service rows))"
| Next: "service_run env rows s \<Longrightarrow> lstep env s t \<Longrightarrow> service_run env rows t"

text \<open>What holds when the service starts and survives every step holds always.\<close>

locale service_invariant =
  fixes env :: loop_env and rows :: "loop list" and good :: "service \<Rightarrow> bool"
  assumes starts: "good (start_service env now (init_service rows))"
    and keeps: "lstep env s t \<Longrightarrow> good s \<Longrightarrow> good t"
begin

lemma always: "service_run env rows s \<Longrightarrow> good s"
  by (induction rule: service_run.induct) (auto intro: starts keeps)

end

section \<open>What the parts of a step touch\<close>

lemma get_with_journal [simp]:
  "lp_loopId (with_journal now j b l) = lp_loopId l" "lp_state (with_journal now j b l) = lp_state l"
  "lp_nextWakeAt (with_journal now j b l) = lp_nextWakeAt l" "lp_runs (with_journal now j b l) = lp_runs l"
  "lp_history (with_journal now j b l) = lp_history l" "lp_draft (with_journal now j b l) = lp_draft l"
  "lp_trigger (with_journal now j b l) = lp_trigger l" "lp_sessionId (with_journal now j b l) = lp_sessionId l"
  "lp_pendingFire (with_journal now j b l) = lp_pendingFire l" "lp_updatedAt (with_journal now j b l) = lp_updatedAt l"
  by (simp_all add: with_journal_def Let_def)

lemma get_put_loop: "get_loop (put_loop now j l s) i = (if i = lp_loopId l then Some (with_journal now j (get_loop s i) l) else get_loop s i)"
  by (simp add: put_loop_def emit_def Let_def get_loop_def update_conv')

lemma emit_keeps [simp]:
  "sv_loops (emit e s) = sv_loops s" "sv_timer (emit e s) = sv_timer s" "sv_tasks (emit e s) = sv_tasks s"
  "sv_bySession (emit e s) = sv_bySession s" "sv_lives (emit e s) = sv_lives s" "get_loop (emit e s) = get_loop s"
  by (simp_all add: emit_def get_loop_def fun_eq_iff)

lemma put_frame [simp]:
  "sv_timer (put_loop now j l s) = sv_timer s" "sv_tasks (put_loop now j l s) = sv_tasks s"
  "sv_bySession (put_loop now j l s) = sv_bySession s" "sv_lives (put_loop now j l s) = sv_lives s"
  "sv_verifications (put_loop now j l s) = sv_verifications s"
  by (simp_all add: put_loop_def Let_def emit_def)

lemma arm_frame [simp]:
  "get_loop (arm s) = get_loop s" "sv_tasks (arm s) = sv_tasks s" "sv_loops (arm s) = sv_loops s"
  "sv_bySession (arm s) = sv_bySession s" "sv_lives (arm s) = sv_lives s"
  by (simp_all add: arm_def get_loop_def fun_eq_iff)

lemma task_frame [simp]:
  "get_loop (add_task t s) = get_loop s" "sv_timer (add_task t s) = sv_timer s" "sv_tasks (add_task t s) = sv_tasks s @ [t]"
  "sv_bySession (add_task t s) = sv_bySession s" "sv_lives (add_task t s) = sv_lives s" "sv_loops (add_task t s) = sv_loops s"
  "get_loop (drop_task k s) = get_loop s" "sv_timer (drop_task k s) = sv_timer s"
  "sv_bySession (drop_task k s) = sv_bySession s" "sv_lives (drop_task k s) = sv_lives s" "sv_loops (drop_task k s) = sv_loops s"
  by (simp_all add: add_task_def drop_task_def get_loop_def fun_eq_iff)

lemma live_frame [simp]:
  "get_loop (set_live a f s) = get_loop s" "sv_timer (set_live a f s) = sv_timer s" "sv_tasks (set_live a f s) = sv_tasks s"
  "sv_bySession (set_live a f s) = sv_bySession s" "sv_loops (set_live a f s) = sv_loops s"
  by (simp_all add: set_live_def get_loop_def fun_eq_iff split: option.split)

lemma sets_frame [simp]:
  "get_loop (s\<lparr>sv_bySession := x1\<rparr>) = get_loop s" "get_loop (s\<lparr>sv_lives := x2\<rparr>) = get_loop s" "get_loop (s\<lparr>sv_usageSeq := x3\<rparr>) = get_loop s"
  "get_loop (s\<lparr>sv_waits := x4\<rparr>) = get_loop s" "get_loop (s\<lparr>sv_verifications := x5\<rparr>) = get_loop s" "get_loop (s\<lparr>sv_aborted := x6\<rparr>) = get_loop s"
  "get_loop (s\<lparr>sv_controllers := x7\<rparr>) = get_loop s" "get_loop (s\<lparr>sv_releasing := x8\<rparr>) = get_loop s" "get_loop (s\<lparr>sv_tasks := x9\<rparr>) = get_loop s"
  "get_loop (s\<lparr>sv_timer := x10\<rparr>) = get_loop s" "get_loop (s\<lparr>sv_log := x11\<rparr>) = get_loop s"
  by (simp_all add: get_loop_def fun_eq_iff)

section \<open>No wakeup is lost\<close>

definition keyed :: "service \<Rightarrow> bool" where
  "keyed s \<longleftrightarrow> (\<forall>i l. get_loop s i = Some l \<longrightarrow> lp_loopId l = i)"

text \<open>While the worktree of an unwanted run is released, the timer of its loop may be missing: it is armed behind that \<open>await\<close>.\<close>

definition dropping :: "service \<Rightarrow> string \<Rightarrow> bool" where
  "dropping s i \<longleftrightarrow> (\<exists>n w. TDropping i n w \<in> set (sv_tasks s))"

definition timed :: "service \<Rightarrow> int \<Rightarrow> bool" where
  "timed s t \<longleftrightarrow> (\<exists>u. sv_timer s = Some u \<and> u \<le> t)"

definition awake :: "service \<Rightarrow> bool" where
  "awake s \<longleftrightarrow> keyed s \<and> (\<forall>i l t. get_loop s i = Some l \<longrightarrow> lp_state l = LActive \<longrightarrow> lp_nextWakeAt l = Some t \<longrightarrow> timed s t \<or> dropping s i)"

named_theorems wakeup \<open>steps that keep the timer in order\<close>

lemma foldl_min_below: "foldl min (t :: int) ts \<le> t \<and> (\<forall>u \<in> set ts. foldl min t ts \<le> u)"
proof (induction ts arbitrary: t)
  case (Cons x xs)
  have "foldl min (min t x) xs \<le> t" "foldl min (min t x) xs \<le> x"
    using Cons[of "min t x"] by (meson min.cobounded1 min.cobounded2 order_trans)+
  then show ?case
    using Cons[of "min t x"] by simp
qed simp

lemma armed_below: "t \<in> set (wakes s) \<Longrightarrow> timed (arm s) t"
  using foldl_min_below by (auto simp: arm_def timed_def split: list.split)

lemma wake_listed: "get_loop s i = Some l \<Longrightarrow> lp_state l = LActive \<Longrightarrow> lp_nextWakeAt l = Some t \<Longrightarrow> t \<in> set (wakes s)"
proof -
  assume "get_loop s i = Some l" "lp_state l = LActive" "lp_nextWakeAt l = Some t"
  then have "(i, l) \<in> set (sv_loops s)" "(case (i, l) of (_, l) \<Rightarrow> if lp_state l = LActive then lp_nextWakeAt l else None) = Some t"
    by (auto simp: get_loop_def dest: map_of_SomeD)
  then show ?thesis
    by (force simp: wakes_def List.map_filter_def)
qed

lemma awake_arm [wakeup]: "keyed s \<Longrightarrow> awake (arm s)"
  by (simp add: awake_def keyed_def) (meson armed_below wake_listed)

lemma keyed_put [wakeup]: "keyed s \<Longrightarrow> keyed (put_loop now j l s)"
  by (simp add: keyed_def get_put_loop)

text \<open>What a wakeup needs is on the loops, the timer and the list of tasks.\<close>

lemma awake_cong:
  "get_loop s' = get_loop s \<Longrightarrow> sv_timer s' = sv_timer s \<Longrightarrow> (\<And>i. dropping s i \<Longrightarrow> dropping s' i) \<Longrightarrow> awake s \<Longrightarrow> awake s'"
  unfolding awake_def keyed_def timed_def by metis

lemma awake_put [wakeup]:
  assumes "awake s" "lp_state l = LActive \<longrightarrow> lp_nextWakeAt l = None"
  shows "awake (put_loop now j l s)"
  using assms by (auto simp: awake_def keyed_def get_put_loop dropping_def timed_def)

lemma awake_put_same [wakeup]:
  assumes "awake s" "get_loop s (lp_loopId l) = Some b" "lp_state l = lp_state b" "lp_nextWakeAt l = lp_nextWakeAt b"
  shows "awake (put_loop now j l s)"
  using assms by (auto simp: awake_def keyed_def get_put_loop dropping_def timed_def)

lemma awake_keyed: "awake s \<Longrightarrow> keyed s"
  by (simp add: awake_def)

lemma awake_add [wakeup]: "awake s \<Longrightarrow> awake (add_task t s)"
  by (rule awake_cong[of _ s]) (auto simp: dropping_def)

lemma awake_emit [wakeup]: "awake s \<Longrightarrow> awake (emit e s)"
  by (rule awake_cong[of _ s]) (auto simp: dropping_def)

lemma awake_live [wakeup]: "awake s \<Longrightarrow> awake (set_live a f s)"
  by (rule awake_cong[of _ s]) (auto simp: dropping_def)

lemma awake_fields [wakeup]:
  "awake s \<Longrightarrow> awake (s\<lparr>sv_bySession := x1\<rparr>)" "awake s \<Longrightarrow> awake (s\<lparr>sv_lives := x2\<rparr>)" "awake s \<Longrightarrow> awake (s\<lparr>sv_usageSeq := x3\<rparr>)"
  "awake s \<Longrightarrow> awake (s\<lparr>sv_waits := x4\<rparr>)" "awake s \<Longrightarrow> awake (s\<lparr>sv_verifications := x5\<rparr>)" "awake s \<Longrightarrow> awake (s\<lparr>sv_aborted := x6\<rparr>)"
  "awake s \<Longrightarrow> awake (s\<lparr>sv_controllers := x7\<rparr>)" "awake s \<Longrightarrow> awake (s\<lparr>sv_releasing := x8\<rparr>)" "awake s \<Longrightarrow> awake (s\<lparr>sv_log := x9\<rparr>)"
  by (rule awake_cong[of _ s]; simp add: dropping_def)+

lemma keyed_cong: "get_loop s' = get_loop s \<Longrightarrow> keyed s' = keyed s"
  by (simp add: keyed_def)

end
