(* ===== verification/LoopWakes.thy ===== *)
theory LoopWakes
  imports LoopSteps
begin

text \<open>
  Every step of the loop service keeps its timer in order (\<^const>\<open>awake\<close>): each wakeup of an active loop has a timer at or before it.
\<close>

section \<open>The parts\<close>

lemma keyed_id: "keyed s \<Longrightarrow> get_loop s i = Some l \<Longrightarrow> lp_loopId l = i"
  by (simp add: keyed_def)

lemma awake_id: "awake s \<Longrightarrow> get_loop s i = Some l \<Longrightarrow> lp_loopId l = i"
  by (simp add: awake_def keyed_def)

lemma awake_arm_put [wakeup]: "awake s \<Longrightarrow> awake (arm (put_loop now j l s))"
  by (simp add: awake_arm keyed_put awake_keyed)

lemma awake_patch [wakeup]: "awake s \<Longrightarrow> awake (patchRun now i n f s)"
  using awake_id[of s i] by (auto simp: patchRun_def intro!: awake_put_same split: option.split)

lemma awake_unreported [wakeup]: "awake s \<Longrightarrow> awake (recordUnreported now i n s)"
  using awake_id[of s i] by (auto simp: recordUnreported_def on_run_def intro!: awake_put_same split: option.split)

lemma awake_usage [wakeup]:
  assumes "awake s"
  shows "awake (recordUsage env now i u n s)"
proof -
  let ?s1 = "s\<lparr>sv_usageSeq := AList.update (ue_sessionId u) (ue_seq u) (sv_usageSeq s)\<rparr>"
  have s1: "awake ?s1"
    using assms by (rule wakeup)
  have "awake (put_loop now False ((on_run n f l)\<lparr>lp_usage := v, lp_updatedAt := now\<rparr>) ?s1)" if "get_loop s i = Some l" for f l v
    using s1 that awake_id[OF s1, of i l] by (intro awake_put_same[where b = l]) (simp_all add: on_run_def)
  then show ?thesis
    using assms s1 by (auto simp: recordUsage_def Let_def intro: awake_emit split: option.split)
qed

lemma awake_release [wakeup]: "awake s \<Longrightarrow> awake (releaseLease env i after s)"
  by (auto simp: releaseLease_def intro!: wakeup split: option.split)

lemma awake_submit [wakeup]: "awake s \<Longrightarrow> awake (submit_run sid running report s)"
  by (auto simp: submit_run_def Let_def intro!: wakeup)

lemma begun [simp]: "lp_state (beginRun l now how sid wt) = LRunning" "lp_loopId (beginRun l now how sid wt) = lp_loopId l"
    "lp_runs (beginRun l now how sid wt) = lp_runs l + 1"
  by (simp_all add: beginRun_def)

lemma awake_begin [wakeup]: "awake s \<Longrightarrow> awake (begin_run env now sid how report l s)"
  by (auto simp: begin_run_def Let_def intro!: wakeup)

lemma awake_start [wakeup]: "awake s \<Longrightarrow> awake (startRun env now sid how report l s)"
  by (auto simp: startRun_def intro!: wakeup)

lemma awake_announce [wakeup]: "awake s \<Longrightarrow> awake (announce i n s)"
  by (auto simp: announce_def intro!: wakeup split: option.split)

lemma awake_abort [wakeup]: "awake s \<Longrightarrow> awake (abort_verification i s)"
  by (auto simp: abort_verification_def intro!: wakeup split: option.split)

lemma awake_verify [wakeup]: "awake s \<Longrightarrow> awake (verify l s)"
  by (auto simp: verify_def Let_def intro!: wakeup)

lemma awake_drop [wakeup]: "awake s \<Longrightarrow> awake (drop_sessions a s)"
  by (auto simp: drop_sessions_def Let_def intro!: wakeup)

lemma keyed_announce [wakeup]: "keyed s \<Longrightarrow> keyed (announce i n s)"
  by (auto simp: announce_def keyed_def split: option.split)

lemma awake_arm_announce [wakeup]: "awake s \<Longrightarrow> awake (arm (announce i n (put_loop now j l s)))"
  by (simp add: awake_arm keyed_announce keyed_put awake_keyed)

lemma awake_end [wakeup]: "awake s \<Longrightarrow> awake (endRun env now a x s)"
  by (auto simp: endRun_def Let_def intro!: wakeup split: option.split)

lemma awake_end_released [wakeup]: "awake s \<Longrightarrow> awake (end_released now i next s)"
  by (auto simp: end_released_def Let_def intro!: wakeup split: option.split)

lemma awake_settle [wakeup]: "awake s \<Longrightarrow> awake (settle env now i checked audit accepts s)"
  by (auto simp: settle_def Let_def intro!: wakeup split: option.split)

lemma awake_block [wakeup]: "awake s \<Longrightarrow> awake (block now i why s)"
  by (auto simp: block_def Let_def intro!: wakeup split: option.split)

lemma awake_settled [wakeup]: "awake s \<Longrightarrow> awake (verify_settled env now l outcome s)"
  by (auto simp: verify_settled_def Let_def intro!: wakeup split: verify_outcome.split)

lemma awake_verified [wakeup]: "awake s \<Longrightarrow> awake (verified env now l auditSubmitted usageSession outcome s)"
  by (auto simp: verified_def Let_def intro!: wakeup split: option.split)

lemma awake_after [wakeup]: "awake s \<Longrightarrow> awake (after_released env now i after s)"
  by (auto simp: after_released_def intro!: wakeup split: after_release.split)

lemma awake_lease [wakeup]: "awake s \<Longrightarrow> awake (lease_released env now i n w after answer s)"
  by (auto simp: lease_released_def Let_def intro!: wakeup)

lemma awake_asked [wakeup]:
  "awake s \<Longrightarrow> awake (put_loop now j (asks env now sid request kind title detail tool l) s)"
  by (rule awake_put) (simp_all add: asks_def)

lemma awake_observe [wakeup]: "awake s \<Longrightarrow> awake (observe env now sid e s)"
  by (auto simp: observe_def observe_live_def Let_def intro!: wakeup split: option.split loop_event.split)

lemma awake_wait [wakeup]: "awake s \<Longrightarrow> awake (wait_over env i s)"
  by (auto simp: wait_over_def Let_def intro!: wakeup split: option.split)

lemma keyed_release: "keyed s \<Longrightarrow> keyed (releaseLease env i after s)"
  by (auto simp: releaseLease_def keyed_def split: option.split)

lemma awake_submitted [wakeup]: "awake s \<Longrightarrow> awake (submitted env now sid a running place s)"
proof (cases place)
  case None
  assume "awake s"
  then have "keyed (s\<lparr>sv_bySession := AList.delete sid (sv_bySession s)\<rparr>)"
    by (simp add: awake_def keyed_def)
  then show ?thesis
    by (simp add: submitted_def None Let_def awake_arm keyed_release keyed_put)
qed (auto simp: submitted_def intro: wakeup)

lemma awake_dropped_task: "awake s \<Longrightarrow> pending s k t \<Longrightarrow> (\<And>i n w. t \<noteq> TDropping i n w) \<Longrightarrow> awake (drop_task k s)"
proof (rule awake_cong[of _ s])
  fix i
  assume "pending s k t" "\<And>i n w. t \<noteq> TDropping i n w" "dropping s i"
  then obtain n w where d: "TDropping i n w \<in> set (sv_tasks s)" "k < length (sv_tasks s)" "sv_tasks s ! k \<noteq> TDropping i n w"
    by (auto simp: dropping_def pending_def)
  then obtain j where j: "j < length (sv_tasks s)" "sv_tasks s ! j = TDropping i n w"
    by (auto simp: in_set_conv_nth)
  then have "TDropping i n w \<in> set (take k (sv_tasks s) @ drop (Suc k) (sv_tasks s))"
    using d id_take_nth_drop[OF d(2)] by (metis Un_iff insertE list.set(2) set_append d(1))
  then show "dropping (drop_task k s) i"
    by (auto simp: dropping_def drop_task_def splice_out_def)
qed auto

lemma awake_worktree_dropped: "keyed s \<Longrightarrow> awake (worktree_dropped now i n w answer s)"
proof -
  assume "keyed s"
  then have "keyed (patchRun now i n f s)" for f
    by (auto simp: patchRun_def intro: keyed_put split: option.split)
  then show ?thesis
    by (simp add: worktree_dropped_def awake_arm)
qed

lemma awake_made:
  assumes "awake s"
  shows "awake (worktree_made env now sid result l running s)"
proof -
  have stale: "awake (drop_worktree (lp_loopId l) n m (put_loop now True c s))" if "lp_loopId c = lp_loopId l" for c n m
  proof (cases m)
    case (Inl why)
    then show ?thesis using assms by (simp add: drop_worktree_def awake_arm keyed_put awake_keyed)
  next
    case (Inr x)
    then show ?thesis
      using assms that by (auto simp: drop_worktree_def awake_def keyed_def get_put_loop dropping_def timed_def)
  qed
  have plain: "awake (drop_worktree i n m s)" for i n m
    using assms by (auto simp: drop_worktree_def intro!: wakeup awake_keyed split: sum.split)
  have ended: "lp_loopId (end_loop env x now c) = lp_loopId c" for x c
    by (simp add: end_loop_def finishRun_def go_on_def stop_loop_def ended_base_def Let_def split: option.split loop_budget.split)
  show ?thesis
    using assms plain stale ended awake_id[OF assms]
    by (auto simp: worktree_made_def Let_def intro!: wakeup split: option.split sum.split)
qed

section \<open>The commands\<close>

lemma awake_change [wakeup]: "awake s \<Longrightarrow> awake (change now i f s)"
  by (auto simp: change_def intro!: wakeup split: option.split)

lemma awake_if_changed [wakeup]: "awake s \<Longrightarrow> awake (if_changed i f (abort_verification i) s)"
  by (auto simp: if_changed_def intro!: wakeup)

lemma awake_create [wakeup]: "awake s \<Longrightarrow> awake (create_loop env now i sid inp s)"
  by (auto simp: create_loop_def intro!: wakeup split: option.split)

lemma keyed_verify [wakeup]: "keyed s \<Longrightarrow> keyed (verify l s)"
  by (rule keyed_cong[THEN iffD2]) (auto simp: verify_def abort_verification_def Let_def split: option.split)

lemma awake_review [wakeup]: "awake s \<Longrightarrow> awake (review_cmd env now i inp s)"
proof -
  assume s: "awake s"
  then have "keyed s"
    by (rule awake_keyed)
  then have "awake (arm (verify l (put_loop now True l2 (put_loop now True l3 s))))" "awake (arm (put_loop now True l3 s))" for l l2 l3
    by (simp_all add: awake_arm keyed_verify keyed_put)
  then show ?thesis
    using s by (simp add: review_cmd_def Let_def split: option.split sum.split)
qed

lemma awake_fire [wakeup]:
  assumes "awake s"
  shows "awake (fire_cmd env now i note_text s)"
proof -
  have "awake (put_loop now True (l\<lparr>lp_pendingFire := v, lp_updatedAt := now\<rparr>) s)" if "get_loop s i = Some l" for l v
    using assms that awake_id[OF assms that] by (intro awake_put_same[where b = l]) simp_all
  then show ?thesis
    using assms by (auto simp: fire_cmd_def Let_def intro!: awake_start split: option.split)
qed

lemma awake_foldl: "awake s \<Longrightarrow> (\<And>s x. awake s \<Longrightarrow> awake (f s x)) \<Longrightarrow> awake (foldl f s xs)"
  by (induction xs arbitrary: s) auto

lemma awake_tick [wakeup]: "awake s \<Longrightarrow> awake (tick_cmd env now sids directory i limit execute report s)"
  by (auto simp: tick_cmd_def tick_one_def intro!: awake_foldl wakeup)

lemma awake_runNow [wakeup]: "awake s \<Longrightarrow> awake (runNow_cmd env now i s)"
  by (auto simp: runNow_cmd_def intro!: wakeup split: option.split)

lemma awake_remove [wakeup]: "awake s \<Longrightarrow> awake (remove_cmd i s)"
proof -
  assume s: "awake s"
  have "keyed (emit (ERemove i) (s\<lparr>sv_loops := AList.delete i (sv_loops s)\<rparr>))"
    using s by (auto simp: keyed_def awake_def get_loop_def emit_def delete_conv')
  then show ?thesis
    using s by (auto simp: remove_cmd_def intro!: awake_arm split: option.split)
qed

lemma keyed_begin: "keyed s \<Longrightarrow> keyed (startRun env now sid how report l s)"
  by (auto simp: startRun_def begin_run_def submit_run_def patchRun_def Let_def get_put_loop keyed_def split: option.split)

lemma keyed_foldl: "keyed s \<Longrightarrow> (\<And>s x. keyed s \<Longrightarrow> keyed (f s x)) \<Longrightarrow> keyed (foldl f s xs)"
  by (induction xs arbitrary: s) simp_all

lemma awake_wake: "keyed s \<Longrightarrow> awake (wakeDue env now s)"
proof -
  assume s: "keyed s"
  have "keyed (s\<lparr>sv_timer := None\<rparr>)"
    using s by (simp add: keyed_cong[of "s\<lparr>sv_timer := None\<rparr>" s])
  then have "keyed (foldl (start_due env now) (s\<lparr>sv_timer := None\<rparr>) ls)" for ls
    by (rule keyed_foldl) (simp add: start_due_def keyed_begin)
  then show ?thesis
    by (simp add: wakeDue_def awake_arm)
qed

lemma awake_step:
  assumes "lstep env s t" "awake s"
  shows "awake t"
  using assms
proof cases
  case (Dropped k i n w now answer)
  then show ?thesis
    using awake_keyed[OF assms(2)] by (simp add: awake_worktree_dropped keyed_cong[of "drop_task k s" s])
next
  case (Wake u now)
  then show ?thesis
    using awake_keyed[OF assms(2)] by (simp add: awake_wake)
qed (auto simp: pause_cmd_def accept_cmd_def stop_cmd_def intro!: wakeup awake_made assms dest: awake_dropped_task)

definition keyed_map :: "(string \<times> loop) list \<Rightarrow> bool" where
  "keyed_map m \<longleftrightarrow> (\<forall>i l. map_of m i = Some l \<longrightarrow> lp_loopId l = i)"

lemma keyed_update: "keyed_map m \<Longrightarrow> keyed_map (AList.update (lp_loopId l) l m)"
  unfolding keyed_map_def update_conv' by (metis fun_upd_apply option.inject)

lemma rows_keyed: "keyed_map m \<Longrightarrow> keyed_map (foldl (\<lambda>m l. AList.update (lp_loopId l) l m) m rows)"
  by (induction rows arbitrary: m) (simp_all add: keyed_update)

lemma keyed_init: "keyed (init_service rows)"
proof -
  have "keyed_map (sv_loops (init_service rows))"
    unfolding init_service_def service.simps by (rule rows_keyed) (simp add: keyed_map_def)
  then show ?thesis
    by (simp only: keyed_def get_loop_def keyed_map_def)
qed

lemma keyed_interrupt: "keyed s \<Longrightarrow> keyed (interrupt_run env now s l)"
  unfolding interrupt_run_def by (simp add: keyed_put)

lemma keyed_start:
  assumes "keyed s"
  shows "keyed (foldl (release_again env) (foldl verify_again (foldl (interrupt_run env now) s xs) ys) zs)"
proof -
  have "keyed (foldl (interrupt_run env now) s xs)"
    using assms keyed_interrupt by (rule keyed_foldl)
  then have "keyed (foldl verify_again (foldl (interrupt_run env now) s xs) ys)"
    by (rule keyed_foldl) (simp add: verify_again_def keyed_verify)
  then show ?thesis
    by (rule keyed_foldl) (simp add: release_again_def keyed_release)
qed

interpretation timers: service_invariant env rows awake for env rows
  by unfold_locales (simp add: start_service_def Let_def awake_arm keyed_start keyed_init, rule awake_step)

text \<open>C13: No wakeup of a loop is lost: in every state the service can reach, an active loop that has a time to wake at has a timer armed at
  that time or before it (the one exception is a loop whose unwanted worktree is being released, which arms the timer when it is
  done), whatever commands, session events, checks, audits and answers came in between, in whatever order.\<close>

theorem no_wakeup_is_lost:
  assumes "service_run env rows s" "get_loop s i = Some l" "lp_state l = LActive" "lp_nextWakeAt l = Some t"
    and "\<And>n w. TDropping i n w \<notin> set (sv_tasks s)"
  shows "\<exists>u. sv_timer s = Some u \<and> u \<le> t"
  using timers.always[OF assms(1)] assms(2-) by (force simp: awake_def timed_def dropping_def)

text \<open>A daemon without worktrees, in one time zone, with a loop that wakes every minute.\<close>

definition lone_env :: loop_env where
  "lone_env = \<lparr>le_parse = \<lambda>_. None, le_zones = utc, le_show = \<lambda>_. [], le_hash = \<lambda>_. [], le_redact = \<lambda>t. t, le_worktrees = False,
     le_approvalTimeoutMs = 900000\<rparr>"

definition lone_loop :: loop where
  "lone_loop = (plain_loop (Interval 60000) (Goal (Some 3)))\<lparr>lp_loopId := ''l'', lp_nextWakeAt := Some 60000\<rparr>"

lemma no_wakeup_is_lost_witness: "\<exists>u. sv_timer (start_service lone_env 0 (init_service [lone_loop])) = Some u \<and> u \<le> 60000"
proof -
  let ?s = "start_service lone_env 0 (init_service [lone_loop])"
  have run: "service_run lone_env [lone_loop] ?s"
    by (rule service_run.Boot)
  have "map_option (\<lambda>l. (lp_state l, lp_nextWakeAt l)) (get_loop ?s ''l'') = Some (LActive, Some 60000)"
    by code_simp
  then obtain l where l: "get_loop ?s ''l'' = Some l" "lp_state l = LActive" "lp_nextWakeAt l = Some 60000"
    by auto
  have "length (sv_tasks ?s) = 0"
    by code_simp
  then show ?thesis
    using no_wakeup_is_lost[OF run l] by simp
qed

end
