(* ===== verification/LoopSingle.thy ===== *)
theory LoopSingle
  imports LoopWakes
begin

text \<open>
  A loop never has two runs at once. A run in flight has one token at every moment: the worktree that is being made for it, its
  message that is being submitted, its session, or the end that waits for its lease. The invariant \<open>single\<close> counts the tokens of
  a loop and says which states the loop can be in while there is one.
\<close>

section \<open>Runs in flight\<close>

definition submitting :: "service \<Rightarrow> nat list" where
  "submitting s = List.map_filter (\<lambda>t. case t of TSubmitting _ a _ \<Rightarrow> Some a | _ \<Rightarrow> None) (sv_tasks s)"

definition live_of :: "service \<Rightarrow> string \<Rightarrow> nat \<Rightarrow> bool" where
  "live_of s i a \<longleftrightarrow> map_option lv_loopId (get_live s a) = Some i"

definition is_submit :: "task \<Rightarrow> bool" where
  "is_submit t = (case t of TSubmitting _ _ _ \<Rightarrow> True | _ \<Rightarrow> False)"

definition ends_for :: "string \<Rightarrow> after_release \<Rightarrow> bool" where
  "ends_for i a = (case a of AfterEnd _ l \<Rightarrow> lp_loopId l = i | _ \<Rightarrow> False)"

fun token :: "string \<Rightarrow> task \<Rightarrow> bool" where
  "token i (TCreating _ r _) = (lp_loopId r = i)"
| "token i (TSubmitting _ _ r) = (lp_loopId r = i)"
| "token i (TReleasing _ _ _ a) = ends_for i a"
| "token i (TReleased _ a) = ends_for i a"
| "token i _ = False"

definition in_flight :: "service \<Rightarrow> string \<Rightarrow> nat" where
  "in_flight s i =
     length (filter (\<lambda>(_, a). a \<notin> set (submitting s) \<and> live_of s i a) (sv_bySession s)) + length (filter (token i) (sv_tasks s))"

definition busy :: "loop_state set" where
  "busy = {LRunning, LNeedsInput, LStopped, LCompleted}"

text \<open>A draft has never run.\<close>

definition draft_ok :: "loop \<Rightarrow> bool" where
  "draft_ok l \<longleftrightarrow> (lp_draft l \<longrightarrow> lp_state l \<in> {LPaused, LStopped, LCompleted} \<and> lp_history l = [])"

definition end_ok :: "string \<Rightarrow> after_release \<Rightarrow> bool" where
  "end_ok i a \<longleftrightarrow> (case a of AfterEnd _ l \<Rightarrow> lp_loopId l = i \<and> \<not> lp_draft l | _ \<Rightarrow> True)"

fun task_ok :: "service \<Rightarrow> task \<Rightarrow> bool" where
  "task_ok s (TCreating l r _) = (lp_loopId l = lp_loopId r \<and> \<not> lp_draft r)"
| "task_ok s (TSubmitting sid a r) =
     (\<not> lp_draft r \<and> (\<exists>v. get_live s a = Some v \<and> lv_loopId v = lp_loopId r \<and> lv_queueId v = None \<and> lv_turnId v = None)
      \<and> (\<forall>k. (k, a) \<in> set (sv_bySession s) \<longrightarrow> k = sid))"
| "task_ok s (TReleasing i _ _ a) = end_ok i a"
| "task_ok s (TReleased i a) = end_ok i a"
| "task_ok s _ = True"

definition links :: "service \<Rightarrow> bool" where
  "links s \<longleftrightarrow> distinct (map snd (sv_bySession s)) \<and> (\<forall>(k, a) \<in> set (sv_bySession s). a < length (sv_lives s))
     \<and> distinct (submitting s) \<and> list_all (task_ok s) (sv_tasks s)"

text \<open>A loop as it may be stored while \<open>n\<close> runs of it are in flight.\<close>

definition calm :: "nat \<Rightarrow> loop \<Rightarrow> bool" where
  "calm n l \<longleftrightarrow> (n = 0 \<or> n = 1 \<and> lp_state l \<in> busy \<and> \<not> lp_draft l) \<and> draft_ok l"

definition single :: "service \<Rightarrow> bool" where
  "single s \<longleftrightarrow> keyed s \<and> distinct (map fst (sv_loops s)) \<and> links s \<and> (\<forall>i. in_flight s i \<le> 1)
     \<and> (\<forall>i l. get_loop s i = Some l \<longrightarrow> calm (in_flight s i) l)"

named_theorems alone \<open>steps that keep one run at a time\<close>

section \<open>Changes that concern no run\<close>

lemma same_runs:
  assumes "sv_tasks s' = sv_tasks s" "sv_bySession s' = sv_bySession s" "sv_lives s' = sv_lives s"
  shows "in_flight s' i = in_flight s i" "links s' = links s"
proof -
  have live: "get_live s' = get_live s"
    using assms by (simp add: get_live_def fun_eq_iff)
  have "task_ok s' t = task_ok s t" for t
    using assms live by (cases t) simp_all
  then have "task_ok s' = task_ok s" ..
  then show "links s' = links s"
    using assms by (simp add: links_def submitting_def)
  show "in_flight s' i = in_flight s i"
    using assms live by (simp add: in_flight_def submitting_def live_of_def)
qed

lemma single_cong:
  assumes "sv_tasks s' = sv_tasks s" "sv_bySession s' = sv_bySession s" "sv_lives s' = sv_lives s" "sv_loops s' = sv_loops s" "single s"
  shows "single s'"
  using assms same_runs[OF assms(1-3)] by (simp add: single_def keyed_def get_loop_def)

lemma single_fields [alone]:
  "single s \<Longrightarrow> single (s\<lparr>sv_usageSeq := x1\<rparr>)" "single s \<Longrightarrow> single (s\<lparr>sv_waits := x2\<rparr>)" "single s \<Longrightarrow> single (s\<lparr>sv_verifications := x3\<rparr>)"
  "single s \<Longrightarrow> single (s\<lparr>sv_aborted := x4\<rparr>)" "single s \<Longrightarrow> single (s\<lparr>sv_controllers := x5\<rparr>)" "single s \<Longrightarrow> single (s\<lparr>sv_releasing := x6\<rparr>)"
  "single s \<Longrightarrow> single (s\<lparr>sv_timer := x7\<rparr>)" "single s \<Longrightarrow> single (emit e s)" "single s \<Longrightarrow> single (arm s)"
  by (rule single_cong[of _ s]; simp add: emit_def arm_def)+

lemma calm_journal [simp]: "calm n (with_journal now j b l) = calm n l"
  by (simp add: calm_def draft_ok_def)

lemma put_runs [simp]: "in_flight (put_loop now j l s) i = in_flight s i" "links (put_loop now j l s) = links s"
  by (rule same_runs; simp)+

lemma single_put [alone]:
  assumes "single s" "calm (in_flight s (lp_loopId l)) l"
  shows "single (put_loop now j l s)"
proof -
  have "distinct (map fst (sv_loops (put_loop now j l s)))"
    using assms(1) by (simp add: put_loop_def emit_def Let_def single_def distinct_update)
  then show ?thesis
    using assms keyed_put by (auto simp: single_def get_put_loop)
qed

lemma single_calm: "single s \<Longrightarrow> get_loop s i = Some l \<Longrightarrow> calm (in_flight s i) l"
  by (simp add: single_def)

lemma single_id: "single s \<Longrightarrow> get_loop s i = Some l \<Longrightarrow> lp_loopId l = i"
  by (simp add: single_def keyed_def)

text \<open>A change that keeps the state, the draft mark and an empty history.\<close>

lemma single_put_same [alone]:
  assumes "single s" "get_loop s i = Some b" "lp_loopId l = lp_loopId b" "lp_state l = lp_state b" "lp_draft l = lp_draft b"
    "lp_history b = [] \<Longrightarrow> lp_history l = []"
  shows "single (put_loop now j l s)"
  using assms single_id[OF assms(1,2)] single_calm[OF assms(1,2)] by (intro single_put) (auto simp: calm_def draft_ok_def)

lemma single_patch [alone]: "single s \<Longrightarrow> single (patchRun now i n f s)"
  by (auto simp: patchRun_def intro!: single_put_same split: option.split)

lemma single_unreported [alone]: "single s \<Longrightarrow> single (recordUnreported now i n s)"
  by (auto simp: recordUnreported_def on_run_def intro!: single_put_same split: option.split)

lemma single_usage [alone]:
  assumes "single s"
  shows "single (recordUsage env now i u n s)"
proof -
  let ?s1 = "s\<lparr>sv_usageSeq := AList.update (ue_sessionId u) (ue_seq u) (sv_usageSeq s)\<rparr>"
  have s1: "single ?s1"
    using assms by (rule alone)
  have "single (put_loop now False ((on_run n f l)\<lparr>lp_usage := v, lp_updatedAt := now\<rparr>) ?s1)" if "get_loop s i = Some l" for f l v
    using s1 that by (intro single_put_same[where b = l and i = i]) (simp_all add: on_run_def)
  then show ?thesis
    using assms s1 by (auto simp: recordUsage_def Let_def intro: alone split: option.split)
qed

section \<open>Tasks\<close>

lemma submitting_add: "submitting (add_task t s) = submitting s @ (case t of TSubmitting _ a _ \<Rightarrow> [a] | _ \<Rightarrow> [])"
  by (cases t) (simp_all add: submitting_def map_filter_def)

lemma live_add [simp]: "get_live (add_task t s) = get_live s" "live_of (add_task t s) = live_of s"
  by (simp_all add: get_live_def live_of_def fun_eq_iff)

lemma task_ok_add: "task_ok (add_task t s) u = task_ok s u"
  by (cases u) simp_all

text \<open>A task that is no run being submitted.\<close>

lemma single_add:
  assumes "single s" "task_ok s t" "\<not> is_submit t"
    and "\<And>i. token i t \<Longrightarrow> in_flight s i = 0 \<and> (\<forall>l. get_loop s i = Some l \<longrightarrow> calm 1 l)"
  shows "single (add_task t s)"
proof -
  have same: "submitting (add_task t s) = submitting s"
    using assms(3) by (cases t) (simp_all add: submitting_add is_submit_def)
  have "links (add_task t s)"
    using assms(1,2) by (simp add: single_def links_def same task_ok_add[abs_def] list_all_iff)
  moreover have "in_flight (add_task t s) i = in_flight s i + (if token i t then 1 else 0)" for i
    by (simp add: in_flight_def same)
  ultimately show ?thesis
    using assms(1,4) by (auto simp: single_def keyed_def)
qed

lemma single_add_free [alone]:
  "single s \<Longrightarrow> (\<And>i. \<not> token i t) \<Longrightarrow> task_ok s t \<Longrightarrow> single (add_task t s)"
  by (rule single_add) (cases t; auto simp: is_submit_def)+

lemma pending_split:
  assumes "pending s k t"
  obtains xs ys where "sv_tasks s = xs @ t # ys" "sv_tasks (drop_task k s) = xs @ ys"
  using assms id_take_nth_drop[of k "sv_tasks s"] by (auto simp: pending_def drop_task_def splice_out_def intro: that)

lemma dropped_live [simp]: "get_live (drop_task k s) = get_live s" "live_of (drop_task k s) = live_of s"
  by (simp_all add: get_live_def live_of_def fun_eq_iff)

lemma task_ok_drop: "task_ok (drop_task k s) u = task_ok s u"
  by (cases u) simp_all

text \<open>Taking a task from the list takes its token.\<close>

lemma taken:
  assumes s: "single s" and t: "pending s k t" "\<not> is_submit t"
  shows "single (drop_task k s)" "task_ok s t" "token i t \<Longrightarrow> in_flight (drop_task k s) i = 0"
    and "token i t \<Longrightarrow> get_loop s i = Some l \<Longrightarrow> calm 1 l"
proof -
  obtain xs ys where split: "sv_tasks s = xs @ t # ys" "sv_tasks (drop_task k s) = xs @ ys"
    using t(1) by (rule pending_split)
  have same: "submitting (drop_task k s) = submitting s"
    using t(2) split by (cases t) (simp_all add: submitting_def map_filter_def is_submit_def)
  have count: "in_flight s i = in_flight (drop_task k s) i + (if token i t then 1 else 0)" for i
    using split by (simp add: in_flight_def same)
  have "links (drop_task k s)"
    using s split by (simp add: single_def links_def same task_ok_drop[abs_def] list_all_iff)
  moreover have le: "in_flight s i \<le> 1" for i
    using s unfolding single_def by blast
  moreover have "in_flight (drop_task k s) i \<le> 1" for i
    using le[of i] count[of i] by linarith
  moreover have "calm (in_flight (drop_task k s) i) l" if "get_loop s i = Some l" for i l
    using single_calm[OF s that] count[of i] unfolding calm_def by (cases "token i t") auto
  ultimately show "single (drop_task k s)"
    using s unfolding single_def by (simp add: keyed_def)
  show "task_ok s t"
    using s split by (simp add: single_def links_def)
  have one: "in_flight s i = 1 \<and> in_flight (drop_task k s) i = 0" if "token i t"
    using le[of i] count[of i] that by simp
  then show "token i t \<Longrightarrow> in_flight (drop_task k s) i = 0"
    by blast
  show "token i t \<Longrightarrow> get_loop s i = Some l \<Longrightarrow> calm 1 l"
    using one single_calm[OF s, of i l] by simp
qed

lemma calm_mono: "calm n l \<Longrightarrow> m \<le> n \<Longrightarrow> calm m l"
  by (auto simp: calm_def)

text \<open>The general way to keep \<^const>\<open>single\<close>: the links are right and no loop has more runs than before.\<close>

lemma single_shrink:
  assumes "single s" "sv_loops s' = sv_loops s" "links s'" "\<And>i. in_flight s' i \<le> in_flight s i"
  shows "single s'"
proof -
  have get: "get_loop s' = get_loop s"
    using assms(2) by (simp add: get_loop_def fun_eq_iff)
  have "in_flight s' i \<le> 1" for i
    using assms(1) assms(4)[of i] unfolding single_def by (meson le_trans)
  moreover have "calm (in_flight s' i) l" if "get_loop s i = Some l" for i l
    using single_calm[OF assms(1) that] assms(4)[of i] by (rule calm_mono)
  ultimately show ?thesis
    using assms(1-3) get unfolding single_def by (simp add: keyed_def)
qed

section \<open>A run is submitted\<close>

lemma update_values: "distinct (map snd m) \<Longrightarrow> v \<notin> snd ` set m \<Longrightarrow> distinct (map snd (AList.update k v m))"
proof (induction m)
  case (Cons x m)
  have "snd ` set (AList.update k v m) \<subseteq> insert v (snd ` set m)"
    by (induction m) auto
  then show ?case
    using Cons by (cases x) auto
qed simp

lemma update_subset: "(k', v') \<in> set (AList.update k v m) \<Longrightarrow> (k', v') = (k, v) \<or> (k', v') \<in> set m"
  by (induction m) (auto split: if_splits)

lemma update_filter: "\<not> P (k, v) \<Longrightarrow> length (filter P (AList.update k v m)) \<le> length (filter P m)"
  by (induction m) auto

lemma submit_count:
  assumes s: "single s"
  shows "in_flight (submit_run sid running report s) i \<le> in_flight s i + (if lp_loopId running = i then 1 else 0)"
proof -
  define a where "a = length (sv_lives s)"
  define s' where "s' = submit_run sid running report s"
  have parts: "sv_bySession s' = AList.update sid a (sv_bySession s)" "sv_tasks s' = sv_tasks s @ [TSubmitting sid a running]"
      "sv_lives s' = sv_lives s @ [new_live (lp_loopId running) (lp_runs running) report]"
    by (simp_all add: s'_def submit_run_def Let_def a_def add_task_def emit_def)
  have sub: "submitting s' = submitting s @ [a]"
    by (simp add: submitting_def parts map_filter_def)
  have old: "\<forall>(k, b) \<in> set (sv_bySession s). b < a"
    using s by (simp add: single_def links_def a_def)
  have live: "get_live s' b = get_live s b" if "b < a" for b
    using that by (simp add: get_live_def parts a_def nth_append)
  have "length (filter (\<lambda>(_, b). b \<notin> set (submitting s') \<and> live_of s' i b) (sv_bySession s'))
      \<le> length (filter (\<lambda>(_, b). b \<notin> set (submitting s') \<and> live_of s' i b) (sv_bySession s))"
    unfolding parts by (rule update_filter) (simp add: sub)
  also have "\<dots> = length (filter (\<lambda>(_, b). b \<notin> set (submitting s) \<and> live_of s i b) (sv_bySession s))"
    using old by (intro arg_cong[where f = length] filter_cong) (auto simp: sub live_of_def live)
  finally show ?thesis
    unfolding s'_def[symmetric] by (simp add: in_flight_def parts(2))
qed

lemma single_submit [alone]:
  assumes s: "single s" and none: "in_flight s (lp_loopId running) = 0" and run: "\<not> lp_draft running"
    and stored: "\<And>l. get_loop s (lp_loopId running) = Some l \<Longrightarrow> calm 1 l"
  shows "single (submit_run sid running report s)"
proof -
  define a where "a = length (sv_lives s)"
  define s' where "s' = submit_run sid running report s"
  have parts: "sv_bySession s' = AList.update sid a (sv_bySession s)" "sv_tasks s' = sv_tasks s @ [TSubmitting sid a running]"
      "sv_lives s' = sv_lives s @ [new_live (lp_loopId running) (lp_runs running) report]" "sv_loops s' = sv_loops s"
    by (simp_all add: s'_def submit_run_def Let_def a_def add_task_def emit_def)
  have sub: "submitting s' = submitting s @ [a]"
    by (simp add: submitting_def parts map_filter_def)
  have old: "(\<forall>(k, b) \<in> set (sv_bySession s). b < a)" "distinct (map snd (sv_bySession s))" "distinct (submitting s)"
      "list_all (task_ok s) (sv_tasks s)"
    using s by (simp_all add: single_def links_def a_def)
  have live: "get_live s' b = (if b = a then Some (new_live (lp_loopId running) (lp_runs running) report) else get_live s b)" for b
    by (auto simp: get_live_def parts a_def nth_append)
  have ok: "task_ok s' t" if "task_ok s t" for t
  proof (cases t)
    case (TSubmitting sid2 b r)
    then have b: "b < a"
      using that by (auto simp: get_live_def a_def split: if_splits)
    then show ?thesis
      using that TSubmitting update_subset[of _ b sid a "sv_bySession s"] by (auto simp: live parts)
  qed (use that in simp_all)
  have "a \<notin> set (submitting s)"
  proof
    assume "a \<in> set (submitting s)"
    then obtain sid2 r where "TSubmitting sid2 a r \<in> set (sv_tasks s)"
      by (auto simp: submitting_def map_filter_def split: task.splits)
    then have "task_ok s (TSubmitting sid2 a r)"
      using old(4) by (simp only: list_all_iff)
    then show False
      by (simp add: get_live_def a_def)
  qed
  moreover have "task_ok s' (TSubmitting sid a running)"
    using run old(1) update_subset[of _ a sid a "sv_bySession s"] by (fastforce simp: live parts new_live_def)
  moreover have "distinct (map snd (sv_bySession s'))"
    unfolding parts using old(1,2) by (intro update_values) auto
  moreover have "b < length (sv_lives s')" if "(k, b) \<in> set (sv_bySession s')" for k b
    using that update_subset[of k b sid a "sv_bySession s"] old(1) by (auto simp: parts a_def)
  ultimately have links': "links s'"
    using old ok by (auto simp: links_def parts(2) sub list_all_iff)
  have count: "in_flight s' i \<le> in_flight s i + (if lp_loopId running = i then 1 else 0)" for i
    unfolding s'_def by (rule submit_count[OF s])
  have get: "get_loop s' = get_loop s"
    by (simp add: get_loop_def parts fun_eq_iff)
  have "in_flight s' i \<le> 1" for i
  proof -
    have "in_flight s i \<le> 1"
      using s unfolding single_def by blast
    then show ?thesis
      using count[of i] none by (cases "lp_loopId running = i") auto
  qed
  moreover have "calm (in_flight s' i) l" if "get_loop s i = Some l" for i l
  proof (cases "lp_loopId running = i")
    case True
    then show ?thesis
      using calm_mono[OF stored[unfolded True, OF that]] count[of i] none by simp
  next
    case False
    then show ?thesis
      using calm_mono[OF single_calm[OF s that]] count[of i] by simp
  qed
  ultimately have "single s'"
    using s links' get keyed_cong[OF get] unfolding single_def by (simp add: parts(4))
  then show ?thesis
    by (simp add: s'_def)
qed

lemma calm_zero: "calm 0 l \<longleftrightarrow> draft_ok l"
  by (simp add: calm_def)

lemma calm_running: "lp_state l = LRunning \<Longrightarrow> \<not> lp_draft l \<Longrightarrow> n \<le> 1 \<Longrightarrow> calm n l"
  by (auto simp: calm_def busy_def draft_ok_def)

lemma begun_draft [simp]: "lp_draft (beginRun l now how sid wt) = lp_draft l"
  by (simp add: beginRun_def)

lemma patch_frame [simp]:
  "in_flight (patchRun now i n f s) j = in_flight s j"
  by (simp add: patchRun_def split: option.split)

lemma patch_get: "get_loop (patchRun now i n f s) k = Some l \<Longrightarrow> keyed s \<Longrightarrow>
    \<exists>l0. get_loop s k = Some l0 \<and> lp_state l = lp_state l0 \<and> lp_draft l = lp_draft l0"
  by (auto simp: patchRun_def get_put_loop keyed_def split: option.splits if_splits)

lemma single_begin [alone]:
  assumes s: "single s" and none: "in_flight s (lp_loopId l) = 0" and run: "\<not> lp_draft l"
  shows "single (begin_run env now sid how report l s)"
proof -
  define running where "running = beginRun (l\<lparr>lp_reviewInvalidatedAt := None\<rparr>) now (Some (if lp_pendingFire l \<noteq> None then ByFire else how)) None None"
  define s1 where "s1 = put_loop now True running s"
  have r: "lp_state running = LRunning" "lp_loopId running = lp_loopId l" "\<not> lp_draft running"
    using run by (simp_all add: running_def)
  have s1: "single s1"
    unfolding s1_def using s none r by (intro single_put) (simp_all add: calm_running)
  have none1: "in_flight s1 (lp_loopId l) = 0"
    by (simp add: s1_def none)
  have stored: "calm 1 l2" if "get_loop s1 (lp_loopId l) = Some l2" for l2
    using that r by (intro calm_running) (auto simp: s1_def get_put_loop)
  have submit: "single (submit_run k running b s2)"
    if "single s2" "in_flight s2 (lp_loopId l) = 0" "\<And>l2. get_loop s2 (lp_loopId l) = Some l2 \<Longrightarrow> calm 1 l2" for k b s2
    using that r by (intro single_submit) simp_all
  have patched: "single (submit_run k running b (patchRun now (lp_loopId l) n f s1))" for k b n f
  proof (rule submit)
    show "single (patchRun now (lp_loopId l) n f s1)"
      using s1 by (rule alone)
    show "in_flight (patchRun now (lp_loopId l) n f s1) (lp_loopId l) = 0"
      by (simp add: none1)
    show "calm 1 l2" if "get_loop (patchRun now (lp_loopId l) n f s1) (lp_loopId l) = Some l2" for l2
      using patch_get[OF that] s1 r by (intro calm_running) (auto simp: s1_def get_put_loop single_def)
  qed
  have made: "single (add_task (TCreating l running fired) s2)" if "s2 = s1 \<or> s2 = emit e s1" for fired e s2
  proof (rule single_add)
    show "single s2" "task_ok s2 (TCreating l running fired)" "\<not> is_submit (TCreating l running fired)"
      using that s1 r alone(8)[of s1 e] by (auto simp: is_submit_def)
    have "in_flight s2 j = in_flight s1 j" for j
      using that by (auto intro: same_runs)
    then show "in_flight s2 j = 0 \<and> (\<forall>l2. get_loop s2 j = Some l2 \<longrightarrow> calm 1 l2)" if "token j (TCreating l running fired)" for j
      using that \<open>s2 = s1 \<or> s2 = emit e s1\<close> none1 stored r by auto
  qed
  have creating: "single (add_task (TCreating l running fired) s1)" "single (add_task (TCreating l running fired) (emit e s1))" for fired e
    by (rule made[where e = e], simp)+
  show ?thesis
    unfolding begin_run_def Let_def running_def[symmetric] s1_def[symmetric]
    using patched creating submit[OF s1 none1 stored] r(2) by (auto simp: id_def)
qed

lemma single_start [alone]:
  assumes "single s" "in_flight s (lp_loopId l) = 0" "\<not> lp_draft l"
  shows "single (startRun env now sid how report l s)"
  using assms by (auto simp: startRun_def calm_zero draft_ok_def intro!: alone)

end
