(* ===== verification/LoopAlone.thy ===== *)
theory LoopAlone
  imports LoopSingle
begin

text \<open>Every step of the loop service keeps one run at a time (\<^const>\<open>single\<close>).\<close>

section \<open>Loops that end\<close>

lemma finish_keeps [simp]:
  "lp_draft (finishRun parse z l e) = lp_draft l" "lp_loopId (finishRun parse z l e) = lp_loopId l"
  by (simp_all add: finishRun_def go_on_def stop_loop_def ended_base_def Let_def split: option.split loop_budget.split)

lemma end_keeps [simp]: "lp_draft (end_loop env x now l) = lp_draft l" "lp_loopId (end_loop env x now l) = lp_loopId l"
  by (simp_all add: end_loop_def)

lemma last_run_keeps [simp]: "lp_draft (set_last_run f l) = lp_draft l" "lp_loopId (set_last_run f l) = lp_loopId l"
    "lp_state (set_last_run f l) = lp_state l"
  by (simp_all add: set_last_run_def)

lemma ended_keeps [simp]: "lp_draft (ended_loop env v x now l) = lp_draft l" "lp_loopId (ended_loop env v x now l) = lp_loopId l"
  by (simp_all add: ended_loop_def Let_def split: option.split)

lemma verification_keeps [simp]:
  "lp_draft (finishVerification z l v) = lp_draft l" "lp_loopId (finishVerification z l v) = lp_loopId l"
  by (simp_all add: finishVerification_def add_feedback_def Let_def split: option.split loop_budget.split)

lemma settled_keeps [simp]: "lp_draft (settled_loop env now checked audit accepts l) = lp_draft l"
    "lp_loopId (settled_loop env now checked audit accepts l) = lp_loopId l"
  by (simp_all add: settled_loop_def Let_def split: option.split)

lemma calm_undrafted: "\<not> lp_draft l \<Longrightarrow> calm 0 l"
  by (simp add: calm_def draft_ok_def)

lemma calm_one: "calm 1 l \<Longrightarrow> \<not> lp_draft l \<and> lp_state l \<in> busy"
  by (simp add: calm_def)

lemma single_put_ended [alone]:
  "single s \<Longrightarrow> in_flight s (lp_loopId l) = 0 \<Longrightarrow> \<not> lp_draft l \<Longrightarrow> single (put_loop now j l s)"
  by (rule single_put) (simp_all add: calm_undrafted)

lemma frame_runs [simp]: "in_flight (emit e s) i = in_flight s i" "in_flight (arm s) i = in_flight s i"
    "in_flight (s\<lparr>sv_usageSeq := x1\<rparr>) i = in_flight s i" "in_flight (s\<lparr>sv_waits := x2\<rparr>) i = in_flight s i"
    "in_flight (s\<lparr>sv_verifications := x3\<rparr>) i = in_flight s i" "in_flight (s\<lparr>sv_timer := x4\<rparr>) i = in_flight s i"
    "in_flight (s\<lparr>sv_releasing := x5\<rparr>) i = in_flight s i" "in_flight (s\<lparr>sv_aborted := x6\<rparr>) i = in_flight s i"
    "in_flight (s\<lparr>sv_controllers := x7\<rparr>) i = in_flight s i"
  by (rule same_runs; simp add: emit_def arm_def)+

section \<open>Worktrees and leases\<close>

lemma single_release_free [alone]:
  assumes "single s" "\<And>j. \<not> ends_for j after" "end_ok i after"
  shows "single (releaseLease env i after s)"
  using assms by (auto simp: releaseLease_def intro!: alone split: option.split)

lemma not_submit [simp]: "\<not> is_submit (TReleased i a)" "\<not> is_submit (TReleasing i n w a)" "\<not> is_submit (TDropping i n w)"
    "\<not> is_submit (TVerifying l c)" "\<not> is_submit (TCreating l r f)"
  by (simp_all add: is_submit_def)

lemma single_release_end:
  assumes "single s" "in_flight s i = 0" "lp_loopId next = i" "\<not> lp_draft next" "\<And>l. get_loop s i = Some l \<Longrightarrow> calm 1 l"
  shows "single (releaseLease env i (AfterEnd i next) s)"
proof -
  have add: "single (add_task t s2)"
    if "t \<in> {TReleased i (AfterEnd i next)} \<union> {TReleasing i n w (AfterEnd i next) | n w. True}"
      "single s2" "in_flight s2 = in_flight s" "get_loop s2 = get_loop s" for t s2
    using that assms by (intro single_add) (auto simp: end_ok_def ends_for_def)
  have "in_flight (s\<lparr>sv_releasing := x\<rparr>) = in_flight s" "in_flight (emit e (s\<lparr>sv_releasing := x\<rparr>)) = in_flight s" for x e
    by (simp_all add: fun_eq_iff)
  then show ?thesis
    using assms(1) by (auto simp: releaseLease_def id_def intro!: add single_fields split: option.split)
qed

lemma single_drop_worktree [alone]: "single s \<Longrightarrow> single (drop_worktree i n m s)"
  by (auto simp: drop_worktree_def intro!: alone split: sum.split)

lemma single_made:
  assumes s: "single s" and none: "in_flight s (lp_loopId running) = 0" and same: "lp_loopId l = lp_loopId running"
    and run: "\<not> lp_draft running" and stored: "\<And>c. get_loop s (lp_loopId running) = Some c \<Longrightarrow> calm 1 c"
  shows "single (worktree_made env now sid result l running s)"
proof -
  have ended: "single (put_loop now True ((end_loop env x now c)\<lparr>lp_reason := why\<rparr>) s)" "single (put_loop now True (end_loop env x now c) s)"
    if "get_loop s (lp_loopId running) = Some c" for x c why
    using s none calm_one[OF stored[OF that]] single_id[OF s that] by (auto intro!: single_put_ended)
  have go: "single (submit_run sid running False (patchRun now (lp_loopId running) n f s))" for n f
  proof (rule single_submit)
    show "single (patchRun now (lp_loopId running) n f s)"
      using s by (rule alone)
    show "calm 1 c" if "get_loop (patchRun now (lp_loopId running) n f s) (lp_loopId running) = Some c" for c
      using patch_get[OF that] s stored by (force simp: single_def calm_def draft_ok_def)
  qed (simp_all add: none run)
  show ?thesis
    using s ended go by (auto simp: worktree_made_def Let_def same still_current_def intro!: single_drop_worktree single_fields(9)
      split: option.splits sum.splits if_splits)
qed

section \<open>A message is submitted\<close>

lemma single_set_live:
  assumes s: "single s" and f: "\<And>v. lv_loopId (f v) = lv_loopId v"
    and free: "a \<notin> set (submitting s) \<or> (\<forall>v. lv_queueId v = None \<longrightarrow> lv_turnId v = None \<longrightarrow> lv_queueId (f v) = None \<and> lv_turnId (f v) = None)"
  shows "single (set_live a f s)"
proof (cases "get_live s a")
  case None
  then show ?thesis using s by (simp add: set_live_def)
next
  case (Some v)
  define s' where "s' = set_live a f s"
  have a: "a < length (sv_lives s)" "v = sv_lives s ! a"
    using Some by (auto simp: get_live_def split: if_splits)
  have parts: "sv_bySession s' = sv_bySession s" "sv_tasks s' = sv_tasks s" "sv_loops s' = sv_loops s" "length (sv_lives s') = length (sv_lives s)"
    using Some by (simp_all add: s'_def set_live_def)
  have live: "get_live s' b = (if b = a then Some (f v) else get_live s b)" for b
    using Some a by (auto simp: s'_def set_live_def get_live_def)
  have of_same: "live_of s' = live_of s"
    using Some f by (auto simp: live_of_def live fun_eq_iff)
  have sub: "submitting s' = submitting s"
    by (simp add: submitting_def parts)
  have ok: "task_ok s' t" if "t \<in> set (sv_tasks s)" "task_ok s t" for t
  proof (cases t)
    case (TSubmitting sid b r)
    then have "b \<in> set (submitting s)"
      using that(1) by (force simp: submitting_def map_filter_def)
    then show ?thesis
      using that(2) TSubmitting free f Some by (auto simp: live parts)
  qed (use that in simp_all)
  have "links s'"
    using s ok by (auto simp: single_def links_def parts sub list_all_iff)
  then have "single s'"
    by (rule single_shrink[OF s parts(3)]) (simp add: in_flight_def parts sub of_same)
  then show ?thesis
    by (simp add: s'_def)
qed

lemma filter_twice: "length (filter P (filter Q m)) \<le> length (filter P m)"
  by (induction m) auto

lemma one_more:
  "distinct (map snd m) \<Longrightarrow> length (filter (\<lambda>(_, b). b \<notin> A \<and> P b) m)
     \<le> length (filter (\<lambda>(_, b). b \<notin> insert a A \<and> P b) m) + (if P a then 1 else 0)"
proof (induction m)
  case (Cons x m)
  obtain k b where x: "x = (k, b)"
    by (cases x)
  show ?case
  proof (cases "b = a")
    case True
    then have "filter (\<lambda>(_, b). b \<notin> A \<and> P b) m = filter (\<lambda>(_, b). b \<notin> insert a A \<and> P b) m"
      using Cons.prems x by (intro filter_cong) force+
    then show ?thesis
      using x True by simp
  next
    case False
    then show ?thesis
      using Cons x by auto
  qed
qed simp

lemma submit_taken:
  assumes s: "single s" and t: "pending s k (TSubmitting sid a r)"
  shows "single (drop_task k s)" "a \<notin> set (submitting (drop_task k s))" "\<not> lp_draft r" "in_flight s (lp_loopId r) = 1"
    and "in_flight ((drop_task k s)\<lparr>sv_bySession := AList.delete sid (sv_bySession s)\<rparr>) (lp_loopId r) = 0"
proof -
  obtain xs ys where split: "sv_tasks s = xs @ TSubmitting sid a r # ys" "sv_tasks (drop_task k s) = xs @ ys"
    using t by (rule pending_split)
  let ?m = "List.map_filter (\<lambda>t. case t of TSubmitting _ a _ \<Rightarrow> Some a | _ \<Rightarrow> None)"
  have sub: "submitting s = ?m xs @ a # ?m ys" "submitting (drop_task k s) = ?m xs @ ?m ys"
    using split by (simp_all add: submitting_def map_filter_def)
  have links: "distinct (submitting s)" "list_all (task_ok s) (sv_tasks s)" "distinct (map snd (sv_bySession s))"
    using s by (simp_all add: single_def links_def)
  show new: "a \<notin> set (submitting (drop_task k s))"
    using links(1) sub by simp
  have ok: "task_ok s (TSubmitting sid a r)"
    using links(2) split by simp
  then obtain v where v: "get_live s a = Some v" "lv_loopId v = lp_loopId r" "\<not> lp_draft r" "\<And>k. (k, a) \<in> set (sv_bySession s) \<Longrightarrow> k = sid"
    by auto
  show "\<not> lp_draft r"
    by (rule v(3))
  show one: "in_flight s (lp_loopId r) = 1"
  proof -
    have "in_flight s (lp_loopId r) \<le> 1"
      using s unfolding single_def by blast
    then show ?thesis
      using split by (simp add: in_flight_def)
  qed
  have set_sub: "set (submitting s) = insert a (set (submitting (drop_task k s)))"
    unfolding sub by auto
  have count: "in_flight (drop_task k s) i \<le> in_flight s i" for i
    using one_more[OF links(3), of "set (submitting (drop_task k s))" "live_of s i" a] split v(1,2)
    by (simp add: in_flight_def set_sub live_of_def split: if_splits)
  have "links (drop_task k s)"
    using s split sub links(1) by (auto simp: single_def links_def task_ok_drop[abs_def] list_all_iff)
  then show "single (drop_task k s)"
    by (intro single_shrink[OF s]) (simp_all add: count)
  show "in_flight ((drop_task k s)\<lparr>sv_bySession := AList.delete sid (sv_bySession s)\<rparr>) (lp_loopId r) = 0"
  proof -
    let ?i = "lp_loopId r" and ?s1 = "(drop_task k s)\<lparr>sv_bySession := AList.delete sid (sv_bySession s)\<rparr>"
    have same: "submitting ?s1 = submitting (drop_task k s)" "live_of ?s1 = live_of s" "sv_tasks ?s1 = xs @ ys"
      using split by (simp_all add: submitting_def live_of_def get_live_def fun_eq_iff drop_task_def)
    have none: "filter (\<lambda>(_, b). b \<notin> set (submitting s) \<and> live_of s ?i b) (sv_bySession s) = []" "filter (token ?i) (xs @ ys) = []"
      using one split by (auto simp: in_flight_def)
    have "b \<in> set (submitting (drop_task k s)) \<or> \<not> live_of s ?i b" if "(j, b) \<in> set (AList.delete sid (sv_bySession s))" for j b
    proof -
      have j: "(j, b) \<in> set (sv_bySession s)" "j \<noteq> sid"
        using that by (auto simp: AList.delete_eq)
      then have "b \<noteq> a"
        using v(4) by blast
      then show ?thesis
        using j(1) none(1) sub by (auto simp: filter_empty_conv)
    qed
    then show ?thesis
      using none(2) by (auto simp: in_flight_def same filter_empty_conv)
  qed
qed

lemma set_live_loops [simp]: "sv_loops (set_live a f s) = sv_loops s"
  by (simp add: set_live_def split: option.split)

lemma delete_session:
  assumes s: "single s"
  shows "single (s\<lparr>sv_bySession := AList.delete sid (sv_bySession s)\<rparr>)"
proof -
  let ?s' = "s\<lparr>sv_bySession := AList.delete sid (sv_bySession s)\<rparr>"
  have same: "submitting ?s' = submitting s" "live_of ?s' = live_of s" "get_live ?s' = get_live s"
    by (simp_all add: submitting_def live_of_def get_live_def fun_eq_iff)
  have sub: "set (AList.delete sid (sv_bySession s)) \<subseteq> set (sv_bySession s)"
    by (auto simp: AList.delete_eq)
  have "distinct (map snd (sv_bySession s)) \<Longrightarrow> distinct (map snd (AList.delete sid (sv_bySession s)))"
    by (simp add: AList.delete_eq distinct_map_filter)
  moreover have "task_ok ?s' t" if "task_ok s t" for t
    using that sub by (cases t) (auto simp: same)
  ultimately have "links ?s'"
    using s sub by (auto simp: single_def links_def same list_all_iff)
  moreover have "length (filter P (AList.delete sid (sv_bySession s))) \<le> length (filter P (sv_bySession s))" for P
    unfolding AList.delete_eq by (rule filter_twice)
  ultimately show ?thesis
    by (intro single_shrink[OF s]) (simp_all add: in_flight_def same)
qed

lemma single_submitted:
  assumes s: "single s" and t: "pending s k (TSubmitting sid a running)"
  shows "single (submitted env now sid a running place (drop_task k s))"
proof (cases place)
  case (Some q)
  then show ?thesis
    using submit_taken[OF s t] by (auto simp: submitted_def intro!: single_set_live split: option.split)
next
  case None
  define s1 where "s1 = (drop_task k s)\<lparr>sv_bySession := AList.delete sid (sv_bySession (drop_task k s))\<rparr>"
  let ?c = "orelse (get_loop s1 (lp_loopId running)) running"
  have s1: "single s1" "in_flight s1 (lp_loopId running) = 0" "get_loop s1 = get_loop s"
    using submit_taken[OF s t] delete_session[OF submit_taken(1)[OF s t]] by (simp_all add: s1_def)
  have "lp_loopId ?c = lp_loopId running" "\<not> lp_draft ?c"
    using submit_taken(3,4)[OF s t] single_id[OF s] calm_one single_calm[OF s, of "lp_loopId running"]
    by (auto simp: s1(3) orelse_def split: option.split)
  then have "single (put_loop now True (end_loop env OutFailed now ?c) s1)"
    using s1 by (intro single_put_ended) simp_all
  then show ?thesis
    unfolding submitted_def None option.case Let_def s1_def[symmetric]
    by (intro single_fields(9) single_release_free) (simp_all add: ends_for_def end_ok_def)
qed

section \<open>A run ends\<close>

lemma unreported_frame [simp]:
  "in_flight (recordUnreported now i n s) j = in_flight s j" "sv_bySession (recordUnreported now i n s) = sv_bySession s"
  "sv_lives (recordUnreported now i n s) = sv_lives s" "sv_tasks (recordUnreported now i n s) = sv_tasks s"
  by (simp_all add: recordUnreported_def split: option.split)

lemma sessions_dropped:
  assumes s: "single s" and a: "(sid, a) \<in> set (sv_bySession s)" "a \<notin> set (submitting s)" "live_of s i a"
  shows "single (drop_sessions a s)" "in_flight (drop_sessions a s) i = 0" "in_flight s i = 1"
proof -
  let ?s' = "drop_sessions a s"
  have parts: "sv_bySession ?s' = filter (\<lambda>(_, b). b \<noteq> a) (sv_bySession s)" "sv_tasks ?s' = sv_tasks s" "sv_loops ?s' = sv_loops s"
      "sv_lives ?s' = sv_lives s"
    by (simp_all add: drop_sessions_def Let_def)
  have same: "submitting ?s' = submitting s" "live_of ?s' = live_of s" "get_live ?s' = get_live s"
    by (simp_all add: submitting_def live_of_def get_live_def parts fun_eq_iff)
  have "task_ok ?s' t" if "task_ok s t" for t
    using that by (cases t) (auto simp: same parts)
  then have links: "links ?s'"
    using s by (auto simp: single_def links_def same parts list_all_iff distinct_map_filter)
  have shrink: "in_flight ?s' j \<le> in_flight s j" for j
    unfolding in_flight_def same parts using filter_twice by (intro add_mono) auto
  show "single ?s'"
    using links shrink by (intro single_shrink[OF s]) (simp_all add: parts)
  let ?L = "filter (\<lambda>(_, b). b \<notin> set (submitting s) \<and> live_of s i b) (sv_bySession s)"
  have mem: "(sid, a) \<in> set ?L"
    using a by simp
  have le: "length ?L + length (filter (token i) (sv_tasks s)) \<le> 1"
    using s unfolding single_def in_flight_def by blast
  have L: "?L = [(sid, a)]" "filter (token i) (sv_tasks s) = []"
  proof -
    obtain x xs where x: "?L = x # xs"
      using mem by (cases ?L) auto
    then show "?L = [(sid, a)]" "filter (token i) (sv_tasks s) = []"
      using le mem by (simp_all only: x) auto
  qed
  then show "in_flight s i = 1"
    by (simp add: in_flight_def)
  have "filter (\<lambda>(_, b). b \<notin> set (submitting s) \<and> live_of s i b) (filter (\<lambda>(_, b). b \<noteq> a) (sv_bySession s)) = []"
  proof -
    have "x = (sid, a)" if "x \<in> set ?L" for x
      using that unfolding L(1) by simp
    then show ?thesis
      by (fastforce simp: filter_empty_conv)
  qed
  then show "in_flight ?s' i = 0"
    using L(2) by (simp add: in_flight_def same parts)
qed

lemma announce_frame [simp]: "in_flight (announce i n s) j = in_flight s j"
  by (auto simp: announce_def split: option.split)

lemma single_announce [alone]: "single s \<Longrightarrow> single (announce i n s)"
  by (auto simp: announce_def intro: single_fields split: option.split)

lemma single_verify [alone]: "single s \<Longrightarrow> single (verify l s)"
  by (auto simp: verify_def abort_verification_def Let_def intro!: single_add_free single_fields split: option.split)

lemma single_ended:
  assumes s: "single s" and a: "map_of (sv_bySession s) sid = Some a" "get_live s a = Some v" "lv_turnId v \<noteq> None"
  shows "single (endRun env now a x s)"
proof -
  define s1 where "s1 = (if lv_turnId v \<noteq> None \<and> \<not> lv_usageRecorded v then recordUnreported now (lv_loopId v) (lv_run v) s else s)"
  have s1: "single s1" "sv_bySession s1 = sv_bySession s" "sv_lives s1 = sv_lives s" "sv_tasks s1 = sv_tasks s"
    using s by (simp_all add: s1_def single_unreported)
  have sid: "(sid, a) \<in> set (sv_bySession s1)"
    using map_of_SomeD[OF a(1)] s1(2) by simp
  have "live_of s1 (lv_loopId v) a"
    using a(2) s1(3) by (auto simp: live_of_def get_live_def split: if_splits)
  moreover have "a \<notin> set (submitting s1)"
  proof
    assume "a \<in> set (submitting s1)"
    then obtain k r where "TSubmitting k a r \<in> set (sv_tasks s)"
      by (auto simp: submitting_def map_filter_def s1(4) split: task.splits)
    then have "task_ok s (TSubmitting k a r)"
      using s unfolding single_def links_def list_all_iff by blast
    then show False
      using a(2,3) by simp
  qed
  ultimately have drop: "single (drop_sessions a s1)" "in_flight (drop_sessions a s1) (lv_loopId v) = 0" "in_flight s1 (lv_loopId v) = 1"
    using sessions_dropped[OF s1(1) sid] by blast+
  show ?thesis
  proof (cases "get_loop s1 (lv_loopId v)")
    case None
    then show ?thesis
      using s1(1) a(2) by (simp add: endRun_def s1_def)
  next
    case (Some l)
    define s3 where "s3 = (drop_sessions a s1)\<lparr>sv_waits := AList.delete (lv_loopId v) (sv_waits (drop_sessions a s1))\<rparr>"
    define ended where "ended = ended_loop env v x now l"
    have l: "calm 1 l" "lp_loopId l = lv_loopId v"
      using single_calm[OF s1(1) Some] single_id[OF s1(1) Some] drop(3) by auto
    have s3: "single s3" "in_flight s3 (lv_loopId v) = 0" "get_loop s3 (lv_loopId v) = Some l"
      using drop Some by (simp_all add: s3_def single_fields) (simp add: drop_sessions_def Let_def)
    have n: "\<not> lp_draft ended" "lp_loopId ended = lv_loopId v"
      using calm_one[OF l(1)] l(2) by (simp_all add: ended_def)
    have "single (releaseLease env (lv_loopId v) (AfterEnd (lv_loopId v) ended) s3)"
      using s3 n l by (intro single_release_end) auto
    moreover have put: "single (arm (announce (lv_loopId v) m (put_loop now True ended s3)))" for m
      using s3 n by (intro single_fields(9) single_announce single_put_ended) simp_all
    ultimately show ?thesis
      unfolding endRun_def a(2) option.case Let_def s1_def[symmetric] Some s3_def[symmetric] ended_def[symmetric]
      by (auto intro: single_verify)
  qed
qed

lemma single_end_released:
  assumes "single s" "in_flight s i = 0" "lp_loopId ended = i" "\<not> lp_draft ended"
  shows "single (end_released now i ended s)"
  using assms by (auto simp: end_released_def Let_def intro!: single_fields(9) single_announce single_put_ended split: option.split)

section \<open>Claims that were checked\<close>

text \<open>A loop in a state that no run in flight allows.\<close>

lemma calm_idle: "calm n l \<Longrightarrow> lp_state l \<notin> busy \<Longrightarrow> n = 0"
  by (auto simp: calm_def)

lemma idle_loop:
  assumes "single s" "get_loop s i = Some l" "lp_state l \<notin> busy"
  shows "in_flight s i = 0" "lp_state l \<noteq> LPaused \<Longrightarrow> \<not> lp_draft l"
  using single_calm[OF assms(1,2)] calm_idle assms(3) by (auto simp: calm_def draft_ok_def busy_def)

lemma single_settle [alone]:
  assumes "single s"
  shows "single (settle env now i checked audit accepts s)"
proof -
  let ?s1 = "s\<lparr>sv_verifications := AList.delete i (sv_verifications s)\<rparr>"
  have s1: "single ?s1"
    using assms by (rule single_fields)
  have "in_flight s i = 0" "\<not> lp_draft l" "lp_loopId l = i" if "get_loop s i = Some l" "lp_state l = LVerifying" for l
    using idle_loop[OF assms that(1)] single_id[OF assms that(1)] that(2) by (auto simp: busy_def)
  then show ?thesis
    using s1 by (auto simp: settle_def Let_def intro!: single_fields(9) single_put_ended split: option.split)
qed

lemma single_block [alone]:
  assumes "single s"
  shows "single (block now i why s)"
proof -
  have "in_flight s i = 0" "\<not> lp_draft l" "lp_loopId l = i" if "get_loop s i = Some l" "lp_state l = LVerifying" for l
    using idle_loop[OF assms that(1)] single_id[OF assms that(1)] that(2) by (auto simp: busy_def)
  then show ?thesis
    using assms by (auto simp: block_def Let_def intro!: single_put_ended single_fields(3) split: option.split)
qed

lemma single_settled [alone]: "single s \<Longrightarrow> single (verify_settled env now l outcome s)"
  by (auto simp: verify_settled_def Let_def intro!: single_settle single_block single_patch split: verify_outcome.split)

lemma single_verified [alone]: "single s \<Longrightarrow> single (verified env now l auditSubmitted usageSession outcome s)"
  by (auto simp: verified_def Let_def ends_for_def end_ok_def intro!: single_fields single_unreported single_release_free split: option.split)

lemma single_goes_on:
  assumes s: "single s" and t: "pending s k (TReleased i after)"
  shows "single (after_released env now i after (drop_task k s))"
proof (cases after)
  case (AfterEnd j ended)
  then have "end_ok i after" "token i (TReleased i after) \<Longrightarrow> in_flight (drop_task k s) i = 0"
    using taken[OF s t] by auto
  then show ?thesis
    using taken(1)[OF s t] AfterEnd by (auto simp: after_released_def end_ok_def ends_for_def intro!: single_end_released)
qed (use taken(1)[OF s t] in \<open>auto simp: after_released_def intro: single_settled\<close>)

lemma single_lease_released:
  assumes s: "single s" and t: "pending s k (TReleasing i n w after)"
  shows "single (lease_released env now i n w after answer (drop_task k s))"
proof -
  have drop: "single (drop_task k s)" "end_ok i after"
    using taken(1,2)[OF s t] by auto
  have none: "ends_for j after \<Longrightarrow> in_flight (drop_task k s) j = 0" and stored: "ends_for j after \<Longrightarrow> get_loop s j = Some l \<Longrightarrow> calm 1 l" for j l
    using taken(3,4)[OF s t] by auto
  define s1 where "s1 = (drop_task k s)\<lparr>sv_releasing := filter (\<lambda>p. p \<noteq> wt_path w) (sv_releasing (drop_task k s))\<rparr>"
  have s1: "single s1" "get_loop s1 = get_loop s" "in_flight s1 = in_flight (drop_task k s)"
    using drop by (simp_all add: s1_def single_fields fun_eq_iff)
  have "single (add_task (TReleased i after) (patchRun now i n f s1))" for f
  proof (rule single_add)
    show "single (patchRun now i n f s1)"
      using s1(1) by (rule single_patch)
    show "in_flight (patchRun now i n f s1) j = 0 \<and> (\<forall>l. get_loop (patchRun now i n f s1) j = Some l \<longrightarrow> calm 1 l)"
      if "token j (TReleased i after)" for j
    proof -
      have "calm 1 l" if patched: "get_loop (patchRun now i n f s1) j = Some l" for l
      proof -
        obtain l0 where l0: "get_loop s j = Some l0" "lp_state l = lp_state l0" "lp_draft l = lp_draft l0"
          using patch_get[OF patched] s1 by (auto simp: single_def)
        then show ?thesis
          using stored[of j l0] \<open>token j (TReleased i after)\<close> by (auto simp: calm_def draft_ok_def)
      qed
      then show ?thesis
        using none[of j] that by (simp add: s1(3))
    qed
  qed (use drop in simp_all)
  then show ?thesis
    by (simp add: lease_released_def Let_def s1_def)
qed

section \<open>Events\<close>

lemma single_observe [alone]:
  assumes s: "single s"
  shows "single (observe env now sid e s)"
proof -
  have started: "single (set_live a (turn_started turn queueIds) s)" for a turn queueIds
    using s by (auto intro!: single_set_live simp: turn_started_def split: option.split)
  have live: "single (set_live a f s)"
    if "\<And>v. lv_loopId (f v) = lv_loopId v \<and> lv_queueId (f v) = lv_queueId v \<and> lv_turnId (f v) = lv_turnId v" for a f
    using s that by (intro single_set_live) simp_all
  have put: "single (put_loop now True (l2\<lparr>lp_reason := r, lp_waiting := w, lp_updatedAt := now\<rparr>) s2)"
    if "get_loop s (lv_loopId v) = Some l" "lp_state l \<in> {LRunning, LNeedsInput}" "l2 = l\<lparr>lp_state := st\<rparr>" "st \<in> {LRunning, LNeedsInput}"
      "s2 = s \<or> s2 = s\<lparr>sv_waits := ws\<rparr>" for v l l2 r w st s2 ws
  proof -
    have "single s2" "in_flight s2 = in_flight s"
      using s that(5) by (auto intro: single_fields)
    then show ?thesis
      using single_calm[OF s that(1)] single_id[OF s that(1)] that by (intro single_put) (auto simp: calm_def draft_ok_def busy_def)
  qed
  have asked: "single (put_loop now True (asks env now sid request kind title detail tool l) s)"
    if "get_loop s (lv_loopId v) = Some l" "lp_state l = LRunning" for v l request kind title detail tool
    using single_calm[OF s that(1)] single_id[OF s that(1)] s that(2)
    by (intro single_put) (auto simp: asks_def calm_def draft_ok_def busy_def)
  have resolved: "single (put_loop now True (l\<lparr>lp_state := LRunning, lp_reason := None, lp_waiting := None, lp_updatedAt := now\<rparr>) (s\<lparr>sv_waits := ws\<rparr>))"
    if "get_loop s (lv_loopId v) = Some l" "lp_state l = LNeedsInput" for v l ws
    using put[OF that(1), of "l\<lparr>lp_state := LRunning\<rparr>" LRunning "s\<lparr>sv_waits := ws\<rparr>" ws None None] that(2) by simp
  have ended: "single (endRun env now a x s)" if "map_of (sv_bySession s) sid = Some a" "get_live s a = Some v" "lv_turnId v = Some turn" for a v x turn
    by (rule single_ended[OF s that(1,2)]) (simp add: that(3))
  show ?thesis
    using s started asked resolved ended
    by (auto simp: observe_def observe_live_def Let_def intro!: single_usage single_fields(2) live split: option.split loop_event.split)
qed

lemma single_wait [alone]:
  assumes "single s"
  shows "single (wait_over env i s)"
proof -
  have "single (set_live a (lv_timedOut_update f) s2)" if "single s2" for a f s2
    using that by (auto intro!: single_set_live)
  then show ?thesis
    using assms by (auto simp: wait_over_def Let_def intro!: single_fields(2,8) split: option.split)
qed

section \<open>Commands\<close>

text \<open>A change keeps one run at a time when it maps a loop that may be stored to one that may be stored.\<close>

lemma single_change:
  assumes s: "single s" and f: "\<And>l l2 n. calm n l \<Longrightarrow> f l = Some l2 \<Longrightarrow> calm n l2 \<and> lp_loopId l2 = lp_loopId l"
  shows "single (change now i f s)"
proof -
  have "single (put_loop now True l2 s)" if "get_loop s i = Some l" "f l = Some l2" for l l2
    using f[OF single_calm[OF s that(1)] that(2)] single_id[OF s that(1)] s by (intro single_put) simp_all
  then show ?thesis
    using s by (cases "get_loop s i") (auto simp: change_def intro!: single_fields(9) split: option.split)
qed

lemma edited_keeps [simp]: "lp_state (edited env now p inp r l) = lp_state l" "lp_draft (edited env now p inp r l) = lp_draft l"
    "lp_history (edited env now p inp r l) = lp_history l" "lp_loopId (edited env now p inp r l) = lp_loopId l"
  by (simp_all add: edited_def Let_def)

lemma calm_edited: "calm n l \<Longrightarrow> update_loop env now p l = Some l2 \<Longrightarrow> calm n l2 \<and> lp_loopId l2 = lp_loopId l"
  unfolding update_loop_def Let_def by (auto simp: calm_def draft_ok_def split: option.splits if_splits)

lemma calm_paused: "calm n l \<Longrightarrow> pause_loop now l = Some l2 \<Longrightarrow> calm n l2 \<and> lp_loopId l2 = lp_loopId l"
  by (auto simp: pause_loop_def calm_def draft_ok_def busy_def split: if_splits)

lemma calm_accepted: "calm n l \<Longrightarrow> accept_loop now why l = Some l2 \<Longrightarrow> calm n l2 \<and> lp_loopId l2 = lp_loopId l"
  by (auto simp: accept_loop_def calm_def draft_ok_def busy_def split: if_splits)

lemma calm_stopped: "calm n l \<Longrightarrow> stop_by_user now l = Some l2 \<Longrightarrow> calm n l2 \<and> lp_loopId l2 = lp_loopId l"
  by (auto simp: stop_by_user_def calm_def draft_ok_def busy_def)

lemma calm_resumed: "calm n l \<Longrightarrow> resume_loop env now l = Some l2 \<Longrightarrow> calm n l2 \<and> lp_loopId l2 = lp_loopId l"
  by (auto simp: resume_loop_def calm_def draft_ok_def busy_def split: if_splits)

lemma calm_activated: "calm n l \<Longrightarrow> activate_loop env now why l = Some l2 \<Longrightarrow> calm n l2 \<and> lp_loopId l2 = lp_loopId l"
  by (auto simp: activate_loop_def calm_def draft_ok_def split: if_splits)

lemma single_if_changed [alone]: "single s \<Longrightarrow> single (if_changed i f (abort_verification i) s)"
  by (auto simp: if_changed_def abort_verification_def intro: single_fields split: option.split)

lemma unused_none: "single s \<Longrightarrow> unused_id s i \<Longrightarrow> in_flight s i = 0"
proof -
  assume s: "single s" and i: "unused_id s i"
  have "\<not> live_of s i a" for a
    using i by (auto simp: unused_id_def live_of_def get_live_def split: if_splits)
  moreover have "\<not> token i t" if "t \<in> set (sv_tasks s)" for t
  proof -
    have "i \<notin> set (task_ids t)"
      using i that by (auto simp: unused_id_def)
    then show ?thesis
      by (cases t) (auto simp: ends_for_def after_loops_def split: after_release.splits)
  qed
  ultimately show ?thesis
    by (auto simp: in_flight_def filter_empty_conv)
qed

lemma single_create: "single s \<Longrightarrow> unused_id s i \<Longrightarrow> single (create_loop env now i sid inp s)"
  by (auto simp: create_loop_def unused_none calm_zero draft_ok_def new_loop_def intro!: single_fields(9) single_put split: option.split)

lemma reviewed_keeps [simp]: "lp_draft (reviewed l i now) = lp_draft l" "lp_loopId (reviewed l i now) = lp_loopId l"
  by (simp_all add: reviewed_def Let_def set_last_run_def split: option.split review_action.split)

lemma single_review [alone]:
  assumes s: "single s"
  shows "single (review_cmd env now i inp s)"
proof -
  have free: "in_flight s i = 0 \<and> \<not> lp_draft l2 \<and> lp_loopId l2 = i" if "get_loop s i = Some l" "reviewLoop l inp now = Inr l2" for l l2
  proof -
    have "review_refusal l inp = None" and l2: "l2 = reviewed l inp now"
      using that(2) by (auto simp: reviewLoop_def split: option.splits)
    then have "lp_state l \<notin> busy" "lp_history l \<noteq> []"
      by (auto simp: review_refusal_def busy_def last_run_def split: if_splits)
    then show ?thesis
      using single_calm[OF s that(1)] single_id[OF s that(1)] l2 by (auto simp: calm_def draft_ok_def)
  qed
  have "single (put_loop now True l2 s)" "single (put_loop now True (l2\<lparr>lp_state := st\<rparr>) (put_loop now True l2 s))"
    if "get_loop s i = Some l" "reviewLoop l inp now = Inr l2" for l l2 st
    using free[OF that] s by (auto intro!: single_put_ended)
  then show ?thesis
    using s by (auto simp: review_cmd_def Let_def intro!: single_fields(9) single_verify split: option.split sum.split)
qed

lemma single_fire [alone]:
  assumes s: "single s"
  shows "single (fire_cmd env now i note_text s)"
proof -
  have put: "single (put_loop now True (l\<lparr>lp_pendingFire := v, lp_updatedAt := now\<rparr>) s)" if "get_loop s i = Some l" for l v
    using s that by (intro single_put_same[where b = l and i = i]) simp_all
  have "single (startRun env now [] ByFire False (l\<lparr>lp_pendingFire := v, lp_updatedAt := now\<rparr>)
      (put_loop now True (l\<lparr>lp_pendingFire := v, lp_updatedAt := now\<rparr>) s))"
    if "get_loop s i = Some l" "lp_state l = LActive" for l v
    using put[OF that(1)] idle_loop[OF s that(1)] single_id[OF s that(1)] that(2) by (intro single_start) (auto simp: busy_def)
  then show ?thesis
    using s put by (auto simp: fire_cmd_def Let_def split: option.split)
qed

lemma single_runNow [alone]:
  assumes s: "single s"
  shows "single (runNow_cmd env now i s)"
proof -
  have "single (startRun env now [] ByHand False l s)" if "get_loop s i = Some l" "can_run env l" for l
    using idle_loop[OF s that(1)] single_id[OF s that(1)] that(2) s by (intro single_start) (auto simp: busy_def can_run_def)
  then show ?thesis
    using s by (auto simp: runNow_cmd_def split: option.split)
qed

lemma single_remove [alone]:
  assumes s: "single s"
  shows "single (remove_cmd i s)"
proof -
  let ?s1 = "s\<lparr>sv_loops := AList.delete i (sv_loops s)\<rparr>"
  have runs: "in_flight ?s1 j = in_flight s j" "links ?s1 = links s" for j
    by (rule same_runs; simp)+
  have "single ?s1"
    using s runs unfolding single_def keyed_def get_loop_def by (auto simp: AList.delete_conv' distinct_delete)
  then show ?thesis
    using s by (auto simp: remove_cmd_def intro!: single_fields(8,9) split: option.split)
qed

section \<open>Several starts\<close>

lemma add_count: "\<not> token j t \<Longrightarrow> \<not> is_submit t \<Longrightarrow> in_flight (add_task t s) j = in_flight s j"
  by (cases t) (simp_all add: in_flight_def submitting_add is_submit_def)

lemma start_others:
  assumes s: "single s" "in_flight s (lp_loopId l) = 0" "\<not> lp_draft l" and j: "in_flight s j = 0" "j \<noteq> lp_loopId l"
  shows "in_flight (startRun env now sid how report l s) j = 0"
proof -
  have submit: "in_flight (submit_run k running b s2) j = 0" if "single s2" "in_flight s2 j = 0" "lp_loopId running = lp_loopId l" for k running b s2
    using submit_count[OF that(1), of k running b j] that(2,3) j(2) by simp
  have put: "single (put_loop now True (beginRun (l\<lparr>lp_reviewInvalidatedAt := None\<rparr>) now h None None) s)" for h
    using s by (intro single_put) (simp_all add: calm_running beginRun_def)
  show ?thesis
    using j by (auto simp: startRun_def begin_run_def Let_def id_def add_count intro!: submit single_patch put)
qed

lemma single_starts:
  assumes "single s" "distinct (map lp_loopId ls)" "\<And>l. l \<in> set ls \<Longrightarrow> in_flight s (lp_loopId l) = 0 \<and> \<not> lp_draft l"
  shows "single (foldl (\<lambda>s l. if skip l then s else startRun env now (sids l) how report l s) s ls)"
  using assms
proof (induction ls arbitrary: s)
  case (Cons l ls)
  let ?s1 = "if skip l then s else startRun env now (sids l) how report l s"
  have "single ?s1"
    using Cons.prems by (auto intro: single_start)
  moreover have "in_flight ?s1 (lp_loopId k) = 0 \<and> \<not> lp_draft k" if "k \<in> set ls" for k
  proof -
    have "lp_loopId k \<noteq> lp_loopId l"
      using Cons.prems(2) that by (auto simp: image_iff)
    then show ?thesis
      using Cons.prems(1) Cons.prems(3)[of l] Cons.prems(3)[of k] that start_others[of s l] by auto
  qed
  ultimately have "single (foldl (\<lambda>s l. if skip l then s else startRun env now (sids l) how report l s) ?s1 ls)"
    using Cons.prems(2) by (intro Cons.IH) simp_all
  then show ?case
    by simp
qed simp

text \<open>The loops in memory that are due: each of them once, none with a run in flight.\<close>

lemma stored_loop: "single s \<Longrightarrow> l \<in> set (map snd (sv_loops s)) \<Longrightarrow> get_loop s (lp_loopId l) = Some l"
proof -
  assume s: "single s" and "l \<in> set (map snd (sv_loops s))"
  then obtain i where "get_loop s i = Some l"
    by (auto simp: single_def get_loop_def)
  then show ?thesis
    using single_id[OF s] by blast
qed

lemma stored_once:
  assumes "single s"
  shows "distinct (map lp_loopId (map snd (sv_loops s)))"
proof -
  have "lp_loopId (snd x) = fst x" if "x \<in> set (sv_loops s)" for x
    using assms that by (cases x) (auto simp: single_def keyed_def get_loop_def)
  then have eq: "map lp_loopId (map snd (sv_loops s)) = map fst (sv_loops s)"
    by simp
  show ?thesis
    unfolding eq using assms by (simp add: single_def)
qed

lemma due_free:
  assumes "single s" "l \<in> set (map snd (sv_loops s))" "lp_state l = LActive"
  shows "in_flight s (lp_loopId l) = 0 \<and> \<not> lp_draft l"
  using idle_loop[OF assms(1) stored_loop[OF assms(1,2)]] assms(3) by (simp add: busy_def)

lemma single_wake:
  assumes s: "single s"
  shows "single (wakeDue env now s)"
proof -
  let ?s1 = "s\<lparr>sv_timer := None\<rparr>" and ?ls = "filter (due now) (map snd (sv_loops s))"
  have "single (foldl (\<lambda>s l. if False then s else startRun env now [] BySchedule False l s) ?s1 ?ls)"
  proof (rule single_starts)
    show "single ?s1"
      using s by (rule single_fields)
    show "distinct (map lp_loopId ?ls)"
      using stored_once[OF s] by (simp add: distinct_map_filter)
    show "in_flight ?s1 (lp_loopId l) = 0 \<and> \<not> lp_draft l" if "l \<in> set ?ls" for l
      using due_free[OF s, of l] that by (auto simp: due_def)
  qed
  then show ?thesis
    by (simp add: wakeDue_def start_due_def[abs_def] single_fields)
qed

lemma single_tick:
  assumes s: "single s"
  shows "single (tick_cmd env now sids directory i limit execute report s)"
proof -
  have "single (foldl (tick_one env now sids report how) s ls)" if ls: "set ls \<subseteq> set (map snd (sv_loops s))" "distinct (map lp_loopId ls)" for ls how
  proof -
    have free: "in_flight s (lp_loopId l) = 0 \<and> \<not> lp_draft l" if "l \<in> set ls" "lp_state l = LActive" for l
      using due_free[OF s subsetD[OF ls(1) that(1)] that(2)] .
    let ?skip = "\<lambda>l. lp_state l \<noteq> LActive \<or> lp_draft l \<or> budget_blocks env l"
    have "foldl (tick_one env now sids report how) s ls = foldl (tick_one env now sids report how) s (filter (\<lambda>l. \<not> ?skip l) ls)"
      by (induction ls arbitrary: s rule: rev_induct) (auto simp: tick_one_def)
    moreover have "single (foldl (\<lambda>s l. if ?skip l then s else startRun env now (sids (lp_loopId l)) how report l s) s (filter (\<lambda>l. \<not> ?skip l) ls))"
      using ls(2) free by (intro single_starts[OF s]) (simp_all add: distinct_map_filter)
    ultimately show ?thesis
      by (simp add: tick_one_def[abs_def])
  qed
  moreover have "set (tick_selected now directory i limit s) \<subseteq> set (map snd (sv_loops s))"
  proof -
    have "l \<in> set (map snd (sv_loops s))" if "get_loop s n = Some l" for n l
      using that by (force simp: get_loop_def dest: map_of_SomeD)
    then show ?thesis
      by (auto simp: tick_selected_def dest!: in_set_takeD split: option.split)
  qed
  moreover have "distinct (map lp_loopId (tick_selected now directory i limit s))"
  proof -
    have "distinct (map lp_loopId (filter P (map snd (sv_loops s))))" for P
      using stored_once[OF s] by (simp add: distinct_map_filter)
    moreover have "distinct (map lp_loopId (take n (sort_key f xs)))" if "distinct (map lp_loopId xs)" for n f and xs :: "loop list"
    proof -
      have "distinct (map lp_loopId (sort_key f xs))"
        using that by (simp add: distinct_map)
      then show ?thesis
        by (simp add: take_map[symmetric] distinct_take)
    qed
    ultimately show ?thesis
      by (auto simp: tick_selected_def split: option.split)
  qed
  ultimately show ?thesis
    using s by (simp add: tick_cmd_def)
qed

section \<open>Every step\<close>

lemma single_edits:
  assumes "single s"
  shows "single (change now i (update_loop env now p) s)" "single (pause_cmd now i s)" "single (accept_cmd now i why s)"
    "single (stop_cmd now i s)" "single (change now i (resume_loop env now) s)" "single (change now i (activate_loop env now reason) s)"
proof -
  have c: "single (if_changed i f (abort_verification i) s)" for f
    using assms by (rule single_if_changed)
  show "single (change now i (update_loop env now p) s)" "single (change now i (resume_loop env now) s)"
      "single (change now i (activate_loop env now reason) s)"
    by (rule single_change[OF assms calm_edited] single_change[OF assms calm_resumed] single_change[OF assms calm_activated]; assumption)+
  show "single (pause_cmd now i s)" "single (accept_cmd now i why s)" "single (stop_cmd now i s)"
    unfolding pause_cmd_def accept_cmd_def stop_cmd_def
    by (rule single_change[OF c calm_paused] single_change[OF c calm_accepted] single_change[OF c calm_stopped]; assumption)+
qed

lemma single_made_step:
  assumes s: "single s" and t: "pending s k (TCreating l running fired)"
  shows "single (worktree_made env now sid result l running (drop_task k s))"
  using taken[OF s t] by (intro single_made) (auto simp: s)

lemma single_patch_drop: "single s \<Longrightarrow> single (worktree_dropped now i n w answer s)"
  by (simp add: worktree_dropped_def single_fields single_patch)

lemma single_step:
  assumes "lstep env s t" "single s"
  shows "single t"
  using assms
proof cases
  case (Dropped k i n w now answer)
  then show ?thesis
    using taken(1)[OF assms(2) Dropped(2)] by (simp add: single_patch_drop)
next
  case (Verified k l c now sub usage outcome)
  then show ?thesis
    using taken(1)[OF assms(2) Verified(2)] by (simp add: single_verified)
qed (use assms(2) in \<open>auto intro!: single_create single_edits single_review single_fire single_runNow single_tick single_remove
      single_observe single_usage single_wait single_wake single_made_step single_submitted single_lease_released single_goes_on\<close>)

section \<open>A daemon that starts\<close>

definition quiet :: "service \<Rightarrow> bool" where
  "quiet s \<longleftrightarrow> single s \<and> (\<forall>i. in_flight s i = 0)"

definition drafts_map :: "(string \<times> loop) list \<Rightarrow> bool" where
  "drafts_map m \<longleftrightarrow> distinct (map fst m) \<and> (\<forall>i l. map_of m i = Some l \<longrightarrow> draft_ok l)"

lemma drafts_update: "drafts_map m \<Longrightarrow> draft_ok l \<Longrightarrow> drafts_map (AList.update i l m)"
  by (auto simp: drafts_map_def distinct_update update_conv' split: if_splits)

lemma drafts_rows: "drafts_map m \<Longrightarrow> \<forall>l \<in> set rows. draft_ok l \<Longrightarrow> drafts_map (foldl (\<lambda>m l. AList.update (lp_loopId l) l m) m rows)"
  by (induction rows arbitrary: m) (simp_all add: drafts_update)

lemma quiet_init:
  assumes "\<forall>l \<in> set rows. draft_ok l"
  shows "quiet (init_service rows)"
proof -
  let ?s = "init_service rows"
  have "drafts_map []"
    by (simp add: drafts_map_def)
  then have d: "drafts_map (sv_loops ?s)"
    using assms unfolding init_service_def service.simps by (rule drafts_rows)
  have empty: "sv_tasks ?s = []" "sv_bySession ?s = []"
    by (simp_all add: init_service_def)
  then have "in_flight ?s i = 0" for i
    by (simp add: in_flight_def)
  moreover have "links ?s"
    using empty by (simp add: links_def submitting_def map_filter_def)
  ultimately show ?thesis
    using d keyed_init[of rows] by (simp add: quiet_def single_def calm_def drafts_map_def get_loop_def)
qed

lemma verify_runs: "in_flight (verify l s) i = in_flight s i"
  by (simp add: verify_def abort_verification_def Let_def add_count split: option.split)

lemma quiet_foldl: "quiet s \<Longrightarrow> (\<And>s x. x \<in> set xs \<Longrightarrow> quiet s \<Longrightarrow> quiet (f s x)) \<Longrightarrow> quiet (foldl f s xs)"
  by (induction xs arbitrary: s) simp_all

lemma quiet_start:
  assumes "\<forall>l \<in> set rows. draft_ok l"
  shows "quiet (start_service env now (init_service rows))"
proof -
  let ?s = "init_service rows" and ?ls = "map snd (sv_loops (init_service rows))"
  have s: "quiet ?s"
    using assms by (rule quiet_init)
  have "quiet (interrupt_run env now s2 l)" if "l \<in> set ?ls" "quiet s2" for s2 l
  proof -
    have "get_loop ?s (lp_loopId l) = Some l"
      using s that(1) by (intro stored_loop) (simp add: quiet_def)
    then have "draft_ok l"
      using s by (auto simp: quiet_def calm_def dest: single_calm)
    then show ?thesis
      using that(2) by (auto simp: interrupt_run_def quiet_def draft_ok_def intro!: single_put_ended)
  qed
  then have s1: "quiet (foldl (interrupt_run env now) ?s ?ls)"
    by (rule quiet_foldl[OF s])
  have v: "quiet (verify_again s2 l)" if "quiet s2" for s2 l
    using that by (simp add: quiet_def verify_again_def single_verify verify_runs)
  have s2: "quiet (foldl verify_again s1 ls)" if "quiet s1" for s1 ls
    by (rule quiet_foldl[OF that]) (rule v)
  have r: "quiet (release_again env s2 l)" if "quiet s2" for s2 l
    using that by (auto simp: quiet_def release_again_def releaseLease_def id_def add_count ends_for_def end_ok_def
        intro!: single_add_free single_fields split: option.split)
  have s3: "quiet (foldl (release_again env) s2 ls)" if "quiet s2" for s2 ls
    by (rule quiet_foldl[OF that]) (rule r)
  show ?thesis
    using s3[OF s2[OF s1]] by (simp add: start_service_def Let_def quiet_def single_fields)
qed

interpretation runs: service_invariant env rows "\<lambda>s. (\<forall>l \<in> set rows. draft_ok l) \<longrightarrow> single s" for env rows
  by unfold_locales (use quiet_start single_step in \<open>auto simp: quiet_def\<close>)

lemma two_members: "x \<in> set xs \<Longrightarrow> y \<in> set xs \<Longrightarrow> x \<noteq> y \<Longrightarrow> 2 \<le> length xs"
  by (cases xs; cases "tl xs") auto

lemma one_session:
  assumes s: "single s" and a: "(k, a) \<in> set (sv_bySession s)" "live_of s i a" and b: "(j, b) \<in> set (sv_bySession s)" "live_of s i b"
  shows "(k, a) = (j, b)"
proof (rule ccontr)
  assume "(k, a) \<noteq> (j, b)"
  have "distinct (map snd (sv_bySession s))"
    using s by (simp add: single_def links_def)
  then have ab: "a \<noteq> b"
    using a(1) b(1) \<open>(k, a) \<noteq> (j, b)\<close> by (metis distinct_map inj_on_eq_iff snd_conv)
  let ?L = "filter (\<lambda>(_, c). c \<notin> set (submitting s) \<and> live_of s i c) (sv_bySession s)" and ?T = "filter (token i) (sv_tasks s)"
  have here: "\<exists>sid r. TSubmitting sid c r \<in> set ?T" if live: "live_of s i c" and c: "c \<in> set (submitting s)" for c
  proof -
    obtain sid r where t: "TSubmitting sid c r \<in> set (sv_tasks s)"
      using c by (auto simp: submitting_def map_filter_def split: task.splits)
    then have "task_ok s (TSubmitting sid c r)"
      using s unfolding single_def links_def list_all_iff by blast
    then have "lp_loopId r = i"
      using live by (auto simp: live_of_def)
    then show ?thesis
      using t by (intro exI[of _ sid] exI[of _ r]) simp
  qed
  have "2 \<le> length ?L + length ?T"
  proof (cases "a \<in> set (submitting s)"; cases "b \<in> set (submitting s)")
    assume "a \<in> set (submitting s)" "b \<in> set (submitting s)"
    then obtain x r y q where "TSubmitting x a r \<in> set ?T" "TSubmitting y b q \<in> set ?T"
      using here a(2) b(2) by blast
    then show ?thesis
      using two_members[of "TSubmitting x a r" ?T "TSubmitting y b q"] ab by simp
  next
    assume "a \<in> set (submitting s)" "b \<notin> set (submitting s)"
    then have "(j, b) \<in> set ?L" "\<exists>t. t \<in> set ?T"
      using here[OF a(2)] b by (simp, blast)
    then show ?thesis
      by (cases ?T; cases ?L) auto
  next
    assume "a \<notin> set (submitting s)" "b \<in> set (submitting s)"
    then have "(k, a) \<in> set ?L" "\<exists>t. t \<in> set ?T"
      using here[OF b(2)] a by (simp, blast)
    then show ?thesis
      by (cases ?T; cases ?L) auto
  next
    assume "a \<notin> set (submitting s)" "b \<notin> set (submitting s)"
    then show ?thesis
      using two_members[of "(k, a)" ?L "(j, b)"] a b ab by simp
  qed
  moreover have "in_flight s i \<le> 1"
    using s unfolding single_def by blast
  ultimately show False
    by (simp add: in_flight_def)
qed

text \<open>C12: A loop never has two runs at once: in every state the service can reach, whatever timers, fires, commands and answers came in
  between, at most one run of a loop is in flight (its worktree being made, its message submitted, its turn running or its lease
  being released), two sessions never run the same loop, and while a run is in flight its loop is running or waiting for input,
  unless the user stopped it (or accepted it after stopping it).\<close>

theorem one_run_at_a_time:
  assumes "service_run env rows s" "\<forall>l \<in> set rows. draft_ok l"
  shows "in_flight s i \<le> 1
    \<and> (\<forall>l. in_flight s i = 1 \<and> get_loop s i = Some l \<longrightarrow> lp_state l \<in> {LRunning, LNeedsInput, LStopped, LCompleted})
    \<and> (\<forall>k a j b. (k, a) \<in> set (sv_bySession s) \<and> (j, b) \<in> set (sv_bySession s) \<and> live_of s i a \<and> live_of s i b \<longrightarrow> (k, a) = (j, b))"
proof -
  have s: "single s"
    using runs.always[OF assms(1)] assms(2) by blast
  then have "in_flight s i \<le> 1"
    unfolding single_def by blast
  moreover have "lp_state l \<in> {LRunning, LNeedsInput, LStopped, LCompleted}" if "in_flight s i = 1" "get_loop s i = Some l" for l
    using single_calm[OF s that(2)] that(1) by (auto simp: calm_def busy_def)
  ultimately show ?thesis
    using one_session[OF s] by blast
qed

lemma one_run_at_a_time_witness:
  "in_flight (start_service lone_env 0 (init_service [lone_loop])) ''l'' \<le> 1"
proof -
  have "service_run lone_env [lone_loop] (start_service lone_env 0 (init_service [lone_loop]))"
    by (rule service_run.Boot)
  moreover have "\<forall>l \<in> set [lone_loop]. draft_ok l"
    by (simp add: draft_ok_def lone_loop_def plain_loop_def)
  ultimately show ?thesis
    using one_run_at_a_time by blast
qed

end
