(* ===== verification/LoopTraces.thy ===== *)
theory LoopTraces
  imports LoopAlone
begin

text \<open>
  The loop service run by a list of actions, and what it does in a few orders of events that its tests leave out. Every claim here is
  computed from a run that \<open>service_run\<close> allows.
\<close>

section \<open>Actions one after another\<close>

text \<open>What the first awaited task is answered; a task reads the part that is for it.\<close>

record answers =
  an_sessionId :: string
  an_made :: made
  an_place :: "string option"
  an_lease :: "lease_state \<times> string option"
  an_outcome :: verify_outcome

datatype action =
    AUpdate string loop_patch
  | AAccept string string
  | AStop string
  | AFire string
  | ARunNow string
  | ARemove string
  | AEvent string loop_event
  | AWake
  | AAnswer answers

definition answer_task :: "loop_env \<Rightarrow> int \<Rightarrow> answers \<Rightarrow> service \<Rightarrow> service" where
  "answer_task env now a s =
     (case sv_tasks s of [] \<Rightarrow> s
      | t # _ \<Rightarrow>
          let s1 = drop_task 0 s in
          case t of
            TCreating l running fired \<Rightarrow> worktree_made env now (an_sessionId a) (an_made a) l running s1
          | TDropping i n w \<Rightarrow> worktree_dropped now i n w (an_lease a) s1
          | TSubmitting sid b running \<Rightarrow> submitted env now sid b running (an_place a) s1
          | TReleasing i n w after \<Rightarrow> lease_released env now i n w after (an_lease a) s1
          | TReleased i after \<Rightarrow> after_released env now i after s1
          | TVerifying l c \<Rightarrow> verified env now l False None (an_outcome a) s1)"

definition perform :: "loop_env \<Rightarrow> int \<times> action \<Rightarrow> service \<Rightarrow> service" where
  "perform env x s =
     (let now = fst x in
      case snd x of
        AUpdate i p \<Rightarrow> change now i (update_loop env now p) s
      | AAccept i why \<Rightarrow> accept_cmd now i why s
      | AStop i \<Rightarrow> stop_cmd now i s
      | AFire i \<Rightarrow> fire_cmd env now i None s
      | ARunNow i \<Rightarrow> runNow_cmd env now i s
      | ARemove i \<Rightarrow> remove_cmd i s
      | AEvent sid e \<Rightarrow> observe env now sid e s
      | AWake \<Rightarrow> wakeDue env now s
      | AAnswer a \<Rightarrow> answer_task env now a s)"

definition allowed :: "int \<times> action \<Rightarrow> service \<Rightarrow> bool" where
  "allowed x s \<longleftrightarrow>
     (case snd x of
        AAnswer a \<Rightarrow>
          (case sv_tasks s of
             [] \<Rightarrow> False
           | TCreating _ _ _ # _ \<Rightarrow> an_sessionId a \<notin> fst ` set (sv_bySession s)
           | _ \<Rightarrow> True)
      | AWake \<Rightarrow> (case sv_timer s of None \<Rightarrow> False | Some t \<Rightarrow> t \<le> fst x)
      | _ \<Rightarrow> True)"

fun play :: "loop_env \<Rightarrow> (int \<times> action) list \<Rightarrow> service \<Rightarrow> service option" where
  "play env [] s = Some s"
| "play env (x # xs) s = (if allowed x s then play env xs (perform env x s) else None)"

lemma answer_is_a_step:
  assumes "allowed (now, AAnswer a) s"
  shows "lstep env s (answer_task env now a s)"
proof -
  obtain t ts where ts: "sv_tasks s = t # ts"
    using assms by (cases "sv_tasks s") (auto simp: allowed_def)
  then have "pending s 0 t"
    by (simp add: pending_def)
  then show ?thesis
    using assms unfolding answer_task_def allowed_def ts
    by (cases t) (auto simp: Let_def unused_session_def intro: lstep.intros)
qed

lemma allowed_is_a_step: "allowed x s \<Longrightarrow> lstep env s (perform env x s)"
  by (cases x; cases "snd x")
    (auto simp: perform_def answer_is_a_step, auto simp: allowed_def split: option.splits intro: lstep.intros)

lemma play_is_steps: "play env xs s = Some t \<Longrightarrow> (lstep env)\<^sup>*\<^sup>* s t"
  by (induction xs arbitrary: s) (auto split: if_splits intro: converse_rtranclp_into_rtranclp allowed_is_a_step)

lemma play_is_a_run: "service_run env rows s \<Longrightarrow> play env xs s = Some t \<Longrightarrow> service_run env rows t"
  by (induction xs arbitrary: s) (auto split: if_splits intro: service_run.Next allowed_is_a_step)

definition played :: "loop_env \<Rightarrow> loop list \<Rightarrow> (int \<times> action) list \<Rightarrow> service option" where
  "played env rows xs = play env xs (start_service env 0 (init_service rows))"

lemma played_run: "played env rows xs = Some s \<Longrightarrow> service_run env rows s"
  unfolding played_def by (rule play_is_a_run[OF service_run.Boot])

lemma reached_by_play:
  assumes "map_option f (played env rows xs) = Some v"
  shows "\<exists>s. service_run env rows s \<and> f s = v"
proof -
  obtain s where "played env rows xs = Some s" "f s = v"
    using assms by auto
  then show ?thesis
    using played_run by blast
qed

lemma reached_then_reached:
  assumes "map_option (\<lambda>s. (f s, map_option g (play env ys s))) (played env rows xs) = Some (v, Some w)"
  shows "\<exists>s t. service_run env rows s \<and> f s = v \<and> (lstep env)\<^sup>*\<^sup>* s t \<and> g t = w"
proof -
  obtain s where s: "played env rows xs = Some s" "f s = v" "map_option g (play env ys s) = Some w"
    using assms by auto
  then obtain t where "play env ys s = Some t" "g t = w"
    by auto
  then show ?thesis
    using s played_run play_is_steps by blast
qed

section \<open>Loops of the examples\<close>

definition tree_env :: loop_env where
  "tree_env = lone_env\<lparr>le_worktrees := True\<rparr>"

definition watcher :: loop where
  "watcher = (plain_loop (Interval 60000) Monitor)\<lparr>lp_loopId := ''l'', lp_nextWakeAt := Some 60000\<rparr>"

definition bell :: loop where
  "bell = plain_loop External Monitor"

definition hook :: loop where
  "hook = (plain_loop External Monitor)\<lparr>lp_loopId := ''l'', lp_workspace := Some WorktreeRuns\<rparr>"

definition fine :: answers where
  "fine = \<lparr>an_sessionId = ''t'', an_made = Inr (''/tree'', ''branch'', ''base''), an_place = Some ''q'', an_lease = (LeaseRemoved, None),
     an_outcome = OAborted\<rparr>"

definition rename_patch :: "string \<Rightarrow> loop_patch" where
  "rename_patch n = \<lparr>op_objective = None, op_criteria = None, op_trigger = None, op_budget = None, op_runNow = False, op_checks = None,
     op_audit = None, op_template = None, op_reportOnly = None, op_workspace = None, op_draft = False, op_costBudget = None,
     op_rubric = None, op_approvalPolicy = None, op_creatorSessionId = None, op_notify = None, op_permission = None, op_reads = None,
     pt_name = Some n\<rparr>"

text \<open>A turn of the run in session \<open>sid\<close> that starts at \<open>t\<close> and fails at \<open>t + 1\<close>.\<close>

definition turn_of :: "string \<Rightarrow> int \<Rightarrow> (int \<times> action) list" where
  "turn_of sid t = [(t, AEvent sid (VTurnStarted ''turn'' [''q''])), (t + 1, AEvent sid (VTerminal ''turn'' OutFailed))]"

section \<open>Orders of events that go wrong\<close>

text \<open>The five runs, computed.\<close>

lemma plays:
  "(map_option (\<lambda>s. (map_option (\<lambda>l. (lp_state l, lp_override l)) (get_loop s ''l''),
       map_option (\<lambda>t. map_option lp_state (get_loop t ''l'')) (play lone_env (turn_of ''s'' 5) s)))
     (played lone_env [bell] [(1, AFire ''l''), (2, AAnswer fine), (3, AStop ''l''), (4, AAccept ''l'' ''done'')])
     = Some (Some (LCompleted, Some (''done'', 4)), Some (Some LActive)))
   \<and> (map_option (\<lambda>s. (map_option (\<lambda>l. (lp_state l, lp_pendingFire l)) (get_loop s ''l''),
       map_option (\<lambda>t. (length (sv_tasks t), sv_timer t, map_option (\<lambda>l. (lp_state l, lp_runs l, lp_pendingFire l)) (get_loop t ''l'')))
         (play tree_env [(7, AAnswer fine), (8, AAnswer fine)] s)))
     (played tree_env [hook] ([(1, AFire ''l''), (2, AAnswer fine), (3, AAnswer fine)] @ turn_of ''t'' 4 @ [(6, AFire ''l'')]))
     = Some (Some (LRunning, Some (6, None)), Some (0, None, Some (LActive, 1, None))))
   \<and> (map_option (\<lambda>s. (length (sv_tasks s), sv_timer s, map_option lp_state (get_loop s ''l''), ESubmit ''s'' 1 \<in> set (sv_log s)))
     (played lone_env [watcher] ([(60000, AWake)] @ turn_of ''s'' 60001 @ [(60003, AAnswer fine)]))
     = Some (0, None, Some LRunning, True))
   \<and> (map_option (\<lambda>s. map_option (\<lambda>l. (lp_name l, lp_state l, map lr_outcome (lp_history l))) (get_loop s ''l''))
     (played tree_env [hook] [(1, AFire ''l''), (2, AUpdate ''l'' (rename_patch ''new'')), (3, AAnswer fine), (4, AAnswer fine)])
     = Some (Some (''new'', LActive, [Some OutInterrupted])))
   \<and> (map_option (\<lambda>s. (map_option lp_state (get_loop s ''l''), length (sv_tasks s), ECreateWorktree ''l'' 1 None \<in> set (sv_log s),
       EReleaseWorktree ''/tree'' \<in> set (sv_log s)))
     (played tree_env [hook] ([(1, AFire ''l''), (2, AAnswer fine), (3, AAnswer fine), (4, AStop ''l''), (5, ARemove ''l'')] @ turn_of ''t'' 6))
     = Some (None, 0, True, False))"
  by code_simp

lemmas accept_play = plays[THEN conjunct1]
  and fire_play = plays[THEN conjunct2, THEN conjunct1]
  and early_play = plays[THEN conjunct2, THEN conjunct2, THEN conjunct1]
  and edit_play = plays[THEN conjunct2, THEN conjunct2, THEN conjunct2, THEN conjunct1]
  and remove_play = plays[THEN conjunct2, THEN conjunct2, THEN conjunct2, THEN conjunct2]

text \<open>A loop the user accepted comes back: \<open>accept\<close> refuses a loop that runs, but one that was stopped during a run is accepted while its
  turn goes on; when the turn ends, the run is finished as if nothing had happened and the accepted loop is active again.\<close>

theorem accepted_loop_comes_back:
  "\<exists>s t. service_run lone_env [bell] s \<and> (\<exists>l. get_loop s ''l'' = Some l \<and> lp_state l = LCompleted \<and> lp_override l = Some (''done'', 4))
     \<and> (lstep lone_env)\<^sup>*\<^sup>* s t \<and> (\<exists>l. get_loop t ''l'' = Some l \<and> lp_state l = LActive)"
proof -
  from reached_then_reached[OF accept_play] obtain s t where "service_run lone_env [bell] s" "(lstep lone_env)\<^sup>*\<^sup>* s t"
    "map_option (\<lambda>l. (lp_state l, lp_override l)) (get_loop s ''l'') = Some (LCompleted, Some (''done'', 4))"
    "map_option lp_state (get_loop t ''l'') = Some LActive"
    by blast
  then show ?thesis
    by (intro exI[of _ s] exI[of _ t]) auto
qed

text \<open>A fire that was answered as queued is lost: while the worktree of a run that ended is released the loop still counts as running, so
  a fire is kept as \<open>pendingFire\<close>; what follows the release saves the loop as it was before, without the fire. The loop is then active,
  with no run, no time to wake at and no timer.\<close>

theorem queued_fire_is_lost:
  "\<exists>s t. service_run tree_env [hook] s \<and> (\<exists>l. get_loop s ''l'' = Some l \<and> lp_state l = LRunning \<and> lp_pendingFire l = Some (6, None))
     \<and> (lstep tree_env)\<^sup>*\<^sup>* s t \<and> sv_tasks t = [] \<and> sv_timer t = None
     \<and> (\<exists>l. get_loop t ''l'' = Some l \<and> lp_state l = LActive \<and> lp_runs l = 1 \<and> lp_pendingFire l = None)"
proof -
  from reached_then_reached[OF fire_play] obtain s t where "service_run tree_env [hook] s" "(lstep tree_env)\<^sup>*\<^sup>* s t"
    "map_option (\<lambda>l. (lp_state l, lp_pendingFire l)) (get_loop s ''l'') = Some (LRunning, Some (6, None))"
    "(length (sv_tasks t), sv_timer t, map_option (\<lambda>l. (lp_state l, lp_runs l, lp_pendingFire l)) (get_loop t ''l''))
       = (0, None, Some (LActive, 1, None))"
    by blast
  then show ?thesis
    by (intro exI[of _ s] exI[of _ t]) auto
qed

text \<open>A run whose turn is over before \<open>submit\<close> answers leaves its loop running for good: the end of a turn is looked at only when the turn
  is known to be the one of the run, which is learned from the answer of \<open>submit\<close>; the start of the turn is remembered until then, its
  end is not. No task, no timer and no event of the session is left that could end the run.\<close>

theorem early_end_is_missed:
  "\<exists>s. service_run lone_env [watcher] s \<and> sv_tasks s = [] \<and> sv_timer s = None
     \<and> (\<exists>l. get_loop s ''l'' = Some l \<and> lp_state l = LRunning) \<and> ESubmit ''s'' 1 \<in> set (sv_log s)"
proof -
  from reached_by_play[OF early_play] show ?thesis
    by auto
qed

text \<open>An edit interrupts a run, although \<open>update\<close> says edits never do: a new name given to a loop while the worktree of its run is made
  changes \<open>updatedAt\<close>, by which the run is recognised, and the run ends as interrupted.\<close>

theorem edit_interrupts_a_run:
  "\<exists>s. service_run tree_env [hook] s \<and> (\<exists>l r. get_loop s ''l'' = Some l \<and> lp_name l = ''new'' \<and> lp_state l = LActive
     \<and> lp_history l = [r] \<and> lr_outcome r = Some OutInterrupted)"
proof -
  from reached_by_play[OF edit_play] show ?thesis
    by (auto simp: map_eq_Cons_conv)
qed

text \<open>A loop that is stopped and removed during a run leaves its worktree behind: the end of the turn finds no loop, so the lease is never
  released, and the run object stays in the table of sessions.\<close>

theorem removed_loop_keeps_its_worktree:
  "\<exists>s. service_run tree_env [hook] s \<and> get_loop s ''l'' = None \<and> sv_tasks s = []
     \<and> ECreateWorktree ''l'' 1 None \<in> set (sv_log s) \<and> EReleaseWorktree ''/tree'' \<notin> set (sv_log s)"
proof -
  from reached_by_play[OF remove_play] show ?thesis
    by auto
qed

section \<open>A claim drops the fire\<close>

text \<open>A fire that came in during a run is gone once the run claims completion, whatever the verification says.\<close>

lemma claim_drops_the_fire:
  assumes "lp_state l = LRunning" "lp_budget l = Goal n" "needsVerification l" "en_outcome e = OutCompleted"
    and "parseCheckpoint parse (en_finalText e) = Some c" "ch_status c = Complete"
  shows "lp_state (finishRun parse z l e) = LVerifying \<and> lp_pendingFire (finishRun parse z l e) = None
    \<and> lp_pendingFire (finishVerification z2 (finishRun parse z l e) v) = None"
  using assms by (auto simp: finishRun_def end_checkpoint_def reports_def stop_loop_def finishVerification_def Let_def add_feedback_def
      split: option.splits)

end
