(* ===== verification/Compaction.thy ===== *)
theory Compaction
  imports Json
begin

text \<open>
  How the engine keeps a conversation inside the window of its model (\<open>packages/engine-native/src\<close>): the history as strict providers
  accept it (\<open>history.ts\<close>), the point where a conversation is packed, what is kept of it, and which old tool outputs are pruned
  (\<open>compaction-policy.ts\<close>). What a message weighs is \<open>JSON.stringify(...).length\<close> of a part of it; the number is the parameter
  \<open>chars\<close>. Images, documents, the layout and the reasoning of a message, which no function here reads, are left out.
\<close>

section \<open>Messages\<close>

record blob_ref =
  br_sha256 :: string
  br_bytes :: nat
  br_mime :: string
  br_name :: "string option"

record tool_call =
  tc_callId :: string
  tc_name :: string
  tc_args :: json

record user_message =
  um_content :: string
  um_attachments :: "blob_ref list option"
  um_compaction :: bool

record assistant_message =
  as_content :: string
  as_toolCalls :: "tool_call list"

record tool_message =
  tm_callId :: string
  tm_name :: string
  tm_output :: string
  tm_isError :: bool
  tm_loadedInstructions :: "string list option"
  tm_discoveredTools :: "string list option"

datatype model_message = User user_message | Assistant assistant_message | Tool tool_message

definition is_tool :: "model_message \<Rightarrow> bool" where
  "is_tool m = (case m of Tool _ \<Rightarrow> True | _ \<Rightarrow> False)"

definition results_of :: "model_message list \<Rightarrow> tool_message list" where
  "results_of ms = List.map_filter (\<lambda>m. case m of Tool t \<Rightarrow> Some t | _ \<Rightarrow> None) ms"

section \<open>Calls and their results\<close>

definition cancelled_result :: "tool_call \<Rightarrow> tool_message" where
  "cancelled_result c = \<lparr>tm_callId = tc_callId c, tm_name = tc_name c, tm_output = ''cancelled'', tm_isError = True,
     tm_loadedInstructions = None, tm_discoveredTools = None\<rparr>"

text \<open>The results stand in a \<open>Map\<close> by call: of two with one id the later one counts.\<close>

definition answer_of :: "tool_message list \<Rightarrow> tool_call \<Rightarrow> model_message" where
  "answer_of results c = Tool (orelse (map_of (rev (map (\<lambda>t. (tm_callId t, t)) results)) (tc_callId c)) (cancelled_result c))"

function pairToolCalls :: "model_message list \<Rightarrow> model_message list" where
  "pairToolCalls [] = []"
| "pairToolCalls (Tool t # ms) = pairToolCalls ms"
| "pairToolCalls (User u # ms) = User u # pairToolCalls ms"
| "pairToolCalls (Assistant a # ms) =
     Assistant a # map (answer_of (results_of (takeWhile is_tool ms))) (as_toolCalls a) @ pairToolCalls (dropWhile is_tool ms)"
  by pat_completeness auto
termination
  by (relation "measure length") (auto simp: less_Suc_eq_le length_dropWhile_le)

section \<open>Sizes\<close>

definition estimateTokens :: "nat \<Rightarrow> nat" where
  "estimateTokens chars = (chars + 3) div 4"

definition messageTokens :: "(model_message \<Rightarrow> nat) \<Rightarrow> model_message \<Rightarrow> nat" where
  "messageTokens chars m = estimateTokens (chars m)"

definition historyTokens :: "(model_message \<Rightarrow> nat) \<Rightarrow> model_message list \<Rightarrow> nat" where
  "historyTokens chars ms = sum_list (map (messageTokens chars) ms)"

record compaction_override =
  co_token_limit :: "nat option"
  co_threshold :: "rat option"

record compaction_config = compaction_override +
  cf_tail_turns :: "nat option"
  cf_preserve_recent_tokens :: "nat option"
  cf_reserved :: "nat option"

record compaction_limits =
  cl_contextWindow :: "nat option"
  cl_inputLimit :: "nat option"
  cl_outputLimit :: "nat option"
  cl_provider :: "compaction_override option"
  cl_model :: "compaction_override option"

definition first_some :: "'a option \<Rightarrow> 'a option \<Rightarrow> 'a option" where
  "first_some a b = (case a of Some v \<Rightarrow> Some v | None \<Rightarrow> b)"

definition DEFAULT_COMPACTION_PERCENT :: nat where "DEFAULT_COMPACTION_PERCENT = 90"

definition thresholdPercent :: "rat \<Rightarrow> rat" where
  "thresholdPercent t = max 1 (min 100 (if 0 < t \<and> t < 1 then t * 100 else t))"

definition window_of :: "compaction_limits \<Rightarrow> nat option" where
  "window_of l = first_some (cl_inputLimit l) (cl_contextWindow l)"

definition absolute_limit :: "('a) compaction_override_scheme \<Rightarrow> compaction_limits \<Rightarrow> nat option \<Rightarrow> nat option" where
  "absolute_limit config l legacy =
     first_some (Option.bind (cl_model l) co_token_limit) (first_some (Option.bind (cl_provider l) co_token_limit)
       (first_some legacy (co_token_limit config)))"

definition wanted_percent :: "('a) compaction_override_scheme \<Rightarrow> compaction_limits \<Rightarrow> rat option" where
  "wanted_percent config l =
     first_some (Option.bind (cl_model l) co_threshold) (first_some (Option.bind (cl_provider l) co_threshold) (co_threshold config))"

text \<open>A room that is larger than the window gives a negative number in the code, which the lower bound of 1 replaces as well.\<close>

definition compactionThreshold :: "compaction_config \<Rightarrow> compaction_limits \<Rightarrow> nat option \<Rightarrow> nat" where
  "compactionThreshold config l legacy =
     (let window = orelse (window_of l) 0 in
      case absolute_limit config l legacy of
        Some absolute \<Rightarrow> if window \<noteq> 0 then min window absolute else absolute
      | None \<Rightarrow>
          if window = 0 then 160000
          else case wanted_percent config l of
            Some p \<Rightarrow> max 1 (nat (floor (of_nat window * thresholdPercent p / 100)))
          | None \<Rightarrow>
              let reserve = (if orelse (cl_inputLimit l) 0 \<noteq> 0 then 0
                             else orelse (cf_reserved config) (min 20000 (orelse (cl_outputLimit l) 20000)))
              in max 1 (min (window * DEFAULT_COMPACTION_PERCENT div 100) (window - reserve)))"

definition recentBudget :: "compaction_config \<Rightarrow> compaction_limits \<Rightarrow> nat" where
  "recentBudget config l =
     (let reserved = orelse (cf_reserved config) (min 20000 (orelse (cl_outputLimit l) 20000));
          usable = (if orelse (cl_inputLimit l) 0 \<noteq> 0 then orelse (cl_inputLimit l) 0 - reserved
                    else orelse (cl_contextWindow l) 160000 - orelse (cl_outputLimit l) 20000)
      in orelse (cf_preserve_recent_tokens config) (min 8000 (max 2000 (usable div 4))))"

section \<open>What is kept of a conversation\<close>

definition SUMMARY_PREFIX :: string where
  "SUMMARY_PREFIX = ''Summary of the conversation so far (earlier messages were compacted):''"

definition is_summary :: "string \<Rightarrow> bool" where
  "is_summary s \<longleftrightarrow> take (length SUMMARY_PREFIX) s = SUMMARY_PREFIX"

definition starts_turn :: "model_message \<Rightarrow> bool" where
  "starts_turn m = (case m of User u \<Rightarrow> \<not> is_summary (um_content u) | _ \<Rightarrow> False)"

definition turn_starts :: "model_message list \<Rightarrow> nat list" where
  "turn_starts ms = filter (\<lambda>i. starts_turn (ms ! i)) [0..<length ms]"

text \<open>\<open>slice(-n)\<close>: \<open>slice(-0)\<close> is the whole array.\<close>

definition slice_last :: "nat \<Rightarrow> 'a list \<Rightarrow> 'a list" where
  "slice_last n xs = (if n = 0 then xs else drop (length xs - n) xs)"

definition slice :: "nat \<Rightarrow> nat \<Rightarrow> 'a list \<Rightarrow> 'a list" where
  "slice i j xs = drop i (take j xs)"

definition cut_inside :: "(model_message \<Rightarrow> nat) \<Rightarrow> nat \<Rightarrow> model_message list \<Rightarrow> nat \<Rightarrow> nat \<Rightarrow> nat \<Rightarrow> nat option" where
  "cut_inside chars budget ms spent i j =
     List.find (\<lambda>cut. \<not> is_tool (ms ! cut) \<and> spent + historyTokens chars (slice cut j ms) \<le> budget) [Suc i..<j]"

fun boundary_loop :: "(model_message \<Rightarrow> nat) \<Rightarrow> nat \<Rightarrow> model_message list \<Rightarrow> (nat \<times> nat) list \<Rightarrow> nat \<Rightarrow> nat \<Rightarrow> nat" where
  "boundary_loop chars budget ms [] spent b = b"
| "boundary_loop chars budget ms ((i, j) # turns) spent b =
     (let size = historyTokens chars (slice i j ms) in
      if spent + size \<le> budget then boundary_loop chars budget ms turns (spent + size) i
      else orelse (cut_inside chars budget ms spent i j) b)"

definition boundary :: "(model_message \<Rightarrow> nat) \<Rightarrow> compaction_config \<Rightarrow> compaction_limits \<Rightarrow> model_message list \<Rightarrow> nat" where
  "boundary chars config l ms =
     (let begins = turn_starts ms; n = orelse (cf_tail_turns config) 2; recent = slice_last (min (length begins) n) begins
      in if 0 < n then boundary_loop chars (recentBudget config l) ms (rev (zip recent (tl recent @ [length ms]))) 0 (length ms)
         else length ms)"

record split_history =
  sh_head :: "model_message list"
  sh_tail :: "model_message list"
  sh_tailTurns :: nat

definition splitCompaction :: "(model_message \<Rightarrow> nat) \<Rightarrow> model_message list \<Rightarrow> compaction_config \<Rightarrow> compaction_limits \<Rightarrow> split_history" where
  "splitCompaction chars ms config l =
     (let b = boundary chars config l ms in
      \<lparr>sh_head = take b ms, sh_tail = pairToolCalls (drop b ms), sh_tailTurns = length (filter (\<lambda>i. b \<le> i) (turn_starts ms))\<rparr>)"

section \<open>Pruning old tool outputs\<close>

definition PRUNE_PROTECTED :: nat where "PRUNE_PROTECTED = 40000"
definition PRUNE_MINIMUM :: nat where "PRUNE_MINIMUM = 20000"

definition PRUNED :: string where "PRUNED = ''[Old tool output pruned]''"

definition pruneDue :: "nat \<Rightarrow> nat \<Rightarrow> bool" where
  "pruneDue contextTokens compactAt \<longleftrightarrow> compactAt * 8 \<le> contextTokens * 10"

definition pruneUrgent :: "nat \<Rightarrow> nat \<Rightarrow> bool" where
  "pruneUrgent contextTokens compactAt \<longleftrightarrow> compactAt * 95 \<le> contextTokens * 100"

definition output_tokens :: "tool_message \<Rightarrow> nat" where
  "output_tokens t = estimateTokens (length (tm_output t))"

definition prunable :: "model_message list \<Rightarrow> bool" where
  "prunable ms \<longleftrightarrow> PRUNE_PROTECTED + PRUNE_MINIMUM < sum_list (map output_tokens (results_of ms))"

text \<open>The scan from the end: the places of the outputs that go, and their tokens.\<close>

fun prune_scan :: "(nat \<times> model_message) list \<Rightarrow> nat \<Rightarrow> nat \<Rightarrow> nat list \<times> nat" where
  "prune_scan [] turns kept = ([], 0)"
| "prune_scan ((i, User u) # ms) turns kept = (if is_summary (um_content u) then ([], 0) else prune_scan ms (turns + 1) kept)"
| "prune_scan ((i, Assistant a) # ms) turns kept = prune_scan ms turns kept"
| "prune_scan ((i, Tool t) # ms) turns kept =
     (if turns < 2 \<or> tm_isError t \<or> tm_name t = ''skill'' then prune_scan ms turns kept
      else if tm_output t = PRUNED then ([], 0)
      else let kept2 = kept + output_tokens t; found = prune_scan ms turns kept2 in
        if PRUNE_PROTECTED < kept2 then (i # fst found, snd found + output_tokens t) else found)"

definition backwards :: "'a list \<Rightarrow> (nat \<times> 'a) list" where
  "backwards ms = rev (zip [0..<length ms] ms)"

definition frozen_here :: "string list \<Rightarrow> model_message \<Rightarrow> bool" where
  "frozen_here ids m = (case m of Tool t \<Rightarrow> tm_callId t \<in> set ids \<and> tm_output t \<noteq> PRUNED | _ \<Rightarrow> False)"

definition frozen_scan :: "string list \<Rightarrow> (nat \<times> model_message) list \<Rightarrow> nat list \<times> nat" where
  "frozen_scan ids ms =
     (let found = filter (\<lambda>(_, m). frozen_here ids m) ms in
      (map fst found, sum_list (map output_tokens (results_of (map snd found)))))"

datatype prune_mode = PruneOff | PruneOn | PruneExactly "string list"

record prune_result =
  pr_messages :: "model_message list"
  pr_tokens :: nat
  pr_ids :: "string list"

definition prune_message :: "model_message \<Rightarrow> model_message" where
  "prune_message m = (case m of Tool t \<Rightarrow> Tool (t\<lparr>tm_output := PRUNED, tm_loadedInstructions := None\<rparr>) | _ \<Rightarrow> m)"

definition call_at :: "model_message list \<Rightarrow> nat \<Rightarrow> string" where
  "call_at ms i = (case ms ! i of Tool t \<Rightarrow> tm_callId t | _ \<Rightarrow> [])"

definition pruneToolOutputs :: "model_message list \<Rightarrow> prune_mode \<Rightarrow> prune_result" where
  "pruneToolOutputs ms mode =
     (let none = \<lparr>pr_messages = ms, pr_tokens = 0, pr_ids = []\<rparr>;
          found = (case mode of PruneOff \<Rightarrow> ([], 0) | PruneOn \<Rightarrow> prune_scan (backwards ms) 0 0
                   | PruneExactly ids \<Rightarrow> frozen_scan ids (backwards ms))
      in if mode = PruneOn \<and> snd found \<le> PRUNE_MINIMUM \<or> fst found = [] then none
         else \<lparr>pr_messages = map (\<lambda>i. if i \<in> set (fst found) then prune_message (ms ! i) else ms ! i) [0..<length ms],
                pr_tokens = snd found, pr_ids = js_set (map (call_at ms) (fst found))\<rparr>)"


section \<open>A history in which every call has its result\<close>

definition answers :: "model_message \<Rightarrow> string option" where
  "answers m = (case m of Tool t \<Rightarrow> Some (tm_callId t) | _ \<Rightarrow> None)"

text \<open>What strict providers ask: behind every message of the assistant stand the results of its calls, one each and in their order, and
  no result stands anywhere else.\<close>

function paired :: "model_message list \<Rightarrow> bool" where
  "paired [] = True"
| "paired (Tool t # ms) = False"
| "paired (User u # ms) = paired ms"
| "paired (Assistant a # ms) =
     (map answers (take (length (as_toolCalls a)) ms) = map (\<lambda>c. Some (tc_callId c)) (as_toolCalls a)
      \<and> paired (drop (length (as_toolCalls a)) ms))"
  by pat_completeness auto
termination
  by (relation "measure length") auto

definition unique_calls :: "model_message list \<Rightarrow> bool" where
  "unique_calls ms \<longleftrightarrow> (\<forall>m \<in> set ms. case m of Assistant a \<Rightarrow> distinct (map tc_callId (as_toolCalls a)) | _ \<Rightarrow> True)"

named_theorems history \<open>histories and their pieces\<close>

lemma is_tool_simps [simp, history]: "is_tool (Tool t)" "\<not> is_tool (User u)" "\<not> is_tool (Assistant a)"
  by (simp_all add: is_tool_def)

lemma answers_tool: "answers m = Some i \<Longrightarrow> is_tool m"
  by (cases m) (simp_all add: answers_def)

lemma answers_answer [simp]: "answers (answer_of ts c) = Some (tc_callId c)"
proof (cases "map_of (rev (map (\<lambda>t. (tm_callId t, t)) ts)) (tc_callId c)")
  case None
  then show ?thesis
    by (simp add: answer_of_def answers_def cancelled_result_def)
next
  case (Some t)
  then have "tm_callId t = tc_callId c"
    using map_of_SomeD[OF Some] by auto
  then show ?thesis
    using Some by (simp add: answer_of_def answers_def)
qed

text \<open>Whatever history went in, what \<open>pairToolCalls\<close> gives is one a strict provider takes, and nothing but results was changed.\<close>

lemma paired_pairToolCalls: "paired (pairToolCalls ms)"
  by (induction ms rule: pairToolCalls.induct) (simp_all add: comp_def)

lemma pairing_keeps_messages: "filter (\<lambda>m. \<not> is_tool m) (pairToolCalls ms) = filter (\<lambda>m. \<not> is_tool m) ms"
proof (induction ms rule: pairToolCalls.induct)
  case (4 a ms)
  have "filter (\<lambda>m. \<not> is_tool m) ms = filter (\<lambda>m. \<not> is_tool m) (takeWhile is_tool ms @ dropWhile is_tool ms)"
    by simp
  also have "\<dots> = filter (\<lambda>m. \<not> is_tool m) (dropWhile is_tool ms)"
    by (simp only: filter_append) (auto simp: filter_empty_conv dest: set_takeWhileD)
  finally show ?case
    using 4 by (simp add: filter_map comp_def answer_of_def)
qed simp_all

lemma paired_head: "paired ms \<Longrightarrow> ms = [] \<or> \<not> is_tool (hd ms)"
  by (cases ms rule: paired.cases) simp_all

lemma while_split:
  assumes "\<And>x. x \<in> set xs \<Longrightarrow> P x" "ys = [] \<or> \<not> P (hd ys)"
  shows "takeWhile P (xs @ ys) = xs" "dropWhile P (xs @ ys) = ys"
  using assms by (induction xs; cases ys; simp)+

lemma calls_stand_behind:
  assumes "map answers (take n ms) = map (\<lambda>c. Some (tc_callId c)) cs" "paired (drop n ms)"
  shows "takeWhile is_tool ms = take n ms" "dropWhile is_tool ms = drop n ms"
proof -
  have "is_tool m" if m: "m \<in> set (take n ms)" for m
  proof -
    have "answers m \<in> set (map answers (take n ms))"
      using m by simp
    then show ?thesis
      unfolding assms(1) using answers_tool by auto
  qed
  from while_split[of "take n ms" is_tool "drop n ms", OF this paired_head[OF assms(2)]]
  show "takeWhile is_tool ms = take n ms" "dropWhile is_tool ms = drop n ms"
    by simp_all
qed

lemma results_by_call:
  assumes "map answers ts = map (\<lambda>c. Some (tc_callId c)) cs" "distinct (map tc_callId cs)"
  shows "map (answer_of (results_of ts)) cs = ts"
proof -
  have tools: "ts = map Tool (results_of ts) \<and> map tm_callId (results_of ts) = map tc_callId cs"
    using assms(1)
  proof (induction ts arbitrary: cs)
    case (Cons t ts)
    then show ?case
      by (cases t; cases cs) (auto simp: answers_def results_of_def List.map_filter_simps)
  qed (simp add: results_of_def List.map_filter_simps)
  define rs where "rs = results_of ts"
  have ids: "map tm_callId rs = map tc_callId cs"
    using tools by (simp add: rs_def)
  then have d: "distinct (map fst (rev (map (\<lambda>t. (tm_callId t, t)) rs)))"
    using assms(2) by (simp add: rev_map[symmetric] comp_def)
  have "answer_of rs (cs ! k) = Tool (rs ! k)" if "k < length cs" for k
  proof -
    have "k < length rs" "tm_callId (rs ! k) = tc_callId (cs ! k)"
      using that ids by (metis length_map, metis length_map nth_map)
    then have "(tc_callId (cs ! k), rs ! k) \<in> set (rev (map (\<lambda>t. (tm_callId t, t)) rs))"
      by (metis (no_types, lifting) image_eqI list.set_map nth_mem set_rev)
    then have "map_of (rev (map (\<lambda>t. (tm_callId t, t)) rs)) (tc_callId (cs ! k)) = Some (rs ! k)"
      using map_of_eq_Some_iff[OF d] by blast
    then show ?thesis
      by (simp add: answer_of_def)
  qed
  moreover have "length rs = length cs"
    using arg_cong[OF ids, of length] by simp
  ultimately have "map (answer_of rs) cs = map Tool rs"
    by (intro nth_equalityI) simp_all
  then show ?thesis
    using tools by (simp add: rs_def)
qed

lemma pairing_changes_nothing: "paired ms \<Longrightarrow> unique_calls ms \<Longrightarrow> pairToolCalls ms = ms"
proof (induction ms rule: pairToolCalls.induct)
  case (4 a ms)
  let ?n = "length (as_toolCalls a)"
  have p: "map answers (take ?n ms) = map (\<lambda>c. Some (tc_callId c)) (as_toolCalls a)" "paired (drop ?n ms)"
    using 4(2) by simp_all
  note w = calls_stand_behind[OF p]
  have "unique_calls (drop ?n ms)" "distinct (map tc_callId (as_toolCalls a))"
    using 4(3) by (auto simp: unique_calls_def dest: in_set_dropD)
  then show ?case
    using 4(1) p results_by_call[OF p(1)] by (simp add: w)
qed (simp_all add: unique_calls_def)

text \<open>A history may be cut before any message that is no result.\<close>

lemma paired_cut:
  "paired ms \<Longrightarrow> b = length ms \<or> b < length ms \<and> \<not> is_tool (ms ! b) \<Longrightarrow> paired (take b ms) \<and> paired (drop b ms)"
proof (induction ms arbitrary: b rule: paired.induct)
  case (3 u ms)
  then show ?case by (cases b) auto
next
  case (4 a ms)
  show ?case
  proof (cases b)
    case (Suc k)
    let ?n = "length (as_toolCalls a)"
    have p: "map answers (take ?n ms) = map (\<lambda>c. Some (tc_callId c)) (as_toolCalls a)" "paired (drop ?n ms)"
      using 4(2) by simp_all
    have long: "?n \<le> length ms"
      using arg_cong[OF p(1), of length] by simp
    have "?n \<le> k"
    proof (rule ccontr)
      assume "\<not> ?n \<le> k"
      then have "answers (ms ! k) = map answers (take ?n ms) ! k" "k < length ms"
        using long by simp_all
      then have "is_tool (ms ! k)"
        unfolding p(1) using \<open>\<not> ?n \<le> k\<close> answers_tool by simp
      then show False
        using 4(3) Suc long \<open>\<not> ?n \<le> k\<close> by auto
    qed
    moreover have "paired (take (k - ?n) (drop ?n ms)) \<and> paired (drop (k - ?n) (drop ?n ms))"
      using 4 Suc calculation long by (intro 4(1)) auto
    ultimately show ?thesis
      using Suc p(1) by (simp add: drop_take min_def)
  qed (use 4 in simp)
qed auto


section \<open>Cuts keep calls whole\<close>

text \<open>The turns the loop goes over, the latest first: each ends where the one before it began.\<close>

fun chained :: "model_message list \<Rightarrow> nat \<Rightarrow> (nat \<times> nat) list \<Rightarrow> bool" where
  "chained ms b [] = True"
| "chained ms b ((i, j) # turns) = (j = b \<and> i < j \<and> \<not> is_tool (ms ! i) \<and> chained ms i turns)"

definition good_cut :: "(model_message \<Rightarrow> nat) \<Rightarrow> nat \<Rightarrow> model_message list \<Rightarrow> nat \<Rightarrow> bool" where
  "good_cut chars budget ms b \<longleftrightarrow>
     (b = length ms \<or> b < length ms \<and> \<not> is_tool (ms ! b)) \<and> historyTokens chars (drop b ms) \<le> budget"

lemma tokens_slice:
  assumes "i \<le> j" "j \<le> length ms"
  shows "historyTokens chars (drop i ms) = historyTokens chars (slice i j ms) + historyTokens chars (drop j ms)"
proof -
  have "drop i ms = slice i j ms @ drop j ms"
    using assms by (metis append_take_drop_id drop_append length_take min.absorb2 diff_is_0_eq drop_0 slice_def)
  then show ?thesis
    by (simp add: historyTokens_def)
qed

lemma boundary_loop_good:
  assumes "chained ms b turns" "b \<le> length ms" "good_cut chars budget ms b"
  shows "good_cut chars budget ms (boundary_loop chars budget ms turns (historyTokens chars (drop b ms)) b)"
  using assms
proof (induction turns arbitrary: b)
  case (Cons t turns)
  obtain i where t: "t = (i, b)" "i < b" "\<not> is_tool (ms ! i)" "chained ms i turns"
    using Cons.prems(1) by (cases t) auto
  have sum: "historyTokens chars (drop b ms) + historyTokens chars (slice i b ms) = historyTokens chars (drop i ms)"
    using tokens_slice[of i b ms chars] t(2) Cons.prems(2) by simp
  show ?case
  proof (cases "historyTokens chars (drop i ms) \<le> budget")
    case True
    then have "good_cut chars budget ms i"
      using t Cons.prems(2) by (simp add: good_cut_def)
    then show ?thesis
      using Cons.IH[of i] t True sum Cons.prems(2) by (simp add: Let_def)
  next
    case False
    have "good_cut chars budget ms c" if "cut_inside chars budget ms (historyTokens chars (drop b ms)) i b = Some c" for c
    proof -
      have "i < c" "c < b" "\<not> is_tool (ms ! c)" "historyTokens chars (drop b ms) + historyTokens chars (slice c b ms) \<le> budget"
        using that by (auto simp: cut_inside_def find_Some_iff)
      then show ?thesis
        using tokens_slice[of c b ms chars] Cons.prems(2) by (simp add: good_cut_def)
    qed
    then show ?thesis
      using False sum t(1) Cons.prems(3)
      by (cases "cut_inside chars budget ms (historyTokens chars (drop b ms)) i b") (simp_all add: Let_def)
  qed
qed simp

lemma turns_chained:
  "sorted_wrt (<) is \<Longrightarrow> \<forall>i \<in> set is. i < b \<and> \<not> is_tool (ms ! i) \<Longrightarrow> chained ms b (rev (zip is (tl is @ [b])))"
proof (induction "is" arbitrary: b rule: rev_induct)
  case (snoc x xs)
  have "zip (xs @ [x]) (tl (xs @ [x]) @ [b]) = zip xs (tl xs @ [x]) @ [(x, b)]"
    using zip_append[of xs "tl xs @ [x]" "[x]" "[b]"] by (cases xs) simp_all
  moreover have "chained ms x (rev (zip xs (tl xs @ [x])))"
    using snoc.prems by (intro snoc.IH) (auto simp: sorted_wrt_append)
  ultimately show ?case
    using snoc.prems(2) by simp
qed simp

lemma recent_turns:
  "sorted_wrt (<) (slice_last n (turn_starts ms))" "\<forall>i \<in> set (slice_last n (turn_starts ms)). i < length ms \<and> \<not> is_tool (ms ! i)"
proof -
  have sorted: "sorted_wrt (<) (turn_starts ms)"
    by (simp add: turn_starts_def sorted_wrt_filter)
  have "sorted_wrt (<) (drop k (turn_starts ms))" for k
    using sorted by (metis append_take_drop_id sorted_wrt_append)
  then show "sorted_wrt (<) (slice_last n (turn_starts ms))"
    using sorted by (simp add: slice_last_def)
  have "i < length ms \<and> \<not> is_tool (ms ! i)" if "i \<in> set (turn_starts ms)" for i
    using that by (auto simp: turn_starts_def starts_turn_def is_tool_def split: model_message.splits)
  then show "\<forall>i \<in> set (slice_last n (turn_starts ms)). i < length ms \<and> \<not> is_tool (ms ! i)"
    by (auto simp: slice_last_def dest: in_set_dropD)
qed

lemma boundary_good: "good_cut chars (recentBudget config l) ms (boundary chars config l ms)"
proof -
  have all: "good_cut chars (recentBudget config l) ms (length ms)"
    by (simp add: good_cut_def historyTokens_def)
  show ?thesis
    using boundary_loop_good[OF turns_chained[OF recent_turns] le_refl all] all
    by (simp add: boundary_def Let_def historyTokens_def)
qed

text \<open>C16: Packing a conversation never tears a tool call from its result: when every call of a history has its result and no message makes two calls with one id, head and tail of the
  cut are the history again, unchanged, and in each of them every call has its result; the tail holds no more tokens than the
  budget for recent messages, whatever the messages weigh and whatever the settings are.\<close>

theorem cuts_keep_calls_whole:
  assumes "paired ms" "unique_calls ms"
  shows "let s = splitCompaction chars ms config l in
    sh_head s @ sh_tail s = ms \<and> paired (sh_head s) \<and> paired (sh_tail s) \<and> historyTokens chars (sh_tail s) \<le> recentBudget config l"
proof -
  let ?b = "boundary chars config l ms"
  have good: "good_cut chars (recentBudget config l) ms ?b"
    by (rule boundary_good)
  then have "paired (take ?b ms) \<and> paired (drop ?b ms)"
    using paired_cut[OF assms(1)] by (simp add: good_cut_def)
  moreover have "unique_calls (drop ?b ms)"
    using assms(2) by (auto simp: unique_calls_def dest: in_set_dropD)
  ultimately show ?thesis
    using good pairing_changes_nothing by (simp add: splitCompaction_def Let_def good_cut_def)
qed

definition said :: "string \<Rightarrow> model_message" where
  "said t = User \<lparr>um_content = t, um_attachments = None, um_compaction = False\<rparr>"

definition called :: "string \<Rightarrow> model_message" where
  "called i = Assistant \<lparr>as_content = [], as_toolCalls = [\<lparr>tc_callId = i, tc_name = ''read'', tc_args = JNull\<rparr>]\<rparr>"

definition returned :: "string \<Rightarrow> nat \<Rightarrow> model_message" where
  "returned i n = Tool \<lparr>tm_callId = i, tm_name = ''read'', tm_output = replicate n (CHR ''x''), tm_isError = False,
     tm_loadedInstructions = None, tm_discoveredTools = None\<rparr>"

definition no_config :: compaction_config where
  "no_config = \<lparr>co_token_limit = None, co_threshold = None, cf_tail_turns = Some 1, cf_preserve_recent_tokens = Some 3, cf_reserved = None\<rparr>"

definition no_limits :: compaction_limits where
  "no_limits = \<lparr>cl_contextWindow = None, cl_inputLimit = None, cl_outputLimit = None, cl_provider = None, cl_model = None\<rparr>"

definition short_talk :: "model_message list" where
  "short_talk = [said ''a'', called ''1'', returned ''1'' 3, called ''2'', returned ''2'' 3]"

lemma cuts_keep_calls_whole_witness:
  "sh_head (splitCompaction (\<lambda>_. 4) short_talk no_config no_limits) = take 3 short_talk
   \<and> paired (sh_tail (splitCompaction (\<lambda>_. 4) short_talk no_config no_limits))"
proof -
  have "paired short_talk" "unique_calls short_talk"
    by (simp_all add: short_talk_def said_def called_def returned_def answers_def unique_calls_def)
  from cuts_keep_calls_whole[OF this, of "\<lambda>_. 4" no_config no_limits]
  have "paired (sh_tail (splitCompaction (\<lambda>_. 4) short_talk no_config no_limits))"
    by (simp add: Let_def)
  moreover have "boundary (\<lambda>_. 4) no_config no_limits short_talk = 3"
    by code_simp
  ultimately show ?thesis
    by (simp add: splitCompaction_def Let_def)
qed


section \<open>What pruning leaves alone\<close>

definition call_ids :: "model_message list \<Rightarrow> string list" where
  "call_ids ms = map tm_callId (results_of ms)"

lemma backwards_snoc: "backwards (ms @ [m]) = (length ms, m) # backwards ms"
  by (simp add: backwards_def)

lemma in_backwards: "(i, m) \<in> set (backwards ms) \<longleftrightarrow> i < length ms \<and> ms ! i = m"
  by (auto simp: backwards_def set_zip intro!: exI[of _ i])

lemma set_backwards: "set (backwards ms) = (\<lambda>i. (i, ms ! i)) ` {..<length ms}"
  using in_backwards[of _ _ ms] by force

text \<open>What a scan selects: outputs of successful calls that are not pruned yet.\<close>

lemma scan_selects:
  "i \<in> set (fst (prune_scan xs turns kept)) \<Longrightarrow>
     \<exists>t. (i, Tool t) \<in> set xs \<and> tm_output t \<noteq> PRUNED \<and> \<not> tm_isError t \<and> tm_name t \<noteq> ''skill''"
  by (induction xs turns kept rule: prune_scan.induct) (auto simp: Let_def split: if_splits)

lemma results_simps [simp, history]:
  "results_of [] = []" "results_of (Tool t # ms) = t # results_of ms" "results_of (User u # ms) = results_of ms"
  "results_of (Assistant a # ms) = results_of ms" "results_of (xs @ ys) = results_of xs @ results_of ys"
  by (simp_all add: results_of_def List.map_filter_simps List.map_filter_def)

lemma same_call_same_place:
  "distinct (call_ids ms) \<Longrightarrow> i < length ms \<Longrightarrow> j < length ms \<Longrightarrow> ms ! i = Tool t \<Longrightarrow> ms ! j = Tool u \<Longrightarrow> tm_callId t = tm_callId u
   \<Longrightarrow> i = j"
proof (induction ms arbitrary: i j)
  case (Cons m ms)
  have listed: "tm_callId t \<in> set (call_ids ms)" if "k < length ms" "ms ! k = Tool t" for k t
  proof -
    have "Tool t \<in> set ms"
      using that nth_mem by metis
    then show ?thesis
      by (force simp: call_ids_def results_of_def List.map_filter_def)
  qed
  have "distinct (call_ids ms)"
    using Cons.prems(1) by (cases m) (simp_all add: call_ids_def)
  moreover have "call_ids (Tool v # ms) = tm_callId v # call_ids ms" for v
    by (simp add: call_ids_def)
  ultimately show ?case
    using Cons listed[of "i - 1" t] listed[of "j - 1" u] by (cases i; cases j) auto
qed simp

lemma frozen_places:
  assumes "\<And>i. i < length xs \<Longrightarrow> frozen_here ids (xs ! i) \<longleftrightarrow> i \<in> S"
  shows "set (fst (frozen_scan ids (backwards xs))) = {i. i < length xs \<and> i \<in> S}"
proof -
  have "set (fst (frozen_scan ids (backwards xs))) = {i. i < length xs \<and> frozen_here ids (xs ! i)}"
    by (force simp: frozen_scan_def Let_def set_backwards image_iff)
  then show ?thesis
    using assms by auto
qed

text \<open>To prune exactly what an earlier call pruned, in a history that has grown, changes the same outputs and no other (as long as no two
  results have the same id).\<close>

lemma exact_prune_extends:
  assumes distinct: "distinct (call_ids (ms @ more_messages))"
  shows "pr_messages (pruneToolOutputs (ms @ more_messages) (PruneExactly (pr_ids (pruneToolOutputs ms PruneOn))))
    = pr_messages (pruneToolOutputs ms PruneOn) @ more_messages"
proof (cases "snd (prune_scan (backwards ms) 0 0) \<le> PRUNE_MINIMUM \<or> fst (prune_scan (backwards ms) 0 0) = []")
  case True
  have "\<not> frozen_here [] m" for m
    by (cases m) (simp_all add: frozen_here_def)
  then have "fst (frozen_scan [] xs) = []" for xs
    by (simp add: frozen_scan_def Let_def)
  then show ?thesis
    using True by (simp add: pruneToolOutputs_def Let_def)
next
  case False
  define sel where "sel = fst (prune_scan (backwards ms) 0 0)"
  let ?all = "ms @ more_messages" and ?ids = "js_set (map (call_at ms) sel)"
  have sel: "i < length ms \<and> (\<exists>t. ms ! i = Tool t \<and> tm_output t \<noteq> PRUNED)" if "i \<in> set sel" for i
    using scan_selects[of i "backwards ms"] that in_backwards unfolding sel_def by fastforce
  have "frozen_here ?ids (?all ! i) \<longleftrightarrow> i \<in> set sel" if i: "i < length ?all" for i
  proof
    assume "frozen_here ?ids (?all ! i)"
    then obtain t j where t: "?all ! i = Tool t" and j: "j \<in> set sel" "tm_callId t = call_at ms j"
      by (auto simp: frozen_here_def split: model_message.splits)
    obtain u where u: "j < length ms" "ms ! j = Tool u"
      using sel[OF j(1)] by blast
    then have "?all ! j = Tool u" "tm_callId t = tm_callId u"
      using j(2) by (simp_all add: nth_append call_at_def)
    then have "i = j"
      using same_call_same_place[OF distinct i _ t, of j u] u(1) by simp
    then show "i \<in> set sel"
      using j(1) by simp
  next
    assume "i \<in> set sel"
    then show "frozen_here ?ids (?all ! i)"
      using sel by (force simp: frozen_here_def nth_append call_at_def)
  qed
  from frozen_places[OF this] have places: "set (fst (frozen_scan ?ids (backwards ?all))) = set sel"
    using sel by fastforce
  have nonempty: "sel \<noteq> []" "fst (frozen_scan ?ids (backwards ?all)) \<noteq> []"
    using False places by (auto simp: sel_def simp flip: set_empty)
  have one: "pruneToolOutputs ms PruneOn = \<lparr>pr_messages = map (\<lambda>i. if i \<in> set sel then prune_message (ms ! i) else ms ! i) [0..<length ms],
      pr_tokens = snd (prune_scan (backwards ms) 0 0), pr_ids = ?ids\<rparr>"
    using False by (simp add: pruneToolOutputs_def Let_def sel_def)
  have "pr_messages (pruneToolOutputs ?all (PruneExactly ?ids)) =
      map (\<lambda>i. if i \<in> set sel then prune_message (?all ! i) else ?all ! i) [0..<length ?all]"
    using nonempty(2) places by (simp add: pruneToolOutputs_def Let_def)
  also have "\<dots> = map (\<lambda>i. if i \<in> set sel then prune_message (ms ! i) else ms ! i) [0..<length ms] @ more_messages"
    using sel by (intro nth_equalityI) (force simp: nth_append)+
  finally show ?thesis
    by (simp add: one)
qed

text \<open>A history with an output of 100000 tokens, which is pruned.\<close>

definition long_talk :: "model_message list" where
  "long_talk = [returned ''1'' 400000, said ''a'', said ''b'']"

lemma long_output: "replicate 400000 (CHR ''x'') \<noteq> PRUNED" "PRUNED \<noteq> replicate 400000 (CHR ''x'')"
proof -
  have "length (replicate 400000 (CHR ''x'')) \<noteq> length PRUNED"
    by (simp add: PRUNED_def)
  then show "replicate 400000 (CHR ''x'') \<noteq> PRUNED" "PRUNED \<noteq> replicate 400000 (CHR ''x'')"
    by metis+
qed

lemma long_talk_pruned:
  "prune_scan (backwards long_talk) 0 0 = ([0], 100000)" "pr_ids (pruneToolOutputs long_talk PruneOn) = [''1'']"
proof -
  have b: "backwards long_talk = [(2, said ''b''), (1, said ''a''), (0, returned ''1'' 400000)]"
    by (simp add: backwards_def long_talk_def upt_rec)
  show scan: "prune_scan (backwards long_talk) 0 0 = ([0], 100000)"
    unfolding b using long_output by (simp add: said_def returned_def is_summary_def SUMMARY_PREFIX_def output_tokens_def estimateTokens_def PRUNE_PROTECTED_def)
  show "pr_ids (pruneToolOutputs long_talk PruneOn) = [''1'']"
    by (simp add: pruneToolOutputs_def scan PRUNE_MINIMUM_def) (simp add: call_at_def js_set_def long_talk_def returned_def)
qed

text \<open>What the scan has passed when it selects an output.\<close>

definition own_turns :: "model_message list \<Rightarrow> nat" where
  "own_turns ms = length (filter starts_turn ms)"

definition tool_tokens :: "model_message list \<Rightarrow> nat" where
  "tool_tokens ms = sum_list (map output_tokens (results_of ms))"

lemma scan_passed:
  "i \<in> set (fst (prune_scan xs turns kept)) \<Longrightarrow>
     \<exists>us t vs. xs = us @ (i, Tool t) # vs \<and> 2 \<le> turns + own_turns (map snd us)
       \<and> PRUNE_PROTECTED < kept + tool_tokens (map snd us) + output_tokens t"
proof (induction xs turns kept rule: prune_scan.induct)
  case (2 j u xs turns kept)
  then obtain us t vs where "xs = us @ (i, Tool t) # vs" "2 \<le> Suc turns + own_turns (map snd us)"
      "PRUNE_PROTECTED < kept + tool_tokens (map snd us) + output_tokens t" "\<not> is_summary (um_content u)"
    by (auto split: if_splits)
  then show ?case
    by (intro exI[of _ "(j, User u) # us"] exI[of _ t] exI[of _ vs]) (simp add: own_turns_def tool_tokens_def starts_turn_def)
next
  case (3 j a xs turns kept)
  then obtain us t vs where "xs = us @ (i, Tool t) # vs" "2 \<le> turns + own_turns (map snd us)"
      "PRUNE_PROTECTED < kept + tool_tokens (map snd us) + output_tokens t"
    by auto
  then show ?case
    by (intro exI[of _ "(j, Assistant a) # us"] exI[of _ t] exI[of _ vs]) (simp add: own_turns_def tool_tokens_def starts_turn_def)
next
  case (4 j v xs turns kept)
  have longer: "\<exists>us t vs. (j, Tool v) # xs = us @ (i, Tool t) # vs \<and> 2 \<le> turns + own_turns (map snd us)
      \<and> PRUNE_PROTECTED < kept + tool_tokens (map snd us) + output_tokens t"
    if found: "\<exists>us t vs. xs = us @ (i, Tool t) # vs \<and> 2 \<le> turns + own_turns (map snd us)
      \<and> PRUNE_PROTECTED < k + tool_tokens (map snd us) + output_tokens t" and k: "k \<le> kept + output_tokens v" for k
  proof -
    obtain us t vs where "xs = us @ (i, Tool t) # vs" "2 \<le> turns + own_turns (map snd us)"
        "PRUNE_PROTECTED < k + tool_tokens (map snd us) + output_tokens t"
      using found by blast
    then show ?thesis
      using k by (intro exI[of _ "(j, Tool v) # us"] exI[of _ t] exI[of _ vs]) (simp add: own_turns_def tool_tokens_def starts_turn_def)
  qed
  show ?case
  proof (cases "turns < 2 \<or> tm_isError v \<or> tm_name v = ''skill''")
    case True
    then show ?thesis
      using 4(1)[OF True] 4(3) by (intro longer[of kept]) simp_all
  next
    case False
    then have "tm_output v \<noteq> PRUNED"
      using 4(3) by auto
    show ?thesis
    proof (cases "i \<in> set (fst (prune_scan xs turns (kept + output_tokens v)))")
      case True
      then show ?thesis
        using 4(2)[OF False \<open>tm_output v \<noteq> PRUNED\<close> refl] by (intro longer[of "kept + output_tokens v"]) simp_all
    next
      case not_later: False
      then have "i = j" "PRUNE_PROTECTED < kept + output_tokens v"
        using 4(3) False \<open>tm_output v \<noteq> PRUNED\<close> by (auto simp: Let_def split: if_splits)
      then show ?thesis
        using False by (intro exI[of _ "[]"] exI[of _ v] exI[of _ xs]) (simp add: own_turns_def tool_tokens_def)
    qed
  qed
qed simp

lemma backwards_place:
  assumes "backwards ms = us @ (i, m) # vs"
  shows "map snd us = rev (drop (Suc i) ms) \<and> i < length ms \<and> ms ! i = m"
proof -
  have i: "i < length ms \<and> ms ! i = m"
    using in_backwards[of i m ms] assms by simp
  have snds: "rev ms = map snd us @ m # map snd vs"
    using arg_cong[OF assms, of "map snd"] by (simp add: backwards_def flip: rev_map)
  have fsts: "rev [0..<length ms] = map fst us @ i # map fst vs"
    using arg_cong[OF assms, of "map fst"] by (simp add: backwards_def flip: rev_map)
  have "length us < length ms"
    using arg_cong[OF fsts, of length] by simp
  then have "i = length ms - Suc (length us)"
    using arg_cong[OF fsts, of "\<lambda>xs. xs ! length us"] by (simp add: nth_append rev_nth)
  then have "length us = length ms - Suc i"
    using \<open>length us < length ms\<close> by simp
  moreover have "map snd us = take (length us) (rev ms)"
    by (simp add: snds)
  ultimately show ?thesis
    using i by (simp add: take_rev)
qed

lemma own_turns_rev [simp]: "own_turns (rev ms) = own_turns ms"
  by (simp add: own_turns_def flip: rev_filter)

lemma tool_tokens_rev [simp]: "tool_tokens (rev ms) = tool_tokens ms"
  by (induction ms) (simp_all add: tool_tokens_def results_of_def List.map_filter_def)

lemma tool_tokens_drop: "i < length ms \<Longrightarrow> ms ! i = Tool t \<Longrightarrow> tool_tokens (drop i ms) = output_tokens t + tool_tokens (drop (Suc i) ms)"
  by (simp add: Cons_nth_drop_Suc[symmetric] tool_tokens_def)

text \<open>C38: Pruning spares what is recent: an output is replaced only when it is the result of a successful call (and no skill), two messages of the
  user or more have followed it, and the outputs from there on weigh more than 40000 tokens; messages, calls and their order stay, and
  nothing is replaced at all unless that saves more than 20000 tokens.\<close>

theorem pruning_spares_the_recent:
  assumes "i < length ms"
  shows "length (pr_messages (pruneToolOutputs ms PruneOn)) = length ms
    \<and> (pr_messages (pruneToolOutputs ms PruneOn) ! i = ms ! i
       \<or> (\<exists>t. ms ! i = Tool t \<and> pr_messages (pruneToolOutputs ms PruneOn) ! i = Tool (t\<lparr>tm_output := PRUNED, tm_loadedInstructions := None\<rparr>)
            \<and> \<not> tm_isError t \<and> tm_name t \<noteq> ''skill'' \<and> 2 \<le> own_turns (drop (Suc i) ms) \<and> PRUNE_PROTECTED < tool_tokens (drop i ms)
            \<and> PRUNE_MINIMUM < pr_tokens (pruneToolOutputs ms PruneOn)))"
proof (cases "snd (prune_scan (backwards ms) 0 0) \<le> PRUNE_MINIMUM \<or> fst (prune_scan (backwards ms) 0 0) = []")
  case True
  then show ?thesis
    by (simp add: pruneToolOutputs_def Let_def)
next
  case False
  let ?sel = "set (fst (prune_scan (backwards ms) 0 0))"
  have out: "pr_messages (pruneToolOutputs ms PruneOn) = map (\<lambda>i. if i \<in> ?sel then prune_message (ms ! i) else ms ! i) [0..<length ms]"
    and saved: "PRUNE_MINIMUM < pr_tokens (pruneToolOutputs ms PruneOn)"
    using False by (simp_all add: pruneToolOutputs_def Let_def)
  show ?thesis
  proof (cases "i \<in> ?sel")
    case True
    obtain t where "(i, Tool t) \<in> set (backwards ms)" and plain: "\<not> tm_isError t" "tm_name t \<noteq> ''skill''"
      using scan_selects[OF True] by blast
    then have t: "ms ! i = Tool t" "\<not> tm_isError t" "tm_name t \<noteq> ''skill''"
      using in_backwards[of i "Tool t" ms] by simp_all
    obtain us u vs where b: "backwards ms = us @ (i, Tool u) # vs" "2 \<le> own_turns (map snd us)"
        "PRUNE_PROTECTED < tool_tokens (map snd us) + output_tokens u"
      using scan_passed[OF True] by auto
    then have "u = t" "map snd us = rev (drop (Suc i) ms)"
      using backwards_place[OF b(1)] t(1) by simp_all
    then have "2 \<le> own_turns (drop (Suc i) ms)" "PRUNE_PROTECTED < tool_tokens (drop i ms)"
      using b(2,3) tool_tokens_drop[OF assms t(1)] by simp_all
    moreover have "pr_messages (pruneToolOutputs ms PruneOn) ! i = Tool (t\<lparr>tm_output := PRUNED, tm_loadedInstructions := None\<rparr>)"
      using True assms t(1) by (simp add: out prune_message_def)
    ultimately show ?thesis
      using t saved unfolding out by simp
  qed (simp add: out assms)
qed

lemma pruning_spares_the_recent_witness:
  "pr_messages (pruneToolOutputs long_talk PruneOn) ! 0 \<noteq> long_talk ! 0 \<and> 2 \<le> own_turns (drop 1 long_talk)"
proof -
  have "pr_messages (pruneToolOutputs long_talk PruneOn) ! 0 = prune_message (long_talk ! 0)"
    by (simp add: pruneToolOutputs_def long_talk_pruned PRUNE_MINIMUM_def) (simp add: long_talk_def)
  moreover have "prune_message (long_talk ! 0) \<noteq> long_talk ! 0"
    using long_output by (simp add: long_talk_def returned_def prune_message_def)
  ultimately show ?thesis
    using pruning_spares_the_recent[of 0 long_talk] by (fastforce simp: long_talk_def)
qed

section \<open>The point where a conversation is packed\<close>

text \<open>The point is never past the window, and at least one token where there is a window.\<close>

lemma threshold_within_window:
  assumes "window_of l = Some w" "0 < w"
  shows "compactionThreshold config l legacy \<le> w"
proof -
  have percent: "nat (floor (of_nat w * thresholdPercent p / 100)) \<le> w" for p :: rat
  proof -
    have "thresholdPercent p \<le> 100"
      by (simp add: thresholdPercent_def)
    then have "of_nat w * thresholdPercent p \<le> of_nat w * 100"
      by (intro mult_left_mono) simp_all
    then have "of_nat w * thresholdPercent p / 100 \<le> of_int (int w)"
      by simp
    then have "floor (of_nat w * thresholdPercent p / 100) \<le> int w"
      by (metis floor_mono floor_of_int)
    then show ?thesis by simp
  qed
  show ?thesis
    using assms percent by (auto simp: compactionThreshold_def Let_def DEFAULT_COMPACTION_PERCENT_def split: option.splits)
qed

end
