(* ===== verification/CompactionContext.thy ===== *)
theory CompactionContext
  imports Compaction WfTypes
begin

text \<open>
  What goes back into a conversation that was packed (\<open>packages/engine-native/src/compaction-context.ts\<close>): clipped texts, the images of
  the turns that are gone, the open tasks of the agent and the anchor the engine writes itself. The sections that only tell a model
  about the history are not modelled.
\<close>

section \<open>Clipped texts\<close>

definition compactText :: "string \<Rightarrow> nat \<Rightarrow> string" where
  "compactText t maxChars =
     (let trimmed = js_trim t in
      if length trimmed \<le> maxChars then trimmed
      else let marker = [CHR 0x0A] @ ''[truncated: omitted '' @ nat_text (length trimmed - maxChars) @ '' chars; showing start and latest tail]'' @ [CHR 0x0A];
               budget = maxChars - length marker; head = budget div 3
        in if budget = 0 then slice_last maxChars trimmed
           else take head trimmed @ marker @ drop (length trimmed - (budget - head)) trimmed)"

definition compactTextHead :: "string \<Rightarrow> nat \<Rightarrow> string" where
  "compactTextHead t maxChars =
     (let trimmed = js_trim t in
      if length trimmed \<le> maxChars then trimmed
      else let marker = [CHR 0x0A] @ ''[truncated: omitted '' @ nat_text (length trimmed - maxChars) @ '' chars; showing initial context only]'' @ [CHR 0x0A];
               budget = maxChars - length marker
        in if budget = 0 then take maxChars trimmed else take budget trimmed @ marker)"

definition indent :: "string \<Rightarrow> string \<Rightarrow> string" where
  "indent t pad = js_join [CHR 0x0A] (map (\<lambda>l. pad @ l) (filter (\<lambda>l. l \<noteq> []) (js_split (CHR 0x0A) t)))"

section \<open>Messages of the user\<close>

definition isRealUser :: "model_message \<Rightarrow> bool" where
  "isRealUser m = (case m of User u \<Rightarrow> \<not> um_compaction u \<and> \<not> is_summary (um_content u) | _ \<Rightarrow> False)"

definition latestRealUserIndex :: "model_message list \<Rightarrow> nat option" where
  "latestRealUserIndex ms = (case filter (\<lambda>i. isRealUser (ms ! i)) [0..<length ms] of [] \<Rightarrow> None | i # is \<Rightarrow> Some (last (i # is)))"

section \<open>Images\<close>

definition RESUME_IMAGE_MAX_ITEMS :: nat where "RESUME_IMAGE_MAX_ITEMS = 10"
definition RESUME_IMAGE_MAX_BYTES :: nat where "RESUME_IMAGE_MAX_BYTES = 20 * 1024 * 1024"

definition isImage :: "blob_ref \<Rightarrow> bool" where
  "isImage r \<longleftrightarrow> take 6 (br_mime r) = ''image/''"

definition attachments_of :: "model_message \<Rightarrow> blob_ref list" where
  "attachments_of m = (case m of User u \<Rightarrow> orelse (um_attachments u) [] | _ \<Rightarrow> [])"

text \<open>The loop over the images, the newest first; what is picked is put in front.\<close>

fun pick_images :: "string list \<Rightarrow> blob_ref list \<Rightarrow> string list \<Rightarrow> nat \<Rightarrow> blob_ref list \<Rightarrow> blob_ref list" where
  "pick_images inTail [] seen bytes picked = picked"
| "pick_images inTail (r # rs) seen bytes picked =
     (if \<not> isImage r \<or> br_sha256 r \<in> set inTail \<or> br_sha256 r \<in> set seen then pick_images inTail rs seen bytes picked
      else let seen2 = br_sha256 r # seen in
        if RESUME_IMAGE_MAX_BYTES < bytes + br_bytes r then pick_images inTail rs seen2 bytes picked
        else let picked2 = r # picked in
          if length picked2 = RESUME_IMAGE_MAX_ITEMS then picked2 else pick_images inTail rs seen2 (bytes + br_bytes r) picked2)"

definition resumeImageRefs :: "model_message list \<Rightarrow> model_message list \<Rightarrow> blob_ref list" where
  "resumeImageRefs head tail =
     pick_images (map br_sha256 (concat (map attachments_of tail))) (concat (map (\<lambda>m. rev (attachments_of m)) (rev head))) [] 0 []"

section \<open>Open tasks\<close>

record todo =
  td_text :: string
  td_status :: string
  td_priority :: "string option"

definition TODO_MAX_ITEMS :: nat where "TODO_MAX_ITEMS = 50"

definition todo_of :: "json \<Rightarrow> todo option" where
  "todo_of j =
     (case (str_field j ''text'', str_field j ''status'') of
        (Some t, Some st) \<Rightarrow> Some \<lparr>td_text = t, td_status = st, td_priority = str_field j ''priority''\<rparr>
      | _ \<Rightarrow> None)"

definition todo_call :: "model_message \<Rightarrow> tool_call option" where
  "todo_call m =
     (case m of
        Assistant a \<Rightarrow> List.find (\<lambda>c. tc_name c = ''todo'') (rev (as_toolCalls a))
      | _ \<Rightarrow> None)"

definition currentTodos :: "model_message list \<Rightarrow> todo list" where
  "currentTodos ms =
     (case List.map_filter todo_call (rev ms) of
        [] \<Rightarrow> []
      | c # _ \<Rightarrow> take TODO_MAX_ITEMS (List.map_filter todo_of (orelse (arr_field (tc_args c) ''items'') [])))"

definition openTodos :: "todo list \<Rightarrow> todo list" where
  "openTodos ts = filter (\<lambda>t. td_status t = ''pending'' \<or> td_status t = ''in_progress'') ts"

section \<open>The anchor of the engine\<close>

record running_process =
  rp_background :: bool
  rp_id :: string
  rp_command :: string
  rp_running :: bool
  rp_seconds :: nat

definition process_line :: "running_process \<Rightarrow> string" where
  "process_line p = ''    '' @ rp_id p @ '' ('' @ (if rp_background p then ''shell_output reads it, shell_kill stops it'' else ''shell_session read or kill'')
     @ '') running '' @ nat_text (rp_seconds p div 60) @ ''m: '' @ compactTextHead (rp_command p) 200"

definition processAnchorLines :: "running_process list \<Rightarrow> string list" where
  "processAnchorLines ps =
     (let live = take 12 (filter rp_running ps) in
      if live = [] then []
      else ''- Commands still running (they survive this compaction; their unread output is kept):'' # map process_line live)"

definition ENGINE_ANCHOR_HEADING :: string where
  "ENGINE_ANCHOR_HEADING = ''## Engine Anchor (kept verbatim by the engine)''"

definition request_lines :: "model_message list \<Rightarrow> nat \<Rightarrow> string list" where
  "request_lines ms tailStart =
     (case latestRealUserIndex ms of
        None \<Rightarrow> []
      | Some i \<Rightarrow>
          (case ms ! i of
             User u \<Rightarrow>
               if i < tailStart
               then let t = compactTextHead (um_content u) 2500
                 in [''- Latest real user request (verbatim):'', indent (if t = [] then ''(empty user message)'' else t) ''    '']
               else []
           | _ \<Rightarrow> []))"

definition todo_line :: "todo \<Rightarrow> string" where
  "todo_line t = ''    ['' @ td_status t @ ''] '' @ compactTextHead (td_text t) 300"

definition engineAnchor :: "model_message list \<Rightarrow> model_message list \<Rightarrow> running_process list \<Rightarrow> string option \<Rightarrow> string" where
  "engineAnchor ms tail ps plan =
     (let todos = openTodos (currentTodos ms);
          lines = request_lines ms (length ms - length tail)
            @ (if todos \<noteq> [] then ''- Open TODOs at compaction:'' # map todo_line todos else [])
            @ (case truthy plan of Some p \<Rightarrow> [''- '' @ p] | None \<Rightarrow> [])
            @ processAnchorLines ps
      in if lines \<noteq> [] then js_join [CHR 0x0A] (ENGINE_ANCHOR_HEADING # lines) else [])"

section \<open>Bounds\<close>

lemma clipped: "0 < n \<Longrightarrow> length (compactText t n) \<le> n" "length (compactTextHead t n) \<le> n"
  by (auto simp: compactText_def compactTextHead_def Let_def slice_last_def)

definition images_ok :: "string list \<Rightarrow> string list \<Rightarrow> nat \<Rightarrow> blob_ref list \<Rightarrow> bool" where
  "images_ok inTail seen bytes picked \<longleftrightarrow>
     distinct (map br_sha256 picked) \<and> set (map br_sha256 picked) \<subseteq> set seen \<and> set (map br_sha256 picked) \<inter> set inTail = {}
     \<and> sum_list (map br_bytes picked) = bytes \<and> bytes \<le> RESUME_IMAGE_MAX_BYTES \<and> length picked < RESUME_IMAGE_MAX_ITEMS
     \<and> list_all isImage picked"

lemma picked_fit:
  "images_ok inTail seen bytes picked \<Longrightarrow> r = pick_images inTail rs seen bytes picked \<Longrightarrow>
     distinct (map br_sha256 r) \<and> set (map br_sha256 r) \<inter> set inTail = {} \<and> sum_list (map br_bytes r) \<le> RESUME_IMAGE_MAX_BYTES
     \<and> length r \<le> RESUME_IMAGE_MAX_ITEMS \<and> list_all isImage r \<and> set r \<subseteq> set picked \<union> set rs"
proof (induction inTail rs seen bytes picked rule: pick_images.induct)
  case (2 inTail x rs seen bytes picked)
  show ?case
  proof (cases "\<not> isImage x \<or> br_sha256 x \<in> set inTail \<or> br_sha256 x \<in> set seen")
    case True
    then show ?thesis
      using 2(1)[OF True] 2(4,5) by auto
  next
    case fresh: False
    show ?thesis
    proof (cases "RESUME_IMAGE_MAX_BYTES < bytes + br_bytes x")
      case True
      have "images_ok inTail (br_sha256 x # seen) bytes picked"
        using 2(4) by (auto simp: images_ok_def)
      then show ?thesis
        using 2(2)[OF fresh refl True] 2(5) fresh True by (auto simp: Let_def)
    next
      case False
      have ok: "distinct (map br_sha256 (x # picked))" "set (map br_sha256 (x # picked)) \<inter> set inTail = {}"
          "sum_list (map br_bytes (x # picked)) = bytes + br_bytes x" "list_all isImage (x # picked)" "length (x # picked) \<le> RESUME_IMAGE_MAX_ITEMS"
        using 2(4) fresh by (auto simp: images_ok_def)
      then show ?thesis
      proof (cases "length (x # picked) = RESUME_IMAGE_MAX_ITEMS")
        case True
        then show ?thesis
          using ok 2(5) fresh False by (auto simp: Let_def)
      next
        case short: False
        have "images_ok inTail (br_sha256 x # seen) (bytes + br_bytes x) (x # picked)"
          using ok 2(4) short False by (auto simp: images_ok_def)
        then show ?thesis
          using 2(3)[OF fresh refl False refl short] 2(5) fresh False short by (auto simp: Let_def)
      qed
    qed
  qed
qed (auto simp: images_ok_def)

text \<open>C39: The images that come back with a summary fit: at most ten, together at most 20 MiB, each only once, none that the kept tail still
  shows, and all of them from the messages that are gone.\<close>

theorem resumed_images_fit:
  "let r = resumeImageRefs head tail in
     length r \<le> 10 \<and> sum_list (map br_bytes r) \<le> 20 * 1024 * 1024 \<and> distinct (map br_sha256 r)
     \<and> set (map br_sha256 r) \<inter> set (map br_sha256 (concat (map attachments_of tail))) = {}
     \<and> set r \<subseteq> set (concat (map attachments_of head))"
proof -
  have "images_ok (map br_sha256 (concat (map attachments_of tail))) [] 0 []"
    by (simp add: images_ok_def RESUME_IMAGE_MAX_ITEMS_def)
  from picked_fit[OF this refl, of "concat (map (\<lambda>m. rev (attachments_of m)) (rev head))"]
  show ?thesis
    by (auto simp: resumeImageRefs_def Let_def RESUME_IMAGE_MAX_ITEMS_def RESUME_IMAGE_MAX_BYTES_def)
qed

end
