(* ===== verification/PruneTurn.thy ===== *)
theory PruneTurn
  imports Compaction
begin

text \<open>
  Which old tool outputs a request of a turn prunes (\<open>callModel\<close> in \<open>packages/engine-native/src/engine.ts\<close>): the first request of a turn
  decides, the later ones repeat its choice unless the context is about to reach the point where the conversation is packed. A turn
  is the number of its \<open>TurnStart\<close> object. What the session knows from the provider at the time of a request (the size of its
  context, the compaction point, the settings) comes with the request.
\<close>

section \<open>Requests\<close>

datatype call_kind = Own | Shared prune_mode | Forked

text \<open>\<open>Shared\<close> repeats what the last main call sent, \<open>Forked\<close> inherits messages that were pruned already.\<close>

record model_request =
  mr_kind :: call_kind
  mr_turn :: "nat option"
  mr_messages :: "model_message list"
  mr_contextTokens :: "nat option"
  mr_compactAt :: nat
  mr_prune :: bool
  mr_trackContext :: bool

record prunes =
  pn_prunedTokens :: nat
  pn_turnPrunes :: "(nat \<times> string list) option"

definition pruneNow :: "(model_message \<Rightarrow> nat) \<Rightarrow> model_request \<Rightarrow> prunes \<Rightarrow> bool" where
  "pruneNow chars r s \<longleftrightarrow>
     mr_prune r \<and> prunable (mr_messages r)
     \<and> pruneDue (orelse (mr_contextTokens r) (historyTokens chars (mr_messages r)) + pn_prunedTokens s) (mr_compactAt r)"

definition urgent :: "model_request \<Rightarrow> prunes \<Rightarrow> bool" where
  "urgent r s \<longleftrightarrow> prunable (mr_messages r) \<and> pruneUrgent (orelse (mr_contextTokens r) 0 + pn_prunedTokens s) (mr_compactAt r)"

text \<open>\<open>held\<close> and \<open>keep\<close>: the ids of the turn, where the request repeats them.\<close>

definition kept_ids :: "model_request \<Rightarrow> prunes \<Rightarrow> string list option" where
  "kept_ids r s =
     (case pn_turnPrunes s of None \<Rightarrow> None
      | Some (turn, ids) \<Rightarrow> if mr_kind r = Own \<and> mr_turn r = Some turn \<and> \<not> urgent r s then Some ids else None)"

definition pruneEnabled :: "(model_message \<Rightarrow> nat) \<Rightarrow> model_request \<Rightarrow> prunes \<Rightarrow> prune_mode" where
  "pruneEnabled chars r s =
     (case mr_kind r of
        Shared mode \<Rightarrow> mode
      | Forked \<Rightarrow> PruneOff
      | Own \<Rightarrow> (case kept_ids r s of Some ids \<Rightarrow> PruneExactly ids | None \<Rightarrow> if pruneNow chars r s then PruneOn else PruneOff))"

definition prune_request :: "(model_message \<Rightarrow> nat) \<Rightarrow> model_request \<Rightarrow> prunes \<Rightarrow> prunes \<times> prune_result" where
  "prune_request chars r s =
     (let pruned = pruneToolOutputs (mr_messages r) (pruneEnabled chars r s);
          turns = (case mr_turn r of
              Some turn \<Rightarrow> if mr_kind r = Own \<and> kept_ids r s = None then Some (turn, pr_ids pruned) else pn_turnPrunes s
            | None \<Rightarrow> pn_turnPrunes s)
      in (\<lparr>pn_prunedTokens = (if mr_trackContext r then pr_tokens pruned else pn_prunedTokens s), pn_turnPrunes = turns\<rparr>, pruned))"

section \<open>The requests of a turn\<close>

text \<open>What is sent, request after request, and whether none of them finds the context about to reach the compaction point.\<close>

fun sent_messages :: "(model_message \<Rightarrow> nat) \<Rightarrow> model_request list \<Rightarrow> prunes \<Rightarrow> model_message list list" where
  "sent_messages chars [] s = []"
| "sent_messages chars (r # rs) s =
     (case prune_request chars r s of (s', pruned) \<Rightarrow> pr_messages pruned # sent_messages chars rs s')"

fun unhurried :: "(model_message \<Rightarrow> nat) \<Rightarrow> model_request list \<Rightarrow> prunes \<Rightarrow> bool" where
  "unhurried chars [] s = True"
| "unhurried chars (r # rs) s = (\<not> urgent r s \<and> unhurried chars rs (fst (prune_request chars r s)))"

definition own_request :: "nat \<Rightarrow> model_request \<Rightarrow> bool" where
  "own_request turn r \<longleftrightarrow> mr_kind r = Own \<and> mr_turn r = Some turn"

text \<open>The history of a request is that of an earlier one with more messages behind it; no two of its results have the same id.\<close>

definition goes_on_from :: "model_message list \<Rightarrow> model_request \<Rightarrow> bool" where
  "goes_on_from ms r \<longleftrightarrow> take (length ms) (mr_messages r) = ms \<and> distinct (call_ids (mr_messages r))"

lemma no_ids_no_change [simp]: "pruneToolOutputs ms (PruneExactly []) = \<lparr>pr_messages = ms, pr_tokens = 0, pr_ids = []\<rparr>"
proof -
  have "\<not> frozen_here [] m" for m
    by (cases m) (simp_all add: frozen_here_def)
  then show ?thesis
    by (simp add: pruneToolOutputs_def frozen_scan_def Let_def)
qed

lemma off_changes_nothing [simp]: "pruneToolOutputs ms PruneOff = \<lparr>pr_messages = ms, pr_tokens = 0, pr_ids = []\<rparr>"
  by (simp add: pruneToolOutputs_def Let_def)

text \<open>What a request that decided pruned is what an exact prune of the longer history gives.\<close>

lemma decided_prune_extends:
  assumes "mode = PruneOn \<or> mode = PruneOff" "goes_on_from ms r"
  shows "pr_messages (pruneToolOutputs (mr_messages r) (PruneExactly (pr_ids (pruneToolOutputs ms mode)))) =
    pr_messages (pruneToolOutputs ms mode) @ drop (length ms) (mr_messages r)"
proof -
  have "mr_messages r = ms @ drop (length ms) (mr_messages r)"
    using assms(2) by (metis append_take_drop_id goes_on_from_def)
  then show ?thesis
    using assms exact_prune_extends[of ms "drop (length ms) (mr_messages r)"] by (auto simp: goes_on_from_def)
qed

lemma repeated:
  assumes "pn_turnPrunes s = Some (turn, ids)" "\<forall>r \<in> set rs. own_request turn r" "unhurried chars rs s"
  shows "sent_messages chars rs s = map (\<lambda>r. pr_messages (pruneToolOutputs (mr_messages r) (PruneExactly ids))) rs"
  using assms
proof (induction rs arbitrary: s)
  case (Cons r rs)
  then have "kept_ids r s = Some ids" "mr_kind r = Own"
    by (simp_all add: kept_ids_def own_request_def)
  then have "pruneEnabled chars r s = PruneExactly ids" "pn_turnPrunes (fst (prune_request chars r s)) = Some (turn, ids)"
    using Cons.prems(1) by (simp_all add: pruneEnabled_def prune_request_def Let_def split: option.split)
  then show ?case
    using Cons.IH[of "fst (prune_request chars r s)"] Cons.prems by (simp add: prune_request_def Let_def split: prod.split)
qed simp

text \<open>C17: What a turn has sent is not pruned again: after the first request of a turn, each later request of the turn sends the messages of
  the first one exactly as they were sent, with the new messages behind them unpruned, so the provider finds the prefix it has
  cached. The exception is the one the code makes: a request that finds the context within 5 % of the compaction point decides
  anew, so it is assumed that none does; and no two tool results of the history have the same id.\<close>

theorem pruned_prefix_is_stable:
  assumes own: "\<forall>r \<in> set (r0 # rs). own_request turn r" and first: "\<forall>ids. pn_turnPrunes s \<noteq> Some (turn, ids)"
    and grows: "\<forall>r \<in> set rs. goes_on_from (mr_messages r0) r"
    and calm: "unhurried chars rs (fst (prune_request chars r0 s))"
  shows "sent_messages chars (r0 # rs) s =
    pr_messages (snd (prune_request chars r0 s))
    # map (\<lambda>r. pr_messages (snd (prune_request chars r0 s)) @ drop (length (mr_messages r0)) (mr_messages r)) rs"
proof -
  let ?mode = "if pruneNow chars r0 s then PruneOn else PruneOff"
  let ?s = "fst (prune_request chars r0 s)"
  have r0: "mr_kind r0 = Own" "mr_turn r0 = Some turn"
    using own by (simp_all add: own_request_def)
  then have "kept_ids r0 s = None"
    using first by (auto simp: kept_ids_def split: option.split)
  then have mode: "pruneEnabled chars r0 s = ?mode" and decided: "snd (prune_request chars r0 s) = pruneToolOutputs (mr_messages r0) ?mode"
    and held: "pn_turnPrunes ?s = Some (turn, pr_ids (pruneToolOutputs (mr_messages r0) ?mode))"
    using r0 by (simp_all add: pruneEnabled_def prune_request_def Let_def)
  have "sent_messages chars rs ?s =
      map (\<lambda>r. pr_messages (snd (prune_request chars r0 s)) @ drop (length (mr_messages r0)) (mr_messages r)) rs"
    using repeated[OF held _ calm] own grows decided_prune_extends[of ?mode] by (simp add: decided)
  then show ?thesis
    by (cases "prune_request chars r0 s") simp
qed

text \<open>A turn that prunes an output of 100000 tokens in its first request and then gets one more result.\<close>

definition first_request :: model_request where
  "first_request = \<lparr>mr_kind = Own, mr_turn = Some 1, mr_messages = long_talk, mr_contextTokens = Some 90, mr_compactAt = 100,
     mr_prune = True, mr_trackContext = False\<rparr>"

definition next_request :: model_request where
  "next_request = first_request\<lparr>mr_messages := long_talk @ [returned ''2'' 4]\<rparr>"

lemma pruned_prefix_is_stable_witness:
  "sent_messages (\<lambda>_. 4) [first_request, next_request] \<lparr>pn_prunedTokens = 0, pn_turnPrunes = None\<rparr> =
     [[prune_message (returned ''1'' 400000), said ''a'', said ''b''],
      [prune_message (returned ''1'' 400000), said ''a'', said ''b'', returned ''2'' 4]]"
proof -
  let ?s = "\<lparr>pn_prunedTokens = 0, pn_turnPrunes = None\<rparr>"
  have "prunable long_talk"
    by (simp add: prunable_def long_talk_def returned_def said_def output_tokens_def estimateTokens_def PRUNE_PROTECTED_def PRUNE_MINIMUM_def)
  then have on: "pruneEnabled (\<lambda>_. 4) first_request ?s = PruneOn"
    by (simp add: pruneEnabled_def kept_ids_def pruneNow_def first_request_def pruneDue_def)
  have out: "pr_messages (snd (prune_request (\<lambda>_. 4) first_request ?s)) = [prune_message (returned ''1'' 400000), said ''a'', said ''b'']"
  proof -
    have "mr_messages first_request = long_talk"
      by (simp add: first_request_def)
    then show ?thesis
      by (simp add: prune_request_def on Let_def) (simp add: pruneToolOutputs_def long_talk_pruned PRUNE_MINIMUM_def, simp add: long_talk_def upt_rec)
  qed
  have "goes_on_from (mr_messages first_request) next_request"
    by (simp add: goes_on_from_def first_request_def next_request_def call_ids_def long_talk_def returned_def said_def)
  moreover have "unhurried (\<lambda>_. 4) [next_request] (fst (prune_request (\<lambda>_. 4) first_request ?s))"
    by (simp add: urgent_def next_request_def first_request_def pruneUrgent_def prune_request_def Let_def)
  ultimately show ?thesis
    using pruned_prefix_is_stable[of first_request "[next_request]" 1 ?s "\<lambda>_. 4"]
    by (simp add: out own_request_def) (simp add: first_request_def next_request_def long_talk_def)
qed

end
