(* ===== verification/ChildApprovals.thy ===== *)
theory ChildApprovals
  imports WfTypes
begin

text \<open>
  Approvals that sessions started by another session wait for (\<open>packages/daemon/src/child-approvals.ts\<close>): the requests of one
  launching session are grouped on a card that a terminal of the user answers. Every handler is a function on the state; what it
  sends out is appended to a log. A promise that is sent out comes back as a later event. What the other parts of the daemon know
  at the time of a handler is its environment. Ids that are made (\<open>requestId()\<close>, \<open>queueId()\<close>) are numbered in the order of the calls. The
  texts shown on cards and notices are left out, except the titles, which decide whether an announcement is sent.
\<close>

section \<open>The state\<close>

definition MAX_LISTED :: nat where "MAX_LISTED = 12"
definition MAX_RETIRED :: nat where "MAX_RETIRED = 16"

definition APPROVE_ALL :: string where "APPROVE_ALL = ''Allow all''"
definition DENY_ALL :: string where "DENY_ALL = ''Reject all''"
definition ONE_BY_ONE :: string where "ONE_BY_ONE = ''One by one''"
definition APPROVE_ONE :: string where "APPROVE_ONE = ''Allow once''"
definition DENY_ONE :: string where "DENY_ONE = ''Reject''"

record mirror =
  mi_header :: string
  mi_question :: string
  mi_options :: "string list"
  mi_context :: string

record waiting =
  cw_child :: string
  cw_requestId :: string
  cw_launcher :: string
  cw_approval :: bool
  cw_title :: string
  cw_tool :: "string option"
  cw_detail :: string
  cw_announced :: bool
  cw_mirror :: "mirror option"
  cw_mirrored :: bool

record card =
  cc_requestId :: string
  cc_at :: string
  cc_launcher :: string
  cc_items :: "string list"

record single =
  cs_requestId :: string
  cs_at :: string
  cs_target :: string
  cs_launcher :: string
  cs_options :: "string list"

text \<open>\<open>cn_serial\<close> tells one notice object from another.\<close>

record held_notice =
  cn_queueId :: string
  cn_items :: "string list"
  cn_confirmed :: bool
  cn_serial :: nat

datatype child_answer = ApproveOnce | DenyIt | AnswerText string

datatype sent =
    SCard string string string "string list"
  | SSingle string string string "string list"
  | SResolved string string bool "string option"
  | SNotify string "string list" string nat
  | SUnqueue string string
  | SAnnounce string string nat "(string \<times> string) list"
  | SAnswer string string child_answer "string option"

text \<open>\<open>SCard request at launcher items\<close>, \<open>SSingle request at target options\<close>, \<open>SResolved request at answered client\<close>.\<close>

record approvals =
  cp_waiting :: "(string \<times> waiting) list"
  cp_cards :: "(string \<times> card) list"
  cp_singles :: "(string \<times> single) list"
  cp_timers :: "string list"
  cp_announced :: "(string \<times> (string \<times> string) list) list"
  cp_notices :: "(string \<times> held_notice) list"
  cp_retired :: "(string \<times> card) list"
  cp_answering :: "string list"
  cp_stopped :: bool
  cp_requests :: nat
  cp_queues :: nat
  cp_log :: "sent list"

record approvals_env =
  ce_launcherOf :: "string \<Rightarrow> string option"
  ce_humanSessions :: "string \<Rightarrow> string list"
  ce_title :: "string \<Rightarrow> string"
  ce_mask :: "string \<Rightarrow> string \<Rightarrow> string"
  ce_queued :: "string \<Rightarrow> string \<Rightarrow> bool"
  ce_requestId :: "nat \<Rightarrow> string"
  ce_queueId :: "nat \<Rightarrow> string"

definition send :: "sent \<Rightarrow> approvals \<Rightarrow> approvals" where
  "send e s = s\<lparr>cp_log := cp_log s @ [e]\<rparr>"

definition createChildApprovals :: approvals where
  "createChildApprovals = \<lparr>cp_waiting = [], cp_cards = [], cp_singles = [], cp_timers = [], cp_announced = [], cp_notices = [],
     cp_retired = [], cp_answering = [], cp_stopped = False, cp_requests = 0, cp_queues = 0, cp_log = []\<rparr>"

definition forLauncher :: "string \<Rightarrow> approvals \<Rightarrow> waiting list" where
  "forLauncher launcher s = filter (\<lambda>w. cw_launcher w = launcher) (map snd (cp_waiting s))"

section \<open>Cards that go\<close>

definition retire :: "card \<Rightarrow> approvals \<Rightarrow> approvals" where
  "retire c s =
     (let r = AList.update (cc_requestId c) c (cp_retired s) in
      s\<lparr>cp_retired := (if MAX_RETIRED < length r then tl r else r)\<rparr>)"

definition withdraw :: "string \<Rightarrow> string \<Rightarrow> bool \<Rightarrow> string option \<Rightarrow> approvals \<Rightarrow> approvals" where
  "withdraw request place answered client = send (SResolved request place answered (truthy client))"

definition drop_card :: "card \<Rightarrow> bool \<Rightarrow> string option \<Rightarrow> approvals \<Rightarrow> approvals" where
  "drop_card c answered client s =
     withdraw (cc_requestId c) (cc_at c) answered client (retire c (s\<lparr>cp_cards := AList.delete (cc_launcher c) (cp_cards s)\<rparr>))"

definition closeCard :: "string \<Rightarrow> approvals \<Rightarrow> approvals" where
  "closeCard launcher s =
     (case map_of (cp_cards s) launcher of None \<Rightarrow> s
      | Some c \<Rightarrow>
          withdraw (cc_requestId c) (cc_at c) False None (retire c (s\<lparr>cp_cards := AList.delete launcher (cp_cards s)\<rparr>)))"

definition drop_single :: "single \<Rightarrow> bool \<Rightarrow> string option \<Rightarrow> approvals \<Rightarrow> approvals" where
  "drop_single x answered client s =
     withdraw (cs_requestId x) (cs_at x) answered client (s\<lparr>cp_singles := AList.delete (cs_requestId x) (cp_singles s)\<rparr>)"

definition closeSingles :: "(single \<Rightarrow> bool) \<Rightarrow> approvals \<Rightarrow> approvals" where
  "closeSingles p s = foldl (\<lambda>s x. drop_single x False None s) s (filter p (map snd (cp_singles s)))"

section \<open>Notices and announcements\<close>

definition queuedNotice :: "approvals_env \<Rightarrow> string \<Rightarrow> approvals \<Rightarrow> approvals" where
  "queuedNotice env launcher s =
     (case map_of (cp_notices s) launcher of None \<Rightarrow> s
      | Some h \<Rightarrow>
          if cn_confirmed h \<and> \<not> ce_queued env launcher (cn_queueId h) then s\<lparr>cp_notices := AList.delete launcher (cp_notices s)\<rparr> else s)"

definition tell :: "string \<Rightarrow> waiting list \<Rightarrow> string \<Rightarrow> approvals \<Rightarrow> approvals" where
  "tell launcher entries queue s =
     (let n = length (cp_log s) in
      send (SNotify launcher (map cw_requestId entries) queue n)
        (s\<lparr>cp_notices := AList.update launcher
             \<lparr>cn_queueId = queue, cn_items = map cw_requestId entries, cn_confirmed = False, cn_serial = n\<rparr> (cp_notices s)\<rparr>))"

definition updateNotice :: "approvals_env \<Rightarrow> string \<Rightarrow> waiting list \<Rightarrow> approvals \<Rightarrow> approvals" where
  "updateNotice env launcher fresh s0 =
     (let s = queuedNotice env launcher s0; held = map_of (cp_notices s) launcher;
          kept = (case held of None \<Rightarrow> [] | Some h \<Rightarrow> List.map_filter (map_of (cp_waiting s)) (cn_items h))
      in case held of
           Some h \<Rightarrow>
             if kept = [] \<and> fresh = [] then send (SUnqueue launcher (cn_queueId h)) (s\<lparr>cp_notices := AList.delete launcher (cp_notices s)\<rparr>)
             else if fresh = [] \<and> length kept = length (cn_items h) then s
             else tell launcher (kept @ fresh) (cn_queueId h) s
         | None \<Rightarrow>
             if fresh = [] then s
             else tell launcher fresh (ce_queueId env (cp_queues s)) (s\<lparr>cp_queues := cp_queues s + 1\<rparr>))"

text \<open>The promise of a notice: accepted, or refused.\<close>

definition notice_settled :: "string \<Rightarrow> nat \<Rightarrow> bool \<Rightarrow> approvals \<Rightarrow> approvals" where
  "notice_settled launcher serial accepted s =
     (case map_of (cp_notices s) launcher of None \<Rightarrow> s
      | Some h \<Rightarrow>
          if cn_serial h \<noteq> serial then s
          else if \<not> accepted then s\<lparr>cp_notices := AList.delete launcher (cp_notices s)\<rparr>
          else s\<lparr>cp_notices := AList.update launcher (h\<lparr>cn_confirmed := True\<rparr>) (cp_notices s)\<rparr>)"

definition shown_title :: "approvals_env \<Rightarrow> waiting \<Rightarrow> string" where
  "shown_title env w = (let t = ce_mask env (cw_child w) (cw_title w) in clip (if t = [] then cw_child w else t) 60)"

definition waitingFor :: "approvals_env \<Rightarrow> string \<Rightarrow> approvals \<Rightarrow> nat \<times> (string \<times> string) list" where
  "waitingFor env launcher s =
     (let asked = filter cw_approval (forLauncher launcher s) in
      (length asked, map (\<lambda>w. (cw_child w, shown_title env w)) (take MAX_LISTED asked)))"

definition announce :: "approvals_env \<Rightarrow> string \<Rightarrow> approvals \<Rightarrow> approvals" where
  "announce env launcher s =
     (if cp_stopped s then s
      else case waitingFor env launcher s of (n, children) \<Rightarrow>
        if orelse (map_of (cp_announced s) launcher) [] = children then s
        else send (SAnnounce launcher (clip (ce_mask env launcher (ce_title env launcher)) 60) n children)
               (s\<lparr>cp_announced := (if 0 < n then AList.update launcher children (cp_announced s) else AList.delete launcher (cp_announced s))\<rparr>))"

section \<open>Cards that come\<close>

definition groupCard :: "approvals_env \<Rightarrow> string \<Rightarrow> string \<Rightarrow> waiting list \<Rightarrow> approvals \<Rightarrow> approvals" where
  "groupCard env launcher place entries s =
     (let request = ce_requestId env (cp_requests s); items = map cw_requestId (take MAX_LISTED entries) in
      send (SCard request place launcher items)
        (s\<lparr>cp_requests := cp_requests s + 1,
           cp_cards := AList.update launcher \<lparr>cc_requestId = request, cc_at = place, cc_launcher = launcher, cc_items = items\<rparr> (cp_cards s)\<rparr>))"

definition singleCard :: "approvals_env \<Rightarrow> waiting \<Rightarrow> string \<Rightarrow> approvals \<Rightarrow> approvals" where
  "singleCard env w place s =
     (let request = ce_requestId env (cp_requests s);
          options = (case cw_mirror w of Some m \<Rightarrow> mi_options m | None \<Rightarrow> [APPROVE_ONE, DENY_ONE])
      in send (SSingle request place (cw_requestId w) options)
           (s\<lparr>cp_requests := cp_requests s + 1,
              cp_singles := AList.update request \<lparr>cs_requestId = request, cs_at = place, cs_target = cw_requestId w,
                cs_launcher = cw_launcher w, cs_options = options\<rparr> (cp_singles s)\<rparr>))"

definition mark :: "(waiting \<Rightarrow> waiting) \<Rightarrow> waiting \<Rightarrow> approvals \<Rightarrow> approvals" where
  "mark f w s = s\<lparr>cp_waiting := map (\<lambda>(k, v). if k = cw_requestId w then (k, f v) else (k, v)) (cp_waiting s)\<rparr>"

definition mirror_one :: "approvals_env \<Rightarrow> string \<Rightarrow> approvals \<Rightarrow> waiting \<Rightarrow> approvals" where
  "mirror_one env place s w =
     (if cw_mirror w \<noteq> None \<and> \<not> cw_mirrored w
      then singleCard env w place (mark (\<lambda>v. v\<lparr>cw_mirrored := True\<rparr>) w s) else s)"

definition refresh_card :: "approvals_env \<Rightarrow> string \<Rightarrow> string option \<Rightarrow> approvals \<Rightarrow> approvals" where
  "refresh_card env launcher place s =
     (let asked = filter (\<lambda>w. cw_approval w \<and> cw_requestId w \<notin> set (cp_answering s)) (forLauncher launcher s);
          listed = map cw_requestId (take MAX_LISTED asked)
      in if asked = [] then closeCard launcher s
         else if map_option cc_items (map_of (cp_cards s) launcher) = Some listed then s
         else let s1 = closeCard launcher s in
           case place of None \<Rightarrow> s1 | Some p \<Rightarrow> groupCard env launcher p asked s1)"

definition flush :: "approvals_env \<Rightarrow> string \<Rightarrow> approvals \<Rightarrow> approvals" where
  "flush env launcher s0 =
     (let s = s0\<lparr>cp_timers := set_del launcher (cp_timers s0)\<rparr> in
      if cp_stopped s then s
      else let entries = forLauncher launcher s; fresh = filter (\<lambda>w. \<not> cw_announced w) entries;
               s1 = foldl (\<lambda>s w. mark (\<lambda>v. v\<lparr>cw_announced := True\<rparr>) w s) s fresh;
               s2 = updateNotice env launcher fresh s1;
               place = truthy (case ce_humanSessions env launcher of [] \<Rightarrow> None | p # _ \<Rightarrow> Some p);
               s3 = (case place of None \<Rightarrow> s2 | Some p \<Rightarrow> foldl (mirror_one env p) s2 entries)
        in refresh_card env launcher place (announce env launcher s3))"

definition schedule :: "string \<Rightarrow> approvals \<Rightarrow> approvals" where
  "schedule launcher s = (if cp_stopped s then s else s\<lparr>cp_timers := set_add launcher (cp_timers s)\<rparr>)"

section \<open>Answers\<close>

definition answer_one :: "bool \<Rightarrow> string option \<Rightarrow> approvals \<Rightarrow> string \<Rightarrow> approvals" where
  "answer_one approve client s request =
     (case map_of (cp_waiting s) request of None \<Rightarrow> s
      | Some w \<Rightarrow>
          if request \<in> set (cp_answering s) then s
          else send (SAnswer (cw_child w) request (if approve then ApproveOnce else DenyIt) client)
                 (s\<lparr>cp_answering := set_add request (cp_answering s)\<rparr>))"

definition answerItems :: "string list \<Rightarrow> bool \<Rightarrow> string option \<Rightarrow> approvals \<Rightarrow> approvals" where
  "answerItems items approve client s = foldl (answer_one approve client) s items"

text \<open>The promise of an answer ends.\<close>

definition answered :: "string \<Rightarrow> approvals \<Rightarrow> approvals" where
  "answered request s = s\<lparr>cp_answering := set_del request (cp_answering s)\<rparr>"

section \<open>Events of sessions\<close>

record question =
  qu_header :: string
  qu_question :: string
  qu_options :: "string list"
  qu_multiple :: bool
  qu_context :: "string option"

record request_event =
  rq_sessionId :: string
  rq_requestId :: string
  rq_async :: bool
  rq_isApproval :: bool
  rq_tool :: "string option"
  rq_planReview :: bool
  rq_questions :: "question list option"
  rq_options :: "string list option"
  rq_title :: string
  rq_detail :: string

definition asked_question :: "request_event \<Rightarrow> question option" where
  "asked_question e =
     (if rq_isApproval e \<or> rq_planReview e then None
      else case rq_questions e of
        Some [q] \<Rightarrow> Some q
      | Some _ \<Rightarrow> None
      | None \<Rightarrow>
          if orelse (rq_options e) [] = [] then None
          else Some \<lparr>qu_header = ''Question'', qu_question = rq_title e, qu_options = orelse (rq_options e) [], qu_multiple = False,
                 qu_context = Some (rq_detail e)\<rparr>)"

definition mirror_of :: "request_event \<Rightarrow> mirror option" where
  "mirror_of e =
     (case asked_question e of None \<Rightarrow> None
      | Some q \<Rightarrow>
          if qu_options q = [] \<or> qu_multiple q then None
          else Some \<lparr>mi_header = qu_header q, mi_question = qu_question q, mi_options = qu_options q,
                 mi_context = js_trim (orelse (qu_context q) [] @ [CHR 0x0A] @ rq_detail e)\<rparr>)"

text \<open>\<open>line.replace(/\s+/g, " ").trim()\<close> of the first line that has text.\<close>

fun squeeze :: "string \<Rightarrow> string" where
  "squeeze [] = []"
| "squeeze (c # cs) = (if js_space c then (case cs of d # _ \<Rightarrow> if js_space d then squeeze cs else CHR '' '' # squeeze cs | [] \<Rightarrow> '' '')
                       else c # squeeze cs)"

definition firstLine :: "string \<Rightarrow> string" where
  "firstLine t = (case List.find (\<lambda>l. js_trim l \<noteq> []) (js_split (CHR 0x0A) t) of None \<Rightarrow> [] | Some l \<Rightarrow> js_trim (squeeze l))"

definition observe_request :: "approvals_env \<Rightarrow> request_event \<Rightarrow> approvals \<Rightarrow> approvals" where
  "observe_request env e s =
     (if rq_async e then s
      else case truthy (ce_launcherOf env (rq_sessionId e)) of None \<Rightarrow> s
      | Some launcher \<Rightarrow>
          if launcher = rq_sessionId e then s
          else schedule launcher
            (s\<lparr>cp_waiting := AList.update (rq_requestId e)
                 \<lparr>cw_child = rq_sessionId e, cw_requestId = rq_requestId e, cw_launcher = launcher,
                  cw_approval = (rq_isApproval e \<and> rq_tool e \<noteq> Some ''plan_review''), cw_title = ce_title env (rq_sessionId e),
                  cw_tool = rq_tool e, cw_detail = firstLine (if rq_detail e = [] then rq_title e else rq_detail e),
                  cw_announced = False, cw_mirror = mirror_of e, cw_mirrored = False\<rparr> (cp_waiting s)\<rparr>))"

definition observe_resolved :: "approvals_env \<Rightarrow> string \<Rightarrow> approvals \<Rightarrow> approvals" where
  "observe_resolved env request s =
     (case map_of (cp_waiting s) request of None \<Rightarrow> s
      | Some w \<Rightarrow>
          schedule (cw_launcher w) (announce env (cw_launcher w) (updateNotice env (cw_launcher w) []
            (s\<lparr>cp_waiting := AList.delete request (cp_waiting s)\<rparr>))))"

section \<open>The commands of the user\<close>

datatype decision = Deny | Approve | Answer "string list list option" string

record resolve_command =
  rc_sessionId :: string
  rc_requestId :: string
  rc_decision :: decision
  rc_clientId :: "string option"

datatype resolve_result = NotOurs | Resolved | Forbidden | InvalidCommand

definition answer_text :: "string list list option \<Rightarrow> string \<Rightarrow> string" where
  "answer_text as t = js_trim (case as of Some ((a # _) # _) \<Rightarrow> a | _ \<Rightarrow> t)"

definition find_card :: "string \<Rightarrow> approvals \<Rightarrow> card option" where
  "find_card request s = List.find (\<lambda>c. cc_requestId c = request) (map snd (cp_cards s))"

definition card_answered :: "approvals_env \<Rightarrow> card \<Rightarrow> string \<Rightarrow> string option \<Rightarrow> approvals \<Rightarrow> approvals" where
  "card_answered env c answer client s =
     (if take (length APPROVE_ALL) answer = APPROVE_ALL then answerItems (cc_items c) True client s
      else if answer = DENY_ALL then answerItems (cc_items c) False client s
      else if answer = ONE_BY_ONE
      then foldl (\<lambda>s i. case map_of (cp_waiting s) i of None \<Rightarrow> s | Some w \<Rightarrow> singleCard env w (cc_at c) s) s (cc_items c)
      else s)"

definition single_answered :: "single \<Rightarrow> string \<Rightarrow> string option \<Rightarrow> approvals \<Rightarrow> approvals" where
  "single_answered x answer client s =
     (case map_of (cp_waiting s) (cs_target x) of
        Some w \<Rightarrow>
          if cw_mirror w \<noteq> None
          then (if answer \<in> set (cs_options x) then send (SAnswer (cw_child w) (cw_requestId w) (AnswerText answer) client) s else s)
          else if answer = APPROVE_ONE \<or> answer = DENY_ONE then answerItems [cs_target x] (answer = APPROVE_ONE) client s else s
      | None \<Rightarrow> if answer = APPROVE_ONE \<or> answer = DENY_ONE then answerItems [cs_target x] (answer = APPROVE_ONE) client s else s)"

definition resolve_card :: "approvals_env \<Rightarrow> resolve_command \<Rightarrow> bool \<Rightarrow> card \<Rightarrow> bool \<Rightarrow> approvals \<Rightarrow> approvals \<times> resolve_result" where
  "resolve_card env cmd human c current s =
     (case rc_decision cmd of
        Deny \<Rightarrow> (if current then drop_card c False (rc_clientId cmd) s else s, Resolved)
      | Approve \<Rightarrow> (s, if human then InvalidCommand else Forbidden)
      | Answer as t \<Rightarrow>
          if \<not> human then (s, Forbidden)
          else (card_answered env c (answer_text as t) (rc_clientId cmd) (if current then drop_card c True (rc_clientId cmd) s else s), Resolved))"

definition resolve_single :: "resolve_command \<Rightarrow> bool \<Rightarrow> single \<Rightarrow> approvals \<Rightarrow> approvals \<times> resolve_result" where
  "resolve_single cmd human x s =
     (case rc_decision cmd of
        Deny \<Rightarrow> (drop_single x False (rc_clientId cmd) s, Resolved)
      | Approve \<Rightarrow> (s, if human then InvalidCommand else Forbidden)
      | Answer as t \<Rightarrow>
          if \<not> human then (s, Forbidden)
          else (single_answered x (answer_text as t) (rc_clientId cmd) (drop_single x True (rc_clientId cmd) s), Resolved))"

definition resolve :: "approvals_env \<Rightarrow> resolve_command \<Rightarrow> bool \<Rightarrow> approvals \<Rightarrow> approvals \<times> resolve_result" where
  "resolve env cmd human s =
     (case (find_card (rc_requestId cmd) s, map_of (cp_retired s) (rc_requestId cmd), map_of (cp_singles s) (rc_requestId cmd)) of
        (Some c, _, _) \<Rightarrow> if cc_at c \<noteq> [] \<and> cc_at c = rc_sessionId cmd then resolve_card env cmd human c True s else (s, NotOurs)
      | (None, Some c, _) \<Rightarrow> if cc_at c \<noteq> [] \<and> cc_at c = rc_sessionId cmd then resolve_card env cmd human c False s else (s, NotOurs)
      | (None, None, Some x) \<Rightarrow> if cs_at x \<noteq> [] \<and> cs_at x = rc_sessionId cmd then resolve_single cmd human x s else (s, NotOurs)
      | (None, None, None) \<Rightarrow> (s, NotOurs))"

section \<open>Sessions that go, and the end\<close>

definition forget_one :: "string \<Rightarrow> approvals \<Rightarrow> string \<times> waiting \<Rightarrow> approvals" where
  "forget_one sid s e =
     (case e of (i, w) \<Rightarrow>
        if cw_child w = sid \<or> cw_launcher w = sid
        then (if cw_launcher w \<noteq> sid then schedule (cw_launcher w) else id) (s\<lparr>cp_waiting := AList.delete i (cp_waiting s)\<rparr>)
        else s)"

definition forget :: "approvals_env \<Rightarrow> string \<Rightarrow> approvals \<Rightarrow> approvals" where
  "forget env sid s =
     (let s1 = foldl (forget_one sid) s (cp_waiting s);
          s2 = closeCard sid (s1\<lparr>cp_notices := AList.delete sid (cp_notices s1)\<rparr>);
          s3 = closeSingles (\<lambda>x. cs_launcher x = sid) s2
      in foldl (\<lambda>s l. announce env l s) s3 (set_add sid (map fst (cp_announced s3))))"

definition stop :: "approvals \<Rightarrow> approvals" where
  "stop s =
     (let s1 = s\<lparr>cp_stopped := True, cp_timers := []\<rparr>;
          s2 = foldl (\<lambda>s l. closeCard l s) s1 (map fst (cp_cards s1))
      in closeSingles (\<lambda>_. True) s2)"

definition snapshot :: "approvals_env \<Rightarrow> approvals \<Rightarrow> (string \<times> nat \<times> (string \<times> string) list) list" where
  "snapshot env s = map (\<lambda>l. (l, waitingFor env l s)) (map fst (cp_announced s))"

definition pending :: "string \<Rightarrow> approvals \<Rightarrow> (string \<times> string \<times> bool) list" where
  "pending launcher s = map (\<lambda>w. (cw_child w, cw_requestId w, cw_approval w)) (forLauncher launcher s)"

section \<open>Lives of the module\<close>

text \<open>What can happen to it, one after the other: an event of a session, a timer that fires, the end of a promise, a command, a
session that goes, the end. The card of an answer that was sent is \<open>Settled\<close> when its promise ends, however it ends.\<close>

datatype happening =
    Requested approvals_env request_event
  | Decided approvals_env string
  | Flushed approvals_env string
  | NoticeSettled string nat bool
  | Settled string
  | Commanded approvals_env resolve_command bool
  | Forgotten approvals_env string
  | Stopped

fun happen :: "approvals \<Rightarrow> happening \<Rightarrow> approvals" where
  "happen s (Requested env e) = observe_request env e s"
| "happen s (Decided env request) = observe_resolved env request s"
| "happen s (Flushed env launcher) = (if launcher \<in> set (cp_timers s) then flush env launcher s else s)"
| "happen s (NoticeSettled launcher serial accepted) = notice_settled launcher serial accepted s"
| "happen s (Settled request) = answered request s"
| "happen s (Commanded env cmd human) = fst (resolve env cmd human s)"
| "happen s (Forgotten env sid) = forget env sid s"
| "happen s Stopped = stop s"

definition life :: "happening list \<Rightarrow> approvals" where
  "life hs = foldl happen createChildApprovals hs"

end
