(* ===== verification/ApprovalSafety.thy ===== *)
theory ApprovalSafety
  imports ChildApprovals
begin

text \<open>
  Who answers a child's request: an invariant of the module for approvals of children (every card and every single it keeps was shown,
  under the id it is kept by) and, for each handler, that it sends no answer, or only those of the card or single it was given.
\<close>

section \<open>What a state has shown\<close>

definition was_shown :: "approvals \<Rightarrow> card \<Rightarrow> bool" where
  "was_shown s c \<longleftrightarrow> SCard (cc_requestId c) (cc_at c) (cc_launcher c) (cc_items c) \<in> set (cp_log s)"

definition was_opened :: "approvals \<Rightarrow> single \<Rightarrow> bool" where
  "was_opened s x \<longleftrightarrow> SSingle (cs_requestId x) (cs_at x) (cs_target x) (cs_options x) \<in> set (cp_log s)"

definition honest :: "approvals \<Rightarrow> bool" where
  "honest s \<longleftrightarrow>
     (\<forall>(l, c) \<in> set (cp_cards s). was_shown s c) \<and> (\<forall>(r, c) \<in> set (cp_retired s). r = cc_requestId c \<and> was_shown s c) \<and>
     (\<forall>(r, x) \<in> set (cp_singles s). r = cs_requestId x \<and> was_opened s x) \<and> (\<forall>(r, w) \<in> set (cp_waiting s). r = cw_requestId w)"

definition given :: "approvals \<Rightarrow> (string \<times> string \<times> child_answer \<times> string option) set" where
  "given s = {(child, request, d, client). SAnswer child request d client \<in> set (cp_log s)}"

text \<open>A handler that sends no answer.\<close>

definition quiet :: "approvals \<Rightarrow> approvals \<Rightarrow> bool" where
  "quiet s t \<longleftrightarrow> (honest s \<longrightarrow> honest t) \<and> set (cp_log s) \<subseteq> set (cp_log t) \<and> given t = given s"

named_theorems quiet_intros \<open>handlers that send no answer\<close>

lemma quiet_refl [quiet_intros]: "quiet s s"
  by (simp add: quiet_def)

lemma quiet_trans [trans]: "quiet s t \<Longrightarrow> quiet t u \<Longrightarrow> quiet s u"
  by (auto simp: quiet_def)

lemma quiet_honest: "quiet s t \<Longrightarrow> honest s \<Longrightarrow> honest t"
  by (simp add: quiet_def)

lemma quiet_answers: "quiet s t \<Longrightarrow> given t = given s"
  by (simp add: quiet_def)

lemma foldl_quiet: "(\<And>s x. x \<in> set xs \<Longrightarrow> quiet s (f s x)) \<Longrightarrow> quiet s (foldl f s xs)"
proof (induction xs arbitrary: s)
  case Nil
  show ?case by (simp add: quiet_refl)
next
  case (Cons x xs)
  have "quiet s (f s x)" by (rule Cons.prems) simp
  also have "quiet (f s x) (foldl f (f s x) xs)" by (rule Cons.IH) (simp add: Cons.prems)
  finally show ?case by simp
qed

lemma in_deleteD [dest]: "x \<in> set (AList.delete k m) \<Longrightarrow> x \<in> set m"
  by (auto simp: AList.delete_eq)

lemma in_updateD [dest]: "x \<in> set (AList.update k v m) \<Longrightarrow> x = (k, v) \<or> x \<in> set m"
  by (induction m) (auto split: if_splits)

text \<open>The one lemma every silent handler rests on: the log grows by messages that are not answers, and what is kept is still shown.\<close>

lemma quietI:
  assumes log: "cp_log t = cp_log s @ es" and no: "\<And>c r d cl. SAnswer c r d cl \<notin> set es"
    and cards: "\<And>l c. honest s \<Longrightarrow> (l, c) \<in> set (cp_cards t) \<Longrightarrow> (l, c) \<in> set (cp_cards s) \<or> was_shown t c"
    and retired: "\<And>r c. honest s \<Longrightarrow> (r, c) \<in> set (cp_retired t) \<Longrightarrow> (r, c) \<in> set (cp_retired s) \<or> (r = cc_requestId c \<and> was_shown t c)"
    and singles: "\<And>r x. honest s \<Longrightarrow> (r, x) \<in> set (cp_singles t) \<Longrightarrow> (r, x) \<in> set (cp_singles s) \<or> (r = cs_requestId x \<and> was_opened t x)"
    and waits: "\<And>r w. honest s \<Longrightarrow> (r, w) \<in> set (cp_waiting t) \<Longrightarrow> (r, w) \<in> set (cp_waiting s) \<or> r = cw_requestId w"
  shows "quiet s t"
proof -
  have keep: "was_shown s c \<Longrightarrow> was_shown t c" "was_opened s x \<Longrightarrow> was_opened t x" for c x
    by (simp_all add: was_shown_def was_opened_def log)
  have "honest t" if h: "honest s"
    using h cards[OF h] retired[OF h] singles[OF h] waits[OF h] keep unfolding honest_def by fast
  then show ?thesis
    using no by (auto simp: quiet_def given_def log)
qed

lemma honestD:
  assumes "honest s"
  shows "(l, c) \<in> set (cp_cards s) \<Longrightarrow> was_shown s c" "(r, c) \<in> set (cp_retired s) \<Longrightarrow> was_shown s c"
    "(r, c) \<in> set (cp_retired s) \<Longrightarrow> cc_requestId c = r" "(r, x) \<in> set (cp_singles s) \<Longrightarrow> was_opened s x"
    "(r, x) \<in> set (cp_singles s) \<Longrightarrow> cs_requestId x = r" "(r, w) \<in> set (cp_waiting s) \<Longrightarrow> cw_requestId w = r"
  using assms unfolding honest_def by fast+

section \<open>The handlers that send no answer\<close>

lemma quiet_send [quiet_intros]: "\<nexists>c r d cl. e = SAnswer c r d cl \<Longrightarrow> quiet s (send e s)"
  by (rule quietI[where es = "[e]"]) (auto simp: send_def)

text \<open>Fields no answer depends on.\<close>

lemma quiet_fields [quiet_intros]:
  "quiet s (cp_timers_update f s)" "quiet s (cp_announced_update g s)" "quiet s (cp_notices_update h s)"
  "quiet s (cp_answering_update k s)" "quiet s (cp_queues_update m s)" "quiet s (cp_stopped_update b s)"
  "quiet s (cp_requests_update m s)"
  by (rule quietI[where es = "[]"]; simp)+

lemma quiet_wait_less [quiet_intros]: "quiet s (s\<lparr>cp_waiting := AList.delete r (cp_waiting s)\<rparr>)"
  by (rule quietI[where es = "[]"]) auto

lemma quiet_withdraw [quiet_intros]: "quiet s (withdraw r place a client s)"
  by (simp add: withdraw_def quiet_send)

lemma quiet_drop_card:
  assumes c: "(l, c) \<in> set (cp_cards s)"
  shows "quiet s (drop_card c a client s)"
proof (rule quietI[where es = "[SResolved (cc_requestId c) (cc_at c) a (truthy client)]"])
  fix r c' assume h: "honest s" and i: "(r, c') \<in> set (cp_retired (drop_card c a client s))"
  have "(r, c') \<in> set (AList.update (cc_requestId c) c (cp_retired s))"
    using i by (auto simp: drop_card_def withdraw_def send_def retire_def Let_def split: if_splits dest: list.set_sel(2)[rotated])
  then show "(r, c') \<in> set (cp_retired s) \<or> r = cc_requestId c' \<and> was_shown (drop_card c a client s) c'"
    using honestD(1)[OF h c] by (auto simp: was_shown_def drop_card_def withdraw_def send_def retire_def Let_def)
qed (auto simp: drop_card_def withdraw_def send_def retire_def Let_def)

lemma quiet_closeCard [quiet_intros]: "quiet s (closeCard l s)"
proof (cases "map_of (cp_cards s) l")
  case None
  then show ?thesis by (simp add: closeCard_def quiet_refl)
next
  case (Some c)
  show ?thesis
  proof (rule quietI[where es = "[SResolved (cc_requestId c) (cc_at c) False None]"])
    fix r c' assume h: "honest s" and i: "(r, c') \<in> set (cp_retired (closeCard l s))"
    have "(r, c') \<in> set (AList.update (cc_requestId c) c (cp_retired s))"
      using i Some by (auto simp: closeCard_def withdraw_def send_def retire_def Let_def split: if_splits dest: list.set_sel(2)[rotated])
    then show "(r, c') \<in> set (cp_retired s) \<or> r = cc_requestId c' \<and> was_shown (closeCard l s) c'"
      using honestD(1)[OF h map_of_SomeD[OF Some]] Some
      by (auto simp: was_shown_def closeCard_def withdraw_def send_def retire_def Let_def)
  qed (use Some in \<open>auto simp: closeCard_def withdraw_def send_def retire_def Let_def truthy_def\<close>)
qed

lemma quiet_drop_single [quiet_intros]: "quiet s (drop_single x a client s)"
  by (rule quietI[where es = "[SResolved (cs_requestId x) (cs_at x) a (truthy client)]"])
    (auto simp: drop_single_def withdraw_def send_def)

lemma quiet_closeSingles [quiet_intros]: "quiet s (closeSingles p s)"
  by (simp add: closeSingles_def foldl_quiet quiet_drop_single)

lemma quiet_updateNotice [quiet_intros]: "quiet s (updateNotice env l ws s)"
proof -
  have 1: "quiet s (queuedNotice env l s)" for s
    by (auto simp: queuedNotice_def quiet_refl quiet_fields split: option.splits)
  have 2: "quiet s (tell l es q s)" for es q s
    unfolding tell_def Let_def by (rule quiet_trans[OF quiet_fields(3) quiet_send]) simp
  have 3: "quiet s (send (SUnqueue l q) (cp_notices_update f s))" for q f s
    by (rule quiet_trans[OF quiet_fields(3) quiet_send]) simp
  have 4: "quiet s (tell l es q (cp_queues_update f s))" for es q f s
    by (rule quiet_trans[OF quiet_fields(5) 2])
  show ?thesis
    unfolding updateNotice_def Let_def
    by (rule quiet_trans[OF 1]) (auto intro: quiet_refl 2 3 4 split: option.splits)
qed

lemma quiet_notice_settled [quiet_intros]: "quiet s (notice_settled l n a s)"
  by (auto simp: notice_settled_def quiet_refl quiet_fields split: option.splits)

lemma quiet_announce [quiet_intros]: "quiet s (announce env l s)"
proof -
  have "quiet s (send (SAnnounce l t n cs) (cp_announced_update f s))" for t n cs f s
    by (rule quiet_trans[OF quiet_fields(2) quiet_send]) simp
  then show ?thesis
    by (auto simp: announce_def quiet_refl split: prod.splits)
qed

lemma quiet_groupCard [quiet_intros]: "quiet s (groupCard env l p ws s)"
  by (rule quietI[where es = "[SCard (ce_requestId env (cp_requests s)) p l (map cw_requestId (take MAX_LISTED ws))]"])
    (auto simp: groupCard_def send_def was_shown_def Let_def)

lemma quiet_singleCard [quiet_intros]: "quiet s (singleCard env w p s)"
  by (rule quietI[where es = "[SSingle (ce_requestId env (cp_requests s)) p (cw_requestId w)
        (case cw_mirror w of Some m \<Rightarrow> mi_options m | None \<Rightarrow> [APPROVE_ONE, DENY_ONE])]"])
    (auto simp: singleCard_def send_def was_opened_def Let_def)

lemma quiet_mark [quiet_intros]: "(\<And>w. cw_requestId (f w) = cw_requestId w) \<Longrightarrow> quiet s (mark f w s)"
  by (rule quietI[where es = "[]"]) (auto simp: mark_def split: if_splits dest: honestD(6))

lemma quiet_mirror_one [quiet_intros]: "quiet s (mirror_one env p s w)"
  unfolding mirror_one_def by (auto intro: quiet_refl quiet_trans[OF quiet_mark quiet_singleCard])

lemma quiet_refresh_card [quiet_intros]: "quiet s (refresh_card env l p s)"
  unfolding refresh_card_def Let_def
  by (auto intro: quiet_refl quiet_closeCard quiet_trans[OF quiet_closeCard quiet_groupCard] split: option.split)

lemma quiet_flush [quiet_intros]: "quiet s (flush env l s)"
proof -
  have m: "quiet s (foldl (\<lambda>s w. mark (\<lambda>v. v\<lparr>cw_announced := True\<rparr>) w s) s ws)" for s ws
    by (rule foldl_quiet, rule quiet_mark) simp
  have c: "quiet s (case p of None \<Rightarrow> s | Some p \<Rightarrow> foldl (mirror_one env p) s ws)" for s p ws
    by (cases p) (auto intro: quiet_refl foldl_quiet quiet_mirror_one)
  show ?thesis
    unfolding flush_def Let_def
    by (rule quiet_trans[OF quiet_fields(1)])
      (auto intro!: quiet_refl quiet_trans[OF _ quiet_refresh_card] quiet_trans[OF _ quiet_announce] quiet_trans[OF _ c]
        quiet_trans[OF m quiet_updateNotice])
qed

lemma quiet_schedule [quiet_intros]: "quiet s (schedule l s)"
  by (simp add: schedule_def quiet_refl quiet_fields)

lemma quiet_observe_request [quiet_intros]: "quiet s (observe_request env e s)"
proof -
  have w: "quiet s (s\<lparr>cp_waiting := AList.update (cw_requestId w) w (cp_waiting s)\<rparr>)" for w
    by (rule quietI[where es = "[]"]) auto
  show ?thesis
    unfolding observe_request_def
    by (auto intro!: quiet_refl quiet_trans[OF _ quiet_schedule] w[of "waiting.make _ (rq_requestId e) _ _ _ _ _ _ _ _", simplified waiting.make_def, simplified]
        split: option.split)
qed

lemma quiet_observe_resolved [quiet_intros]: "quiet s (observe_resolved env r s)"
  unfolding observe_resolved_def
  by (auto intro!: quiet_refl quiet_trans[OF _ quiet_schedule] quiet_trans[OF _ quiet_announce]
      quiet_trans[OF quiet_wait_less quiet_updateNotice] split: option.split)

lemma quiet_answered [quiet_intros]: "quiet s (answered r s)"
  by (simp add: answered_def quiet_fields)

lemma quiet_forget [quiet_intros]: "quiet s (forget env sid s)"
proof -
  have f: "quiet s (foldl (forget_one sid) s es)" for s es
    by (rule foldl_quiet)
      (auto simp: forget_one_def intro!: quiet_refl quiet_wait_less quiet_trans[OF quiet_wait_less quiet_schedule])
  show ?thesis
    unfolding forget_def Let_def
    by (rule quiet_trans[OF _ foldl_quiet], rule quiet_trans[OF _ quiet_closeSingles], rule quiet_trans[OF _ quiet_closeCard],
        rule quiet_trans[OF f quiet_fields(3)], rule quiet_announce)
qed

lemma quiet_stop [quiet_intros]: "quiet s (stop s)"
proof -
  have "quiet s (s\<lparr>cp_stopped := True, cp_timers := []\<rparr>)"
    by (rule quiet_trans[OF quiet_fields(6) quiet_fields(1)])
  then show ?thesis
    unfolding stop_def Let_def by (rule quiet_trans[OF quiet_trans[OF _ foldl_quiet] quiet_closeSingles]) (rule quiet_closeCard)
qed

section \<open>The handlers that answer\<close>

text \<open>A step that answers what \<open>P\<close> allows, and nothing else.\<close>

definition gives :: "(string \<times> string \<times> child_answer \<times> string option \<Rightarrow> bool) \<Rightarrow> approvals \<Rightarrow> approvals \<Rightarrow> bool" where
  "gives P s t \<longleftrightarrow> (honest s \<longrightarrow> honest t \<and> (\<forall>a \<in> given t. a \<in> given s \<or> P a)) \<and> set (cp_log s) \<subseteq> set (cp_log t)"

lemma gives_quiet: "quiet s t \<Longrightarrow> gives P s t"
  by (simp add: gives_def quiet_def)

lemma gives_trans [trans]: "gives P s t \<Longrightarrow> gives P t u \<Longrightarrow> gives P s u"
  unfolding gives_def by blast

lemma gives_mono: "gives P s t \<Longrightarrow> (\<And>a. P a \<Longrightarrow> Q a) \<Longrightarrow> gives Q s t"
  unfolding gives_def by blast

lemma gives_foldl: "(\<And>s x. x \<in> set xs \<Longrightarrow> gives P s (f s x)) \<Longrightarrow> gives P s (foldl f s xs)"
proof (induction xs arbitrary: s)
  case Nil
  show ?case by (simp add: gives_quiet quiet_refl)
next
  case (Cons x xs)
  have "gives P s (f s x)" by (rule Cons.prems) simp
  also have "gives P (f s x) (foldl f (f s x) xs)" by (rule Cons.IH) (simp add: Cons.prems)
  finally show ?case by simp
qed

lemma gives_if: "(c \<Longrightarrow> gives P s t) \<Longrightarrow> (\<not> c \<Longrightarrow> gives P s u) \<Longrightarrow> gives P s (if c then t else u)"
  by simp

lemma gives_send: "(honest s \<Longrightarrow> P (c, r, d, cl)) \<Longrightarrow> gives P s (send (SAnswer c r d cl) s)"
  by (auto simp: gives_def given_def send_def honest_def was_shown_def was_opened_def)

definition once :: "bool \<Rightarrow> child_answer" where
  "once approve = (if approve then ApproveOnce else DenyIt)"

lemma gives_answerItems: "gives (\<lambda>(_, r, d, cl). r \<in> set items \<and> d = once approve \<and> cl = client) s (answerItems items approve client s)"
  unfolding answerItems_def
proof (rule gives_foldl)
  let ?P = "\<lambda>(_, r, d, cl). r \<in> set items \<and> d = once approve \<and> cl = client"
  fix s r assume r: "r \<in> set items"
  have "gives ?P s (send (SAnswer c r (once approve) client) (s\<lparr>cp_answering := rs\<rparr>))" for c rs
    by (rule gives_trans[OF gives_quiet[OF quiet_fields(4)] gives_send]) (simp add: r)
  then show "gives ?P s (answer_one approve client s r)"
    using gives_quiet[OF quiet_refl, of ?P s]
    by (simp only: answer_one_def once_def[symmetric] split: option.split if_split) simp
qed

text \<open>What the user typed on a card, and on a single, for a request to be answered with \<open>d\<close>.\<close>

definition card_word :: "string \<Rightarrow> child_answer \<Rightarrow> bool" where
  "card_word t d \<longleftrightarrow> d = ApproveOnce \<and> take (length APPROVE_ALL) t = APPROVE_ALL \<or> d = DenyIt \<and> t = DENY_ALL"

definition single_word :: "string list \<Rightarrow> string \<Rightarrow> child_answer \<Rightarrow> bool" where
  "single_word options t d \<longleftrightarrow> d = ApproveOnce \<and> t = APPROVE_ONE \<or> d = DenyIt \<and> t = DENY_ONE \<or> d = AnswerText t \<and> t \<in> set options"

definition from_card :: "card \<Rightarrow> string \<Rightarrow> string option \<Rightarrow> string \<times> string \<times> child_answer \<times> string option \<Rightarrow> bool" where
  "from_card c t client a \<longleftrightarrow> (case a of (_, r, d, cl) \<Rightarrow> r \<in> set (cc_items c) \<and> cl = client \<and> card_word t d)"

definition from_single :: "single \<Rightarrow> string \<Rightarrow> string option \<Rightarrow> string \<times> string \<times> child_answer \<times> string option \<Rightarrow> bool" where
  "from_single x t client a \<longleftrightarrow> (case a of (_, r, d, cl) \<Rightarrow> r = cs_target x \<and> cl = client \<and> single_word (cs_options x) t d)"

lemma gives_card_answered: "gives (from_card c t client) s (card_answered env c t client s)"
proof -
  have one: "quiet s (foldl (\<lambda>s i. case map_of (cp_waiting s) i of None \<Rightarrow> s | Some w \<Rightarrow> singleCard env w (cc_at c) s) s items)" for items
    by (rule foldl_quiet) (auto intro: quiet_refl quiet_singleCard split: option.split)
  have items: "gives (from_card c t client) s (answerItems (cc_items c) b client s)" if "card_word t (once b)" for b
    by (rule gives_mono[OF gives_answerItems]) (use that in \<open>auto simp: from_card_def\<close>)
  show ?thesis
    unfolding card_answered_def
    by (intro gives_if; (rule items gives_quiet[OF one] gives_quiet[OF quiet_refl]); simp add: card_word_def once_def)
qed

lemma gives_single_answered: "gives (from_single x t client) s (single_answered x t client s)"
proof -
  have items: "gives (from_single x t client) s (answerItems [cs_target x] b client s)" if "single_word (cs_options x) t (once b)" for b
    by (rule gives_mono[OF gives_answerItems]) (use that in \<open>auto simp: from_single_def\<close>)
  have typed: "gives (from_single x t client) s (send (SAnswer (cw_child w) (cw_requestId w) (AnswerText t) client) s)"
    if "map_of (cp_waiting s) (cs_target x) = Some w" "t \<in> set (cs_options x)" for w
    by (rule gives_send) (use that honestD(6)[OF _ map_of_SomeD[OF that(1)]] in \<open>simp add: from_single_def single_word_def\<close>)
  have asked: "gives (from_single x t client) s
      (if t = APPROVE_ONE \<or> t = DENY_ONE then answerItems [cs_target x] (t = APPROVE_ONE) client s else s)"
    by (intro gives_if; (rule items gives_quiet[OF quiet_refl]); auto simp: single_word_def once_def)
  show ?thesis
    using asked typed gives_quiet[OF quiet_refl] by (auto simp: single_answered_def simp del: disj_not1 intro!: gives_if split: option.split)
qed

text \<open>What the command says of what the state has shown.\<close>

definition command_says :: "approvals \<Rightarrow> resolve_command \<Rightarrow> string \<times> string \<times> child_answer \<times> string option \<Rightarrow> bool" where
  "command_says s cmd a \<longleftrightarrow> (case a of (_, r, d, cl) \<Rightarrow>
     \<exists>as t. rc_decision cmd = Answer as t \<and> cl = rc_clientId cmd \<and>
       ((\<exists>l items. SCard (rc_requestId cmd) (rc_sessionId cmd) l items \<in> set (cp_log s) \<and> r \<in> set items \<and> card_word (answer_text as t) d) \<or>
        (\<exists>options. SSingle (rc_requestId cmd) (rc_sessionId cmd) r options \<in> set (cp_log s) \<and> single_word options (answer_text as t) d)))"

lemma gives_resolve_card:
  assumes c: "(l, c) \<in> set (cp_cards s) \<or> \<not> current" and shown: "was_shown s c"
    and "cc_requestId c = rc_requestId cmd" "cc_at c = rc_sessionId cmd"
  shows "gives (\<lambda>a. human \<and> command_says s cmd a) s (fst (resolve_card env cmd human c current s))"
proof -
  have drop: "quiet s (if current then drop_card c a cl s else s)" for a cl
    using c by (auto intro: quiet_drop_card quiet_refl)
  have "gives (\<lambda>a. human \<and> command_says s cmd a) s
      (card_answered env c (answer_text as t) (rc_clientId cmd) (if current then drop_card c True (rc_clientId cmd) s else s))"
    if "human" "rc_decision cmd = Answer as t" for as t
    by (rule gives_trans[OF gives_quiet[OF drop] gives_mono[OF gives_card_answered]])
      (use assms that in \<open>auto simp: command_says_def from_card_def was_shown_def\<close>)
  then show ?thesis
    using gives_quiet[OF drop[of False]] by (auto simp: resolve_card_def intro: gives_quiet[OF quiet_refl] split: decision.split)
qed

lemma gives_resolve_single:
  assumes "was_opened s x" "cs_requestId x = rc_requestId cmd" "cs_at x = rc_sessionId cmd"
  shows "gives (\<lambda>a. human \<and> command_says s cmd a) s (fst (resolve_single cmd human x s))"
proof -
  have "gives (\<lambda>a. human \<and> command_says s cmd a) s
      (single_answered x (answer_text as t) (rc_clientId cmd) (drop_single x True (rc_clientId cmd) s))"
    if "human" "rc_decision cmd = Answer as t" for as t
    by (rule gives_trans[OF gives_quiet[OF quiet_drop_single] gives_mono[OF gives_single_answered]])
      (use assms that in \<open>auto simp: command_says_def from_single_def was_opened_def\<close>)
  then show ?thesis
    by (auto simp: resolve_single_def intro: gives_quiet[OF quiet_drop_single] gives_quiet[OF quiet_refl] split: decision.split)
qed

lemma find_cardD: "find_card r s = Some c \<Longrightarrow> \<exists>l. (l, c) \<in> set (cp_cards s) \<and> cc_requestId c = r"
  by (auto simp: find_card_def find_Some_iff in_set_conv_nth) (metis prod.collapse nth_mem)

lemma gives_resolve:
  assumes h: "honest s"
  shows "gives (\<lambda>a. human \<and> command_says s cmd a) s (fst (resolve env cmd human s))"
proof -
  note q = gives_quiet[OF quiet_refl]
  show ?thesis
    unfolding resolve_def
    by (auto intro: q gives_resolve_card gives_resolve_single dest!: find_cardD map_of_SomeD dest: honestD[OF h] split: option.split)
qed

section \<open>A whole life\<close>

lemma quiet_happen: "(\<And>env cmd human. h \<noteq> Commanded env cmd human) \<Longrightarrow> quiet s (happen s h)"
  by (cases h) (auto intro: quiet_intros)

lemma life_snoc: "life (hs @ [h]) = happen (life hs) h"
  by (simp add: life_def)

lemma life_honest: "honest (life hs)"
proof (induction hs rule: rev_induct)
  case Nil
  show ?case by (simp add: life_def createChildApprovals_def honest_def)
next
  case (snoc h hs)
  show ?case
  proof (cases h)
    case (Commanded env cmd human)
    then show ?thesis using gives_resolve[OF snoc, of human cmd env] snoc by (simp add: life_snoc gives_def)
  qed (simp_all only: life_snoc, (rule quiet_honest[OF quiet_happen snoc]; simp)+)
qed

lemma new_answer:
  assumes "a \<in> given (life (hs @ [h]))" and "a \<notin> given (life hs)"
  shows "\<exists>env cmd. h = Commanded env cmd True \<and> command_says (life hs) cmd a"
proof (cases "\<exists>env cmd human. h = Commanded env cmd human")
  case True
  then obtain env cmd human where h: "h = Commanded env cmd human" by blast
  have "human \<and> command_says (life hs) cmd a"
    using gives_resolve[OF life_honest[of hs], of human cmd env] assms life_honest[of hs] by (auto simp: gives_def life_snoc h)
  then show ?thesis using h by auto
next
  case False
  then have "quiet (life hs) (life (hs @ [h]))" unfolding life_snoc by (intro quiet_happen) blast
  then show ?thesis using assms quiet_answers by blast
qed

text \<open>C14: an answer to a child's request is sent only by the user. Whatever happens, and in whatever order, every answer the module sends
to a child comes from a command that a terminal of the user gave, that named a card or a single shown in the session the command came
from; the card listed the request when it was shown, and what the user typed there says what the answer says: "Allow all" approves only
requests the card listed.\<close>

theorem answers_come_from_the_user:
  assumes "SAnswer child request d client \<in> set (cp_log (life hs))"
  shows "\<exists>before env cmd later as t.
     hs = before @ Commanded env cmd True # later \<and> rc_decision cmd = Answer as t \<and> client = rc_clientId cmd \<and>
     ((\<exists>launcher items. SCard (rc_requestId cmd) (rc_sessionId cmd) launcher items \<in> set (cp_log (life before)) \<and>
         request \<in> set items \<and> card_word (answer_text as t) d) \<or>
      (\<exists>options. SSingle (rc_requestId cmd) (rc_sessionId cmd) request options \<in> set (cp_log (life before)) \<and>
         single_word options (answer_text as t) d))"
  using assms
proof (induction hs rule: rev_induct)
  case Nil
  then show ?case by (simp add: life_def createChildApprovals_def)
next
  case (snoc h hs)
  show ?case
  proof (cases "SAnswer child request d client \<in> set (cp_log (life hs))")
    case True
    show ?thesis using snoc.IH[OF True] by (elim exE conjE) (metis append_Cons append_assoc)
  next
    case False
    then obtain env cmd where h: "h = Commanded env cmd True" and a: "command_says (life hs) cmd (child, request, d, client)"
      using new_answer[of "(child, request, d, client)" hs h] snoc.prems by (auto simp: given_def)
    have "hs @ [h] = hs @ Commanded env cmd True # []" by (simp add: h)
    with a show ?thesis unfolding command_says_def by blast
  qed
qed

definition demo_env :: approvals_env where
  "demo_env = \<lparr>ce_launcherOf = (\<lambda>c. if c = ''kid'' then Some ''main'' else None), ce_humanSessions = (\<lambda>_. [''main'']),
     ce_title = (\<lambda>s. s), ce_mask = (\<lambda>_ t. t), ce_queued = (\<lambda>_ _. False), ce_requestId = (\<lambda>n. replicate (Suc n) CHR ''r''),
     ce_queueId = (\<lambda>n. replicate (Suc n) CHR ''q'')\<rparr>"

definition demo_request :: request_event where
  "demo_request = \<lparr>rq_sessionId = ''kid'', rq_requestId = ''ask'', rq_async = False, rq_isApproval = True, rq_tool = Some ''bash'',
     rq_planReview = False, rq_questions = None, rq_options = None, rq_title = ''run'', rq_detail = ''ls''\<rparr>"

definition demo_answer :: resolve_command where
  "demo_answer = \<lparr>rc_sessionId = ''main'', rc_requestId = ''r'', rc_decision = Answer None ''Allow all (1)'', rc_clientId = Some ''tty''\<rparr>"

definition demo_life :: "happening list" where
  "demo_life = [Requested demo_env demo_request, Flushed demo_env ''main'', Commanded demo_env demo_answer True]"

lemma answers_come_from_the_user_witness:
  "SAnswer ''kid'' ''ask'' ApproveOnce (Some ''tty'') \<in> set (cp_log (life demo_life)) \<and>
   (\<exists>before env cmd later as t. demo_life = before @ Commanded env cmd True # later \<and> rc_decision cmd = Answer as t)"
proof -
  have "SAnswer ''kid'' ''ask'' ApproveOnce (Some ''tty'') \<in> set (cp_log (life demo_life))" by code_simp
  with answers_come_from_the_user[OF this] show ?thesis by blast
qed

section \<open>What a card lists\<close>

text \<open>The requests of a launcher that wait and are not being answered.\<close>

definition to_list :: "string \<Rightarrow> approvals \<Rightarrow> string list" where
  "to_list launcher s = map cw_requestId (filter (\<lambda>w. cw_approval w \<and> cw_requestId w \<notin> set (cp_answering s)) (forLauncher launcher s))"

text \<open>What that depends on; no step of a flush before its card touches it.\<close>

definition asks :: "approvals \<Rightarrow> string list \<times> (string \<times> string \<times> bool) list" where
  "asks s = (cp_answering s, map (\<lambda>(_, w). (cw_requestId w, cw_launcher w, cw_approval w)) (cp_waiting s))"

lemma to_list_asks:
  "to_list l s = map fst (filter (\<lambda>(r, l', a). a \<and> r \<notin> set (fst (asks s)) \<and> l' = l) (snd (asks s)))"
  by (simp add: to_list_def asks_def forLauncher_def filter_map comp_def case_prod_unfold conj_ac)

lemma asks_foldl: "(\<And>s x. asks (f s x) = asks s) \<Longrightarrow> asks (foldl f s xs) = asks s"
  by (induction xs arbitrary: s) simp_all

lemma asks_simps [simp]:
  "asks (send e s) = asks s" "asks (cp_timers_update f s) = asks s" "asks (cp_notices_update g s) = asks s"
  "asks (cp_announced_update h s) = asks s" "asks (cp_queues_update k s) = asks s"
  by (simp_all add: asks_def send_def)

lemma asks_updateNotice [simp]: "asks (updateNotice env l ws s) = asks s"
  by (simp add: updateNotice_def Let_def queuedNotice_def tell_def split: option.split)

lemma asks_announce [simp]: "asks (announce env l s) = asks s"
  by (simp add: announce_def split: prod.split)

lemma asks_mark: "(\<And>w. cw_requestId (f w) = cw_requestId w \<and> cw_launcher (f w) = cw_launcher w \<and> cw_approval (f w) = cw_approval w)
   \<Longrightarrow> asks (mark f w s) = asks s"
  by (simp add: asks_def mark_def case_prod_unfold)

lemma asks_mirror_one [simp]: "asks (mirror_one env p s w) = asks s"
proof -
  have "asks (singleCard env w p s) = asks s" for s
    by (simp add: singleCard_def Let_def send_def asks_def)
  then show ?thesis by (simp add: mirror_one_def asks_mark)
qed

lemma card_after_refresh:
  "map_option cc_items (map_of (cp_cards (refresh_card env l (Some p) s)) l) =
     (if to_list l s = [] then None else Some (take MAX_LISTED (to_list l s)))"
proof -
  have gone: "map_of (cp_cards (closeCard l s)) l = None"
    by (simp add: closeCard_def withdraw_def send_def retire_def Let_def delete_conv' split: option.split)
  have now: "map_option cc_items (map_of (cp_cards (groupCard env l p ws s)) l) = Some (map cw_requestId (take MAX_LISTED ws))" for ws s
    by (simp add: groupCard_def send_def Let_def update_conv')
  show ?thesis
    using gone now by (auto simp: refresh_card_def to_list_def Let_def take_map)
qed

text \<open>C37: when the timer of a launcher fires and a terminal of the user is open, the launcher's card lists, in the order they came, the
first twelve approvals of its children that wait and are not being answered: none is missing, none that was decided meanwhile is still on
it, and there is no card when nothing waits.\<close>

theorem the_card_lists_what_waits:
  assumes "\<not> cp_stopped s" and "ce_humanSessions env launcher = place # others" and "place \<noteq> []"
  shows "map_option cc_items (map_of (cp_cards (flush env launcher s)) launcher) =
     (if to_list launcher s = [] then None else Some (take MAX_LISTED (to_list launcher s)))"
proof -
  have place: "truthy (case ce_humanSessions env launcher of [] \<Rightarrow> None | p # _ \<Rightarrow> Some p) = Some place"
    using assms(2,3) by (cases place) simp_all
  have marks: "asks (foldl (\<lambda>s w. mark (\<lambda>v. v\<lparr>cw_announced := True\<rparr>) w s) s ws) = asks s" for s ws
    by (rule asks_foldl, rule asks_mark) simp
  have mirrors: "asks (foldl (mirror_one env place) s ws) = asks s" for s ws
    by (rule asks_foldl) simp
  obtain t where "flush env launcher s = refresh_card env launcher (Some place) t" "asks t = asks s"
    using assms(1) by (simp add: flush_def Let_def place mirrors marks)
  then show ?thesis
    using card_after_refresh by (simp add: to_list_asks)
qed

lemma the_card_lists_what_waits_witness:
  "map_option cc_items (map_of (cp_cards (flush demo_env ''main'' (life [Requested demo_env demo_request]))) ''main'') = Some [''ask'']"
proof -
  let ?s = "life [Requested demo_env demo_request]"
  have "\<not> cp_stopped ?s" "to_list ''main'' ?s = [''ask'']" by code_simp+
  then show ?thesis
    using the_card_lists_what_waits[of ?s demo_env "''main''" "''main''" "[]"] by (simp add: demo_env_def MAX_LISTED_def)
qed

end
