(* ===== verification/Spec2Isabelle.thy ===== *)
theory Spec2Isabelle
  imports ActorProps IdFactory JobScheduler DeltaLengths Framing Sse Shell RuleGate Approval WorkflowProps LoopTraces CompactionContext PruneTurn
    ApprovalSafety
begin

text \<open>
  MendCode is a coding agent: a daemon keeps sessions, terminals and editors are thin clients of it, and engines (model loops) do
  the work. This development models the decisions the program takes between those parts, translated from the sources under
  \<open>src/packages\<close>, and proves what they have to keep. Everything is a plain function or a step relation on an explicit state; every
  definition computes, and the examples of the theorems are computed from the definitions.

  How the parts interact. A client submits messages to the actor of its session; the actor queues them, starts one turn at a time,
  calls the engine and turns the engine's messages into events for the store and the clients. Before a tool call runs, the engine
  asks the permission rules, the grants of the session and the gate. Work of the background is given to the job scheduler, which
  yields to the user. A workflow is a plan of tasks, each a session of its own, driven by a reducer over the record of the run. A
  loop is a message that a session gets again and again, by a timer or by a fire from outside, until its goal is verified.

  \<^bold>\<open>Shared theories.\<close> \<open>Prelude\<close>: the JavaScript idioms of the sources (arrays, strings, maps in insertion order) and the
  lemmas about them. \<open>Result\<close>: code that throws, as a sum. \<open>Json\<close>: parsed JSON values. \<open>PlanPolicy\<close>: a matcher for the regular
  expressions of the sources, and the planning check of a message (\<open>protocol/src/plan-policy.ts\<close>).

  \<^bold>\<open>Session actor\<close> (\<open>kernel/src/session-actor.ts\<close>, \<open>ports.ts\<close>). \<open>ActorTypes\<close> has the state and the environment (callbacks, clock, ids,
  the sink of events), \<open>ActorQueue\<close> and \<open>ActorTurn\<close> the helpers of \<open>createSessionActor\<close>, \<open>ActorCommand\<close> and \<open>ActorEngine\<close> one
  function per command and per engine message, \<open>SessionActor\<close> the mailbox. A handler returns the new state with what was sent out
  appended to a log. \<open>ActorInvariant\<close> reads the log with four monitors (turns, the owner of the engine, items, requests);
  \<open>ActorSafety\<close> shows that every handler keeps them, \<open>ActorHold\<close> when nothing is started, and \<open>ActorProps\<close> states it for every
  sequence of messages.

  \<^bold>\<open>Ids and jobs.\<close> \<open>IdFactory\<close> (\<open>protocol/src/id-factory.ts\<close>): ids are unique and sorted, with the locale \<open>id_source\<close> as the contract
  their users rely on. \<open>JobScheduler\<close> (\<open>kernel/src/job-scheduler.ts\<close>): life cycle of a job, priorities, the slots of a resource mode.

  \<^bold>\<open>Permissions.\<close> \<open>Shell\<close> (\<open>engine-native/src/shell-script.ts\<close>) takes a command line apart and finds the commands hidden in it;
  \<open>Permissions\<close> (\<open>permission-rules.ts\<close>) has the rules and their order; \<open>Grants\<close> (\<open>grants.ts\<close>) the approvals of a session; \<open>RuleGate\<close>
  the decision of \<open>ruleGate\<close> in \<open>engine.ts\<close>, which composes the three; \<open>Approval\<close> (\<open>protocol/src/approval-rule.ts\<close>) the rule an
  approval may save. \<open>ChildApprovals\<close> (\<open>daemon/src/child-approvals.ts\<close>) shows the requests of sessions that a session started on cards of
  the user, one function per handler, what is sent appended to a log; \<open>ApprovalSafety\<close> follows its whole life (\<open>life\<close>): only the user
  answers, and a card lists what waits.

  \<^bold>\<open>Context of a model\<close> (\<open>engine-native/src\<close>). \<open>Compaction\<close> (\<open>compaction-policy.ts\<close>, \<open>history.ts\<close>): when a conversation is packed, where it is
  cut, which outputs of tools are pruned. \<open>PruneTurn\<close> (\<open>callModel\<close> in \<open>engine.ts\<close>): how the requests of one turn repeat that choice. \<open>CompactionContext\<close> (\<open>compaction-context.ts\<close>): what goes back into it. The weight of a message, the length
  of its JSON text, is an argument.

  \<^bold>\<open>Wire formats.\<close> \<open>DeltaLengths\<close> (\<open>store/src/delta-lengths.ts\<close>), \<open>Framing\<close> (\<open>lsp/src/framing.ts\<close>) and \<open>Sse\<close> (\<open>mcp/src/sse.ts\<close>):
  what is written reads back, and a stream may be cut anywhere.

  \<^bold>\<open>Workflows\<close> (\<open>workflows/src\<close>). \<open>WfTypes\<close>: plans, tasks and runs (\<open>protocol/src/workflows.ts\<close>). \<open>Composition\<close> (\<open>composition.ts\<close>):
  phases, selectors, map tasks. \<open>WorkflowRun\<close> and \<open>WorkflowControl\<close> (\<open>run.ts\<close>): the reducer. \<open>PlanChecks\<close> and \<open>PlanShape\<close> (\<open>plan.ts\<close>,
  \<open>composition.ts\<close>): what a plan is refused for. \<open>Routing\<close> (\<open>routing.ts\<close>, \<open>engine-native/src/workflow-policy.ts\<close>): what a task may do.
  \<open>WorkflowSteps\<close> makes the reducer a step relation and states, as the locale \<open>run_invariant\<close>, what an invariant has to survive;
  \<open>WorkflowOrder\<close> and \<open>WorkflowLimits\<close> interpret it, \<open>WorkflowProps\<close> draws the conclusions.

  \<^bold>\<open>Loops\<close> (\<open>loops/src\<close>). \<open>LoopTypes\<close> and \<open>LoopSchema\<close>: the record of a loop and its schema (\<open>protocol/src/loops.ts\<close>). \<open>LoopSchedule\<close>
  (\<open>schedule.ts\<close>): when a loop wakes. \<open>LoopRuns\<close> (\<open>runs.ts\<close>, \<open>marked-block.ts\<close>): how a run begins and ends. \<open>LoopReview\<close> (\<open>budget.ts\<close>,
  \<open>review.ts\<close>), \<open>LoopRubric\<close> (\<open>rubric.ts\<close>, \<open>experiments.ts\<close>), \<open>LoopAudit\<close> (\<open>audit.ts\<close>) and \<open>Checks\<close> (\<open>checks.ts\<close>): what a claim of
  completion has to pass. \<open>LoopInputs\<close> (\<open>templates.ts\<close>, \<open>inputs.ts\<close>): what a loop is made from. \<open>LoopService\<close>, \<open>LoopEvents\<close> and
  \<open>LoopCommands\<close> (\<open>service.ts\<close>): the service that owns all loops; its handlers are cut at each \<open>await\<close>, and what is awaited is a task of
  the state. \<open>LoopSteps\<close> lets commands, events, timers and answers happen in any order (\<open>lstep\<close>, \<open>service_run\<close>) and has the contract of
  an invariant (\<open>service_invariant\<close>); \<open>LoopWakes\<close> proves that no wakeup is lost, \<open>LoopSingle\<close> and \<open>LoopAlone\<close> that a loop never has two
  runs at once, \<open>LoopTraces\<close> plays runs in which events come in an order the code does not expect.

  \<^bold>\<open>Bounds, fuel, termination.\<close> Loops of the code that walk a list are structural recursion; those that repeat until nothing changes
  (skips, dependents, blocks of bytes, lines of a stream, the segments of a command) have a termination proof. The search for nested
  shells stops at depth 8 as in the code (\<open>MAX_SHELL_DEPTH\<close>). The searches through a plan carry fuel, the number of tasks;
  \<open>findCycle_iff\<close> and \<open>dependsOn_iff\<close> show that it is enough. Integers of the sources are below 2^53 and are unbounded here; bytes
  and varints are numbers with their bounds written out. Prices and scores are rationals where the code has doubles.

  \<^bold>\<open>Parameters.\<close> What is not code of the repository is an argument: \<open>JSON.parse\<close>, the clock, the calendar of the platform, the text of a
  number, hashes, random bytes, the process that runs a check, the sink of events. \<open>redactSecrets\<close>, which loops use on what they show of
  a request, is an argument as well. A string is a list of characters up to code 255, and letters of other alphabets have no upper case.
  File paths are those of POSIX systems.

  \<^bold>\<open>Not modelled.\<close> Model providers and the turn loop of the engine (network calls around a model); the daemon, the store's SQL, git and
  the file system (calls of other programs and libraries); rendering and input of the terminal client; extensions, migration and
  packaging; the validation of requests by zod, except for loops. In modelled files: prompts and notices (texts for a model and texts on cards), exceptions
  thrown by callbacks, the promise that answers a tick of loops, the paths of \<open>externalPatterns\<close>, \<open>validatePlan\<close>, and the sessions
  of the loop verifier, whose outcome is an argument.
\<close>

end
